(* ===== verification/Prelude.thy ===== *)
theory Prelude
  imports Complex_Main "HOL-Library.Sublist" "HOL-Library.AList"
begin

text \<open>
  Shared vocabulary of the development: Python values, exceptions as values, dictionaries as
  association lists in insertion order, decimal rounding, ASCII lower-casing, and the two
  contracts (\<open>py_guard\<close>, \<open>finops_guard\<close>) that the validators of the program meet.

  Numbers. Python's unbounded ints are \<open>int\<close>, counters are \<open>nat\<close>. Python floats are
  modelled as exact rationals (\<open>rat\<close>): literals are the decimal written in the source,
  arithmetic is exact, and \<open>round(x, n)\<close> is decimal rounding with ties to even. Binary
  rounding error, infinities and NaN are outside the model.
\<close>

named_theorems py_simps \<open>unfolding rules of the error monad and of Python truthiness\<close>

type_synonym pyfloat = rat

section \<open>Exceptions as values\<close>

text \<open>
  \<open>Raised e\<close> is an exception class of the program itself, with one constructor of \<open>'e\<close>
  for each raise site; the others are built-in exceptions that escape from an expression.
\<close>

datatype 'e pyexc =
    Raised 'e
  | ValueError
  | ZeroDivisionError
  | KeyError
  | TypeError
  | AttributeError
  | IndexError

definition py_bind :: "'e + 'a \<Rightarrow> ('a \<Rightarrow> 'e + 'b) \<Rightarrow> 'e + 'b" where
  "py_bind m f = (case m of Inl e \<Rightarrow> Inl e | Inr x \<Rightarrow> f x)"

definition raise_if :: "bool \<Rightarrow> 'e \<Rightarrow> 'e + unit" where
  "raise_if c e = (if c then Inl e else Inr ())"

lemma py_bind_Inl [simp]: "py_bind (Inl e) f = Inl e"
  by (simp add: py_bind_def)

lemma py_bind_Inr [simp]: "py_bind (Inr x) f = f x"
  by (simp add: py_bind_def)

lemma py_bind_eq_Inr [py_simps]:
  "py_bind m f = Inr y \<longleftrightarrow> (\<exists>x. m = Inr x \<and> f x = Inr y)"
  by (cases m) auto

lemma py_bind_eq_Inl [py_simps]:
  "py_bind m f = Inl e \<longleftrightarrow> m = Inl e \<or> (\<exists>x. m = Inr x \<and> f x = Inl e)"
  by (cases m) auto

lemma py_bind_raise_if [simp]:
  "py_bind (raise_if c e) f = (if c then Inl e else f ())"
  by (simp add: raise_if_def)

lemma py_bind_assoc: "py_bind (py_bind m f) g = py_bind m (\<lambda>x. py_bind (f x) g)"
  by (cases m) simp_all

lemma raise_if_eq [py_simps]:
  "raise_if c e = Inr u \<longleftrightarrow> \<not> c" "raise_if c e = Inl e' \<longleftrightarrow> c \<and> e' = e"
  by (auto simp: raise_if_def)

text \<open>Running a partial step over a list, stopping at the first exception.\<close>

fun py_map :: "('a \<Rightarrow> 'e + 'b) \<Rightarrow> 'a list \<Rightarrow> 'e + 'b list" where
  "py_map f [] = Inr []"
| "py_map f (x # xs) = py_bind (f x) (\<lambda>y. py_bind (py_map f xs) (\<lambda>ys. Inr (y # ys)))"

lemma py_map_Inr_iff:
  "py_map f xs = Inr ys \<longleftrightarrow> list_all2 (\<lambda>x y. f x = Inr y) xs ys"
  by (induction xs arbitrary: ys) (auto simp: py_simps list_all2_Cons1)

lemma py_map_length: "py_map f xs = Inr ys \<Longrightarrow> length ys = length xs"
  by (auto simp: py_map_Inr_iff dest: list_all2_lengthD)

lemma py_map_mem:
  "py_map f xs = Inr ys \<Longrightarrow> y \<in> set ys \<Longrightarrow> \<exists>x \<in> set xs. f x = Inr y"
  by (auto simp: py_map_Inr_iff list_all2_conv_all_nth set_conv_nth)

section \<open>Truthiness, strings, dictionaries\<close>

text \<open>\<open>not x\<close> for an optional string: absent, \<open>None\<close> and the empty string are falsy.\<close>

definition truthy :: "'a list option \<Rightarrow> bool" where
  "truthy x = (case x of None \<Rightarrow> False | Some s \<Rightarrow> s \<noteq> [])"

lemma truthy_simps [simp, py_simps]:
  "\<not> truthy None" "truthy (Some s) \<longleftrightarrow> s \<noteq> []"
  by (simp_all add: truthy_def)

text \<open>\<open>x or d\<close> for an optional string.\<close>

definition or_default :: "'a list option \<Rightarrow> 'a list \<Rightarrow> 'a list" where
  "or_default x d = (case x of None \<Rightarrow> d | Some s \<Rightarrow> if s = [] then d else s)"

text \<open>\<open>str.lower\<close> on the ASCII letters, the only ones the compared words contain.\<close>

definition lower_char :: "char \<Rightarrow> char" where
  "lower_char c = (let n = (of_char c :: nat) in if 65 \<le> n \<and> n \<le> 90 then char_of (n + 32) else c)"

definition lower :: "string \<Rightarrow> string" where
  "lower s = map lower_char s"

lemma length_lower [simp]: "length (lower s) = length s"
  by (simp add: lower_def)

lemma lower_char_idem [simp]: "lower_char (lower_char c) = lower_char c"
  by (simp add: lower_char_def Let_def)

lemma lower_idem [simp]: "lower (lower s) = lower s"
  by (simp add: lower_def)

text \<open>\<open>w in s\<close> on strings.\<close>

definition contains :: "string \<Rightarrow> string \<Rightarrow> bool" where
  "contains w s = sublist w s"

lemma contains_code [code]: "contains w s = sublist w s"
  by (simp add: contains_def)

text \<open>\<open>str.strip()\<close>: white space at both ends is removed; for Python the separators 28 to 31 are white space.\<close>

definition is_space :: "char \<Rightarrow> bool" where
  "is_space c = (let n = (of_char c :: nat) in n = 32 \<or> (9 \<le> n \<and> n \<le> 13) \<or> (28 \<le> n \<and> n \<le> 31))"

definition strip :: "string \<Rightarrow> string" where
  "strip s = rev (dropWhile is_space (rev (dropWhile is_space s)))"

lemma strip_id: "s = [] \<or> \<not> is_space (hd s) \<and> \<not> is_space (last s) \<Longrightarrow> strip s = s"
proof -
  have keep: "dropWhile is_space xs = xs" if "xs = [] \<or> \<not> is_space (hd xs)" for xs
    using that by (cases xs) auto
  assume "s = [] \<or> \<not> is_space (hd s) \<and> \<not> is_space (last s)"
  then show ?thesis by (auto simp: strip_def keep hd_rev)
qed

definition is_digit :: "char \<Rightarrow> bool" where
  "is_digit c = (let n = (of_char c :: nat) in 48 \<le> n \<and> n \<le> 57)"

definition is_alpha :: "char \<Rightarrow> bool" where
  "is_alpha c = (let n = (of_char c :: nat) in (65 \<le> n \<and> n \<le> 90) \<or> (97 \<le> n \<and> n \<le> 122))"

text \<open>\<open>s.split(c)\<close> for a separator of one character, and \<open>c.join(parts)\<close>.\<close>

fun split_on :: "char \<Rightarrow> string \<Rightarrow> string list" where
  "split_on c [] = [[]]"
| "split_on c (d # s) =
     (if d = c then [] # split_on c s
      else (case split_on c s of [] \<Rightarrow> [[d]] | w # ws \<Rightarrow> (d # w) # ws))"

fun join_with :: "string \<Rightarrow> string list \<Rightarrow> string" where
  "join_with sep [] = []"
| "join_with sep [w] = w"
| "join_with sep (v # w # ws) = v @ sep @ join_with sep (w # ws)"

lemma split_on_nonempty [simp]: "split_on c s \<noteq> []"
  by (induction s) (auto split: list.splits)

lemma split_on_word: "c \<notin> set w \<Longrightarrow> split_on c w = [w]"
  by (induction w) (auto split: list.splits)

lemma split_on_append: "c \<notin> set w \<Longrightarrow> split_on c (w @ c # s) = w # split_on c s"
  by (induction w) auto

lemma split_join:
  "ws \<noteq> [] \<Longrightarrow> \<forall>w \<in> set ws. c \<notin> set w \<Longrightarrow> split_on c (join_with [c] ws) = ws"
  by (induction ws rule: induct_list012) (auto simp: split_on_word split_on_append)

lemma split_on_parts: "w \<in> set (split_on c s) \<Longrightarrow> c \<notin> set w"
  by (induction s arbitrary: w) (auto split: if_splits list.splits)

lemma join_split: "join_with [c] (split_on c s) = s"
proof (induction s)
  case (Cons d s)
  then show ?case by (cases "split_on c s" rule: remdups_adj.cases) auto
qed simp

text \<open>
  Dictionaries keep insertion order: association lists with \<open>AList.update\<close>, which
  overwrites in place and appends a new key at the end, as \<open>d[k] = v\<close> does.
\<close>

type_synonym ('k, 'v) dict = "('k \<times> 'v) list"

text \<open>\<open>{**d1, **d2}\<close>: the keys of the first, the values of the second where it has one.\<close>

definition dict_merge :: "('k, 'v) dict \<Rightarrow> ('k, 'v) dict \<Rightarrow> ('k, 'v) dict" where
  "dict_merge d1 d2 = fold (\<lambda>(k, v) d. AList.update k v d) d2 d1"

lemma map_of_dict_merge_aux:
  "distinct (map fst d2) \<Longrightarrow>
   map_of (fold (\<lambda>(k, v) d. AList.update k v d) d2 d1) = map_of d1 ++ map_of d2"
proof (induction d2 arbitrary: d1)
  case Nil
  then show ?case by simp
next
  case (Cons kv d2)
  obtain k v where kv: "kv = (k, v)" by fastforce
  from Cons.prems kv have notin: "map_of d2 k = None" by (simp add: map_of_eq_None_iff)
  have "map_of (fold (\<lambda>(k, v) d. AList.update k v d) (kv # d2) d1)
      = map_of (AList.update k v d1) ++ map_of d2"
    using Cons kv by simp
  also have "\<dots> = map_of d1 ++ map_of (kv # d2)"
    using notin by (auto simp: kv update_conv' map_add_def fun_eq_iff split: option.splits)
  finally show ?case .
qed

lemma map_of_dict_merge [simp]:
  "distinct (map fst d2) \<Longrightarrow> map_of (dict_merge d1 d2) = map_of d1 ++ map_of d2"
  by (simp add: dict_merge_def map_of_dict_merge_aux)

section \<open>Decimal rounding\<close>

text \<open>\<open>round(x, n)\<close>: to the nearest multiple of \<open>10 ^ -n\<close>, ties to the even one.\<close>

definition round_half_even :: "rat \<Rightarrow> int" where
  "round_half_even x =
     (let f = \<lfloor>x\<rfloor>; d = x - of_int f
      in if d < 1 / 2 then f else if 1 / 2 < d then f + 1 else if even f then f else f + 1)"

definition py_round :: "nat \<Rightarrow> rat \<Rightarrow> rat" where
  "py_round n x = of_int (round_half_even (x * 10 ^ n)) / 10 ^ n"

lemma round_half_even_of_int [simp]: "round_half_even (of_int k) = k"
  by (simp add: round_half_even_def Let_def)

lemma round_half_even_error: "\<bar>of_int (round_half_even x) - x\<bar> \<le> 1 / 2"
  using floor_correct [of x] by (auto simp: round_half_even_def Let_def abs_le_iff)

lemma round_half_even_floor_le: "\<lfloor>x\<rfloor> \<le> round_half_even x"
  by (simp add: round_half_even_def Let_def)

lemma round_half_even_le_ceiling: "round_half_even x \<le> \<lfloor>x\<rfloor> + 1"
  by (simp add: round_half_even_def Let_def)

lemma round_half_even_mono: "x \<le> y \<Longrightarrow> round_half_even x \<le> round_half_even y"
proof -
  assume le: "x \<le> y"
  show ?thesis
  proof (cases "\<lfloor>x\<rfloor> = \<lfloor>y\<rfloor>")
    case True
    with le show ?thesis by (simp add: round_half_even_def Let_def)
  next
    case False
    with floor_mono [OF le] have "\<lfloor>x\<rfloor> + 1 \<le> \<lfloor>y\<rfloor>" by simp
    then show ?thesis
      using round_half_even_le_ceiling [of x] round_half_even_floor_le [of y] by linarith
  qed
qed

lemma py_round_mono: "x \<le> y \<Longrightarrow> py_round n x \<le> py_round n y"
  by (simp add: py_round_def divide_right_mono round_half_even_mono)

lemma py_round_of_int [simp]: "py_round n (of_int k) = of_int k"
proof -
  have "of_int k * 10 ^ n = (of_int (k * 10 ^ n) :: rat)" by simp
  then show ?thesis unfolding py_round_def by (simp only: round_half_even_of_int) simp
qed

lemma py_round_0 [simp]: "py_round n 0 = 0"
  using py_round_of_int [of n 0] by simp

lemma py_round_1 [simp]: "py_round n 1 = 1"
  using py_round_of_int [of n 1] by simp

lemma py_round_nonneg: "0 \<le> x \<Longrightarrow> 0 \<le> py_round n x"
  using py_round_mono [of 0 x n] by simp

lemma py_round_le_1: "x \<le> 1 \<Longrightarrow> py_round n x \<le> 1"
  using py_round_mono [of x 1 n] by simp

lemma py_round_error: "\<bar>py_round n x - x\<bar> \<le> 1 / (2 * 10 ^ n)"
proof -
  have "py_round n x - x = (of_int (round_half_even (x * 10 ^ n)) - x * 10 ^ n) / 10 ^ n"
    by (simp add: py_round_def field_simps)
  then have "\<bar>py_round n x - x\<bar> = \<bar>of_int (round_half_even (x * 10 ^ n)) - x * 10 ^ n\<bar> / 10 ^ n"
    by (simp add: abs_divide)
  also have "\<dots> \<le> (1 / 2) / 10 ^ n"
    by (rule divide_right_mono [OF round_half_even_error]) simp
  finally show ?thesis by simp
qed

section \<open>Number formatting\<close>

text \<open>
  The decimal digits of a number, and \<open>f"{x:.nf}"\<close>: rounded to \<open>n\<close> decimals, ties to
  even, with the sign of \<open>x\<close>.
\<close>

definition digit_char :: "nat \<Rightarrow> char" where
  "digit_char d = char_of (48 + d)"

fun show_nat :: "nat \<Rightarrow> string" where
  "show_nat n = (if n < 10 then [digit_char n] else show_nat (n div 10) @ [digit_char (n mod 10)])"

declare show_nat.simps [simp del]

lemma show_nat_nonempty [simp]: "show_nat n \<noteq> []"
  by (subst show_nat.simps) simp

definition show_int :: "int \<Rightarrow> string" where
  "show_int i = (if i < 0 then ''-'' @ show_nat (nat (- i)) else show_nat (nat i))"

text \<open>The last \<open>n\<close> digits of \<open>k\<close>, with leading zeros.\<close>

fun show_frac :: "nat \<Rightarrow> nat \<Rightarrow> string" where
  "show_frac 0 k = []"
| "show_frac (Suc n) k = show_frac n (k div 10) @ [digit_char (k mod 10)]"

lemma length_show_frac [simp]: "length (show_frac n k) = n"
  by (induction n arbitrary: k) simp_all

definition fmt_fixed :: "nat \<Rightarrow> rat \<Rightarrow> string" where
  "fmt_fixed n x =
     (let k = nat \<bar>round_half_even (x * 10 ^ n)\<bar>
      in (if x < 0 then ''-'' else []) @ show_nat (k div 10 ^ n) @
         (if n = 0 then [] else ''.'' @ show_frac n (k mod 10 ^ n)))"

section \<open>JSON and YAML documents\<close>

text \<open>
  What \<open>json.loads\<close> and \<open>yaml.safe_load\<close> return, up to dates: a mapping keeps its
  order, and its keys are strings in every document the program reads.
\<close>

datatype json =
    JNull
  | JBool bool
  | JInt int
  | JFloat rat
  | JStr string
  | JList "json list"
  | JObj "(string \<times> json) list"

text \<open>\<open>bool(v)\<close>.\<close>

fun json_truthy :: "json \<Rightarrow> bool" where
  "json_truthy JNull = False"
| "json_truthy (JBool b) = b"
| "json_truthy (JInt n) = (n \<noteq> 0)"
| "json_truthy (JFloat x) = (x \<noteq> 0)"
| "json_truthy (JStr s) = (s \<noteq> [])"
| "json_truthy (JList xs) = (xs \<noteq> [])"
| "json_truthy (JObj d) = (d \<noteq> [])"

definition dict_get :: "(string, 'v) dict \<Rightarrow> string \<Rightarrow> 'v \<Rightarrow> 'v" where
  "dict_get d k dflt = (case map_of d k of None \<Rightarrow> dflt | Some v \<Rightarrow> v)"

lemma dict_get_simps [simp]:
  "map_of d k = None \<Longrightarrow> dict_get d k dflt = dflt"
  "map_of d k = Some v \<Longrightarrow> dict_get d k dflt = v"
  by (simp_all add: dict_get_def)

text \<open>\<open>v.get(k, default)\<close>: only a dict has \<open>get\<close>.\<close>

fun json_get :: "string \<Rightarrow> json \<Rightarrow> json \<Rightarrow> 'e pyexc + json" where
  "json_get k dflt (JObj d) = Inr (dict_get d k dflt)"
| "json_get k dflt _ = Inl AttributeError"

text \<open>\<open>isinstance(v, (int, float))\<close> without the booleans, and the number it is.\<close>

fun json_num :: "json \<Rightarrow> rat option" where
  "json_num (JInt n) = Some (of_int n)"
| "json_num (JFloat x) = Some x"
| "json_num _ = None"

text \<open>What an ordered comparison with a number makes of a value: \<open>True\<close> counts as 1.\<close>

fun json_cmp :: "json \<Rightarrow> 'e pyexc + rat" where
  "json_cmp (JInt n) = Inr (of_int n)"
| "json_cmp (JFloat x) = Inr x"
| "json_cmp (JBool b) = Inr (if b then 1 else 0)"
| "json_cmp _ = Inl TypeError"

lemma json_cmp_num: "json_num v = Some x \<Longrightarrow> json_cmp v = Inr x"
  by (cases v) auto

section \<open>Contracts of validators\<close>

text \<open>
  A validator takes its argument and either returns a value or raises. The contract names
  the accepted inputs (\<open>ok\<close>) and the value returned on them (\<open>res\<close>).
\<close>

locale py_guard =
  fixes run :: "'a \<Rightarrow> 'e pyexc + 'b"
    and ok :: "'a \<Rightarrow> bool"
    and res :: "'a \<Rightarrow> 'b"
  assumes run_ok: "ok x \<Longrightarrow> run x = Inr (res x)"
    and run_bad: "\<not> ok x \<Longrightarrow> \<exists>e. run x = Inl e"
begin

lemma accepts_iff: "run x = Inr y \<longleftrightarrow> ok x \<and> y = res x"
  using run_ok [of x] run_bad [of x] by (cases "ok x") auto

lemma rejects_iff: "(\<exists>e. run x = Inl e) \<longleftrightarrow> \<not> ok x"
  using run_ok [of x] run_bad [of x] by (cases "ok x") auto

lemma accepted_list: "py_map run xs = Inr ys \<longleftrightarrow> list_all ok xs \<and> ys = map res xs"
proof -
  have "list_all2 (\<lambda>x y. run x = Inr y) xs ys \<longleftrightarrow> list_all ok xs \<and> ys = map res xs"
    by (induction xs arbitrary: ys) (auto simp: accepts_iff list_all2_Cons1)
  then show ?thesis by (simp add: py_map_Inr_iff)
qed

end

text \<open>
  A caller that catches the program's own exception class only (\<open>except
  FinOpsInvariantError\<close>) needs the stronger contract: nothing else escapes.
\<close>

definition catches :: "'e pyexc + 'b \<Rightarrow> 'e pyexc + 'e option" where
  "catches r = (case r of Inr _ \<Rightarrow> Inr None | Inl (Raised e) \<Rightarrow> Inr (Some e) | Inl x \<Rightarrow> Inl x)"

locale finops_guard = py_guard run ok res
  for run :: "'a \<Rightarrow> 'e pyexc + 'b" and ok :: "'a \<Rightarrow> bool" and res :: "'a \<Rightarrow> 'b" +
  assumes raises_own: "run x = Inl e \<Longrightarrow> \<exists>f. e = Raised f"
begin

lemma catch_total: "\<exists>v. catches (run x) = Inr v \<and> (v = None \<longleftrightarrow> ok x)"
proof (cases "run x")
  case (Inl e)
  with raises_own obtain f where f: "run x = Inl (Raised f)" by blast
  then have "\<not> ok x" using run_ok by force
  with f show ?thesis by (simp add: catches_def)
next
  case (Inr y)
  then show ?thesis using run_bad by (force simp: catches_def)
qed

end

end
