(* ===== verification/FinopsBase.thy ===== *)
theory FinopsBase
  imports Prelude
begin

text \<open>
  \<open>src/core/finops_invariants/\<close>: the shared constants and exception
  (\<open>_shared.py\<close>), the arithmetic invariants (\<open>arithmetic.py\<close>), the savings caps and the
  deduplicated total (\<open>savings.py\<close>) and the forecasts (\<open>forecast.py\<close>).
\<close>

section \<open>Constants and the exception class\<close>

definition MONTHS_PER_YEAR :: rat where
  "MONTHS_PER_YEAR = 12"

definition HOURS_PER_MONTH :: rat where
  "HOURS_PER_MONTH = 730"

definition DESTRUCTIVE_ACTIONS :: "string list" where
  "DESTRUCTIVE_ACTIONS =
     [''delete'', ''terminate'', ''release'', ''drop'', ''purge'', ''remove'', ''destroy'',
      ''terminate_instance'', ''delete_volume'', ''delete_snapshot'', ''delete_nat_gateway'',
      ''delete_load_balancer'', ''delete_vpc'', ''release_ip'']"

definition SERVICE_INTERRUPTING_ACTIONS :: "string list" where
  "SERVICE_INTERRUPTING_ACTIONS = [''stop'', ''stop_instance'']"

text \<open>
  \<open>FinOpsInvariantError\<close>, one constructor for each \<open>raise\<close>, carrying the values that the
  message prints.
\<close>

datatype finops_error =
    SpendNotPositive rat
  | WasteNegative rat
  | WasteExceedsSpend rat rat
  | BudgetNotPositive rat
  | SpendNegative rat
  | ForecastBelowSpend rat rat
  | ServiceSumExceeds rat rat
  | ServiceGap rat rat
  | SavingNegative rat
  | SavingExceedsCost rat rat
  | PotentialExceedsDetected rat rat
  | RealizedWithoutAction rat
  | DaysNotPositive
  | DaysElapsedExceedMonth
  | RiskBelowFloor string string
  | ObservationTooShort rat int
  | BatchWithoutSchedule string
  | UnderutilizedDatabaseDelete string
  | EbsDeleteUnprotected
  | NatDeleteUnvalidated
  | SavingExceedsStorage rat rat
  | SavingReachesTotal rat rat
  | EksWithoutNodegroup
  | EksMissingMetrics "string list"
  | ApprovalMissing string
  | AutoWithoutOwner
  | AutoWithoutRollback
  | ExecutedWithoutAuditLog
  | RealizedStatusNotExecuted rat string
  | SavingOnClosedStatus string rat
  | ApproverMissing
  | ExecutedWithoutTimestamp
  | SlackWithoutTrace
  | TerraformWithoutUrl
  | ExpectedNotPositive string
  | CostDeviates string rat rat
  | UnknownPricingKey string
  | MissingPricingMetadata "string list"
  | ResizeMismatch rat rat
  | RatioOutOfRange
  | DeleteNotSafe
  | DeleteMismatch rat rat
  | ClaimAboveEvidence rat rat
  | ForbiddenWording "string list" string
  | CertaintyWithoutAction string
  | NoMonthlyBasis
  | AnnualMismatch rat rat
  | UpToExceedsMax rat rat
  | LowRiskExceedsSum rat rat
  | HeadlineWithoutAction string
  | MissingAssumptions
  | ToleranceReferenceZero
  | ToleranceExceeded rat rat
  | ResourcesNotInAws "string list"
  | WriteDuringAudit "string list"
  | MissingTraceFields "string list"

type_synonym 'a fin = "finops_error pyexc + 'a"

section \<open>Arithmetic invariants\<close>

definition annualize :: "rat \<Rightarrow> rat" where
  "annualize monthly = monthly * MONTHS_PER_YEAR"

definition waste_percentage :: "rat \<Rightarrow> rat \<Rightarrow> rat fin" where
  "waste_percentage waste_monthly spend_monthly =
     (if spend_monthly \<le> 0 then Inl (Raised (SpendNotPositive spend_monthly))
      else if waste_monthly < 0 then Inl (Raised (WasteNegative waste_monthly))
      else if waste_monthly > spend_monthly
        then Inl (Raised (WasteExceedsSpend waste_monthly spend_monthly))
      else Inr (waste_monthly / spend_monthly * 100))"

definition budget_used_percentage :: "rat \<Rightarrow> rat \<Rightarrow> rat fin" where
  "budget_used_percentage spent budget =
     (if budget \<le> 0 then Inl (Raised (BudgetNotPositive budget))
      else if spent < 0 then Inl (Raised (SpendNegative spent))
      else Inr (spent / budget * 100))"

definition validate_forecast :: "rat \<Rightarrow> rat \<Rightarrow> rat fin" where
  "validate_forecast forecast_end_of_month current_spend_mtd =
     (if forecast_end_of_month < current_spend_mtd
      then Inl (Raised (ForecastBelowSpend forecast_end_of_month current_spend_mtd))
      else Inr forecast_end_of_month)"

text \<open>
  The message of the second error divides the gap by the total: with a zero total it is
  \<open>ZeroDivisionError\<close> that escapes.
\<close>

definition validate_service_breakdown ::
    "(string, rat) dict \<Rightarrow> rat \<Rightarrow> rat \<Rightarrow> rat fin" where
  "validate_service_breakdown service_costs total_spend tolerance =
     (let breakdown_sum = sum_list (map snd service_costs);
          gap = total_spend - breakdown_sum
      in if gap < - \<bar>total_spend\<bar> * tolerance
           then Inl (Raised (ServiceSumExceeds breakdown_sum total_spend))
         else if gap > \<bar>total_spend\<bar> * tolerance
           then (if total_spend = 0 then Inl ZeroDivisionError
                 else Inl (Raised (ServiceGap gap (gap / total_spend * 100))))
         else Inr (max gap 0))"

definition breakdown_tolerance :: rat where
  "breakdown_tolerance = 5 / 1000"

section \<open>Savings\<close>

text \<open>
  A recommendation as a Python dict: a missing key is \<open>None\<close>.
\<close>

record fin_rec =
  fr_resource_id :: "string option"
  fr_potential_saving :: "rat option"
  fr_saving :: "rat option"
  fr_monthly_cost :: "rat option"
  fr_action :: "string option"
  fr_environment :: "string option"
  fr_risk :: "string option"
  fr_owner :: "string option"

definition validate_recommendation_saving :: "rat \<Rightarrow> rat \<Rightarrow> rat fin" where
  "validate_recommendation_saving saving_monthly resource_monthly_cost =
     (if saving_monthly < 0 then Inl (Raised (SavingNegative saving_monthly))
      else if saving_monthly > resource_monthly_cost
        then Inl (Raised (SavingExceedsCost saving_monthly resource_monthly_cost))
      else Inr saving_monthly)"

definition validate_potential_vs_detected :: "rat \<Rightarrow> rat \<Rightarrow> rat fin" where
  "validate_potential_vs_detected potential_savings_monthly detected_waste_monthly =
     (if potential_savings_monthly > detected_waste_monthly
      then Inl (Raised (PotentialExceedsDetected potential_savings_monthly detected_waste_monthly))
      else Inr potential_savings_monthly)"

text \<open>\<open>rec.get("potential_saving", rec.get("saving", 0.0))\<close>.\<close>

definition rec_saving :: "fin_rec \<Rightarrow> rat" where
  "rec_saving r =
     (case fr_potential_saving r of Some s \<Rightarrow> s
      | None \<Rightarrow> (case fr_saving r of Some s \<Rightarrow> s | None \<Rightarrow> 0))"

text \<open>The loop of \<open>deduplicated_total_savings\<close>; \<open>rec["resource_id"]\<close> may raise.\<close>

fun best_per_resource :: "fin_rec list \<Rightarrow> (string, rat) dict \<Rightarrow> (string, rat) dict fin" where
  "best_per_resource [] best = Inr best"
| "best_per_resource (r # rs) best =
     (case fr_resource_id r of
        None \<Rightarrow> Inl KeyError
      | Some rid \<Rightarrow>
          best_per_resource rs
            (AList.update rid
               (max (case map_of best rid of None \<Rightarrow> 0 | Some s \<Rightarrow> s) (rec_saving r)) best))"

definition deduplicated_total_savings :: "fin_rec list \<Rightarrow> rat fin" where
  "deduplicated_total_savings recommendations =
     py_bind (best_per_resource recommendations []) (\<lambda>best. Inr (sum_list (map snd best)))"

definition validate_realized_savings :: "rat \<Rightarrow> nat \<Rightarrow> rat fin" where
  "validate_realized_savings realized_monthly completed_actions =
     (if realized_monthly > 0 \<and> completed_actions = 0
      then Inl (Raised (RealizedWithoutAction realized_monthly))
      else Inr realized_monthly)"

section \<open>Forecasts\<close>

definition linear_forecast :: "rat \<Rightarrow> rat \<Rightarrow> rat \<Rightarrow> rat fin" where
  "linear_forecast current_spend days_elapsed days_in_month =
     (if days_elapsed \<le> 0 \<or> days_in_month \<le> 0 then Inl (Raised DaysNotPositive)
      else if days_elapsed > days_in_month then Inl (Raised DaysElapsedExceedMonth)
      else Inr (current_spend / days_elapsed * days_in_month))"

definition forecast_after_remediation :: "rat \<Rightarrow> rat \<Rightarrow> rat \<Rightarrow> rat fin" where
  "forecast_after_remediation forecast validated_low_risk_savings current_spend_mtd =
     validate_forecast (forecast - validated_low_risk_savings) current_spend_mtd"

definition flags_budget_overrun :: "rat \<Rightarrow> rat \<Rightarrow> bool" where
  "flags_budget_overrun forecast budget \<longleftrightarrow> forecast > budget"

section \<open>The contracts\<close>

interpretation waste_guard: finops_guard
  "\<lambda>(w, s). waste_percentage w s" "\<lambda>(w, s). 0 < s \<and> 0 \<le> w \<and> w \<le> s" "\<lambda>(w, s). w / s * 100"
  by unfold_locales (auto simp: waste_percentage_def split: if_splits)

interpretation budget_guard: finops_guard
  "\<lambda>(s, b). budget_used_percentage s b" "\<lambda>(s, b). 0 < b \<and> 0 \<le> s" "\<lambda>(s, b). s / b * 100"
  by unfold_locales (auto simp: budget_used_percentage_def split: if_splits)

interpretation forecast_guard: finops_guard
  "\<lambda>(f, c). validate_forecast f c" "\<lambda>(f, c). c \<le> f" fst
  by unfold_locales (auto simp: validate_forecast_def split: if_splits)

interpretation saving_guard: finops_guard
  "\<lambda>(s, c). validate_recommendation_saving s c" "\<lambda>(s, c). 0 \<le> s \<and> s \<le> c" fst
  by unfold_locales (auto simp: validate_recommendation_saving_def split: if_splits)

interpretation potential_guard: finops_guard
  "\<lambda>(p, d). validate_potential_vs_detected p d" "\<lambda>(p, d). p \<le> d" fst
  by unfold_locales (auto simp: validate_potential_vs_detected_def split: if_splits)

interpretation realized_guard: finops_guard
  "\<lambda>(r, n). validate_realized_savings r n" "\<lambda>(r, n). 0 < r \<longrightarrow> 0 < n" fst
  by unfold_locales (auto simp: validate_realized_savings_def split: if_splits)

text \<open>The service breakdown meets the weaker contract only: it may divide by zero.\<close>

interpretation breakdown_guard: py_guard
  "\<lambda>(cs, t, tol). validate_service_breakdown cs t tol"
  "\<lambda>(cs, t, tol). - \<bar>t\<bar> * tol \<le> t - sum_list (map snd cs) \<and> t - sum_list (map snd cs) \<le> \<bar>t\<bar> * tol"
  "\<lambda>(cs, t, tol). max (t - sum_list (map snd cs)) 0"
  by unfold_locales (auto simp: validate_service_breakdown_def Let_def split: if_splits)

lemma waste_percentage_range:
  assumes "waste_percentage w s = Inr p"
  shows "0 \<le> p \<and> p \<le> 100"
proof -
  have "0 < s" "0 \<le> w" "w \<le> s" "p = w / s * 100"
    using waste_guard.accepts_iff [of "(w, s)" p] assms by auto
  then show ?thesis by (simp add: divide_le_eq)
qed

lemma linear_forecast_ge_spend:
  assumes "linear_forecast c d m = Inr f" "0 \<le> c"
  shows "c \<le> f"
proof -
  from assms(1) have d: "0 < d" "d \<le> m" and f: "f = c / d * m"
    by (auto simp: linear_forecast_def split: if_splits)
  have "c * d \<le> c * m" using assms(2) d by (simp add: mult_left_mono)
  with d f show ?thesis by (simp add: le_divide_eq)
qed

section \<open>The deduplicated total\<close>

text \<open>
  What the loop promises: each resource counts once, with the best of its savings and zero.
\<close>

definition rec_savings_of :: "fin_rec list \<Rightarrow> string \<Rightarrow> rat set" where
  "rec_savings_of rs rid = insert 0 (rec_saving ` {r \<in> set rs. fr_resource_id r = Some rid})"

definition rec_ids :: "fin_rec list \<Rightarrow> string set" where
  "rec_ids rs = {rid. \<exists>r \<in> set rs. fr_resource_id r = Some rid}"

definition dedup_spec :: "fin_rec list \<Rightarrow> rat" where
  "dedup_spec rs = (\<Sum>rid \<in> rec_ids rs. Max (rec_savings_of rs rid))"

lemma finite_rec_savings_of [simp]: "finite (rec_savings_of rs rid)"
  by (simp add: rec_savings_of_def)

lemma rec_savings_of_nonempty [simp]: "rec_savings_of rs rid \<noteq> {}"
  by (simp add: rec_savings_of_def)

lemma finite_rec_ids [simp]: "finite (rec_ids rs)"
proof -
  have "rec_ids rs \<subseteq> the ` fr_resource_id ` set rs" by (force simp: rec_ids_def)
  then show ?thesis by (rule finite_subset) simp
qed

lemma sum_list_dict:
  "distinct (map fst d) \<Longrightarrow> sum_list (map snd d) = (\<Sum>k \<in> fst ` set d. the (map_of d k))"
proof (induction d)
  case Nil
  then show ?case by simp
next
  case (Cons kv d)
  have "(\<Sum>k \<in> fst ` set d. the (map_of (kv # d) k)) = (\<Sum>k \<in> fst ` set d. the (map_of d k))"
    using Cons.prems by (intro sum.cong) (auto simp: image_iff)
  with Cons show ?case by simp
qed

lemma Max_insert_max:
  fixes a b :: "'a::linorder"
  assumes "finite A"
  shows "Max (insert (max a b) A) = Max (insert a (insert b A))"
proof (cases "A = {}")
  case True
  then show ?thesis by simp
next
  case False
  with assms show ?thesis by (simp add: max.assoc)
qed

text \<open>
  The loop invariant: the dictionary maps each resource seen to the maximum so far.
\<close>

lemma best_per_resource_inv:
  assumes "best_per_resource rs best = Inr best'" "distinct (map fst best)"
  shows "distinct (map fst best')
    \<and> dom (map_of best') = dom (map_of best) \<union> rec_ids rs
    \<and> (\<forall>rid s. map_of best' rid = Some s \<longrightarrow>
        s = Max (insert (case map_of best rid of None \<Rightarrow> 0 | Some t \<Rightarrow> t)
                 (rec_saving ` {r \<in> set rs. fr_resource_id r = Some rid})))"
  using assms
proof (induction rs best rule: best_per_resource.induct)
  case (1 best)
  then show ?case by (auto simp: rec_ids_def)
next
  case (2 r rs best)
  from "2.prems" obtain rid0 where rid0: "fr_resource_id r = Some rid0"
    by (auto split: option.splits)
  let ?old = "case map_of best rid0 of None \<Rightarrow> 0 | Some s \<Rightarrow> s"
  let ?upd = "AList.update rid0 (max ?old (rec_saving r)) best"
  have run: "best_per_resource rs ?upd = Inr best'" using "2.prems" rid0 by simp
  have dist: "distinct (map fst ?upd)" using "2.prems" by (simp add: distinct_update)
  note IH = "2.IH" [OF rid0 run dist]
  have dom: "dom (map_of ?upd) = insert rid0 (dom (map_of best))"
    by (auto simp: update_conv')
  have ids: "rec_ids (r # rs) = insert rid0 (rec_ids rs)"
    using rid0 by (auto simp: rec_ids_def)
  have vals: "s = Max (insert (case map_of best rid of None \<Rightarrow> 0 | Some t \<Rightarrow> t)
                 (rec_saving ` {q \<in> set (r # rs). fr_resource_id q = Some rid}))"
    if "map_of best' rid = Some s" for rid s
  proof (cases "rid = rid0")
    case True
    let ?A = "rec_saving ` {q \<in> set rs. fr_resource_id q = Some rid}"
    have set: "{q \<in> set (r # rs). fr_resource_id q = Some rid}
        = insert r {q \<in> set rs. fr_resource_id q = Some rid}"
      using True rid0 by auto
    have "s = Max (insert (case map_of ?upd rid of None \<Rightarrow> 0 | Some t \<Rightarrow> t) ?A)"
      using IH that by blast
    then have s: "s = Max (insert (max ?old (rec_saving r)) ?A)"
      using True by (simp add: update_conv')
    have "Max (insert (max ?old (rec_saving r)) ?A) = Max (insert ?old (insert (rec_saving r) ?A))"
      by (rule Max_insert_max) simp
    with s set True show ?thesis by simp
  next
    case False
    have set: "{q \<in> set (r # rs). fr_resource_id q = Some rid}
        = {q \<in> set rs. fr_resource_id q = Some rid}"
      using False rid0 by auto
    have "s = Max (insert (case map_of ?upd rid of None \<Rightarrow> 0 | Some t \<Rightarrow> t)
        (rec_saving ` {q \<in> set rs. fr_resource_id q = Some rid}))"
      using IH that by blast
    then show ?thesis using False unfolding set by (simp add: update_conv')
  qed
  have "dom (map_of best') = dom (map_of best) \<union> rec_ids (r # rs)"
    using IH dom ids by simp
  with IH vals show ?case by blast
qed

lemma best_per_resource_total:
  "\<forall>r \<in> set rs. fr_resource_id r \<noteq> None \<Longrightarrow> \<exists>best'. best_per_resource rs best = Inr best'"
  by (induction rs arbitrary: best) auto

lemma deduplicated_total_savings_eq:
  assumes "\<forall>r \<in> set rs. fr_resource_id r \<noteq> None"
  shows "deduplicated_total_savings rs = Inr (dedup_spec rs)"
proof -
  obtain best where run: "best_per_resource rs [] = Inr best"
    using best_per_resource_total [OF assms] by blast
  note inv = best_per_resource_inv [OF run]
  have dist: "distinct (map fst best)" using inv by simp
  have keys: "fst ` set best = rec_ids rs"
    using inv by (simp add: dom_map_of_conv_image_fst)
  have "sum_list (map snd best) = (\<Sum>k \<in> rec_ids rs. the (map_of best k))"
    using sum_list_dict [OF dist] keys by simp
  also have "\<dots> = dedup_spec rs"
    unfolding dedup_spec_def
  proof (rule sum.cong [OF refl])
    fix k assume "k \<in> rec_ids rs"
    then have "k \<in> dom (map_of best)" using inv by simp
    then obtain s where s: "map_of best k = Some s" by blast
    then have "s = Max (insert (case map_of [] k of None \<Rightarrow> 0 | Some t \<Rightarrow> t)
        (rec_saving ` {r \<in> set rs. fr_resource_id r = Some k}))"
      using inv by (simp del: map_of_eq_Some_iff)
    with s show "the (map_of best k) = Max (rec_savings_of rs k)"
      by (simp add: rec_savings_of_def del: map_of_eq_Some_iff)
  qed
  finally show ?thesis by (simp add: deduplicated_total_savings_def run)
qed

lemma dedup_spec_set: "set rs = set rs' \<Longrightarrow> dedup_spec rs = dedup_spec rs'"
  by (simp add: dedup_spec_def rec_ids_def rec_savings_of_def)

lemma dedup_spec_nonneg: "0 \<le> dedup_spec rs"
  unfolding dedup_spec_def
  by (rule sum_nonneg) (auto simp: rec_savings_of_def intro: Max_ge)

lemma best_per_resource_missing:
  "\<exists>r \<in> set rs. fr_resource_id r = None \<Longrightarrow> best_per_resource rs best = Inl KeyError"
  by (induction rs arbitrary: best) (auto split: option.splits)

section \<open>Properties\<close>

text \<open>
  C39: the deduplicated total counts every resource once, with the largest of its recommended
  savings (and zero), whatever the order and the repetitions of the recommendations; a
  recommendation without a resource id makes it raise \<open>KeyError\<close>.
\<close>

theorem deduplicated_total_spec:
  "deduplicated_total_savings rs =
     (if list_all (\<lambda>r. fr_resource_id r \<noteq> None) rs
      then Inr (\<Sum>rid \<in> {rid. \<exists>r \<in> set rs. fr_resource_id r = Some rid}.
             Max (insert 0 (rec_saving ` {r \<in> set rs. fr_resource_id r = Some rid})))
      else Inl KeyError)"
proof (cases "list_all (\<lambda>r. fr_resource_id r \<noteq> None) rs")
  case True
  then show ?thesis
    using deduplicated_total_savings_eq [of rs]
    by (simp add: list_all_iff dedup_spec_def rec_ids_def rec_savings_of_def)
next
  case False
  then show ?thesis
    using best_per_resource_missing [of rs "[]"]
    by (auto simp: list_all_iff deduplicated_total_savings_def)
qed

text \<open>
  A waste percentage is returned exactly on a positive spend that covers a non-negative
  waste; it is the exact quotient and lies between 0 and 100.
\<close>

theorem waste_percentage_exact:
  "waste_percentage w s = Inr p \<longleftrightarrow>
     0 < s \<and> 0 \<le> w \<and> w \<le> s \<and> p * s = 100 * w \<and> 0 \<le> p \<and> p \<le> 100"
proof -
  have "waste_percentage w s = Inr p \<longleftrightarrow> (0 < s \<and> 0 \<le> w \<and> w \<le> s) \<and> p = w / s * 100"
    using waste_guard.accepts_iff [of "(w, s)" p] by simp
  moreover have "p = w / s * 100 \<longleftrightarrow> p * s = 100 * w" if "0 < s"
    using that by (auto simp: field_simps)
  ultimately show ?thesis using waste_percentage_range [of w s p] by blast
qed

text \<open>
  A linear forecast of a non-negative spend is always one that \<open>validate_forecast\<close>
  accepts: it never falls below the spend to date.
\<close>

theorem linear_forecast_accepted:
  assumes "linear_forecast c d m = Inr f" "0 \<le> c"
  shows "validate_forecast f c = Inr f"
  using linear_forecast_ge_spend [OF assms] forecast_guard.accepts_iff [of "(f, c)" f] by simp

theorem linear_forecast_accepted_witness:
  "validate_forecast 300 100 = Inr 300"
proof -
  have "linear_forecast 100 10 30 = Inr 300" by (simp add: linear_forecast_def)
  from linear_forecast_accepted [OF this] show ?thesis by simp
qed

end
