(* ===== verification/FinopsRisk.thy ===== *)
theory FinopsRisk
  imports FinopsBase
begin

text \<open>
  \<open>src/core/finops_invariants/\<close>: risk floors and confidence labels (\<open>risk.py\<close>),
  observation windows (\<open>observation.py\<close>), the approval trail
  (\<open>remediation_safety.py\<close>) and the guards on dangerous recommendations
  (\<open>dangerous_recommendations.py\<close>).
\<close>

section \<open>Risk levels\<close>

text \<open>
  \<open>RISK_LEVELS\<close> is a tuple of names ordered by position: a datatype ordered by that
  position, with its names. \<open>RISK_LEVELS.index\<close> of any other name raises
  \<open>ValueError\<close>.
\<close>

datatype risk = Low | Medium | High | Critical

fun risk_index :: "risk \<Rightarrow> nat" where
  "risk_index Low = 0"
| "risk_index Medium = 1"
| "risk_index High = 2"
| "risk_index Critical = 3"

fun risk_name :: "risk \<Rightarrow> string" where
  "risk_name Low = ''low''"
| "risk_name Medium = ''medium''"
| "risk_name High = ''high''"
| "risk_name Critical = ''critical''"

definition RISK_LEVELS :: "risk list" where
  "RISK_LEVELS = [Low, Medium, High, Critical]"

definition risk_of_name :: "string \<Rightarrow> risk fin" where
  "risk_of_name s =
     (case find (\<lambda>r. risk_name r = s) RISK_LEVELS of None \<Rightarrow> Inl ValueError | Some r \<Rightarrow> Inr r)"

instantiation risk :: linorder
begin

definition less_eq_risk :: "risk \<Rightarrow> risk \<Rightarrow> bool" where
  "less_eq_risk a b \<longleftrightarrow> risk_index a \<le> risk_index b"

definition less_risk :: "risk \<Rightarrow> risk \<Rightarrow> bool" where
  "less_risk a b \<longleftrightarrow> risk_index a < risk_index b"

instance
proof
  fix a b :: risk
  show "a \<le> b \<Longrightarrow> b \<le> a \<Longrightarrow> a = b"
    by (cases a; cases b) (auto simp: less_eq_risk_def)
qed (auto simp: less_eq_risk_def less_risk_def)

end

lemmas risk_order_simps = less_eq_risk_def less_risk_def

lemma risk_of_name_name [simp]: "risk_of_name (risk_name r) = Inr r"
  by (cases r) (simp_all add: risk_of_name_def RISK_LEVELS_def)

lemma risk_of_name_Inr: "risk_of_name s = Inr r \<longleftrightarrow> s = risk_name r"
  by (cases r) (auto simp: risk_of_name_def RISK_LEVELS_def split: if_splits)

section \<open>Risk floor\<close>

definition environment_key :: "string option \<Rightarrow> string" where
  "environment_key environment = lower (or_default environment ''unknown'')"

definition is_prod_like :: "string option \<Rightarrow> bool" where
  "is_prod_like environment \<longleftrightarrow>
     environment_key environment \<in> set [''production'', ''prod'', ''unknown'']"

definition minimum_risk_for :: "string \<Rightarrow> string option \<Rightarrow> string option \<Rightarrow> risk" where
  "minimum_risk_for action environment owner =
     (let action_key = lower action;
          floor =
            (if action_key \<in> set DESTRUCTIVE_ACTIONS
               then (if is_prod_like environment then Critical else Medium)
             else if action_key \<in> set SERVICE_INTERRUPTING_ACTIONS
               then (if is_prod_like environment then High else Low)
             else (if is_prod_like environment then Medium else Low))
      in if owner = None \<and> floor < Medium then Medium else floor)"

definition validate_risk_level ::
    "string \<Rightarrow> string option \<Rightarrow> string \<Rightarrow> string option \<Rightarrow> string fin" where
  "validate_risk_level action environment displayed_risk owner =
     (let floor = minimum_risk_for action environment owner
      in py_bind (risk_of_name displayed_risk) (\<lambda>shown.
           if shown < floor
           then Inl (Raised (RiskBelowFloor displayed_risk (risk_name floor)))
           else Inr displayed_risk))"

text \<open>Meets \<open>py_guard\<close>, not \<open>finops_guard\<close>: an unknown level escapes as \<open>ValueError\<close>.\<close>

interpretation risk_guard: py_guard
  "\<lambda>(a, e, d, ow). validate_risk_level a e d ow"
  "\<lambda>(a, e, d, ow). \<exists>r. d = risk_name r \<and> minimum_risk_for a e ow \<le> r"
  "\<lambda>(a, e, d, ow). d"
proof (unfold_locales, goal_cases)
  case (1 x)
  then show ?case
    by (auto simp: validate_risk_level_def Let_def not_less split: prod.splits)
next
  case (2 x)
  then show ?case
    by (cases "risk_of_name (fst (snd (snd x)))")
       (auto simp: validate_risk_level_def Let_def risk_of_name_Inr split: prod.splits)
qed

lemma minimum_risk_destructive_prod:
  "lower action \<in> set DESTRUCTIVE_ACTIONS \<Longrightarrow> is_prod_like env \<Longrightarrow>
   minimum_risk_for action env owner = Critical"
  by (simp add: minimum_risk_for_def risk_order_simps)

lemma minimum_risk_unowned: "Medium \<le> minimum_risk_for action env None"
  by (auto simp: minimum_risk_for_def Let_def risk_order_simps)

lemma minimum_risk_prod_le:
  "is_prod_like env' \<Longrightarrow> minimum_risk_for action env owner \<le> minimum_risk_for action env' owner"
  by (auto simp: minimum_risk_for_def Let_def risk_order_simps)

section \<open>Confidence label\<close>

datatype confidence_label = LabelLow | LabelMedium | LabelHigh

definition LOW_CAP_FIELDS :: "string list" where
  "LOW_CAP_FIELDS = [''currency'', ''period'']"

definition MEDIUM_CAP_FIELDS :: "string list" where
  "MEDIUM_CAP_FIELDS = [''pricing_source'', ''owner'', ''environment'']"

text \<open>\<open>not metadata.get(k)\<close>.\<close>

definition field_missing :: "(string, json) dict \<Rightarrow> string \<Rightarrow> bool" where
  "field_missing metadata k =
     (case map_of metadata k of None \<Rightarrow> True | Some v \<Rightarrow> \<not> json_truthy v)"

definition window_too_short :: "int option \<Rightarrow> int option \<Rightarrow> bool" where
  "window_too_short observation_days min_observation_days =
     (case (observation_days, min_observation_days) of
        (Some d, Some m) \<Rightarrow> d < m
      | _ \<Rightarrow> False)"

definition assess_confidence ::
    "(string, json) dict \<Rightarrow> rat \<Rightarrow> int option \<Rightarrow> int option \<Rightarrow> bool \<Rightarrow> confidence_label" where
  "assess_confidence metadata signal_confidence observation_days min_observation_days
       metrics_complete =
     (if list_ex (field_missing metadata) LOW_CAP_FIELDS then LabelLow
      else
        let medium_capped =
              list_ex (field_missing metadata) MEDIUM_CAP_FIELDS \<or> \<not> metrics_complete
              \<or> window_too_short observation_days min_observation_days
        in if medium_capped then (if signal_confidence \<ge> 1 / 2 then LabelMedium else LabelLow)
           else if signal_confidence \<ge> 8 / 10 then LabelHigh
           else if signal_confidence \<ge> 1 / 2 then LabelMedium
           else LabelLow)"

lemma assess_confidence_high_iff:
  "assess_confidence md sig od min_od mc = LabelHigh \<longleftrightarrow>
     (\<forall>k \<in> set (LOW_CAP_FIELDS @ MEDIUM_CAP_FIELDS). \<not> field_missing md k) \<and> mc
     \<and> \<not> window_too_short od min_od \<and> 8 / 10 \<le> sig"
  by (auto simp: assess_confidence_def Let_def list_ex_iff)

section \<open>Observation windows\<close>

definition MIN_OBSERVATION_DAYS :: "(string, int) dict" where
  "MIN_OBSERVATION_DAYS =
     [(''production'', 14), (''prod'', 14), (''unknown'', 14), (''dev'', 7)]"

definition DEFAULT_MIN_OBSERVATION_DAYS :: int where
  "DEFAULT_MIN_OBSERVATION_DAYS = 14"

definition minimum_observation_days :: "string option \<Rightarrow> int" where
  "minimum_observation_days environment =
     (case map_of MIN_OBSERVATION_DAYS (environment_key environment) of
        None \<Rightarrow> DEFAULT_MIN_OBSERVATION_DAYS
      | Some d \<Rightarrow> d)"

definition is_actionable :: "string option \<Rightarrow> bool" where
  "is_actionable action \<longleftrightarrow>
     lower (or_default action []) \<in> set (DESTRUCTIVE_ACTIONS @ SERVICE_INTERRUPTING_ACTIONS)"

definition validate_observation_window :: "string option \<Rightarrow> rat \<Rightarrow> string option \<Rightarrow> rat fin" where
  "validate_observation_window environment observation_days action =
     (if \<not> is_actionable action then Inr observation_days
      else
        let required = minimum_observation_days environment
        in if observation_days < of_int required
           then Inl (Raised (ObservationTooShort observation_days required))
           else Inr observation_days)"

definition validate_batch_workload_classification ::
    "bool \<Rightarrow> bool \<Rightarrow> string option \<Rightarrow> bool fin" where
  "validate_batch_workload_classification is_batch_workload has_schedule_context action =
     (if is_batch_workload \<and> is_actionable action \<and> \<not> has_schedule_context
      then Inl (Raised (BatchWithoutSchedule (or_default action [])))
      else Inr True)"

interpretation window_guard: finops_guard
  "\<lambda>(e, d, a). validate_observation_window e d a"
  "\<lambda>(e, d, a). is_actionable a \<longrightarrow> of_int (minimum_observation_days e) \<le> d"
  "\<lambda>(e, d, a). d"
  by unfold_locales
     (auto simp: validate_observation_window_def Let_def split: if_splits prod.splits)

lemma minimum_observation_days_ge:
  "7 \<le> minimum_observation_days env"
  "environment_key env \<noteq> ''dev'' \<Longrightarrow> minimum_observation_days env = 14"
  by (auto simp: minimum_observation_days_def MIN_OBSERVATION_DAYS_def
      DEFAULT_MIN_OBSERVATION_DAYS_def)

section \<open>The approval trail\<close>

definition validate_approval_required ::
    "string option \<Rightarrow> string option \<Rightarrow> string \<Rightarrow> bool \<Rightarrow> bool fin" where
  "validate_approval_required action environment risk approval_required =
     (let is_destructive = lower (or_default action []) \<in> set DESTRUCTIVE_ACTIONS;
          needs_approval =
            is_destructive \<or> is_prod_like environment \<or> risk \<in> set [''high'', ''critical'']
      in if needs_approval \<and> \<not> approval_required
         then Inl (Raised (ApprovalMissing (or_default action [])))
         else Inr approval_required)"

definition validate_auto_execution ::
    "string \<Rightarrow> string option \<Rightarrow> string option \<Rightarrow> bool fin" where
  "validate_auto_execution execution_mode owner rollback_plan =
     (if execution_mode = ''auto''
      then (if \<not> truthy owner then Inl (Raised AutoWithoutOwner)
            else if \<not> truthy rollback_plan then Inl (Raised AutoWithoutRollback)
            else Inr True)
      else Inr True)"

definition validate_completed_status_requires_audit_log ::
    "string \<Rightarrow> string option \<Rightarrow> bool fin" where
  "validate_completed_status_requires_audit_log status audit_log_id =
     (if status = ''executed'' \<and> \<not> truthy audit_log_id
      then Inl (Raised ExecutedWithoutAuditLog) else Inr True)"

definition validate_realized_savings_status :: "string \<Rightarrow> rat \<Rightarrow> rat fin" where
  "validate_realized_savings_status status realized_monthly_saving =
     (if realized_monthly_saving \<noteq> 0 \<and> realized_monthly_saving > 0 \<and> status \<noteq> ''executed''
      then Inl (Raised (RealizedStatusNotExecuted realized_monthly_saving status))
      else Inr realized_monthly_saving)"

definition validate_no_saving_when_ignored_or_expired :: "string \<Rightarrow> rat \<Rightarrow> bool fin" where
  "validate_no_saving_when_ignored_or_expired status saving =
     (if status \<in> set [''ignored'', ''expired''] \<and> saving \<noteq> 0 \<and> saving > 0
      then Inl (Raised (SavingOnClosedStatus status saving)) else Inr True)"

definition validate_approval_identity :: "bool \<Rightarrow> string option \<Rightarrow> bool fin" where
  "validate_approval_identity approval_required approved_by =
     (if approval_required \<and> \<not> truthy approved_by
      then Inl (Raised ApproverMissing) else Inr True)"

definition validate_execution_timestamp :: "string \<Rightarrow> string option \<Rightarrow> bool fin" where
  "validate_execution_timestamp status executed_at =
     (if status = ''executed'' \<and> \<not> truthy executed_at
      then Inl (Raised ExecutedWithoutTimestamp) else Inr True)"

definition validate_slack_approval_trace :: "string option \<Rightarrow> string option \<Rightarrow> bool fin" where
  "validate_slack_approval_trace approval_channel trace_id =
     (if approval_channel = Some ''slack'' \<and> \<not> truthy trace_id
      then Inl (Raised SlackWithoutTrace) else Inr True)"

definition validate_terraform_pr_remediation :: "string \<Rightarrow> string option \<Rightarrow> bool fin" where
  "validate_terraform_pr_remediation execution_mode pull_request_url =
     (if execution_mode = ''terraform_pr'' \<and> \<not> truthy pull_request_url
      then Inl (Raised TerraformWithoutUrl) else Inr True)"

interpretation approval_guard: finops_guard
  "\<lambda>(a, e, r, ok). validate_approval_required a e r ok"
  "\<lambda>(a, e, r, ok). ok \<or> (lower (or_default a []) \<notin> set DESTRUCTIVE_ACTIONS
       \<and> \<not> is_prod_like e \<and> r \<noteq> ''high'' \<and> r \<noteq> ''critical'')"
  "\<lambda>(a, e, r, ok). ok"
  by unfold_locales
     (auto simp: validate_approval_required_def Let_def split: if_splits prod.splits)

text \<open>
  The floor and the approval rule agree: what the floor calls critical, or high, always
  needs an explicit approval.
\<close>

lemma floor_needs_approval:
  assumes "High \<le> minimum_risk_for a env owner"
  shows "validate_approval_required (Some a) env r False = Inl (Raised (ApprovalMissing a))"
proof -
  have "is_prod_like env"
    using assms
    by (auto simp: minimum_risk_for_def Let_def risk_order_simps split: if_splits)
  then show ?thesis by (simp add: validate_approval_required_def Let_def or_default_def)
qed

section \<open>Dangerous recommendations\<close>

definition validate_underutilization_action ::
    "string option \<Rightarrow> string \<Rightarrow> string \<Rightarrow> string fin" where
  "validate_underutilization_action detector_type resource_type action =
     (let detector_key = lower (or_default detector_type [])
      in if resource_type = ''rds'' \<and> action = ''delete''
            \<and> (contains ''underutil'' detector_key \<or> contains ''idle'' detector_key)
         then Inl (Raised (UnderutilizedDatabaseDelete (or_default detector_type [])))
         else Inr action)"

definition validate_ebs_delete :: "bool \<Rightarrow> bool \<Rightarrow> bool fin" where
  "validate_ebs_delete has_snapshot has_retention_policy =
     (if \<not> has_snapshot \<and> \<not> has_retention_policy
      then Inl (Raised EbsDeleteUnprotected) else Inr True)"

definition validate_nat_gateway_delete :: "bool \<Rightarrow> bool fin" where
  "validate_nat_gateway_delete route_tables_validated =
     (if \<not> route_tables_validated then Inl (Raised NatDeleteUnvalidated) else Inr True)"

definition validate_cloudwatch_retention_saving :: "rat \<Rightarrow> rat \<Rightarrow> rat \<Rightarrow> rat fin" where
  "validate_cloudwatch_retention_saving claimed_saving_monthly storage_cost_monthly
       total_log_cost_monthly =
     (if claimed_saving_monthly > storage_cost_monthly
        then Inl (Raised (SavingExceedsStorage claimed_saving_monthly storage_cost_monthly))
      else if claimed_saving_monthly \<ge> total_log_cost_monthly
        then Inl (Raised (SavingReachesTotal claimed_saving_monthly total_log_cost_monthly))
      else Inr claimed_saving_monthly)"

definition validate_eks_resize ::
    "string option \<Rightarrow> (string, json) dict option \<Rightarrow> bool fin" where
  "validate_eks_resize nodegroup workload_metrics =
     (if \<not> truthy nodegroup then Inl (Raised EksWithoutNodegroup)
      else
        let missing =
              filter (\<lambda>m. \<not> truthy workload_metrics
                  \<or> (case workload_metrics of None \<Rightarrow> True | Some d \<Rightarrow> m \<notin> set (map fst d)))
                [''cpu'', ''memory'']
        in if missing \<noteq> [] then Inl (Raised (EksMissingMetrics missing)) else Inr True)"

interpretation retention_guard: finops_guard
  "\<lambda>(c, s, t). validate_cloudwatch_retention_saving c s t"
  "\<lambda>(c, s, t). c \<le> s \<and> c < t" fst
  by unfold_locales
     (auto simp: validate_cloudwatch_retention_saving_def split: if_splits)

interpretation eks_guard: finops_guard
  "\<lambda>(n, w). validate_eks_resize n w"
  "\<lambda>(n, w). truthy n \<and> (\<exists>d. w = Some d \<and> {''cpu'', ''memory''} \<subseteq> set (map fst d))"
  "\<lambda>_. True"
proof (unfold_locales, goal_cases)
  case (1 x)
  then show ?case
    by (auto simp: validate_eks_resize_def Let_def truthy_def split: prod.splits option.splits)
next
  case (2 x)
  then show ?case
    by (auto simp: validate_eks_resize_def Let_def split: prod.splits option.splits)
next
  case (3 x e)
  then show ?case
    by (auto simp: validate_eks_resize_def Let_def split: prod.splits if_splits)
qed

section \<open>Properties\<close>

text \<open>
  A destructive action on a production-like (or unknown) environment is accepted with the
  level critical only, and never without an explicit approval.
\<close>

theorem destructive_needs_critical:
  assumes "lower action \<in> set DESTRUCTIVE_ACTIONS" "is_prod_like env"
  shows "(validate_risk_level action env shown owner = Inr out \<longleftrightarrow> shown = ''critical'' \<and> out = shown)
    \<and> validate_approval_required (Some action) env risk False = Inl (Raised (ApprovalMissing action))"
proof -
  have floor: "minimum_risk_for action env owner = Critical" for owner
    by (rule minimum_risk_destructive_prod [OF assms])
  have top: "Critical \<le> r \<longleftrightarrow> r = Critical" for r
    by (cases r) (simp_all add: risk_order_simps)
  have "validate_risk_level action env shown owner = Inr out \<longleftrightarrow> shown = ''critical'' \<and> out = shown"
    using risk_guard.accepts_iff [of "(action, env, shown, owner)" out] by (auto simp: floor top)
  moreover have "validate_approval_required (Some action) env risk False = Inl (Raised (ApprovalMissing action))"
    by (rule floor_needs_approval [of action env None]) (simp add: floor risk_order_simps)
  ultimately show ?thesis by blast
qed

theorem destructive_needs_critical_witness:
  "validate_risk_level ''Delete'' None ''high'' None \<noteq> Inr ''high''
   \<and> validate_approval_required (Some ''Delete'') None ''low'' False = Inl (Raised (ApprovalMissing ''Delete''))"
proof -
  have "lower ''Delete'' = ''delete''" "lower ''unknown'' = ''unknown''" by code_simp+
  then have "lower ''Delete'' \<in> set DESTRUCTIVE_ACTIONS" "is_prod_like None"
    by (simp_all add: DESTRUCTIVE_ACTIONS_def is_prod_like_def environment_key_def or_default_def)
  from destructive_needs_critical [OF this, of "''high''" None "''high''" "''low''"]
  show ?thesis by simp
qed

text \<open>
  The confidence label is high exactly when no field of the metadata is missing, the metrics
  are complete, the window is long enough and the signal reaches 0.8; a missing currency or
  period always gives the label low.
\<close>

theorem confidence_label_caps:
  "(assess_confidence md sig od min_od mc = LabelHigh) =
     ((\<not> field_missing md ''currency'' \<and> \<not> field_missing md ''period''
      \<and> \<not> field_missing md ''pricing_source'' \<and> \<not> field_missing md ''owner''
      \<and> \<not> field_missing md ''environment'') \<and> mc \<and> \<not> window_too_short od min_od \<and> 8 / 10 \<le> sig)
   \<and> (assess_confidence md sig od min_od mc = LabelLow) =
     (field_missing md ''currency'' \<or> field_missing md ''period'' \<or> sig < 1 / 2)"
  using assess_confidence_high_iff [of md sig od min_od mc]
  by (auto simp: assess_confidence_def LOW_CAP_FIELDS_def MEDIUM_CAP_FIELDS_def Let_def)

end
