(* ===== verification/FinopsCost.thy ===== *)
theory FinopsCost
  imports FinopsBase
begin

text \<open>
  \<open>src/core/finops_invariants/cost_validation.py\<close>: a displayed cost against the price it
  should come from, one validator per resource type, all built on one tolerance check; and the
  saving-specific validators.
\<close>

definition validate_cost_within_tolerance :: "rat \<Rightarrow> rat \<Rightarrow> rat \<Rightarrow> string \<Rightarrow> rat fin" where
  "validate_cost_within_tolerance actual expected tolerance_pct label =
     (if expected \<le> 0 then Inl (Raised (ExpectedNotPositive label))
      else if \<bar>actual - expected\<bar> / expected > tolerance_pct
        then Inl (Raised (CostDeviates label actual expected))
      else Inr actual)"

definition validate_ec2_cost ::
    "string \<Rightarrow> rat \<Rightarrow> rat \<Rightarrow> (string, rat) dict \<Rightarrow> rat \<Rightarrow> rat \<Rightarrow> rat fin" where
  "validate_ec2_cost instance_type hours_running monthly_cost pricing_table hours_per_month
       tolerance_pct =
     (case map_of pricing_table instance_type of
        None \<Rightarrow> Inl (Raised (UnknownPricingKey instance_type))
      | Some full_month_price \<Rightarrow>
          if hours_per_month = 0 then Inl ZeroDivisionError
          else validate_cost_within_tolerance monthly_cost
                 (full_month_price * (hours_running / hours_per_month)) tolerance_pct
                 (''EC2 '' @ instance_type))"

definition validate_ebs_cost ::
    "rat \<Rightarrow> string \<Rightarrow> rat \<Rightarrow> (string, rat) dict \<Rightarrow> rat \<Rightarrow> rat fin" where
  "validate_ebs_cost size_gb volume_type monthly_cost pricing_eur_per_gib tolerance_pct =
     (case map_of pricing_eur_per_gib volume_type of
        None \<Rightarrow> Inl (Raised (UnknownPricingKey volume_type))
      | Some price \<Rightarrow>
          validate_cost_within_tolerance monthly_cost (size_gb * price) tolerance_pct
            (''EBS '' @ volume_type))"

definition validate_elastic_ip_cost :: "rat \<Rightarrow> rat \<Rightarrow> rat \<Rightarrow> rat fin" where
  "validate_elastic_ip_cost monthly_cost known_eip_cost tolerance_pct =
     validate_cost_within_tolerance monthly_cost known_eip_cost tolerance_pct ''Elastic IP''"

definition validate_nat_gateway_cost :: "rat \<Rightarrow> rat \<Rightarrow> rat \<Rightarrow> rat \<Rightarrow> rat \<Rightarrow> rat fin" where
  "validate_nat_gateway_cost monthly_cost base_hourly_cost data_processed_gb
       data_processing_rate_eur_per_gb tolerance_pct =
     validate_cost_within_tolerance monthly_cost
       (base_hourly_cost + data_processed_gb * data_processing_rate_eur_per_gb)
       tolerance_pct ''NAT Gateway''"

definition validate_rds_cost ::
    "string \<Rightarrow> rat \<Rightarrow> rat \<Rightarrow> (string, rat) dict \<Rightarrow> rat \<Rightarrow> rat \<Rightarrow> rat fin" where
  "validate_rds_cost instance_class storage_gb monthly_cost instance_pricing_table
       storage_rate_eur_per_gb tolerance_pct =
     (case map_of instance_pricing_table instance_class of
        None \<Rightarrow> Inl (Raised (UnknownPricingKey instance_class))
      | Some price \<Rightarrow>
          validate_cost_within_tolerance monthly_cost
            (price + storage_gb * storage_rate_eur_per_gb) tolerance_pct
            (''RDS '' @ instance_class))"

definition REQUIRED_PRICING_METADATA_FIELDS :: "string list" where
  "REQUIRED_PRICING_METADATA_FIELDS = [''pricing_source'', ''currency'', ''period'', ''region'']"

definition validate_pricing_metadata_complete ::
    "(string, json) dict \<Rightarrow> string list \<Rightarrow> bool fin" where
  "validate_pricing_metadata_complete item required_fields =
     (let missing = filter (\<lambda>f. case map_of item f of None \<Rightarrow> True | Some v \<Rightarrow> \<not> json_truthy v)
                      required_fields
      in if missing \<noteq> [] then Inl (Raised (MissingPricingMetadata missing)) else Inr True)"

definition validate_estimated_cost_matches_unit_price ::
    "rat \<Rightarrow> rat \<Rightarrow> rat \<Rightarrow> rat \<Rightarrow> rat fin" where
  "validate_estimated_cost_matches_unit_price unit_price_hourly hours estimated_cost
       tolerance_pct =
     validate_cost_within_tolerance estimated_cost (unit_price_hourly * hours) tolerance_pct
       ''estimated_monthly_cost''"

definition validate_resize_saving :: "rat \<Rightarrow> rat \<Rightarrow> rat \<Rightarrow> rat fin" where
  "validate_resize_saving current_monthly_cost recommended_monthly_cost potential_saving =
     (let expected = current_monthly_cost - recommended_monthly_cost
      in if \<bar>potential_saving - expected\<bar> > 1 / 100
         then Inl (Raised (ResizeMismatch potential_saving expected))
         else Inr potential_saving)"

definition validate_schedule_saving :: "rat \<Rightarrow> rat \<Rightarrow> rat \<Rightarrow> rat \<Rightarrow> rat fin" where
  "validate_schedule_saving full_monthly_cost reduced_runtime_ratio claimed_saving
       tolerance_pct =
     (if \<not> (0 \<le> reduced_runtime_ratio \<and> reduced_runtime_ratio \<le> 1)
      then Inl (Raised RatioOutOfRange)
      else validate_cost_within_tolerance claimed_saving
             (full_monthly_cost * (1 - reduced_runtime_ratio)) tolerance_pct ''schedule_saving'')"

definition validate_delete_saving :: "bool \<Rightarrow> rat \<Rightarrow> rat \<Rightarrow> rat fin" where
  "validate_delete_saving is_delete_safe saving full_monthly_cost =
     (if \<not> is_delete_safe then Inl (Raised DeleteNotSafe)
      else if \<bar>saving - full_monthly_cost\<bar> > 1 / 100
        then Inl (Raised (DeleteMismatch saving full_monthly_cost))
      else Inr saving)"

section \<open>The tolerance contract\<close>

interpretation tolerance_guard: finops_guard
  "\<lambda>(a, e, t, l). validate_cost_within_tolerance a e t l"
  "\<lambda>(a, e, t, l). 0 < e \<and> \<bar>a - e\<bar> \<le> t * e"
  fst
proof (unfold_locales, goal_cases)
  case (1 x)
  then show ?case
    by (auto simp: validate_cost_within_tolerance_def pos_less_divide_eq split: prod.splits)
next
  case (2 x)
  then show ?case
    by (auto simp: validate_cost_within_tolerance_def pos_less_divide_eq not_le split: prod.splits)
next
  case (3 x e)
  then show ?case
    by (auto simp: validate_cost_within_tolerance_def split: prod.splits if_splits)
qed

text \<open>Every accepted cost lies in the band around the expected one.\<close>

lemma tolerance_band:
  assumes "validate_cost_within_tolerance a e t l = Inr c"
  shows "c = a \<and> 0 < e \<and> e * (1 - t) \<le> a \<and> a \<le> e * (1 + t)"
proof -
  have "c = a" "0 < e" "\<bar>a - e\<bar> \<le> t * e"
    using tolerance_guard.accepts_iff [of "(a, e, t, l)" c] assms by auto
  then show ?thesis by (auto simp: abs_le_iff algebra_simps)
qed

text \<open>
  A NAT gateway cost that leaves the traffic out is refused as soon as the traffic is worth
  more than the tolerance.
\<close>

lemma nat_cost_ignoring_traffic:
  assumes "0 \<le> base" "0 < gb * rate" "t * (base + gb * rate) < gb * rate"
  shows "validate_nat_gateway_cost base base gb rate t
    = Inl (Raised (CostDeviates ''NAT Gateway'' base (base + gb * rate)))"
proof -
  have pos: "0 < base + gb * rate" using assms by simp
  then have "t < gb * rate / (base + gb * rate)"
    using assms(3) by (simp add: less_divide_eq)
  with pos assms show ?thesis
    by (simp add: validate_nat_gateway_cost_def validate_cost_within_tolerance_def)
qed

section \<open>Properties\<close>

text \<open>
  An accepted NAT gateway cost lies within the relative tolerance of the base price plus the
  priced traffic, which must be positive: a cost that leaves the traffic out is accepted only
  when the traffic is worth no more than the tolerance.
\<close>

theorem nat_cost_includes_traffic:
  assumes "validate_nat_gateway_cost m base gb rate t = Inr c"
  shows "c = m \<and> 0 < base + gb * rate \<and> (base + gb * rate) * (1 - t) \<le> m
    \<and> m \<le> (base + gb * rate) * (1 + t) \<and> (m = base \<longrightarrow> gb * rate \<le> t * (base + gb * rate))"
proof -
  have band: "c = m \<and> 0 < base + gb * rate \<and> (base + gb * rate) * (1 - t) \<le> m
      \<and> m \<le> (base + gb * rate) * (1 + t)"
    using tolerance_band assms unfolding validate_nat_gateway_cost_def by blast
  then have "m = base \<longrightarrow> gb * rate \<le> t * (base + gb * rate)"
    by (auto simp: algebra_simps)
  with band show ?thesis by simp
qed

theorem nat_cost_includes_traffic_witness:
  "validate_nat_gateway_cost 41 32 200 (45 / 1000) (1 / 10) = Inr 41 \<and> (41::rat) \<le> 41 * (1 + 1 / 10)"
proof -
  have run: "validate_nat_gateway_cost 41 32 200 (45 / 1000) (1 / 10) = Inr 41"
    by (simp add: validate_nat_gateway_cost_def validate_cost_within_tolerance_def)
  from nat_cost_includes_traffic [OF this] run show ?thesis by simp
qed

end
