(* ===== verification/FinopsClaims.thy ===== *)
theory FinopsClaims
  imports FinopsBase
begin

text \<open>
  \<open>src/core/finops_invariants/claims.py\<close>: what a number or a sentence shown to a human
  may claim. The module extends the shared tuple of forbidden words under the same name, so
  the validators, which read the name when called, use the extended tuple.
\<close>

definition FORBIDDEN_WORDS_FOR_POTENTIAL_CLAIMS :: "string list" where
  "FORBIDDEN_WORDS_FOR_POTENTIAL_CLAIMS =
     [''guaranteed'', ''instantly'', ''no risk'', ''automatic savings''] @
     [''risk-free'', ''confirmed savings'', ''permanent savings'', ''save automatically'']"

text \<open>
  The message of the error divides by the percentage that the data supports: a claim over
  data without waste raises \<open>ZeroDivisionError\<close>.
\<close>

definition validate_claim_percentage :: "rat \<Rightarrow> rat \<Rightarrow> rat \<Rightarrow> rat \<Rightarrow> rat fin" where
  "validate_claim_percentage claimed_pct detected_waste_monthly spend_monthly tolerance_pts =
     py_bind (waste_percentage detected_waste_monthly spend_monthly) (\<lambda>actual_pct.
       if claimed_pct > actual_pct + tolerance_pts
       then (if actual_pct = 0 then Inl ZeroDivisionError
             else Inl (Raised (ClaimAboveEvidence claimed_pct actual_pct)))
       else Inr claimed_pct)"

definition forbidden_hits :: "string \<Rightarrow> string list" where
  "forbidden_hits lowered = filter (\<lambda>w. contains w lowered) FORBIDDEN_WORDS_FOR_POTENTIAL_CLAIMS"

definition validate_claim_wording :: "string \<Rightarrow> string \<Rightarrow> nat \<Rightarrow> string fin" where
  "validate_claim_wording claim_text savings_type completed_actions =
     (let lowered = lower claim_text
      in if savings_type \<noteq> ''realized'' \<and> forbidden_hits lowered \<noteq> []
           then Inl (Raised (ForbiddenWording (forbidden_hits lowered) claim_text))
         else if (contains ''realized'' lowered \<or> contains ''guaranteed'' lowered)
                 \<and> completed_actions = 0
           then Inl (Raised (CertaintyWithoutAction claim_text))
         else Inr claim_text)"

definition validate_annualized_claim :: "rat \<Rightarrow> rat option \<Rightarrow> rat fin" where
  "validate_annualized_claim annual_value monthly_basis =
     (case monthly_basis of
        None \<Rightarrow> Inl (Raised NoMonthlyBasis)
      | Some basis \<Rightarrow>
          (let expected = annualize basis
           in if \<bar>annual_value - expected\<bar> > 1 / 100
              then Inl (Raised (AnnualMismatch annual_value expected))
              else Inr annual_value))"

definition validate_up_to_claim :: "rat \<Rightarrow> rat \<Rightarrow> rat fin" where
  "validate_up_to_claim claimed_value dataset_max_value =
     (if claimed_value > dataset_max_value
      then Inl (Raised (UpToExceedsMax claimed_value dataset_max_value))
      else Inr claimed_value)"

definition low_risk_total :: "fin_rec list \<Rightarrow> rat" where
  "low_risk_total recommendations =
     sum_list (map rec_saving (filter (\<lambda>r. fr_risk r = Some ''low'') recommendations))"

definition validate_low_risk_claim :: "rat \<Rightarrow> fin_rec list \<Rightarrow> rat fin" where
  "validate_low_risk_claim claimed_savings recommendations =
     (if claimed_savings > low_risk_total recommendations + 1 / 100
      then Inl (Raised (LowRiskExceedsSum claimed_savings (low_risk_total recommendations)))
      else Inr claimed_savings)"

text \<open>The figures of a dashboard dataset that the summary prints; a missing key is \<open>None\<close>.\<close>

record cto_dataset =
  cd_spend :: "rat option"
  cd_waste :: "rat option"
  cd_potential :: "rat option"
  cd_realized :: "rat option"
  cd_confirmed :: "rat option"

definition get_or :: "rat option \<Rightarrow> rat \<Rightarrow> rat" where
  "get_or x d = (case x of None \<Rightarrow> d | Some v \<Rightarrow> v)"

definition generate_cto_safe_summary :: "cto_dataset \<Rightarrow> string fin" where
  "generate_cto_safe_summary ds =
     (let spend = get_or (cd_spend ds) 0;
          waste = get_or (cd_waste ds) 0;
          potential = get_or (cd_potential ds) waste;
          realized = get_or (cd_realized ds) 0;
          confirmed = get_or (cd_confirmed ds) 0
      in py_bind (if spend \<noteq> 0 then waste_percentage waste spend else Inr 0) (\<lambda>pct. Inr
           (''Detected waste: '' @ fmt_fixed 0 waste @ ''/mo ('' @ fmt_fixed 1 pct
            @ ''% of '' @ fmt_fixed 0 spend @ '' spend). ''
            @ ''Potential savings: up to '' @ fmt_fixed 0 potential @ ''/mo. ''
            @ ''Annualized potential: up to '' @ fmt_fixed 0 (annualize potential) @ ''/yr. ''
            @ ''Realized savings: '' @ fmt_fixed 0 realized @ '' (requires completed actions). ''
            @ ''Confirmed savings: '' @ fmt_fixed 0 confirmed
            @ '' (verified via Cost Explorer).'')))"

definition validate_dashboard_headline :: "string \<Rightarrow> nat \<Rightarrow> string fin" where
  "validate_dashboard_headline headline executed_actions_count =
     (if contains ''realized'' (lower headline) \<and> executed_actions_count = 0
      then Inl (Raised (HeadlineWithoutAction headline)) else Inr headline)"

definition validate_annualized_claim_assumptions :: "string \<Rightarrow> string list \<Rightarrow> bool fin" where
  "validate_annualized_claim_assumptions claim_type assumptions =
     (if claim_type = ''annualized_potential'' \<and> assumptions = []
      then Inl (Raised MissingAssumptions) else Inr True)"

section \<open>The contracts\<close>

interpretation wording_guard: finops_guard
  "\<lambda>(t, ty, n). validate_claim_wording t ty n"
  "\<lambda>(t, ty, n). (ty = ''realized'' \<or> (\<forall>w \<in> set FORBIDDEN_WORDS_FOR_POTENTIAL_CLAIMS. \<not> contains w (lower t)))
     \<and> (n = 0 \<longrightarrow> \<not> contains ''realized'' (lower t) \<and> \<not> contains ''guaranteed'' (lower t))"
  fst
  by unfold_locales
     (auto simp: validate_claim_wording_def forbidden_hits_def Let_def filter_empty_conv
        split: if_splits)

interpretation headline_guard: finops_guard
  "\<lambda>(h, n). validate_dashboard_headline h n"
  "\<lambda>(h, n). contains ''realized'' (lower h) \<longrightarrow> 0 < n" fst
  by unfold_locales (auto simp: validate_dashboard_headline_def split: if_splits)

interpretation annual_guard: finops_guard
  "\<lambda>(a, m). validate_annualized_claim a m"
  "\<lambda>(a, m). \<exists>b. m = Some b \<and> \<bar>a - 12 * b\<bar> \<le> 1 / 100" fst
  by unfold_locales
     (auto simp: validate_annualized_claim_def annualize_def MONTHS_PER_YEAR_def Let_def
        mult.commute split: option.splits if_splits)

lemma claim_without_waste:
  assumes "0 < spend" "tol < claimed"
  shows "validate_claim_percentage claimed 0 spend tol = Inl ZeroDivisionError"
  using assms by (simp add: validate_claim_percentage_def waste_percentage_def)

lemma claim_percentage_supported:
  assumes "validate_claim_percentage claimed w s tol = Inr c"
  shows "c = claimed \<and> 0 < s \<and> claimed \<le> w / s * 100 + tol"
proof -
  obtain p where p: "waste_percentage w s = Inr p" and "c = claimed" "claimed \<le> p + tol"
    using assms by (auto simp: validate_claim_percentage_def py_simps split: if_splits)
  moreover have "0 < s" "p = w / s * 100"
    using waste_guard.accepts_iff [of "(w, s)" p] p by auto
  ultimately show ?thesis by simp
qed

section \<open>Properties\<close>

text \<open>
  A claimed percentage is accepted only when the detected waste supports it up to the
  tolerance; with no waste at all an excessive claim is not refused but ends in a division by
  zero, raised while the message is built.
\<close>

theorem claim_percentage_evidence:
  "(validate_claim_percentage claimed w s tol = Inr c \<longrightarrow>
      c = claimed \<and> 0 < s \<and> 0 \<le> w \<and> w \<le> s \<and> claimed \<le> w / s * 100 + tol)
   \<and> (0 < s \<and> tol < claimed \<longrightarrow> validate_claim_percentage claimed 0 s tol = Inl ZeroDivisionError)"
proof (intro conjI impI)
  assume run: "validate_claim_percentage claimed w s tol = Inr c"
  then obtain p where "waste_percentage w s = Inr p"
    by (auto simp: validate_claim_percentage_def py_simps)
  then have "0 \<le> w \<and> w \<le> s" using waste_guard.accepts_iff [of "(w, s)" p] by auto
  with claim_percentage_supported [OF run]
  show "c = claimed" "0 < s" "0 \<le> w" "w \<le> s" "claimed \<le> w / s * 100 + tol" by auto
next
  assume "0 < s \<and> tol < claimed"
  then show "validate_claim_percentage claimed 0 s tol = Inl ZeroDivisionError"
    using claim_without_waste by blast
qed

theorem claim_percentage_evidence_witness:
  "validate_claim_percentage 20 25 100 0 = Inr 20 \<and> (20::rat) \<le> 25 / 100 * 100
   \<and> validate_claim_percentage 20 0 100 0 = Inl ZeroDivisionError"
proof -
  have run: "validate_claim_percentage 20 25 100 0 = Inr 20"
    by (simp add: validate_claim_percentage_def waste_percentage_def)
  with claim_percentage_evidence [of 20 25 100 0 20] show ?thesis by simp
qed

end
