(* ===== verification/FinopsAudit.thy ===== *)
theory FinopsAudit
  imports FinopsRisk FinopsCost FinopsClaims "HOL-Library.Multiset"
begin

text \<open>
  \<open>src/core/finops_invariants/audit.py\<close>: \<open>audit_dataset\<close> runs every invariant over a
  dashboard dataset and collects the violations; the other functions compare an audit with a
  real account.
\<close>

section \<open>Datasets and violations\<close>

text \<open>A missing key and a \<open>None\<close> value are both \<open>None\<close>; a missing list is empty.\<close>

record dataset =
  ds_spend :: "rat option"
  ds_waste :: "rat option"
  ds_potential :: "rat option"
  ds_yearly :: "rat option"
  ds_reduction :: "rat option"
  ds_budget :: "rat option"
  ds_budget_used :: "rat option"
  ds_forecast :: "rat option"
  ds_currency :: "string option"
  ds_services :: "(string \<times> rat) list"
  ds_recommendations :: "fin_rec list"

datatype severity = SevCritical | SevHigh | SevMedium | SevLow

fun severity_order :: "severity \<Rightarrow> nat" where
  "severity_order SevCritical = 0"
| "severity_order SevHigh = 1"
| "severity_order SevMedium = 2"
| "severity_order SevLow = 3"

text \<open>The message of a violation: the exception it reports, or the values it prints.\<close>

datatype audit_msg =
    FromError finops_error
  | MissingCurrency
  | YearlyMismatch rat rat
  | ReductionMismatch rat rat
  | BudgetUsedMismatch rat rat
  | DuplicateResource string

record violation =
  v_rule :: string
  v_severity :: severity
  v_message :: audit_msg

text \<open>\<open>_check\<close>: only \<open>FinOpsInvariantError\<close> is caught.\<close>

definition audit_check :: "string \<Rightarrow> severity \<Rightarrow> 'a fin \<Rightarrow> violation list fin" where
  "audit_check rule sev r =
     py_bind (catches r) (\<lambda>caught. Inr
       (case caught of None \<Rightarrow> []
        | Some e \<Rightarrow> [\<lparr>v_rule = rule, v_severity = sev, v_message = FromError e\<rparr>]))"

section \<open>The checks, in the order of the source\<close>

definition audit_currency :: "dataset \<Rightarrow> violation list fin" where
  "audit_currency ds =
     Inr (if \<not> truthy (ds_currency ds)
          then [\<lparr>v_rule = ''missing_currency'', v_severity = SevHigh, v_message = MissingCurrency\<rparr>]
          else [])"

definition audit_waste :: "dataset \<Rightarrow> violation list fin" where
  "audit_waste ds =
     (case (ds_spend ds, ds_waste ds) of
        (Some spend, Some waste) \<Rightarrow>
          audit_check ''waste_within_spend'' SevCritical (waste_percentage waste spend)
      | _ \<Rightarrow> Inr [])"

definition audit_potential :: "dataset \<Rightarrow> violation list fin" where
  "audit_potential ds =
     (case (ds_waste ds, ds_potential ds) of
        (Some waste, Some potential) \<Rightarrow>
          audit_check ''potential_within_detected'' SevCritical
            (validate_potential_vs_detected potential waste)
      | _ \<Rightarrow> Inr [])"

definition audit_yearly :: "dataset \<Rightarrow> violation list fin" where
  "audit_yearly ds =
     (case (ds_potential ds, ds_yearly ds) of
        (Some potential, Some yearly) \<Rightarrow>
          (let expected = annualize potential
           in Inr (if \<bar>yearly - expected\<bar> > 1 / 100
                   then [\<lparr>v_rule = ''yearly_is_monthly_x12'', v_severity = SevHigh,
                          v_message = YearlyMismatch yearly expected\<rparr>]
                   else []))
      | _ \<Rightarrow> Inr [])"

definition audit_reduction :: "dataset \<Rightarrow> violation list fin" where
  "audit_reduction ds =
     (case (ds_reduction ds, ds_spend ds, ds_potential ds) of
        (Some reduction, Some spend, Some potential) \<Rightarrow>
          if spend = 0 then Inr []
          else (let actual = potential / spend * 100
                in Inr (if \<bar>reduction - actual\<bar> > 1
                        then [\<lparr>v_rule = ''reduction_recomputable'', v_severity = SevHigh,
                               v_message = ReductionMismatch reduction actual\<rparr>]
                        else []))
      | _ \<Rightarrow> Inr [])"

definition audit_forecast :: "dataset \<Rightarrow> violation list fin" where
  "audit_forecast ds =
     (case (ds_forecast ds, ds_spend ds) of
        (Some forecast, Some spend) \<Rightarrow>
          audit_check ''forecast_not_below_spend'' SevCritical (validate_forecast forecast spend)
      | _ \<Rightarrow> Inr [])"

text \<open>Here \<open>budget_used_percentage\<close> is called outside \<open>_check\<close>: its exception escapes.\<close>

definition audit_budget :: "dataset \<Rightarrow> violation list fin" where
  "audit_budget ds =
     (case (ds_budget ds, ds_spend ds, ds_budget_used ds) of
        (Some budget, Some spend, Some budget_used) \<Rightarrow>
          py_bind (budget_used_percentage spend budget) (\<lambda>actual. Inr
            (if \<bar>budget_used - actual\<bar> > 1 / 2
             then [\<lparr>v_rule = ''budget_used_recomputable'', v_severity = SevMedium,
                    v_message = BudgetUsedMismatch budget_used actual\<rparr>]
             else []))
      | _ \<Rightarrow> Inr [])"

definition audit_services :: "dataset \<Rightarrow> violation list fin" where
  "audit_services ds =
     (case ds_spend ds of
        Some spend \<Rightarrow>
          if ds_services ds = [] then Inr []
          else audit_check ''service_sum_matches_total'' SevMedium
                 (validate_service_breakdown (dict_merge [] (ds_services ds)) spend
                    breakdown_tolerance)
      | None \<Rightarrow> Inr [])"

definition str_or :: "string option \<Rightarrow> string \<Rightarrow> string" where
  "str_or x d = (case x of None \<Rightarrow> d | Some s \<Rightarrow> s)"

definition rec_id_or_unknown :: "fin_rec \<Rightarrow> string" where
  "rec_id_or_unknown r = str_or (fr_resource_id r) ''?''"

definition audit_rec_saving :: "fin_rec \<Rightarrow> violation list fin" where
  "audit_rec_saving r =
     audit_check ''saving_within_resource_cost'' SevHigh
       (validate_recommendation_saving (get_or (fr_potential_saving r) 0)
          (get_or (fr_monthly_cost r) 0))"

definition audit_rec_risk :: "fin_rec \<Rightarrow> violation list fin" where
  "audit_rec_risk r =
     audit_check ''risk_floor'' SevCritical
       (validate_risk_level (str_or (fr_action r) []) (fr_environment r)
          (str_or (fr_risk r) ''low'') (fr_owner r))"

text \<open>The loop over the recommendations, with \<open>seen_resources\<close>.\<close>

fun audit_recs :: "fin_rec list \<Rightarrow> string list \<Rightarrow> violation list fin" where
  "audit_recs [] seen = Inr []"
| "audit_recs (r # rs) seen =
     (let rid = rec_id_or_unknown r;
          dup = (if rid \<in> set seen
                 then [\<lparr>v_rule = ''duplicate_resource'', v_severity = SevHigh,
                        v_message = DuplicateResource rid\<rparr>]
                 else [])
      in py_bind (audit_rec_saving r) (\<lambda>v1.
         py_bind (audit_rec_risk r) (\<lambda>v2.
         py_bind (audit_recs rs (rid # seen)) (\<lambda>v3. Inr (dup @ v1 @ v2 @ v3)))))"

fun py_concat :: "'a list fin list \<Rightarrow> 'a list fin" where
  "py_concat [] = Inr []"
| "py_concat (m # ms) = py_bind m (\<lambda>xs. py_bind (py_concat ms) (\<lambda>ys. Inr (xs @ ys)))"

definition audit_violations :: "dataset \<Rightarrow> violation list fin" where
  "audit_violations ds =
     py_concat
       [audit_currency ds, audit_waste ds, audit_potential ds, audit_yearly ds,
        audit_reduction ds, audit_forecast ds, audit_budget ds, audit_services ds,
        audit_recs (ds_recommendations ds) []]"

definition audit_dataset :: "dataset \<Rightarrow> violation list fin" where
  "audit_dataset ds =
     py_bind (audit_violations ds) (\<lambda>vs. Inr (sort_key (severity_order \<circ> v_severity) vs))"

section \<open>Comparison with a real account\<close>

definition validate_within_tolerance_pct :: "rat \<Rightarrow> rat \<Rightarrow> rat \<Rightarrow> rat fin" where
  "validate_within_tolerance_pct actual reference tolerance_pct =
     (if reference = 0 then Inl (Raised ToleranceReferenceZero)
      else
        let delta_pct = \<bar>actual - reference\<bar> / \<bar>reference\<bar> * 100
        in if delta_pct > tolerance_pct
           then Inl (Raised (ToleranceExceeded delta_pct tolerance_pct))
           else Inr delta_pct)"

definition validate_resources_exist_in_aws :: "string list \<Rightarrow> string set \<Rightarrow> bool fin" where
  "validate_resources_exist_in_aws recommended_resource_ids aws_resource_ids =
     (let missing = filter (\<lambda>r. r \<notin> aws_resource_ids) recommended_resource_ids
      in if missing \<noteq> [] then Inl (Raised (ResourcesNotInAws missing)) else Inr True)"

definition validate_read_only_audit :: "string list \<Rightarrow> string set \<Rightarrow> bool fin" where
  "validate_read_only_audit api_calls forbidden_write_actions =
     (let violations = filter (\<lambda>c. c \<in> forbidden_write_actions) (remdups api_calls)
      in if violations \<noteq> [] then Inl (Raised (WriteDuringAudit violations)) else Inr True)"

definition validate_audit_trace ::
    "string option \<Rightarrow> string option \<Rightarrow> string option \<Rightarrow> bool fin" where
  "validate_audit_trace trace_id started_at completed_at =
     (let missing = map fst (filter (\<lambda>(name, v). \<not> truthy v)
            [(''trace_id'', trace_id), (''started_at'', started_at),
             (''completed_at'', completed_at)])
      in if missing \<noteq> [] then Inl (Raised (MissingTraceFields missing)) else Inr True)"

section \<open>When a check is silent\<close>

named_theorems silent_simps \<open>when a check of the audit reports nothing\<close>

lemma audit_check_silent [silent_simps]: "audit_check rule sev r = Inr [] \<longleftrightarrow> (\<exists>y. r = Inr y)"
  by (auto simp: audit_check_def catches_def split: sum.splits pyexc.splits)

lemma audit_currency_silent [silent_simps]:
  "audit_currency ds = Inr [] \<longleftrightarrow> truthy (ds_currency ds)"
  by (simp add: audit_currency_def)

lemma audit_waste_silent [silent_simps]:
  "audit_waste ds = Inr [] \<longleftrightarrow>
     (\<forall>s w. ds_spend ds = Some s \<longrightarrow> ds_waste ds = Some w \<longrightarrow> 0 < s \<and> 0 \<le> w \<and> w \<le> s)"
  using waste_guard.accepts_iff
  by (auto simp: audit_waste_def audit_check_silent split: option.splits)

lemma audit_potential_silent [silent_simps]:
  "audit_potential ds = Inr [] \<longleftrightarrow>
     (\<forall>w p. ds_waste ds = Some w \<longrightarrow> ds_potential ds = Some p \<longrightarrow> p \<le> w)"
  using potential_guard.accepts_iff
  by (auto simp: audit_potential_def audit_check_silent split: option.splits)

lemma audit_yearly_silent [silent_simps]:
  "audit_yearly ds = Inr [] \<longleftrightarrow>
     (\<forall>p y. ds_potential ds = Some p \<longrightarrow> ds_yearly ds = Some y \<longrightarrow> \<bar>y - 12 * p\<bar> \<le> 1 / 100)"
  by (auto simp: audit_yearly_def Let_def annualize_def MONTHS_PER_YEAR_def mult.commute
      split: option.splits)

lemma audit_forecast_silent [silent_simps]:
  "audit_forecast ds = Inr [] \<longleftrightarrow>
     (\<forall>f s. ds_forecast ds = Some f \<longrightarrow> ds_spend ds = Some s \<longrightarrow> s \<le> f)"
  using forecast_guard.accepts_iff
  by (auto simp: audit_forecast_def audit_check_silent split: option.splits)

lemma audit_rec_saving_silent [silent_simps]:
  "audit_rec_saving r = Inr [] \<longleftrightarrow>
     0 \<le> get_or (fr_potential_saving r) 0
     \<and> get_or (fr_potential_saving r) 0 \<le> get_or (fr_monthly_cost r) 0"
  using saving_guard.accepts_iff
    [of "(get_or (fr_potential_saving r) 0, get_or (fr_monthly_cost r) 0)"]
  by (auto simp: audit_rec_saving_def audit_check_silent)

lemma audit_rec_risk_silent [silent_simps]:
  "audit_rec_risk r = Inr [] \<longleftrightarrow>
     (\<exists>k. str_or (fr_risk r) ''low'' = risk_name k
        \<and> minimum_risk_for (str_or (fr_action r) []) (fr_environment r) (fr_owner r) \<le> k)"
  using risk_guard.accepts_iff
    [of "(str_or (fr_action r) [], fr_environment r, str_or (fr_risk r) ''low'', fr_owner r)"]
  by (auto simp: audit_rec_risk_def audit_check_silent)

lemma audit_recs_silent [silent_simps]:
  "audit_recs rs seen = Inr [] \<longleftrightarrow>
     distinct (map rec_id_or_unknown rs) \<and> set (map rec_id_or_unknown rs) \<inter> set seen = {}
     \<and> (\<forall>r \<in> set rs. audit_rec_saving r = Inr [] \<and> audit_rec_risk r = Inr [])"
proof (induction rs arbitrary: seen)
  case Nil
  then show ?case by simp
next
  case (Cons r rs)
  show ?case
    by (auto simp: Let_def py_simps Cons.IH split: if_splits)
qed

lemma py_concat_silent: "py_concat ms = Inr [] \<longleftrightarrow> (\<forall>m \<in> set ms. m = Inr [])"
  by (induction ms) (auto simp: py_simps)

lemma audit_dataset_silent:
  "audit_dataset ds = Inr [] \<longleftrightarrow> audit_violations ds = Inr []"
proof -
  have "sort_key f vs = [] \<longleftrightarrow> vs = []" for f :: "violation \<Rightarrow> nat" and vs
    by (metis length_0_conv length_sort)
  then show ?thesis by (auto simp: audit_dataset_def py_simps)
qed

text \<open>What the audit returns: a permutation of what the checks report, most severe first.\<close>

lemma audit_dataset_sorted:
  assumes "audit_dataset ds = Inr vs"
  shows "sorted (map (severity_order \<circ> v_severity) vs)
    \<and> (\<exists>us. audit_violations ds = Inr us \<and> mset vs = mset us)"
  using assms by (auto simp: audit_dataset_def py_simps)

text \<open>The two ways in which the audit raises although its documentation says it never does.\<close>

lemma audit_budget_raises:
  assumes "ds_budget ds = Some b" "b \<le> 0" "ds_spend ds = Some s" "ds_budget_used ds = Some u"
  shows "audit_budget ds = Inl (Raised (BudgetNotPositive b))"
  using assms by (simp add: audit_budget_def budget_used_percentage_def)

lemma audit_check_finops_total:
  assumes "\<And>e. r = Inl e \<Longrightarrow> \<exists>f. e = Raised f"
  shows "\<exists>vs. audit_check rule sev r = Inr vs"
  using assms by (cases r) (auto simp: audit_check_def catches_def)

section \<open>Properties\<close>

text \<open>
  C38: when the audit of a dataset that states spend, waste, potential, yearly saving and forecast
  reports nothing, the figures form a cascade (potential within waste within spend within
  forecast, spend positive), the yearly figure is twelve times the monthly one to a cent, no
  resource is counted twice, and every recommendation saves no more than its resource costs at a
  risk level no lower than its floor.
\<close>

theorem silent_audit_cascade:
  assumes "audit_dataset ds = Inr []"
    and "ds_spend ds = Some s" "ds_waste ds = Some w" "ds_potential ds = Some p"
    and "ds_yearly ds = Some y" "ds_forecast ds = Some f"
  shows "p \<le> w \<and> 0 \<le> w \<and> w \<le> s \<and> 0 < s \<and> s \<le> f \<and> \<bar>y - 12 * p\<bar> \<le> 1 / 100
    \<and> truthy (ds_currency ds)
    \<and> distinct (map rec_id_or_unknown (ds_recommendations ds))
    \<and> list_all (\<lambda>r. get_or (fr_potential_saving r) 0 \<le> get_or (fr_monthly_cost r) 0
        \<and> (\<exists>k. str_or (fr_risk r) ''low'' = risk_name k
            \<and> minimum_risk_for (str_or (fr_action r) []) (fr_environment r) (fr_owner r) \<le> k))
      (ds_recommendations ds)"
proof -
  have all: "\<forall>m \<in> set [audit_currency ds, audit_waste ds, audit_potential ds, audit_yearly ds,
        audit_reduction ds, audit_forecast ds, audit_budget ds, audit_services ds,
        audit_recs (ds_recommendations ds) []]. m = Inr []"
    using assms(1) unfolding audit_dataset_silent audit_violations_def py_concat_silent .
  have "audit_currency ds = Inr []" "audit_waste ds = Inr []" "audit_potential ds = Inr []"
    "audit_yearly ds = Inr []" "audit_forecast ds = Inr []"
    "audit_recs (ds_recommendations ds) [] = Inr []"
    using all by simp_all
  then show ?thesis
    using assms(2-) by (simp add: silent_simps list_all_iff)
qed

definition sample_dataset :: dataset where
  "sample_dataset =
     \<lparr>ds_spend = Some 100, ds_waste = Some 30, ds_potential = Some 20, ds_yearly = Some 240,
      ds_reduction = None, ds_budget = None, ds_budget_used = None, ds_forecast = Some 150,
      ds_currency = Some ''EUR'', ds_services = [],
      ds_recommendations = []\<rparr>"

theorem silent_audit_cascade_witness:
  "audit_dataset sample_dataset = Inr [] \<and> (20::rat) \<le> 30 \<and> (100::rat) \<le> 150"
proof -
  have run: "audit_dataset sample_dataset = Inr []"
    unfolding audit_dataset_silent audit_violations_def py_concat_silent
    by (simp add: silent_simps) (simp add: sample_dataset_def audit_reduction_def audit_budget_def
        audit_services_def)
  from silent_audit_cascade [OF this, of 100 30 20 240 150] run show ?thesis
    by (simp add: sample_dataset_def)
qed

text \<open>
  The report of the audit is a permutation of the violations found by the checks, the most
  severe first.
\<close>

theorem audit_report_ranked:
  assumes "audit_dataset ds = Inr vs"
  shows "sorted (map (severity_order \<circ> v_severity) vs)
    \<and> (\<exists>us. audit_violations ds = Inr us \<and> mset vs = mset us)"
  by (rule audit_dataset_sorted [OF assms])

theorem audit_report_ranked_witness:
  "\<exists>vs. audit_dataset (sample_dataset\<lparr>ds_waste := Some 200, ds_currency := None\<rparr>) = Inr vs
     \<and> map v_severity vs = [SevCritical, SevHigh] \<and> sorted (map (severity_order \<circ> v_severity) vs)"
proof -
  let ?ds = "sample_dataset\<lparr>ds_waste := Some 200, ds_currency := None\<rparr>"
  have run: "audit_dataset ?ds = Inr
    [\<lparr>v_rule = ''waste_within_spend'', v_severity = SevCritical, v_message = FromError (WasteExceedsSpend 200 100)\<rparr>,
     \<lparr>v_rule = ''missing_currency'', v_severity = SevHigh, v_message = MissingCurrency\<rparr>]"
    by (simp add: audit_dataset_def audit_violations_def sample_dataset_def audit_currency_def
        audit_waste_def audit_potential_def audit_yearly_def audit_reduction_def audit_forecast_def
        audit_budget_def audit_services_def audit_check_def catches_def waste_percentage_def
        validate_potential_vs_detected_def validate_forecast_def annualize_def MONTHS_PER_YEAR_def)
  from audit_report_ranked [OF run] run show ?thesis by simp
qed

text \<open>
  A dataset with a budget that is not positive makes the whole audit raise instead of
  reporting a violation, although every earlier check reports normally.
\<close>

theorem audit_raises_on_bad_budget:
  assumes "ds_budget ds = Some b" "b \<le> 0" "ds_spend ds = Some s" "ds_budget_used ds = Some u"
  shows "audit_dataset ds = Inl (Raised (BudgetNotPositive b))"
proof -
  have total: "\<exists>vs. audit_waste ds = Inr vs" "\<exists>vs. audit_potential ds = Inr vs"
    "\<exists>vs. audit_forecast ds = Inr vs"
    using waste_guard.raises_own potential_guard.raises_own forecast_guard.raises_own
    by (force simp: audit_waste_def audit_potential_def audit_forecast_def
        intro!: audit_check_finops_total split: option.splits)+
  have "\<exists>vs. audit_currency ds = Inr vs" "\<exists>vs. audit_yearly ds = Inr vs"
    "\<exists>vs. audit_reduction ds = Inr vs"
    by (simp_all add: audit_currency_def audit_yearly_def audit_reduction_def Let_def
        split: option.splits)
  with total audit_budget_raises [OF assms] show ?thesis
    by (auto simp: audit_dataset_def audit_violations_def)
qed

theorem audit_raises_on_bad_budget_witness:
  "audit_dataset (sample_dataset\<lparr>ds_budget := Some 0, ds_budget_used := Some 10\<rparr>)
     = Inl (Raised (BudgetNotPositive 0))"
  by (rule audit_raises_on_bad_budget [where s = 100 and u = 10]) (simp_all add: sample_dataset_def)

end
