(* ===== verification/Store.thy ===== *)
theory Store
  imports Prelude
begin

text \<open>
  The state the program works on: the PostgreSQL tables of \<open>sql/init.sql\<close> and
  \<open>sql/migrations/\<close> with the SQL statements the code issues (\<open>INSERT ... RETURNING id\<close>,
  \<open>UPDATE ... WHERE\<close>, \<open>SELECT ... WHERE\<close>), and the sequence of write calls made to
  AWS. Every table has a \<open>SERIAL\<close> key. Statements do not fail: a lost database connection
  is outside the model. Columns that only record provenance (\<open>provider\<close>,
  \<open>account_id\<close>, \<open>created_at\<close>, \<open>updated_at\<close>, and the \<open>metadata\<close> and \<open>error_message\<close> of an
  action) are left out, decimals are kept exact.
\<close>

section \<open>Tables\<close>

record 'r table =
  t_rows :: "'r list"
  t_next :: nat

definition t_insert :: "(nat \<Rightarrow> 'r) \<Rightarrow> 'r table \<Rightarrow> nat \<times> 'r table" where
  "t_insert mk t = (t_next t, \<lparr>t_rows = t_rows t @ [mk (t_next t)], t_next = t_next t + 1\<rparr>)"

definition t_update :: "('r \<Rightarrow> bool) \<Rightarrow> ('r \<Rightarrow> 'r) \<Rightarrow> 'r table \<Rightarrow> 'r table" where
  "t_update p f t = t\<lparr>t_rows := map (\<lambda>r. if p r then f r else r) (t_rows t)\<rparr>"

definition t_select :: "('r \<Rightarrow> bool) \<Rightarrow> 'r table \<Rightarrow> 'r list" where
  "t_select p t = filter p (t_rows t)"

text \<open>\<open>cursor.rowcount\<close> of an \<open>UPDATE\<close>.\<close>

definition t_count :: "('r \<Rightarrow> bool) \<Rightarrow> 'r table \<Rightarrow> nat" where
  "t_count p t = length (t_select p t)"

definition t_get :: "('r \<Rightarrow> nat) \<Rightarrow> nat \<Rightarrow> 'r table \<Rightarrow> 'r option" where
  "t_get key i t = find (\<lambda>r. key r = i) (t_rows t)"

definition t_wf :: "('r \<Rightarrow> nat) \<Rightarrow> 'r table \<Rightarrow> bool" where
  "t_wf key t \<longleftrightarrow> distinct (map key (t_rows t)) \<and> (\<forall>r \<in> set (t_rows t). key r < t_next t)"

section \<open>The contract of a keyed table\<close>

locale sql_table =
  fixes key :: "'r \<Rightarrow> nat"
    and get :: "nat \<Rightarrow> 't \<Rightarrow> 'r option"
    and ins :: "(nat \<Rightarrow> 'r) \<Rightarrow> 't \<Rightarrow> nat \<times> 't"
    and upd :: "('r \<Rightarrow> bool) \<Rightarrow> ('r \<Rightarrow> 'r) \<Rightarrow> 't \<Rightarrow> 't"
    and wf :: "'t \<Rightarrow> bool"
  assumes get_key: "get i t = Some r \<Longrightarrow> key r = i"
    and ins_fresh: "wf t \<Longrightarrow> get (fst (ins mk t)) t = None"
    and get_ins: "wf t \<Longrightarrow> (\<And>i. key (mk i) = i) \<Longrightarrow>
      get j (snd (ins mk t)) = (if j = fst (ins mk t) then Some (mk j) else get j t)"
    and get_upd: "(\<And>r. key (f r) = key r) \<Longrightarrow>
      get j (upd p f t) = map_option (\<lambda>r. if p r then f r else r) (get j t)"
    and wf_ins: "wf t \<Longrightarrow> (\<And>i. key (mk i) = i) \<Longrightarrow> wf (snd (ins mk t))"
    and wf_upd: "wf t \<Longrightarrow> (\<And>r. key (f r) = key r) \<Longrightarrow> wf (upd p f t)"
begin

lemma get_upd_key:
  assumes "\<And>r. key (f r) = key r"
  shows "get j (upd (\<lambda>r. key r = i) f t) = (if j = i then map_option f (get i t) else get j t)"
  using get_upd [OF assms, of j "\<lambda>r. key r = i" t] get_key [of j t]
  by (cases "get j t") (auto split: if_splits)

lemma get_upd_guarded:
  assumes "\<And>r. key (f r) = key r"
  shows "get j (upd (\<lambda>r. key r = i \<and> g r) f t)
    = (if j = i then map_option (\<lambda>r. if g r then f r else r) (get i t) else get j t)"
  using get_upd [OF assms, of j "\<lambda>r. key r = i \<and> g r" t] get_key [of j t]
  by (cases "get j t") (auto split: if_splits)

lemma get_upd_None [simp]:
  assumes "\<And>r. key (f r) = key r"
  shows "get j (upd p f t) = None \<longleftrightarrow> get j t = None"
  by (simp add: get_upd [OF assms])

lemma get_ins_old:
  assumes "wf t" "\<And>i. key (mk i) = i" "get j t = Some r"
  shows "get j (snd (ins mk t)) = Some r"
proof -
  have "j \<noteq> fst (ins mk t)" using ins_fresh [OF assms(1), of mk] assms(3) by auto
  then show ?thesis using get_ins [OF assms(1,2), of j] assms(3) by simp
qed

lemma get_ins_new:
  assumes "wf t" "\<And>i. key (mk i) = i"
  shows "get (fst (ins mk t)) (snd (ins mk t)) = Some (mk (fst (ins mk t)))"
  using get_ins [OF assms] by simp

end

lemma find_map_key:
  assumes "\<And>r. key (h r) = key r"
  shows "find (\<lambda>r. key r = j) (map h rs) = map_option h (find (\<lambda>r. key r = j) rs)"
  by (induction rs) (auto simp: assms)

lemma find_append: "find p (xs @ ys) = (case find p xs of None \<Rightarrow> find p ys | Some x \<Rightarrow> Some x)"
  by (induction xs) auto

lemma sql_table_list: "sql_table key (t_get key) t_insert t_update (t_wf key)"
proof (unfold_locales, goal_cases)
  case (1 i t r)
  then show ?case by (auto simp: t_get_def find_Some_iff)
next
  case (2 t mk)
  then show ?case
    by (auto simp: t_get_def t_insert_def t_wf_def find_None_iff)
next
  case (3 t mk j)
  have fresh: "find (\<lambda>r. key r = t_next t) (t_rows t) = None"
    using 3 by (auto simp: t_wf_def find_None_iff)
  show ?case
  proof (cases "j = t_next t")
    case True
    with fresh 3 show ?thesis by (simp add: t_get_def t_insert_def find_append)
  next
    case False
    with 3 show ?thesis
      by (simp add: t_get_def t_insert_def find_append split: option.splits)
  qed
next
  case (4 f j p t)
  have "\<And>r. key (if p r then f r else r) = key r" using 4 by simp
  then show ?case by (simp add: t_get_def t_update_def find_map_key)
next
  case (5 t mk)
  then show ?case by (fastforce simp: t_wf_def t_insert_def)
next
  case (6 t f p)
  have "key (if p r then f r else r) = key r" for r using 6 by simp
  then have keys: "map key (t_rows (t_update p f t)) = map key (t_rows t)"
    by (simp add: t_update_def)
  have "t_wf key u \<longleftrightarrow> distinct (map key (t_rows u)) \<and> (\<forall>k \<in> set (map key (t_rows u)). k < t_next u)"
    for u :: "'a table"
    by (simp add: t_wf_def)
  with keys 6(1) show ?case by (simp only:) (simp add: t_update_def)
qed

lemma t_get_mem: "t_get key i t = Some r \<Longrightarrow> r \<in> set (t_rows t) \<and> key r = i"
  by (auto simp: t_get_def find_Some_iff)

lemma t_get_of_mem:
  assumes "t_wf key t" "r \<in> set (t_rows t)"
  shows "t_get key (key r) t = Some r"
proof (cases "t_get key (key r) t")
  case None
  with assms show ?thesis by (auto simp: t_get_def find_None_iff)
next
  case (Some q)
  from t_get_mem [OF this] have "q \<in> set (t_rows t)" "key q = key r" by auto
  with assms have "q = r" by (auto simp: t_wf_def distinct_map inj_on_def)
  with Some show ?thesis by simp
qed

section \<open>Rows\<close>

text \<open>Every status the program writes or reads; \<open>Cancelled\<close> is only read.\<close>

datatype rec_status =
    Pending | Rejected | Dismissed | Scheduled | PrOpen | ApprovedManual
  | Approved | Applied | Obsolete | Cancelled

datatype log_status = LogPending | LogSuccess | LogFailed | LogBlocked | LogCancelled | LogDryRun

record waste_row =
  w_id :: nat
  w_date :: int
  w_resource_id :: string
  w_resource_type :: string
  w_waste_type :: string
  w_monthly :: rat
  w_confidence :: rat
  w_metadata :: "(string, json) dict"

record rec_row =
  r_id :: nat
  r_waste :: nat
  r_type :: string
  r_action :: string
  r_savings :: rat
  r_status :: rec_status
  r_applied_at :: "int option"
  r_execute_after :: "int option"
  r_pr_url :: "string option"
  r_insight :: "string option"

record log_row =
  l_id :: nat
  l_rec :: "nat option"
  l_resource :: string
  l_rtype :: string
  l_action :: string
  l_status :: log_status
  l_dry :: bool
  l_by :: "string option"
  l_date :: int

record snap_row =
  s_id :: nat
  s_log :: nat
  s_resource :: string
  s_rtype :: string
  s_state :: "(string, json) dict"
  s_can_rollback :: bool
  s_expiry :: int

record saving_row =
  sv_id :: nat
  sv_rec :: nat
  sv_log :: nat
  sv_resource :: string
  sv_before :: rat
  sv_after :: rat
  sv_actual :: rat
  sv_estimated :: rat
  sv_accuracy :: rat
  sv_days :: int

section \<open>AWS writes and the world\<close>

text \<open>The write calls of the program, each with the region its client is bound to.\<close>

datatype aws_call =
    StopInstances string string
  | StartInstances string string
  | TerminateInstances string string
  | ModifyVolumeGp3 string string
  | CreateSnapshot string string
  | DeleteVolume string string
  | DeleteNatGateway string string
  | DeleteClassicLb string string
  | DeleteLbV2 string string
  | ReleaseAddress string string
  | DeleteSnapshot string string
  | DeregisterImage string string

text \<open>
  The history of effects, oldest first: rows of \<open>actions_log\<close> and \<open>rollback_snapshots\<close>
  as they are written, and every AWS write that is attempted.
\<close>

datatype event = EvLog nat | EvSnapshot nat | EvAws aws_call

record world =
  wastes :: "waste_row table"
  recs :: "rec_row table"
  alog :: "log_row table"
  snaps :: "snap_row table"
  svgs :: "saving_row table"
  events :: "event list"

definition aws_calls :: "world \<Rightarrow> aws_call list" where
  "aws_calls w = List.map_filter (\<lambda>e. case e of EvAws c \<Rightarrow> Some c | _ \<Rightarrow> None) (events w)"

text \<open>
  What boto3 raises: \<open>ClientError\<close> for an error answered by the service, anything else
  (connection, time-out, credentials) otherwise; both carry the text \<open>str(e)\<close>.
\<close>

datatype aws_exc = ClientError string | OtherError string

fun exc_text :: "aws_exc \<Rightarrow> string" where
  "exc_text (ClientError m) = m"
| "exc_text (OtherError m) = m"

text \<open>
  What the environment decides: the clock (seconds, and the calendar day number), the local
  weekday and hour, and the outcome of the \<open>n\<close>-th AWS write, \<open>None\<close> for success and
  \<open>Some e\<close> when it raises \<open>e\<close>.
\<close>

record env =
  e_now :: int
  e_today :: int
  e_weekday :: string
  e_hour :: int
  e_write :: "nat \<Rightarrow> aws_call \<Rightarrow> aws_exc option"

definition aws_do :: "env \<Rightarrow> aws_call \<Rightarrow> world \<Rightarrow> aws_exc option \<times> world" where
  "aws_do env c w =
     (e_write env (length (aws_calls w)) c, w\<lparr>events := events w @ [EvAws c]\<rparr>)"

definition world_wf :: "world \<Rightarrow> bool" where
  "world_wf w \<longleftrightarrow> t_wf w_id (wastes w) \<and> t_wf r_id (recs w) \<and> t_wf l_id (alog w)
     \<and> t_wf s_id (snaps w) \<and> t_wf sv_id (svgs w)"

interpretation waste_table: sql_table w_id "t_get w_id" t_insert t_update "t_wf w_id"
  by (rule sql_table_list)

interpretation rec_table: sql_table r_id "t_get r_id" t_insert t_update "t_wf r_id"
  by (rule sql_table_list)

interpretation log_table: sql_table l_id "t_get l_id" t_insert t_update "t_wf l_id"
  by (rule sql_table_list)

interpretation snap_table: sql_table s_id "t_get s_id" t_insert t_update "t_wf s_id"
  by (rule sql_table_list)

interpretation saving_table: sql_table sv_id "t_get sv_id" t_insert t_update "t_wf sv_id"
  by (rule sql_table_list)

section \<open>Statements shared by several components\<close>

text \<open>\<open>recommendations r JOIN waste_detected w ON r.waste_id = w.id\<close>, one row by \<open>r.id\<close>.\<close>

definition rec_join :: "nat \<Rightarrow> world \<Rightarrow> (rec_row \<times> waste_row) option" where
  "rec_join rid w =
     (case t_get r_id rid (recs w) of
        None \<Rightarrow> None
      | Some r \<Rightarrow> (case t_get w_id (r_waste r) (wastes w) of None \<Rightarrow> None | Some x \<Rightarrow> Some (r, x)))"

text \<open>All rows of the join, in the order of the recommendations.\<close>

definition joined :: "world \<Rightarrow> (rec_row \<times> waste_row) list" where
  "joined w =
     List.map_filter (\<lambda>r. map_option (Pair r) (t_get w_id (r_waste r) (wastes w))) (t_rows (recs w))"

definition status_of :: "nat \<Rightarrow> world \<Rightarrow> rec_status option" where
  "status_of rid w = map_option r_status (t_get r_id rid (recs w))"

text \<open>\<open>sql/init.sql\<close>, view \<open>active_waste\<close>: a waste row without a recommendation counts.\<close>

definition active_waste :: "world \<Rightarrow> waste_row list" where
  "active_waste w =
     filter (\<lambda>x. case find (\<lambda>r. r_waste r = w_id x) (t_rows (recs w)) of
                   None \<Rightarrow> True
                 | Some r \<Rightarrow> r_status r \<notin> set [Obsolete, Applied, Approved, Dismissed])
       (t_rows (wastes w))"

lemma aws_calls_append [simp]:
  "aws_calls (w\<lparr>events := es @ [EvAws c]\<rparr>) = aws_calls (w\<lparr>events := es\<rparr>) @ [c]"
  "aws_calls (w\<lparr>events := es @ [EvLog i]\<rparr>) = aws_calls (w\<lparr>events := es\<rparr>)"
  "aws_calls (w\<lparr>events := es @ [EvSnapshot i]\<rparr>) = aws_calls (w\<lparr>events := es\<rparr>)"
  by (simp_all add: aws_calls_def map_filter_def)

lemma aws_calls_cong: "events w = events v \<Longrightarrow> aws_calls w = aws_calls v"
  by (simp add: aws_calls_def)

lemma aws_calls_frame [simp]:
  "aws_calls (w\<lparr>recs := r\<rparr>) = aws_calls w"
  "aws_calls (w\<lparr>wastes := ws\<rparr>) = aws_calls w"
  "aws_calls (w\<lparr>alog := a\<rparr>) = aws_calls w"
  "aws_calls (w\<lparr>snaps := s\<rparr>) = aws_calls w"
  "aws_calls (w\<lparr>svgs := v\<rparr>) = aws_calls w"
  by (simp_all add: aws_calls_def)

lemma aws_do_simps [simp]:
  "recs (snd (aws_do env c w)) = recs w"
  "wastes (snd (aws_do env c w)) = wastes w"
  "alog (snd (aws_do env c w)) = alog w"
  "snaps (snd (aws_do env c w)) = snaps w"
  "svgs (snd (aws_do env c w)) = svgs w"
  "events (snd (aws_do env c w)) = events w @ [EvAws c]"
  by (simp_all add: aws_do_def)

lemma aws_do_calls [simp]: "aws_calls (snd (aws_do env c w)) = aws_calls w @ [c]"
  by (simp add: aws_calls_def map_filter_def)

lemma t_insert_simps [simp]:
  "fst (t_insert mk t) = t_next t"
  "t_rows (snd (t_insert mk t)) = t_rows t @ [mk (t_next t)]"
  by (simp_all add: t_insert_def)

lemma joined_mem:
  "(r, x) \<in> set (joined w) \<Longrightarrow>
   r \<in> set (t_rows (recs w)) \<and> t_get w_id (r_waste r) (wastes w) = Some x"
  by (auto simp: joined_def map_filter_def)

section \<open>A sample state for concrete instances\<close>

definition sample_env :: env where
  "sample_env = \<lparr>e_now = 100 * 86400, e_today = 100, e_weekday = ''Monday'', e_hour = 3,
     e_write = \<lambda>_ _. None\<rparr>"

definition sample_world :: world where
  "sample_world =
     \<lparr>wastes = \<lparr>t_rows = [\<lparr>w_id = 7, w_date = 50, w_resource_id = ''i-1'',
         w_resource_type = ''ec2_instance'', w_waste_type = ''idle_compute'', w_monthly = 30,
         w_confidence = 1, w_metadata = []\<rparr>], t_next = 8\<rparr>,
      recs = \<lparr>t_rows = [\<lparr>r_id = 7, r_waste = 7, r_type = ''stop_instance'', r_action = ''Stop'',
         r_savings = 30, r_status = Pending, r_applied_at = None, r_execute_after = None,
         r_pr_url = None, r_insight = None\<rparr>], t_next = 8\<rparr>,
      alog = \<lparr>t_rows = [], t_next = 5\<rparr>, snaps = \<lparr>t_rows = [], t_next = 5\<rparr>,
      svgs = \<lparr>t_rows = [], t_next = 5\<rparr>, events = []\<rparr>"

end
