(* ===== verification/Safeguards.thy ===== *)
theory Safeguards
  imports Store
begin

text \<open>
  \<open>src/core/safeguards.py\<close>: the policy of \<open>config/remediation.yaml\<close> as the parsed YAML
  document, its validation at construction, the individual checks and \<open>validate_all\<close>. The
  checks walk the raw document, as the code does, so that a section that is \<open>null\<close> or has
  another type raises; the typed policy at the end is what they compute on a well-formed one.
\<close>

section \<open>Exceptions and results\<close>

text \<open>
  \<open>SafeguardException\<close> and \<open>InvalidSafeguardConfig\<close>, one constructor for each raise
  site; \<open>SgMessage\<close> is raised with a text by the callers of this module.
\<close>

datatype sg_error =
    TooYoung int
  | ConfidenceTooLow rat
  | NotIdleLongEnough int
  | OutsideDay string
  | OutsideHour int
  | MaxInstancesReached nat
  | SgMessage string
  | InvalidConfig string

type_synonym 'a sg = "sg_error pyexc + 'a"

record sg_result =
  checks_passed :: "string list"
  checks_failed :: "string list"
  safe_to_proceed :: bool
  sg_reason :: "sg_error option"

section \<open>Validation of the document\<close>

text \<open>\<open>v or {}\<close>.\<close>

definition json_or_empty :: "json \<Rightarrow> json" where
  "json_or_empty v = (if json_truthy v then v else JObj [])"

text \<open>\<open>k in v\<close> for a string \<open>k\<close>.\<close>

fun json_in :: "string \<Rightarrow> json \<Rightarrow> 'e pyexc + bool" where
  "json_in k (JObj d) = Inr (k \<in> set (map fst d))"
| "json_in k (JList xs) = Inr (JStr k \<in> set xs)"
| "json_in k (JStr s) = Inr (contains k s)"
| "json_in k _ = Inl TypeError"

text \<open>\<open>v[k]\<close> for a string \<open>k\<close>.\<close>

fun json_index :: "string \<Rightarrow> json \<Rightarrow> 'e pyexc + json" where
  "json_index k (JObj d) = (case map_of d k of None \<Rightarrow> Inl KeyError | Some v \<Rightarrow> Inr v)"
| "json_index k _ = Inl TypeError"

definition PROTECTION_BOUNDS :: "(string \<times> rat \<times> rat) list" where
  "PROTECTION_BOUNDS =
     [(''min_instance_age_days'', 0, 3650), (''min_idle_days'', 0, 3650),
      (''min_confidence_score'', 0, 1), (''max_instances_per_run'', 1, 10000)]"

definition VALID_WEEKDAYS :: "string list" where
  "VALID_WEEKDAYS =
     [''Monday'', ''Tuesday'', ''Wednesday'', ''Thursday'', ''Friday'', ''Saturday'', ''Sunday'']"

fun check_bounds :: "(string \<times> rat \<times> rat) list \<Rightarrow> json \<Rightarrow> unit sg" where
  "check_bounds [] protection = Inr ()"
| "check_bounds ((key, lo, hi) # bs) protection =
     py_bind (json_in key protection) (\<lambda>present.
       if \<not> present then check_bounds bs protection
       else py_bind (json_index key protection) (\<lambda>v.
         case json_num v of
           None \<Rightarrow> Inl (Raised (InvalidConfig key))
         | Some x \<Rightarrow>
             if \<not> (lo \<le> x \<and> x \<le> hi) then Inl (Raised (InvalidConfig key))
             else check_bounds bs protection))"

text \<open>\<open>isinstance(rule, dict) and "key" in rule and "value" in rule\<close>.\<close>

fun tag_rule_ok :: "json \<Rightarrow> bool" where
  "tag_rule_ok (JObj d) = (''key'' \<in> set (map fst d) \<and> ''value'' \<in> set (map fst d))"
| "tag_rule_ok _ = False"

fun is_hour :: "json \<Rightarrow> bool" where
  "is_hour (JInt h) = (0 \<le> h \<and> h \<le> 23)"
| "is_hour _ = False"

text \<open>\<open>d in _VALID_WEEKDAYS\<close>: an unhashable element raises.\<close>

fun is_weekday :: "json \<Rightarrow> bool sg" where
  "is_weekday (JStr s) = Inr (s \<in> set VALID_WEEKDAYS)"
| "is_weekday (JList _) = Inl TypeError"
| "is_weekday (JObj _) = Inl TypeError"
| "is_weekday _ = Inr False"

text \<open>\<open>all(...)\<close> stops at the first element that fails.\<close>

fun all_weekdays :: "json list \<Rightarrow> bool sg" where
  "all_weekdays [] = Inr True"
| "all_weekdays (d # ds) = py_bind (is_weekday d) (\<lambda>b. if b then all_weekdays ds else Inr False)"

text \<open>The three sections that \<open>_validate_config\<close> looks at, in its order.\<close>

definition validate_protection :: "json \<Rightarrow> unit sg" where
  "validate_protection config =
     py_bind (json_get ''protection'' (JObj []) config) (\<lambda>p.
       check_bounds PROTECTION_BOUNDS (json_or_empty p))"

definition validate_whitelist :: "json \<Rightarrow> unit sg" where
  "validate_whitelist config =
     py_bind (json_get ''whitelist'' (JObj []) config) (\<lambda>wl.
     py_bind (json_get ''instance_ids'' (JList []) (json_or_empty wl)) (\<lambda>ids.
     case ids of
       JList _ \<Rightarrow>
         py_bind (json_get ''tags'' (JList []) (json_or_empty wl)) (\<lambda>tags.
         case tags of
           JList rules \<Rightarrow>
             if list_all tag_rule_ok rules then Inr ()
             else Inl (Raised (InvalidConfig ''whitelist.tags''))
         | _ \<Rightarrow> Inl (Raised (InvalidConfig ''whitelist.tags'')))
     | _ \<Rightarrow> Inl (Raised (InvalidConfig ''whitelist.instance_ids''))))"

definition validate_schedule :: "json \<Rightarrow> unit sg" where
  "validate_schedule config =
     py_bind (json_get ''schedule'' (JObj []) config) (\<lambda>s.
     py_bind (json_get ''allowed_days'' (JList []) (json_or_empty s)) (\<lambda>days.
     case days of
       JList ds \<Rightarrow>
         py_bind (all_weekdays ds) (\<lambda>ok.
         if \<not> ok then Inl (Raised (InvalidConfig ''schedule.allowed_days''))
         else
           py_bind (json_get ''allowed_hours'' (JList []) (json_or_empty s)) (\<lambda>hours.
           case hours of
             JList hs \<Rightarrow>
               if list_all is_hour hs then Inr ()
               else Inl (Raised (InvalidConfig ''schedule.allowed_hours''))
           | _ \<Rightarrow> Inl (Raised (InvalidConfig ''schedule.allowed_hours''))))
     | _ \<Rightarrow> Inl (Raised (InvalidConfig ''schedule.allowed_days''))))"

definition validate_config :: "json \<Rightarrow> unit sg" where
  "validate_config config =
     py_bind (validate_protection config) (\<lambda>_.
     py_bind (validate_whitelist config) (\<lambda>_. validate_schedule config))"

text \<open>\<open>_load_config\<close> on a readable file: validates \<open>config or {}\<close>, returns \<open>config\<close>.\<close>

definition load_config :: "json \<Rightarrow> json sg" where
  "load_config config = py_bind (validate_config (json_or_empty config)) (\<lambda>_. Inr config)"

section \<open>The checks\<close>

text \<open>\<open>self.config.get(section, {}).get(key, default)\<close>.\<close>

definition config_get :: "json \<Rightarrow> string \<Rightarrow> string \<Rightarrow> json \<Rightarrow> json sg" where
  "config_get cfg sect key dflt =
     py_bind (json_get sect (JObj []) cfg) (\<lambda>s. json_get key dflt s)"

definition is_auto_remediation_enabled :: "json \<Rightarrow> bool sg" where
  "is_auto_remediation_enabled cfg =
     py_bind (config_get cfg ''auto_remediation'' ''enabled'' (JBool False))
       (\<lambda>v. Inr (json_truthy v))"

definition is_action_enabled :: "json \<Rightarrow> string \<Rightarrow> bool sg" where
  "is_action_enabled cfg action_type =
     py_bind (config_get cfg ''auto_remediation'' ''actions'' (JObj [])) (\<lambda>actions.
     py_bind (json_get action_type (JBool True) actions) (\<lambda>v. Inr (json_truthy v)))"

text \<open>\<open>instance_tags.get(key) == value\<close>: an absent tag is \<open>None\<close>, equal to a null value.\<close>

fun tag_matches :: "(string, string) dict \<Rightarrow> json \<Rightarrow> json \<Rightarrow> bool sg" where
  "tag_matches tags (JStr k) v =
     Inr (case map_of tags k of None \<Rightarrow> v = JNull | Some s \<Rightarrow> v = JStr s)"
| "tag_matches tags (JList _) v = Inl TypeError"
| "tag_matches tags (JObj _) v = Inl TypeError"
| "tag_matches tags _ v = Inr (v = JNull)"

fun any_tag_matches :: "(string, string) dict \<Rightarrow> json list \<Rightarrow> bool sg" where
  "any_tag_matches tags [] = Inr False"
| "any_tag_matches tags (rule # rules) =
     py_bind (json_get ''key'' JNull rule) (\<lambda>k.
     py_bind (json_get ''value'' JNull rule) (\<lambda>v.
     py_bind (tag_matches tags k v) (\<lambda>hit. if hit then Inr True else any_tag_matches tags rules)))"

text \<open>Iteration over a value: only a list of rules makes sense of the loop.\<close>

fun json_iter :: "json \<Rightarrow> json list sg" where
  "json_iter (JList xs) = Inr xs"
| "json_iter (JObj d) = Inr (map (JStr \<circ> fst) d)"
| "json_iter (JStr s) = Inr (map (\<lambda>c. JStr [c]) s)"
| "json_iter _ = Inl TypeError"

definition is_whitelisted :: "json \<Rightarrow> string \<Rightarrow> (string, string) dict \<Rightarrow> bool sg" where
  "is_whitelisted cfg instance_id instance_tags =
     py_bind (json_get ''whitelist'' (JObj []) cfg) (\<lambda>wl.
     py_bind (json_get ''instance_ids'' (JList []) wl) (\<lambda>ids.
     py_bind (json_in instance_id ids) (\<lambda>hit.
     if hit then Inr True
     else
       py_bind (json_get ''tags'' (JList []) wl) (\<lambda>rules.
       py_bind (json_iter rules) (\<lambda>rs. any_tag_matches instance_tags rs)))))"

text \<open>\<open>timedelta.days\<close> of a number of seconds.\<close>

definition days_of_seconds :: "int \<Rightarrow> int" where
  "days_of_seconds s = s div 86400"

definition check_instance_age :: "json \<Rightarrow> env \<Rightarrow> int \<Rightarrow> bool sg" where
  "check_instance_age cfg env launch_time =
     py_bind (config_get cfg ''protection'' ''min_instance_age_days'' (JInt 30)) (\<lambda>v.
     let age_days = days_of_seconds (e_now env - launch_time) in
     py_bind (json_cmp v) (\<lambda>min_age_days.
     if of_int age_days < min_age_days then Inl (Raised (TooYoung age_days)) else Inr True))"

definition check_confidence_score :: "json \<Rightarrow> rat \<Rightarrow> bool sg" where
  "check_confidence_score cfg confidence =
     py_bind (config_get cfg ''protection'' ''min_confidence_score'' (JFloat (8 / 10))) (\<lambda>v.
     py_bind (json_cmp v) (\<lambda>min_confidence.
     if confidence < min_confidence then Inl (Raised (ConfidenceTooLow confidence))
     else Inr True))"

definition check_idle_duration :: "json \<Rightarrow> int \<Rightarrow> bool sg" where
  "check_idle_duration cfg idle_days =
     py_bind (config_get cfg ''protection'' ''min_idle_days'' (JInt 14)) (\<lambda>v.
     py_bind (json_cmp v) (\<lambda>min_idle_days.
     if of_int idle_days < min_idle_days then Inl (Raised (NotIdleLongEnough idle_days))
     else Inr True))"

text \<open>\<open>h in allowed_hours\<close> for an integer.\<close>

fun json_has_int :: "int \<Rightarrow> json \<Rightarrow> bool sg" where
  "json_has_int h (JList xs) = Inr (list_ex (\<lambda>v. json_cmp v = (Inr (of_int h) :: rat sg)) xs)"
| "json_has_int h (JObj _) = Inr False"
| "json_has_int h _ = Inl TypeError"

definition check_schedule :: "json \<Rightarrow> env \<Rightarrow> bool sg" where
  "check_schedule cfg env =
     py_bind (json_get ''schedule'' (JObj []) cfg) (\<lambda>schedule.
     py_bind (json_get ''enabled'' (JBool False) schedule) (\<lambda>enabled.
     if \<not> json_truthy enabled then Inr True
     else
       py_bind (json_get ''allowed_days'' (JList []) schedule) (\<lambda>days.
       py_bind (json_get ''allowed_hours'' (JList []) schedule) (\<lambda>hours.
       py_bind (if json_truthy days then json_in (e_weekday env) days else Inr True) (\<lambda>day_ok.
       if \<not> day_ok then Inl (Raised (OutsideDay (e_weekday env)))
       else
         py_bind (if json_truthy hours then json_has_int (e_hour env) hours else Inr True)
           (\<lambda>hour_ok.
         if \<not> hour_ok then Inl (Raised (OutsideHour (e_hour env))) else Inr True))))))"

definition check_max_instances_limit :: "json \<Rightarrow> nat \<Rightarrow> bool sg" where
  "check_max_instances_limit cfg current_count =
     py_bind (config_get cfg ''protection'' ''max_instances_per_run'' (JInt 3)) (\<lambda>v.
     py_bind (json_cmp v) (\<lambda>max_instances.
     if of_nat current_count \<ge> max_instances
     then Inl (Raised (MaxInstancesReached current_count)) else Inr True))"

text \<open>
  The checks that raise, in order: a \<open>SafeguardException\<close> ends the run with the checks
  passed so far; any other exception leaves \<open>validate_all\<close>.
\<close>

fun run_checks :: "(string \<times> bool sg) list \<Rightarrow> string list \<Rightarrow> sg_result sg" where
  "run_checks [] passed =
     Inr \<lparr>checks_passed = passed, checks_failed = [], safe_to_proceed = True, sg_reason = None\<rparr>"
| "run_checks ((name, r) # cs) passed =
     (case r of
        Inr _ \<Rightarrow> run_checks cs (passed @ [name])
      | Inl (Raised e) \<Rightarrow>
          Inr \<lparr>checks_passed = passed, checks_failed = [], safe_to_proceed = False,
               sg_reason = Some e\<rparr>
      | Inl x \<Rightarrow> Inl x)"

text \<open>The message goes on with where to enable it.\<close>

definition auto_disabled_text :: string where
  "auto_disabled_text = ''Auto-remediation is disabled''"

definition validate_all ::
    "json \<Rightarrow> env \<Rightarrow> string \<Rightarrow> (string, string) dict \<Rightarrow> int \<Rightarrow> rat \<Rightarrow> int \<Rightarrow> nat \<Rightarrow> sg_result sg" where
  "validate_all cfg env instance_id instance_tags launch_time confidence idle_days current_count =
     py_bind (is_auto_remediation_enabled cfg) (\<lambda>enabled.
     if \<not> enabled
     then Inr \<lparr>checks_passed = [], checks_failed = [''global_enabled''], safe_to_proceed = False,
               sg_reason = Some (SgMessage auto_disabled_text)\<rparr>
     else
       py_bind (is_whitelisted cfg instance_id instance_tags) (\<lambda>wl.
       if wl
       then Inr \<lparr>checks_passed = [], checks_failed = [''whitelist''], safe_to_proceed = False,
                 sg_reason = Some (SgMessage ''Instance is whitelisted'')\<rparr>
       else run_checks
              [(''instance_age'', check_instance_age cfg env launch_time),
               (''confidence'', check_confidence_score cfg confidence),
               (''idle_duration'', check_idle_duration cfg idle_days),
               (''schedule'', check_schedule cfg env),
               (''max_instances'', check_max_instances_limit cfg current_count)]
              [''whitelist'']))"

section \<open>Soundness of the whole run\<close>

lemma run_checks_safe:
  "run_checks cs passed = Inr res \<Longrightarrow> safe_to_proceed res \<Longrightarrow>
   (\<forall>(name, r) \<in> set cs. \<exists>b. r = Inr b) \<and> checks_passed res = passed @ map fst cs"
  by (induction cs passed rule: run_checks.induct)
     (auto split: sum.splits pyexc.splits)

lemma validate_all_safe:
  assumes "validate_all cfg env iid tags launch conf idle n = Inr res" "safe_to_proceed res"
  shows "is_auto_remediation_enabled cfg = Inr True
    \<and> is_whitelisted cfg iid tags = Inr False
    \<and> (\<exists>b. check_instance_age cfg env launch = Inr b)
    \<and> (\<exists>b. check_confidence_score cfg conf = Inr b)
    \<and> (\<exists>b. check_idle_duration cfg idle = Inr b)
    \<and> (\<exists>b. check_schedule cfg env = Inr b)
    \<and> (\<exists>b. check_max_instances_limit cfg n = Inr b)"
proof -
  let ?cs = "[(''instance_age'', check_instance_age cfg env launch),
       (''confidence'', check_confidence_score cfg conf),
       (''idle_duration'', check_idle_duration cfg idle),
       (''schedule'', check_schedule cfg env),
       (''max_instances'', check_max_instances_limit cfg n)]"
  have en: "is_auto_remediation_enabled cfg = Inr True"
    and wl: "is_whitelisted cfg iid tags = Inr False"
    and run: "run_checks ?cs [''whitelist''] = Inr res"
    using assms by (auto simp: validate_all_def py_simps split: if_splits)
  from run_checks_safe [OF run assms(2)] en wl show ?thesis by simp
qed

lemma run_checks_reports:
  "run_checks cs passed = Inr r \<Longrightarrow> safe_to_proceed r \<longleftrightarrow> sg_reason r = None"
  by (induction cs passed rule: run_checks.induct) (auto split: sum.splits pyexc.splits)

lemma validate_all_reports:
  assumes "validate_all cfg env iid tags launch conf idle n = Inr res"
  shows "safe_to_proceed res \<longleftrightarrow> sg_reason res = None"
  using assms
  by (auto simp: validate_all_def py_simps simp del: run_checks.simps split: if_splits
      dest: run_checks_reports)

section \<open>The typed policy\<close>

text \<open>
  A document that is a mapping whose four sections, where present, are mappings too, that
  passes \<open>_validate_config\<close>, and whose tag rules have string keys. Validation alone does not
  give this: \<open>protection: null\<close> passes it.
\<close>

definition policy_sections :: "string list" where
  "policy_sections = [''auto_remediation'', ''protection'', ''whitelist'', ''schedule'']"

fun is_obj :: "json \<Rightarrow> bool" where
  "is_obj (JObj _) = True"
| "is_obj _ = False"

fun rule_key_ok :: "json \<Rightarrow> bool" where
  "rule_key_ok (JObj d) = (\<exists>s. map_of d ''key'' = Some (JStr s))"
| "rule_key_ok _ = False"

definition policy_doc :: "json \<Rightarrow> bool" where
  "policy_doc cfg \<longleftrightarrow>
     (\<exists>d. cfg = JObj d \<and> (\<forall>k \<in> set policy_sections. is_obj (dict_get d k (JObj [])))
        \<and> (\<forall>wl rules. dict_get d ''whitelist'' (JObj []) = JObj wl \<longrightarrow> map_of wl ''tags'' = Some (JList rules)
             \<longrightarrow> list_all rule_key_ok rules))
     \<and> validate_config cfg = Inr ()"

lemma is_obj_iff: "is_obj v \<longleftrightarrow> (\<exists>d. v = JObj d)"
  by (cases v) auto

lemma json_or_empty_obj [simp]: "json_or_empty (JObj d) = JObj d"
  by (simp add: json_or_empty_def)

text \<open>A protection key of a valid section is a number within its bounds.\<close>

lemma check_bounds_step:
  assumes "check_bounds ((key, lo, hi) # bs) (JObj d) = Inr ()"
  shows "check_bounds bs (JObj d) = Inr ()"
    and "map_of d key = Some v \<Longrightarrow> \<exists>x. json_num v = Some x \<and> lo \<le> x \<and> x \<le> hi"
proof -
  consider (absent) "map_of d key = None" | (present) u where "map_of d key = Some u"
    by (cases "map_of d key") auto
  then have "check_bounds bs (JObj d) = Inr () \<and>
      (\<forall>v. map_of d key = Some v \<longrightarrow> (\<exists>x. json_num v = Some x \<and> lo \<le> x \<and> x \<le> hi))"
  proof cases
    case absent
    then have "key \<notin> set (map fst d)" by (simp add: map_of_eq_None_iff)
    with assms absent show ?thesis by simp
  next
    case present
    then have "key \<in> set (map fst d)" by (metis map_of_eq_None_iff option.distinct(1) set_map)
    with assms present show ?thesis
      by (cases "json_num u") (simp_all split: if_splits)
  qed
  then show "check_bounds bs (JObj d) = Inr ()"
    and "map_of d key = Some v \<Longrightarrow> \<exists>x. json_num v = Some x \<and> lo \<le> x \<and> x \<le> hi"
    by blast+
qed

lemma check_bounds_number:
  "check_bounds bs (JObj d) = Inr () \<Longrightarrow> (k, lo, hi) \<in> set bs \<Longrightarrow> map_of d k = Some v \<Longrightarrow>
   \<exists>x. json_num v = Some x \<and> lo \<le> x \<and> x \<le> hi"
proof (induction bs)
  case (Cons b bs)
  obtain key l h where b: "b = (key, l, h)" by (cases b)
  from check_bounds_step [OF Cons.prems(1) [unfolded b]] Cons b show ?case by auto
qed simp

lemma policy_threshold:
  assumes "policy_doc cfg" "(k, lo, hi) \<in> set PROTECTION_BOUNDS"
    and "json_num dflt = Some x0" "lo \<le> x0" "x0 \<le> hi"
  shows "\<exists>v x. config_get cfg ''protection'' k dflt = Inr v \<and> json_cmp v = (Inr x :: rat sg)
      \<and> lo \<le> x \<and> x \<le> hi"
proof -
  obtain d where cfg: "cfg = JObj d" and val: "validate_config cfg = Inr ()"
    and objs: "\<forall>k \<in> set policy_sections. is_obj (dict_get d k (JObj []))"
    using assms(1) by (auto simp: policy_doc_def)
  obtain pr where pr: "dict_get d ''protection'' (JObj []) = JObj pr"
    using objs by (auto simp: policy_sections_def is_obj_iff)
  have bounds: "check_bounds PROTECTION_BOUNDS (JObj pr) = Inr ()"
    using val by (auto simp: cfg validate_config_def validate_protection_def py_simps pr
        simp del: check_bounds.simps)
  show ?thesis
  proof (cases "map_of pr k")
    case None
    then show ?thesis using assms(3-) json_cmp_num by (auto simp: config_get_def cfg pr)
  next
    case (Some v)
    from check_bounds_number [OF bounds assms(2) Some] show ?thesis
      using Some json_cmp_num by (fastforce simp: config_get_def cfg pr)
  qed
qed

lemma policy_section:
  assumes "policy_doc cfg" "k \<in> set policy_sections"
  shows "\<exists>s. json_get k (JObj []) cfg = (Inr (JObj s) :: json sg)"
  using assms by (auto simp: policy_doc_def is_obj_iff)

lemma policy_whitelist:
  assumes "policy_doc cfg"
  shows "\<exists>b. is_whitelisted cfg iid tags = Inr b"
proof -
  obtain d where cfg: "cfg = JObj d" and val: "validate_config cfg = Inr ()"
    and rules: "\<And>wl rules. dict_get d ''whitelist'' (JObj []) = JObj wl \<Longrightarrow>
        map_of wl ''tags'' = Some (JList rules) \<Longrightarrow> list_all rule_key_ok rules"
    using assms by (auto simp: policy_doc_def)
  obtain wl where wl: "dict_get d ''whitelist'' (JObj []) = JObj wl"
    using policy_section [OF assms, of "''whitelist''"] by (auto simp: policy_sections_def cfg)
  have val: "validate_whitelist (JObj d) = Inr ()"
    using val by (auto simp: cfg validate_config_def py_simps)
  then obtain ids rs where ids: "dict_get wl ''instance_ids'' (JList []) = JList ids"
    and rs: "dict_get wl ''tags'' (JList []) = JList rs"
    by (auto simp: validate_whitelist_def py_simps wl split: json.splits)
  have keys: "list_all rule_key_ok rs"
    using rs rules [OF wl] by (auto simp: dict_get_def split: option.splits)
  have "\<exists>b. any_tag_matches tags rs = Inr b" if "list_all rule_key_ok rs" for rs
    using that
  proof (induction rs)
    case Nil
    then show ?case by (intro exI [of _ False]) simp
  next
    case (Cons r rs)
    then obtain d s b where "r = JObj d" "map_of d ''key'' = Some (JStr s)"
        "any_tag_matches tags rs = Inr b"
      by (cases r) auto
    then show ?case
      by (cases "tag_matches tags (JStr s) (dict_get d ''value'' JNull) = Inr True") auto
  qed
  with keys obtain b where "any_tag_matches tags rs = Inr b" by blast
  then show ?thesis
    by (cases "JStr iid \<in> set ids") (auto simp: is_whitelisted_def cfg wl ids rs intro: exI [of _ True])
qed

lemma policy_schedule:
  assumes "policy_doc cfg"
  shows "(\<exists>b. check_schedule cfg env = Inr b) \<or> (\<exists>e. check_schedule cfg env = Inl (Raised e))"
proof -
  obtain d where cfg: "cfg = JObj d" and val: "validate_config cfg = Inr ()"
    using assms by (auto simp: policy_doc_def)
  obtain s where s: "dict_get d ''schedule'' (JObj []) = JObj s"
    using policy_section [OF assms, of "''schedule''"] by (auto simp: policy_sections_def cfg)
  have val: "validate_schedule (JObj d) = Inr ()"
    using val by (auto simp: cfg validate_config_def py_simps)
  then obtain ds hs where ds: "dict_get s ''allowed_days'' (JList []) = JList ds"
    and hs: "dict_get s ''allowed_hours'' (JList []) = JList hs"
    by (auto simp: validate_schedule_def py_simps s split: json.splits if_splits)
  show ?thesis by (auto simp: check_schedule_def cfg s ds hs)
qed

text \<open>On a well-formed document every check either passes or is refused by the policy.\<close>

lemma run_checks_total:
  "(\<And>name r. (name, r) \<in> set cs \<Longrightarrow> (\<exists>b. r = Inr b) \<or> (\<exists>e. r = Inl (Raised e))) \<Longrightarrow>
   \<exists>res. run_checks cs passed = Inr res"
proof (induction cs passed rule: run_checks.induct)
  case (2 name r cs passed)
  show ?case
  proof (cases r)
    case (Inl e)
    then show ?thesis using 2(2) [of name r] by auto
  next
    case (Inr b)
    have "\<exists>res. run_checks cs (passed @ [name]) = Inr res"
      by (rule 2(1) [OF Inr]) (use 2(2) in auto)
    with Inr show ?thesis by simp
  qed
qed simp

lemma policy_bounds_mem:
  "(''min_instance_age_days'', 0, 3650) \<in> set PROTECTION_BOUNDS"
  "(''min_idle_days'', 0, 3650) \<in> set PROTECTION_BOUNDS"
  "(''min_confidence_score'', 0, 1) \<in> set PROTECTION_BOUNDS"
  "(''max_instances_per_run'', 1, 10000) \<in> set PROTECTION_BOUNDS"
  by (simp_all add: PROTECTION_BOUNDS_def)

lemma policy_check_age:
  assumes "policy_doc cfg"
  shows "\<exists>x::rat. 0 \<le> x \<and> check_instance_age cfg env launch =
    (if of_int (days_of_seconds (e_now env - launch)) < x
     then Inl (Raised (TooYoung (days_of_seconds (e_now env - launch)))) else Inr True)"
proof -
  obtain v x where "config_get cfg ''protection'' ''min_instance_age_days'' (JInt 30) = Inr v"
    "json_cmp v = (Inr x :: rat sg)" and x: "0 \<le> x"
    using policy_threshold [OF assms policy_bounds_mem(1), of "JInt 30" "30"] by auto
  then have "check_instance_age cfg env launch =
    (if of_int (days_of_seconds (e_now env - launch)) < x
     then Inl (Raised (TooYoung (days_of_seconds (e_now env - launch)))) else Inr True)"
    by (simp add: check_instance_age_def Let_def)
  with x show ?thesis by blast
qed

lemma policy_check_confidence:
  assumes "policy_doc cfg"
  shows "\<exists>x::rat. 0 \<le> x \<and> x \<le> 1 \<and> check_confidence_score cfg conf =
    (if conf < x then Inl (Raised (ConfidenceTooLow conf)) else Inr True)"
proof -
  obtain v x where "config_get cfg ''protection'' ''min_confidence_score'' (JFloat (8 / 10)) = Inr v"
    "json_cmp v = (Inr x :: rat sg)" and x: "0 \<le> x" "x \<le> 1"
    using policy_threshold [OF assms policy_bounds_mem(3), of "JFloat (8 / 10)" "8 / 10"] by auto
  then have "check_confidence_score cfg conf =
    (if conf < x then Inl (Raised (ConfidenceTooLow conf)) else Inr True)"
    by (simp add: check_confidence_score_def)
  with x show ?thesis by blast
qed

lemma policy_check_idle:
  assumes "policy_doc cfg"
  shows "\<exists>x::rat. 0 \<le> x \<and> check_idle_duration cfg idle =
    (if of_int idle < x then Inl (Raised (NotIdleLongEnough idle)) else Inr True)"
proof -
  obtain v x where "config_get cfg ''protection'' ''min_idle_days'' (JInt 14) = Inr v"
    "json_cmp v = (Inr x :: rat sg)" and x: "0 \<le> x"
    using policy_threshold [OF assms policy_bounds_mem(2), of "JInt 14" "14"] by auto
  then have "check_idle_duration cfg idle =
    (if of_int idle < x then Inl (Raised (NotIdleLongEnough idle)) else Inr True)"
    by (simp add: check_idle_duration_def)
  with x show ?thesis by blast
qed

lemma policy_check_max:
  assumes "policy_doc cfg"
  shows "\<exists>x::rat. 1 \<le> x \<and> x \<le> 10000 \<and> check_max_instances_limit cfg n =
    (if x \<le> of_nat n then Inl (Raised (MaxInstancesReached n)) else Inr True)"
proof -
  obtain v x where "config_get cfg ''protection'' ''max_instances_per_run'' (JInt 3) = Inr v"
    "json_cmp v = (Inr x :: rat sg)" and x: "1 \<le> x" "x \<le> 10000"
    using policy_threshold [OF assms policy_bounds_mem(4), of "JInt 3" "3"] by auto
  then have "check_max_instances_limit cfg n =
    (if x \<le> of_nat n then Inl (Raised (MaxInstancesReached n)) else Inr True)"
    by (simp add: check_max_instances_limit_def)
  with x show ?thesis by blast
qed

lemma policy_enabled:
  assumes "policy_doc cfg"
  shows "\<exists>b. is_auto_remediation_enabled cfg = Inr b"
  using policy_section [OF assms, of "''auto_remediation''"]
  by (auto simp: is_auto_remediation_enabled_def config_get_def policy_sections_def)

lemma validate_all_total:
  assumes "policy_doc cfg"
  shows "\<exists>res. validate_all cfg env iid tags launch conf idle n = Inr res"
proof -
  obtain en where en: "is_auto_remediation_enabled cfg = Inr en" using policy_enabled [OF assms] ..
  obtain wl where wl: "is_whitelisted cfg iid tags = Inr wl" using policy_whitelist [OF assms] ..
  have "\<exists>res. run_checks
      [(''instance_age'', check_instance_age cfg env launch),
       (''confidence'', check_confidence_score cfg conf),
       (''idle_duration'', check_idle_duration cfg idle),
       (''schedule'', check_schedule cfg env),
       (''max_instances'', check_max_instances_limit cfg n)] [''whitelist''] = Inr res"
  proof (rule run_checks_total, goal_cases)
    case (1 name r)
    then show ?case
      using policy_check_age [OF assms, of env launch] policy_check_confidence [OF assms, of conf]
        policy_check_idle [OF assms, of idle] policy_check_max [OF assms, of n]
        policy_schedule [OF assms, of env]
      by (auto split: if_splits)
  qed
  then show ?thesis by (simp add: validate_all_def en wl del: run_checks.simps)
qed

lemma run_checks_pass:
  "(\<And>name r. (name, r) \<in> set cs \<Longrightarrow> \<exists>b. r = Inr b) \<Longrightarrow>
   run_checks cs passed = Inr \<lparr>checks_passed = passed @ map fst cs, checks_failed = [],
     safe_to_proceed = True, sg_reason = None\<rparr>"
proof (induction cs passed rule: run_checks.induct)
  case (2 name r cs passed)
  have "\<exists>b. r = Inr b" by (rule 2(2) [of name]) simp
  then obtain b where b: "r = Inr b" by blast
  have "run_checks cs (passed @ [name]) = Inr \<lparr>checks_passed = (passed @ [name]) @ map fst cs,
      checks_failed = [], safe_to_proceed = True, sg_reason = None\<rparr>"
    by (rule 2(1) [OF b]) (use 2(2) in auto)
  with b show ?case by simp
qed simp

lemma policy_bound_value:
  assumes "policy_doc cfg" "(k, lo, hi) \<in> set PROTECTION_BOUNDS"
    and "config_get cfg ''protection'' k dflt = Inr v" "json_num dflt = Some x0" "lo \<le> x0" "x0 \<le> hi"
  shows "\<exists>x. json_cmp v = (Inr x :: rat sg) \<and> lo \<le> x \<and> x \<le> hi"
  using policy_threshold [OF assms(1,2,4-6)] assms(3) by auto

section \<open>Properties\<close>

text \<open>
  C22: on a well-formed policy the full run of the safeguards returns, and proceeds exactly when
  auto-remediation is enabled, the instance is not whitelisted and all five checks pass; then the
  checks it reports as passed are all six in order.
\<close>

theorem validate_all_decides:
  assumes "policy_doc cfg"
  shows "\<exists>res. validate_all cfg env iid tags launch conf idle n = Inr res
    \<and> (safe_to_proceed res \<longleftrightarrow>
        is_auto_remediation_enabled cfg = Inr True \<and> is_whitelisted cfg iid tags = Inr False
        \<and> check_instance_age cfg env launch = Inr True \<and> check_confidence_score cfg conf = Inr True
        \<and> check_idle_duration cfg idle = Inr True \<and> check_schedule cfg env = Inr True
        \<and> check_max_instances_limit cfg n = Inr True)
    \<and> (safe_to_proceed res \<longrightarrow> checks_passed res =
        [''whitelist'', ''instance_age'', ''confidence'', ''idle_duration'', ''schedule'', ''max_instances''])"
proof -
  obtain res where res: "validate_all cfg env iid tags launch conf idle n = Inr res"
    using validate_all_total [OF assms] by blast
  have True_only: "check_instance_age cfg env launch = Inr b \<Longrightarrow> b"
    "check_confidence_score cfg conf = Inr b \<Longrightarrow> b" "check_idle_duration cfg idle = Inr b \<Longrightarrow> b"
    "check_schedule cfg env = Inr b \<Longrightarrow> b" "check_max_instances_limit cfg n = Inr b \<Longrightarrow> b" for b
    by (auto simp: check_instance_age_def check_confidence_score_def check_idle_duration_def
        check_schedule_def check_max_instances_limit_def py_simps Let_def split: if_splits)
  let ?cs = "[(''instance_age'', check_instance_age cfg env launch),
       (''confidence'', check_confidence_score cfg conf),
       (''idle_duration'', check_idle_duration cfg idle),
       (''schedule'', check_schedule cfg env),
       (''max_instances'', check_max_instances_limit cfg n)]"
  have pass: "res = \<lparr>checks_passed = ''whitelist'' # map fst ?cs, checks_failed = [],
        safe_to_proceed = True, sg_reason = None\<rparr>"
    if "is_auto_remediation_enabled cfg = Inr True" "is_whitelisted cfg iid tags = Inr False"
      "\<And>name r. (name, r) \<in> set ?cs \<Longrightarrow> \<exists>b. r = Inr b"
    using res that(1,2) run_checks_pass [of ?cs "[''whitelist'']"] that(3)
    by (simp add: validate_all_def del: run_checks.simps)
  show ?thesis
  proof (cases "safe_to_proceed res")
    case True
    from validate_all_safe [OF res True] have safe: "is_auto_remediation_enabled cfg = Inr True"
      "is_whitelisted cfg iid tags = Inr False"
      "check_instance_age cfg env launch = Inr True" "check_confidence_score cfg conf = Inr True"
      "check_idle_duration cfg idle = Inr True" "check_schedule cfg env = Inr True"
      "check_max_instances_limit cfg n = Inr True"
      using True_only by auto
    from safe have "res = \<lparr>checks_passed = ''whitelist'' # map fst ?cs, checks_failed = [],
        safe_to_proceed = True, sg_reason = None\<rparr>" by (intro pass) auto
    with res safe show ?thesis by auto
  next
    case False
    have "\<not> (is_auto_remediation_enabled cfg = Inr True \<and> is_whitelisted cfg iid tags = Inr False
        \<and> check_instance_age cfg env launch = Inr True \<and> check_confidence_score cfg conf = Inr True
        \<and> check_idle_duration cfg idle = Inr True \<and> check_schedule cfg env = Inr True
        \<and> check_max_instances_limit cfg n = Inr True)"
    proof
      assume all: "is_auto_remediation_enabled cfg = Inr True \<and> is_whitelisted cfg iid tags = Inr False
        \<and> check_instance_age cfg env launch = Inr True \<and> check_confidence_score cfg conf = Inr True
        \<and> check_idle_duration cfg idle = Inr True \<and> check_schedule cfg env = Inr True
        \<and> check_max_instances_limit cfg n = Inr True"
      then have "res = \<lparr>checks_passed = ''whitelist'' # map fst ?cs, checks_failed = [],
        safe_to_proceed = True, sg_reason = None\<rparr>" by (intro pass) auto
      with False show False by simp
    qed
    with res False show ?thesis by auto
  qed
qed

definition sample_policy :: json where
  "sample_policy = JObj
     [(''auto_remediation'', JObj [(''enabled'', JBool True)]),
      (''protection'', JObj [(''min_instance_age_days'', JInt 30), (''max_instances_per_run'', JInt 2)])]"

lemma sample_policy_doc: "policy_doc sample_policy"
  by (simp add: policy_doc_def sample_policy_def policy_sections_def dict_get_def validate_config_def
      validate_protection_def validate_whitelist_def validate_schedule_def PROTECTION_BOUNDS_def
      json_or_empty_def)

theorem validate_all_decides_witness:
  "\<exists>res. validate_all sample_policy \<lparr>e_now = 100 * 86400, e_today = 100, e_weekday = ''Monday'',
        e_hour = 3, e_write = \<lambda>_ _. None\<rparr> ''i-1'' [] 0 1 20 0 = Inr res \<and> safe_to_proceed res"
proof -
  let ?env = "\<lparr>e_now = 100 * 86400, e_today = 100, e_weekday = ''Monday'', e_hour = 3,
      e_write = \<lambda>_ _. None\<rparr>"
  have "is_auto_remediation_enabled sample_policy = Inr True"
    "is_whitelisted sample_policy ''i-1'' [] = Inr False"
    "check_instance_age sample_policy ?env 0 = Inr True"
    "check_confidence_score sample_policy 1 = Inr True" "check_idle_duration sample_policy 20 = Inr True"
    "check_schedule sample_policy ?env = Inr True" "check_max_instances_limit sample_policy 0 = Inr True"
    by (simp_all add: is_auto_remediation_enabled_def is_whitelisted_def check_instance_age_def
        check_confidence_score_def check_idle_duration_def check_schedule_def days_of_seconds_def
        check_max_instances_limit_def config_get_def sample_policy_def dict_get_def)
  with validate_all_decides [OF sample_policy_doc, of ?env "''i-1''" "[]" 0 1 20 0]
  show ?thesis by auto
qed

text \<open>
  A policy whose \<open>protection\<close> section is \<open>null\<close> passes the validation at start-up, and
  then every check that reads a threshold raises \<open>AttributeError\<close>, which is not a refusal of
  the safeguards.
\<close>

theorem null_protection_passes_validation:
  assumes "map_of d ''protection'' = Some JNull"
    and "validate_whitelist (JObj d) = Inr ()" "validate_schedule (JObj d) = Inr ()"
  shows "load_config (JObj d) = Inr (JObj d)
    \<and> check_confidence_score (JObj d) conf = Inl AttributeError
    \<and> check_instance_age (JObj d) env launch = Inl AttributeError
    \<and> check_max_instances_limit (JObj d) n = Inl AttributeError"
proof -
  have "d \<noteq> []" using assms(1) by auto
  then show ?thesis
    using assms
    by (simp add: load_config_def validate_config_def validate_protection_def PROTECTION_BOUNDS_def
        json_or_empty_def check_confidence_score_def check_instance_age_def
        check_max_instances_limit_def config_get_def)
qed

theorem null_protection_passes_validation_witness:
  "check_confidence_score (JObj [(''protection'', JNull)]) 0 = Inl AttributeError"
proof -
  have "validate_whitelist (JObj [(''protection'', JNull)]) = Inr ()"
    "validate_schedule (JObj [(''protection'', JNull)]) = Inr ()"
    by (simp_all add: validate_whitelist_def validate_schedule_def dict_get_def json_or_empty_def)
  from null_protection_passes_validation [OF _ this] show ?thesis by simp
qed

end
