(* ===== verification/ActionsLog.thy ===== *)
theory ActionsLog
  imports Safeguards
begin

text \<open>
  What the two remediators share: the rows they write to \<open>actions_log\<close> and
  \<open>rollback_snapshots\<close>, the exceptions of a remediation and its result. A row that is written
  also appears in the history of the world, so that the order of the audit trail and of the AWS
  writes can be stated.
\<close>

section \<open>Exceptions and results of a remediation\<close>

text \<open>
  \<open>ErrSafeguard\<close> is \<open>SafeguardException\<close> raised by a check or with a text of the
  remediator; \<open>ErrRefused\<close> is the one that wraps the reason of \<open>validate_all\<close>; the others are
  the exceptions of the general handler: a text, what boto3 raised, a built-in exception.
\<close>

datatype rem_error =
    ErrSafeguard sg_error
  | ErrRefused "sg_error option"
  | ErrNotFound string
  | ErrText string
  | ErrAws aws_exc
  | ErrPy "sg_error pyexc"
  | ErrLeftover "string list"

fun is_safeguard_error :: "rem_error \<Rightarrow> bool" where
  "is_safeguard_error (ErrSafeguard _) = True"
| "is_safeguard_error (ErrRefused _) = True"
| "is_safeguard_error _ = False"

text \<open>An exception of a safeguard check, as the handlers of the remediators see it.\<close>

definition sg_exc :: "sg_error pyexc \<Rightarrow> rem_error" where
  "sg_exc x = (case x of Raised e \<Rightarrow> ErrSafeguard e | _ \<Rightarrow> ErrPy x)"

definition lift_sg :: "'a sg \<Rightarrow> rem_error + 'a" where
  "lift_sg r = (case r of Inl x \<Rightarrow> Inl (sg_exc x) | Inr v \<Rightarrow> Inr v)"

lemma lift_sg_simps [simp]:
  "lift_sg (Inr v) = Inr v" "lift_sg (Inl x) = Inl (sg_exc x)"
  by (simp_all add: lift_sg_def)

lemma lift_sg_Inr [py_simps]: "lift_sg r = Inr v \<longleftrightarrow> r = Inr v"
  by (cases r) simp_all

record rem_result =
  rr_success :: bool
  rr_resource :: string
  rr_action :: string
  rr_dry :: bool
  rr_log :: "nat option"
  rr_error :: "rem_error option"

section \<open>Rows of the audit trail\<close>

definition add_log ::
    "env \<Rightarrow> nat option \<Rightarrow> string \<Rightarrow> string \<Rightarrow> string \<Rightarrow> log_status \<Rightarrow> bool \<Rightarrow> string option
     \<Rightarrow> world \<Rightarrow> nat \<times> world" where
  "add_log env rid resource rtype action status dry by w =
     (let (lid, t) = t_insert (\<lambda>i. \<lparr>l_id = i, l_rec = rid, l_resource = resource, l_rtype = rtype,
              l_action = action, l_status = status, l_dry = dry, l_by = by,
              l_date = e_now env\<rparr>) (alog w)
      in (lid, w\<lparr>alog := t, events := events w @ [EvLog lid]\<rparr>))"

definition insert_log ::
    "env \<Rightarrow> nat option \<Rightarrow> string \<Rightarrow> string \<Rightarrow> string \<Rightarrow> log_status \<Rightarrow> bool \<Rightarrow> world \<Rightarrow> nat \<times> world" where
  "insert_log env rid resource rtype action status dry w =
     add_log env rid resource rtype action status dry (Some ''system'') w"

text \<open>The rollback expires after seven days.\<close>

definition insert_snapshot ::
    "env \<Rightarrow> nat \<Rightarrow> string \<Rightarrow> string \<Rightarrow> (string, json) dict \<Rightarrow> bool \<Rightarrow> world \<Rightarrow> nat \<times> world" where
  "insert_snapshot env lid resource rtype state rollback w =
     (let (sid, t) = t_insert (\<lambda>i. \<lparr>s_id = i, s_log = lid, s_resource = resource, s_rtype = rtype,
              s_state = state, s_can_rollback = rollback, s_expiry = e_now env + 7 * 86400\<rparr>) (snaps w)
      in (sid, w\<lparr>snaps := t, events := events w @ [EvSnapshot sid]\<rparr>))"

definition set_log_status :: "nat \<Rightarrow> log_status \<Rightarrow> world \<Rightarrow> world" where
  "set_log_status lid status w =
     w\<lparr>alog := t_update (\<lambda>l. l_id l = lid) (\<lambda>l. l\<lparr>l_status := status\<rparr>) (alog w)\<rparr>"

definition mark_applied :: "env \<Rightarrow> nat \<Rightarrow> world \<Rightarrow> world" where
  "mark_applied env rid w =
     w\<lparr>recs := t_update (\<lambda>r. r_id r = rid)
         (\<lambda>r. r\<lparr>r_status := Applied, r_applied_at := Some (e_now env)\<rparr>) (recs w)\<rparr>"

text \<open>\<open>if result["action_log_id"]: ...\<close>: the id 0 would count as absent.\<close>

definition close_log :: "nat option \<Rightarrow> log_status \<Rightarrow> world \<Rightarrow> world" where
  "close_log lid status w =
     (case lid of None \<Rightarrow> w | Some i \<Rightarrow> if i = 0 then w else set_log_status i status w)"

section \<open>Frame rules\<close>

lemma add_log_frame [simp]:
  "fst (add_log env rid res rt a st dry by w) = t_next (alog w)"
  "recs (snd (add_log env rid res rt a st dry by w)) = recs w"
  "wastes (snd (add_log env rid res rt a st dry by w)) = wastes w"
  "snaps (snd (add_log env rid res rt a st dry by w)) = snaps w"
  "svgs (snd (add_log env rid res rt a st dry by w)) = svgs w"
  "events (snd (add_log env rid res rt a st dry by w)) = events w @ [EvLog (t_next (alog w))]"
  "aws_calls (snd (add_log env rid res rt a st dry by w)) = aws_calls w"
  by (simp_all add: add_log_def t_insert_def aws_calls_def map_filter_def)

lemma insert_log_frame [simp]:
  "fst (insert_log env rid res rt a st dry w) = t_next (alog w)"
  "recs (snd (insert_log env rid res rt a st dry w)) = recs w"
  "wastes (snd (insert_log env rid res rt a st dry w)) = wastes w"
  "snaps (snd (insert_log env rid res rt a st dry w)) = snaps w"
  "svgs (snd (insert_log env rid res rt a st dry w)) = svgs w"
  "events (snd (insert_log env rid res rt a st dry w)) = events w @ [EvLog (t_next (alog w))]"
  by (simp_all add: insert_log_def)

lemma insert_snapshot_frame [simp]:
  "fst (insert_snapshot env lid res rt st rb w) = t_next (snaps w)"
  "recs (snd (insert_snapshot env lid res rt st rb w)) = recs w"
  "wastes (snd (insert_snapshot env lid res rt st rb w)) = wastes w"
  "alog (snd (insert_snapshot env lid res rt st rb w)) = alog w"
  "svgs (snd (insert_snapshot env lid res rt st rb w)) = svgs w"
  "events (snd (insert_snapshot env lid res rt st rb w)) = events w @ [EvSnapshot (t_next (snaps w))]"
  by (simp_all add: insert_snapshot_def t_insert_def)

lemma set_log_status_frame [simp]:
  "recs (set_log_status lid st w) = recs w"
  "wastes (set_log_status lid st w) = wastes w"
  "snaps (set_log_status lid st w) = snaps w"
  "svgs (set_log_status lid st w) = svgs w"
  "events (set_log_status lid st w) = events w"
  "aws_calls (set_log_status lid st w) = aws_calls w"
  by (simp_all add: set_log_status_def)

lemma mark_applied_frame [simp]:
  "alog (mark_applied env rid w) = alog w"
  "wastes (mark_applied env rid w) = wastes w"
  "snaps (mark_applied env rid w) = snaps w"
  "svgs (mark_applied env rid w) = svgs w"
  "events (mark_applied env rid w) = events w"
  "aws_calls (mark_applied env rid w) = aws_calls w"
  by (simp_all add: mark_applied_def)

lemma close_log_frame [simp]:
  "recs (close_log lid st w) = recs w"
  "wastes (close_log lid st w) = wastes w"
  "snaps (close_log lid st w) = snaps w"
  "svgs (close_log lid st w) = svgs w"
  "events (close_log lid st w) = events w"
  "aws_calls (close_log lid st w) = aws_calls w"
  by (simp_all add: close_log_def split: option.splits)

lemma close_log_None [simp]: "close_log None st w = w"
  by (simp add: close_log_def)

lemma aws_calls_by_events:
  "events w' = events w @ es \<Longrightarrow>
   aws_calls w' = aws_calls w @ List.map_filter (\<lambda>e. case e of EvAws c \<Rightarrow> Some c | _ \<Rightarrow> None) es"
  by (simp add: aws_calls_def map_filter_def)

lemma aws_calls_write [simp]:
  "aws_calls (w\<lparr>events := events w @ [EvAws c]\<rparr>) = aws_calls w @ [c]"
  by (simp add: aws_calls_def map_filter_def)

lemma insert_log_calls [simp]: "aws_calls (snd (insert_log env rid res rt a st dry w)) = aws_calls w"
  by (simp add: aws_calls_def map_filter_def)

lemma insert_snapshot_calls [simp]: "aws_calls (snd (insert_snapshot env lid res rt st rb w)) = aws_calls w"
  by (simp add: aws_calls_def map_filter_def)

section \<open>What the rows say afterwards\<close>

lemma get_set_log_status:
  "t_get l_id i (alog (set_log_status lid st w)) =
   (if i = lid then map_option (\<lambda>l. l\<lparr>l_status := st\<rparr>) (t_get l_id lid (alog w))
    else t_get l_id i (alog w))"
  by (simp add: set_log_status_def log_table.get_upd_key)

lemma get_mark_applied:
  "t_get r_id i (recs (mark_applied env rid w)) =
   (if i = rid then map_option (\<lambda>r. r\<lparr>r_status := Applied, r_applied_at := Some (e_now env)\<rparr>)
        (t_get r_id rid (recs w))
    else t_get r_id i (recs w))"
  by (simp add: mark_applied_def rec_table.get_upd_key)

lemma status_mark_applied:
  "status_of i (mark_applied env rid w) =
   (if i = rid \<and> status_of rid w \<noteq> None then Some Applied else status_of i w)"
  by (auto simp: status_of_def get_mark_applied split: option.splits)

lemma alog_add_log:
  "alog (snd (add_log env rid res rt a st dry by w)) =
   snd (t_insert (\<lambda>i. \<lparr>l_id = i, l_rec = rid, l_resource = res, l_rtype = rt,
              l_action = a, l_status = st, l_dry = dry, l_by = by,
              l_date = e_now env\<rparr>) (alog w))"
  by (simp add: add_log_def t_insert_def)

lemma get_add_log:
  assumes "t_wf l_id (alog w)"
  shows "t_get l_id i (alog (snd (add_log env rid res rt a st dry by w))) =
    (if i = t_next (alog w)
     then Some \<lparr>l_id = i, l_rec = rid, l_resource = res, l_rtype = rt, l_action = a,
            l_status = st, l_dry = dry, l_by = by, l_date = e_now env\<rparr>
     else t_get l_id i (alog w))"
  by (simp add: alog_add_log log_table.get_ins [OF assms])

lemma get_insert_log:
  assumes "t_wf l_id (alog w)"
  shows "t_get l_id i (alog (snd (insert_log env rid res rt a st dry w))) =
    (if i = t_next (alog w)
     then Some \<lparr>l_id = i, l_rec = rid, l_resource = res, l_rtype = rt, l_action = a,
            l_status = st, l_dry = dry, l_by = Some ''system'', l_date = e_now env\<rparr>
     else t_get l_id i (alog w))"
  by (simp add: insert_log_def get_add_log [OF assms])

lemma wf_add_log: "t_wf l_id (alog w) \<Longrightarrow> t_wf l_id (alog (snd (add_log env rid res rt a st dry by w)))"
  by (simp add: alog_add_log log_table.wf_ins)

lemma wf_insert_log: "t_wf l_id (alog w) \<Longrightarrow> t_wf l_id (alog (snd (insert_log env rid res rt a st dry w)))"
  by (simp add: insert_log_def wf_add_log)

lemma wf_set_log_status: "t_wf l_id (alog w) \<Longrightarrow> t_wf l_id (alog (set_log_status i st w))"
  by (simp add: set_log_status_def log_table.wf_upd)

lemma wf_close_log: "t_wf l_id (alog w) \<Longrightarrow> t_wf l_id (alog (close_log i st w))"
  by (simp add: close_log_def wf_set_log_status split: option.splits)

lemma wf_mark_applied: "t_wf r_id (recs w) \<Longrightarrow> t_wf r_id (recs (mark_applied env i w))"
  by (simp add: mark_applied_def rec_table.wf_upd)

lemma wf_insert_snapshot:
  "t_wf s_id (snaps w) \<Longrightarrow> t_wf s_id (snaps (snd (insert_snapshot env lid res rt st rb w)))"
proof -
  assume "t_wf s_id (snaps w)"
  moreover have "snaps (snd (insert_snapshot env lid res rt st rb w)) =
      snd (t_insert (\<lambda>i. \<lparr>s_id = i, s_log = lid, s_resource = res, s_rtype = rt, s_state = st,
        s_can_rollback = rb, s_expiry = e_now env + 7 * 86400\<rparr>) (snaps w))"
    by (simp add: insert_snapshot_def t_insert_def)
  ultimately show ?thesis by (simp add: snap_table.wf_ins)
qed

end
