(* ===== verification/Ec2Remediator.thy ===== *)
theory Ec2Remediator
  imports ActionsLog "HOL-Library.Word"
begin

unbundle bit_operations_syntax

text \<open>
  \<open>src/remediators/ec2_remediator.py\<close>. What is read outside the program is the record
  \<open>ec2_api\<close>: the answer of \<open>describe_instances\<close> (which may depend on the history) and
  PostgreSQL's value for \<open>EXTRACT(DAY FROM (CURRENT_DATE - detection_date))::int\<close>, an error or
  a number. Nothing is assumed of either.
\<close>

section \<open>State\<close>

record ec2_instance =
  i_id :: string
  i_type :: string
  i_state :: string
  i_launch :: int
  i_launch_iso :: string
  i_az :: string
  i_tags :: "(string \<times> string) list option"
  i_raw :: json

record ec2_api =
  ec2_region :: string
  ec2_describe :: "world \<Rightarrow> string \<Rightarrow> aws_exc + ec2_instance list list"
  ec2_idle_days :: "int \<Rightarrow> string + int"

record ec2_details =
  d_instance_id :: string
  d_instance_type :: string
  d_state :: string
  d_launch_time :: int
  d_launch_iso :: string
  d_az :: string
  d_tags :: "(string, string) dict"
  d_raw :: json

text \<open>
  The session: the database and account, how many times this connection holds the advisory
  lock, and whether another session holds it.
\<close>

record ec2_session =
  ss_world :: world
  ss_held :: nat
  ss_other :: bool

section \<open>The advisory lock\<close>

text \<open>
  \<open>zlib.crc32\<close>: CRC-32 with the reflected polynomial, bit by bit, and the key of the lock,
  reduced to 31 bits.
\<close>

definition crc_shift :: "32 word \<Rightarrow> 32 word" where
  "crc_shift c = (if odd c then drop_bit 1 c XOR 0xEDB88320 else drop_bit 1 c)"

definition crc_byte :: "char \<Rightarrow> 32 word \<Rightarrow> 32 word" where
  "crc_byte b c = (crc_shift ^^ 8) (c XOR of_nat (of_char b))"

definition crc32 :: "string \<Rightarrow> 32 word" where
  "crc32 s = fold crc_byte s 0xFFFFFFFF XOR 0xFFFFFFFF"

definition lock_id :: "string option \<Rightarrow> nat" where
  "lock_id account_id =
     unat (crc32 (case account_id of None \<Rightarrow> ''None'' | Some s \<Rightarrow> s)) mod 2 ^ 31"

text \<open>\<open>pg_try_advisory_lock\<close> and \<open>pg_advisory_unlock\<close>: session locks count.\<close>

definition acquire_lock :: "ec2_session \<Rightarrow> bool \<times> ec2_session" where
  "acquire_lock s = (if ss_other s then (False, s) else (True, s\<lparr>ss_held := ss_held s + 1\<rparr>))"

definition release_lock :: "ec2_session \<Rightarrow> ec2_session" where
  "release_lock s = s\<lparr>ss_held := ss_held s - 1\<rparr>"

section \<open>Reading and logging\<close>

definition get_instance_details :: "ec2_api \<Rightarrow> world \<Rightarrow> string \<Rightarrow> ec2_details option" where
  "get_instance_details api w instance_id =
     (case ec2_describe api w instance_id of
        Inl _ \<Rightarrow> None
      | Inr [] \<Rightarrow> None
      | Inr ([] # _) \<Rightarrow> None
      | Inr ((i # _) # _) \<Rightarrow>
          Some \<lparr>d_instance_id = i_id i, d_instance_type = i_type i, d_state = i_state i,
            d_launch_time = i_launch i, d_launch_iso = i_launch_iso i, d_az = i_az i,
            d_tags = (case i_tags i of None \<Rightarrow> [] | Some ts \<Rightarrow> fold (\<lambda>(k, v). AList.update k v) ts []),
            d_raw = i_raw i\<rparr>)"

definition details_json :: "ec2_details \<Rightarrow> (string, json) dict" where
  "details_json d =
     [(''instance_id'', JStr (d_instance_id d)), (''instance_type'', JStr (d_instance_type d)),
      (''state'', JStr (d_state d)), (''launch_time'', JStr (d_launch_iso d)),
      (''availability_zone'', JStr (d_az d)),
      (''tags'', JObj (map (\<lambda>(k, v). (k, JStr v)) (d_tags d))), (''raw'', d_raw d)]"

definition create_rollback_snapshot ::
    "env \<Rightarrow> nat \<Rightarrow> string \<Rightarrow> ec2_details \<Rightarrow> world \<Rightarrow> nat \<times> world" where
  "create_rollback_snapshot env action_log_id instance_id d w =
     insert_snapshot env action_log_id instance_id ''ec2_instance'' (details_json d) True w"

definition log_action ::
    "env \<Rightarrow> bool \<Rightarrow> nat option \<Rightarrow> string \<Rightarrow> string \<Rightarrow> log_status \<Rightarrow> world \<Rightarrow> nat \<times> world" where
  "log_action env dry recommendation_id resource_id action_type status w =
     insert_log env recommendation_id resource_id ''ec2_instance'' action_type status dry w"

definition update_action_status :: "nat option \<Rightarrow> log_status \<Rightarrow> world \<Rightarrow> world" where
  "update_action_status lid status w = close_log lid status w"

section \<open>Stopping an instance\<close>

text \<open>
  The body of the \<open>try\<close>: the exception or nothing, the id of the action in \<open>result\<close> at that
  point, and the state.
\<close>

definition stop_body ::
    "ec2_api \<Rightarrow> json \<Rightarrow> env \<Rightarrow> bool \<Rightarrow> string \<Rightarrow> nat \<Rightarrow> nat \<Rightarrow> world \<Rightarrow> (rem_error option \<times> nat option) \<times> world" where
  "stop_body api cfg env dry instance_id recommendation_id current_count w =
     (case get_instance_details api w instance_id of
        None \<Rightarrow> ((Some (ErrNotFound ''Instance not found''), None), w)
      | Some d \<Rightarrow>
     (case rec_join recommendation_id w of
        None \<Rightarrow> ((Some (ErrNotFound ''Recommendation not found in database''), None), w)
      | Some (r, x) \<Rightarrow>
     (case ec2_idle_days api (e_today env - w_date x) of
        Inl m \<Rightarrow> ((Some (ErrText m), None), w)
      | Inr idle_days \<Rightarrow>
     (case validate_all cfg env instance_id (d_tags d) (d_launch_time d) (w_confidence x)
             idle_days current_count of
        Inl e \<Rightarrow> ((Some (sg_exc e), None), w)
      | Inr res \<Rightarrow>
          if \<not> safe_to_proceed res then ((Some (ErrRefused (sg_reason res)), None), w)
          else
            let (lid, w1) = log_action env dry (Some recommendation_id) instance_id ''stop'' LogPending w;
                (_, w2) = create_rollback_snapshot env lid instance_id d w1;
                (failure, w3) = (if dry then (None, w2)
                                 else aws_do env (StopInstances instance_id (ec2_region api)) w2)
            in (case failure of
                  Some e \<Rightarrow> ((Some (ErrAws e), Some lid), w3)
                | None \<Rightarrow>
                    ((None, Some lid),
                     mark_applied env recommendation_id (set_log_status lid LogSuccess w3)))))))"

definition stop_instance ::
    "ec2_api \<Rightarrow> json \<Rightarrow> env \<Rightarrow> bool \<Rightarrow> string \<Rightarrow> nat \<Rightarrow> nat \<Rightarrow> world \<Rightarrow> rem_result \<times> world" where
  "stop_instance api cfg env dry instance_id recommendation_id current_count w =
     (case stop_body api cfg env dry instance_id recommendation_id current_count w of
        ((err, lid), w1) \<Rightarrow>
          (\<lparr>rr_success = (err = None), rr_resource = instance_id, rr_action = ''stop'',
            rr_dry = dry, rr_log = lid, rr_error = err\<rparr>,
           (case err of
              None \<Rightarrow> w1
            | Some e \<Rightarrow>
                if is_safeguard_error e then update_action_status lid LogBlocked w1
                else update_action_status lid LogFailed w1)))"

section \<open>Starting an instance\<close>

definition start_instance ::
    "ec2_api \<Rightarrow> env \<Rightarrow> bool \<Rightarrow> string \<Rightarrow> world \<Rightarrow> rem_result \<times> world" where
  "start_instance api env dry instance_id w =
     (let failed = (\<lambda>e. \<lparr>rr_success = False, rr_resource = instance_id, rr_action = ''start'',
              rr_dry = dry, rr_log = None, rr_error = Some e\<rparr>)
      in case get_instance_details api w instance_id of
           None \<Rightarrow> (failed (ErrNotFound ''Instance not found''), w)
         | Some d \<Rightarrow>
             if d_state d \<noteq> ''stopped''
             then (failed (ErrText (''Instance is '' @ d_state d
                     @ '', cannot start (must be stopped)'')), w)
             else
               (case (if dry then (None, w) else aws_do env (StartInstances instance_id (ec2_region api)) w) of
                  (Some e, w1) \<Rightarrow> (failed (ErrAws e), w1)
                | (None, w1) \<Rightarrow>
                    let (lid, w2) = log_action env dry None instance_id ''start'' LogSuccess w1
                    in (\<lparr>rr_success = True, rr_resource = instance_id, rr_action = ''start'',
                         rr_dry = dry, rr_log = Some lid, rr_error = None\<rparr>, w2)))"

section \<open>The batch\<close>

text \<open>The query: pending stop recommendations, the largest saving first.\<close>

definition pending_stops :: "nat \<Rightarrow> world \<Rightarrow> (rec_row \<times> waste_row) list" where
  "pending_stops limit w =
     take limit (sort_key (\<lambda>(r, x). - r_savings r)
       (filter (\<lambda>(r, x). r_status r = Pending \<and> r_type r = ''stop_instance'') (joined w)))"

fun process_loop ::
    "ec2_api \<Rightarrow> json \<Rightarrow> env \<Rightarrow> bool \<Rightarrow> json \<Rightarrow> (rec_row \<times> waste_row) list \<Rightarrow> nat \<Rightarrow> world
     \<Rightarrow> (rem_result list) sg \<times> world" where
  "process_loop api cfg env dry max_per_run [] stopped w = (Inr [], w)"
| "process_loop api cfg env dry max_per_run ((r, x) # rows) stopped w =
     (let (result, w1) = stop_instance api cfg env dry (w_resource_id x) (r_id r) stopped w;
          stopped1 = (if rr_success result then stopped + 1 else stopped)
      in case json_cmp max_per_run of
           Inl e \<Rightarrow> (Inl e, w1)
         | Inr m \<Rightarrow>
             if of_nat stopped1 \<ge> m then (Inr [result], w1)
             else
               (case process_loop api cfg env dry max_per_run rows stopped1 w1 of
                  (Inl e, w2) \<Rightarrow> (Inl e, w2)
                | (Inr rs, w2) \<Rightarrow> (Inr (result # rs), w2)))"

definition process_pending_recommendations ::
    "ec2_api \<Rightarrow> json \<Rightarrow> env \<Rightarrow> bool \<Rightarrow> nat \<Rightarrow> ec2_session \<Rightarrow> (rem_result list) sg \<times> ec2_session" where
  "process_pending_recommendations api cfg env dry limit s =
     (case acquire_lock s of
        (False, s1) \<Rightarrow> (Inr [], s1)
      | (True, s1) \<Rightarrow>
          (case config_get cfg ''protection'' ''max_instances_per_run'' (JInt 3) of
             Inl e \<Rightarrow> (Inl e, release_lock s1)
           | Inr max_per_run \<Rightarrow>
               (case process_loop api cfg env dry max_per_run
                       (pending_stops limit (ss_world s1)) 0 (ss_world s1) of
                  (res, w1) \<Rightarrow> (res, release_lock (s1\<lparr>ss_world := w1\<rparr>)))))"

section \<open>What a stop does\<close>

lemma lock_id_bound: "lock_id acct < 2 ^ 31"
  by (simp add: lock_id_def)

text \<open>The gates of a stop, in the order the code passes them.\<close>

definition stop_gates ::
    "ec2_api \<Rightarrow> json \<Rightarrow> env \<Rightarrow> string \<Rightarrow> nat \<Rightarrow> nat \<Rightarrow> world \<Rightarrow> bool" where
  "stop_gates api cfg env iid rid cnt w \<longleftrightarrow>
     (case (get_instance_details api w iid, rec_join rid w) of
        (Some d, Some (r, x)) \<Rightarrow>
          (case ec2_idle_days api (e_today env - w_date x) of
             Inl _ \<Rightarrow> False
           | Inr idle \<Rightarrow>
               (case validate_all cfg env iid (d_tags d) (d_launch_time d) (w_confidence x) idle cnt of
                  Inl _ \<Rightarrow> False | Inr res \<Rightarrow> safe_to_proceed res))
      | _ \<Rightarrow> False)"

lemma stop_gates_iff:
  "stop_gates api cfg env iid rid cnt w \<longleftrightarrow>
     (\<exists>d r x idle res. get_instance_details api w iid = Some d \<and> rec_join rid w = Some (r, x)
        \<and> ec2_idle_days api (e_today env - w_date x) = Inr idle
        \<and> validate_all cfg env iid (d_tags d) (d_launch_time d) (w_confidence x) idle cnt = Inr res
        \<and> safe_to_proceed res)"
proof (cases "get_instance_details api w iid")
  case (Some d)
  show ?thesis
  proof (cases "rec_join rid w")
    case (Some y)
    obtain r x where y: "y = (r, x)" by fastforce
    show ?thesis
      by (cases "ec2_idle_days api (e_today env - w_date x)")
        (auto simp: stop_gates_def Some \<open>get_instance_details api w iid = Some d\<close> y split: sum.splits)
  qed (simp add: stop_gates_def split: option.splits)
qed (simp add: stop_gates_def)

text \<open>What the audit trail and AWS see of one attempt.\<close>

definition stop_trace :: "ec2_api \<Rightarrow> bool \<Rightarrow> string \<Rightarrow> world \<Rightarrow> event list" where
  "stop_trace api dry iid w =
     [EvLog (t_next (alog w)), EvSnapshot (t_next (snaps w))]
     @ (if dry then [] else [EvAws (StopInstances iid (ec2_region api))])"

definition stop_outcome :: "ec2_api \<Rightarrow> env \<Rightarrow> bool \<Rightarrow> string \<Rightarrow> world \<Rightarrow> aws_exc option" where
  "stop_outcome api env dry iid w =
     (if dry then None
      else e_write env (length (aws_calls w)) (StopInstances iid (ec2_region api)))"

lemma stop_refused:
  "\<not> stop_gates api cfg env iid rid cnt w \<Longrightarrow>
   \<exists>e. stop_body api cfg env dry iid rid cnt w = ((Some e, None), w)"
  by (auto simp: stop_gates_def stop_body_def split: option.splits sum.splits prod.splits)

lemma stop_instance_refused:
  "\<not> stop_gates api cfg env iid rid cnt w \<Longrightarrow>
   snd (stop_instance api cfg env dry iid rid cnt w) = w
   \<and> \<not> rr_success (fst (stop_instance api cfg env dry iid rid cnt w))
   \<and> rr_log (fst (stop_instance api cfg env dry iid rid cnt w)) = None"
  using stop_refused [of api cfg env iid rid cnt w dry]
  by (auto simp: stop_instance_def update_action_status_def)

text \<open>The state between the rollback row and the end of the attempt.\<close>

definition stop_prepared :: "env \<Rightarrow> bool \<Rightarrow> string \<Rightarrow> nat \<Rightarrow> ec2_details \<Rightarrow> world \<Rightarrow> world" where
  "stop_prepared env dry iid rid d w =
     snd (create_rollback_snapshot env (t_next (alog w)) iid d
           (snd (log_action env dry (Some rid) iid ''stop'' LogPending w)))"

lemma stop_prepared_frame [simp]:
  "recs (stop_prepared env dry iid rid d w) = recs w"
  "wastes (stop_prepared env dry iid rid d w) = wastes w"
  "alog (stop_prepared env dry iid rid d w)
     = alog (snd (log_action env dry (Some rid) iid ''stop'' LogPending w))"
  "events (stop_prepared env dry iid rid d w)
     = events w @ [EvLog (t_next (alog w)), EvSnapshot (t_next (snaps w))]"
  "aws_calls (stop_prepared env dry iid rid d w) = aws_calls w"
  by (simp_all add: stop_prepared_def create_rollback_snapshot_def log_action_def)

lemma stop_allowed:
  assumes "stop_gates api cfg env iid rid cnt w"
  shows "\<exists>d. get_instance_details api w iid = Some d \<and>
    stop_body api cfg env dry iid rid cnt w =
      (let lid = t_next (alog w);
           w2 = stop_prepared env dry iid rid d w;
           w3 = (if dry then w2 else snd (aws_do env (StopInstances iid (ec2_region api)) w2))
       in case stop_outcome api env dry iid w of
            Some e \<Rightarrow> ((Some (ErrAws e), Some lid), w3)
          | None \<Rightarrow> ((None, Some lid), mark_applied env rid (set_log_status lid LogSuccess w3)))"
proof -
  obtain d r x idle res where facts: "get_instance_details api w iid = Some d"
    "rec_join rid w = Some (r, x)" "ec2_idle_days api (e_today env - w_date x) = Inr idle"
    "validate_all cfg env iid (d_tags d) (d_launch_time d) (w_confidence x) idle cnt = Inr res"
    "safe_to_proceed res"
    using assms stop_gates_iff by blast
  obtain lid w1 where w1: "log_action env dry (Some rid) iid ''stop'' LogPending w = (lid, w1)"
    by fastforce
  obtain sid w2 where w2: "create_rollback_snapshot env lid iid d w1 = (sid, w2)"
    by fastforce
  have lid: "lid = t_next (alog w)" and ww: "w2 = stop_prepared env dry iid rid d w"
    using w1 w2 by (metis fst_conv insert_log_frame(1) log_action_def)
      (metis w1 w2 stop_prepared_def fst_conv snd_conv insert_log_frame(1) log_action_def)
  show ?thesis
  proof (intro exI conjI)
    show "get_instance_details api w iid = Some d" by (rule facts)
    show "stop_body api cfg env dry iid rid cnt w =
      (let lid = t_next (alog w);
           w2 = stop_prepared env dry iid rid d w;
           w3 = (if dry then w2 else snd (aws_do env (StopInstances iid (ec2_region api)) w2))
       in case stop_outcome api env dry iid w of
            Some e \<Rightarrow> ((Some (ErrAws e), Some lid), w3)
          | None \<Rightarrow> ((None, Some lid), mark_applied env rid (set_log_status lid LogSuccess w3)))"
      using facts w1 w2 lid ww
      by (simp add: Let_def stop_body_def stop_outcome_def aws_do_def split: option.splits)
  qed
qed

lemma stop_instance_allowed:
  fixes dry :: bool
  assumes "stop_gates api cfg env iid rid cnt w"
  defines "out \<equiv> stop_outcome api env dry iid w"
    and "res \<equiv> fst (stop_instance api cfg env dry iid rid cnt w)"
    and "w' \<equiv> snd (stop_instance api cfg env dry iid rid cnt w)"
  shows "events w' = events w @ stop_trace api dry iid w"
    and "rr_success res \<longleftrightarrow> out = None"
    and "rr_log res = Some (t_next (alog w))"
    and "recs w' = (if out = None then recs (mark_applied env rid w) else recs w)"
    and "wastes w' = wastes w"
    and "out = None \<Longrightarrow> alog w' = alog (set_log_status (t_next (alog w)) LogSuccess
           (snd (log_action env dry (Some rid) iid ''stop'' LogPending w)))"
    and "out \<noteq> None \<Longrightarrow> alog w' = alog (update_action_status (Some (t_next (alog w))) LogFailed
           (snd (log_action env dry (Some rid) iid ''stop'' LogPending w)))"
  using stop_allowed [OF assms(1), of dry]
  by (auto simp: res_def w'_def out_def stop_instance_def Let_def stop_trace_def
      update_action_status_def mark_applied_def set_log_status_def close_log_def
      split: option.splits)

lemma stop_instance_old_logs:
  assumes wf: "t_wf l_id (alog w)" and old: "t_get l_id k (alog w) = Some l"
  shows "t_get l_id k (alog (snd (stop_instance api cfg env dry iid rid cnt w))) = Some l
    \<and> t_wf l_id (alog (snd (stop_instance api cfg env dry iid rid cnt w)))"
proof (cases "stop_gates api cfg env iid rid cnt w")
  case False
  then show ?thesis using stop_instance_refused assms by metis
next
  case True
  have ne: "k \<noteq> t_next (alog w)"
    using t_get_mem [OF old] wf by (auto simp: t_wf_def)
  let ?w1 = "snd (log_action env dry (Some rid) iid ''stop'' LogPending w)"
  have one: "t_get l_id k (alog ?w1) = Some l" "t_wf l_id (alog ?w1)"
    using old ne by (simp_all add: log_action_def get_insert_log [OF wf] wf_insert_log [OF wf])
  show ?thesis
  proof (cases "stop_outcome api env dry iid w")
    case None
    show ?thesis
      unfolding stop_instance_allowed(6) [OF True None] using one ne
      by (simp add: get_set_log_status wf_set_log_status)
  next
    case (Some e)
    then have "stop_outcome api env dry iid w \<noteq> None" by simp
    note log = stop_instance_allowed(7) [OF True this]
    show ?thesis
      unfolding log using one ne
      by (simp add: update_action_status_def get_set_log_status wf_set_log_status close_log_def)
  qed
qed

lemma stop_instance_log_wf:
  assumes wf: "t_wf l_id (alog w)"
  shows "t_wf l_id (alog (snd (stop_instance api cfg env dry iid rid cnt w)))"
proof (cases "stop_gates api cfg env iid rid cnt w")
  case False
  then show ?thesis using stop_instance_refused assms by metis
next
  case True
  have one: "t_wf l_id (alog (snd (log_action env dry (Some rid) iid ''stop'' LogPending w)))"
    by (simp add: log_action_def wf_insert_log [OF wf])
  show ?thesis
  proof (cases "stop_outcome api env dry iid w")
    case None
    show ?thesis unfolding stop_instance_allowed(6) [OF True None] using one by (simp add: wf_set_log_status)
  next
    case (Some e)
    then have "stop_outcome api env dry iid w \<noteq> None" by simp
    note log = stop_instance_allowed(7) [OF True this]
    show ?thesis
      unfolding log using one by (simp add: update_action_status_def wf_set_log_status wf_close_log close_log_def)
  qed
qed

lemma stop_instance_calls:
  "aws_calls (snd (stop_instance api cfg env dry iid rid cnt w)) = aws_calls w
     @ (if stop_gates api cfg env iid rid cnt w \<and> \<not> dry
        then [StopInstances iid (ec2_region api)] else [])"
proof (cases "stop_gates api cfg env iid rid cnt w")
  case True
  from aws_calls_by_events [OF stop_instance_allowed(1) [OF True, of dry]] True
  show ?thesis by (auto simp: stop_trace_def map_filter_def)
next
  case False
  with stop_instance_refused show ?thesis by simp
qed

lemma stop_gates_policy:
  assumes "stop_gates api cfg env iid rid cnt w"
  shows "\<exists>d r x idle. get_instance_details api w iid = Some d \<and> rec_join rid w = Some (r, x)
    \<and> is_auto_remediation_enabled cfg = Inr True
    \<and> is_whitelisted cfg iid (d_tags d) = Inr False
    \<and> (\<exists>b. check_instance_age cfg env (d_launch_time d) = Inr b)
    \<and> (\<exists>b. check_confidence_score cfg (w_confidence x) = Inr b)
    \<and> ec2_idle_days api (e_today env - w_date x) = Inr idle
    \<and> (\<exists>b. check_idle_duration cfg idle = Inr b)
    \<and> (\<exists>b. check_schedule cfg env = Inr b)
    \<and> (\<exists>b. check_max_instances_limit cfg cnt = Inr b)"
proof -
  obtain d r x idle res where facts: "get_instance_details api w iid = Some d"
    "rec_join rid w = Some (r, x)" "ec2_idle_days api (e_today env - w_date x) = Inr idle"
    "validate_all cfg env iid (d_tags d) (d_launch_time d) (w_confidence x) idle cnt = Inr res"
    "safe_to_proceed res"
    using assms stop_gates_iff by blast
  from validate_all_safe [OF facts(4,5)] facts(1-3) show ?thesis by blast
qed

text \<open>The cap of the run: a stop at count \<open>n\<close> needs \<open>n\<close> below the configured maximum.\<close>

lemma stop_gates_below_max:
  assumes "stop_gates api cfg env iid rid cnt w"
    and "config_get cfg ''protection'' ''max_instances_per_run'' (JInt 3) = Inr v"
    and "json_cmp v = (Inr m :: rat sg)"
  shows "of_nat cnt < m"
proof -
  obtain b where "check_max_instances_limit cfg cnt = Inr b"
    using stop_gates_policy [OF assms(1)] by blast
  then show ?thesis using assms(2,3) by (auto simp: check_max_instances_limit_def split: if_splits)
qed

lemma stop_instance_success_gates:
  "rr_success (fst (stop_instance api cfg env dry iid rid cnt w)) \<Longrightarrow>
   stop_gates api cfg env iid rid cnt w"
  using stop_instance_refused by blast

section \<open>What a batch does\<close>

definition successes :: "rem_result list \<Rightarrow> nat" where
  "successes rs = length (filter rr_success rs)"

lemma process_loop_length:
  "process_loop api cfg env dry m rows stopped w = (Inr rs, w') \<Longrightarrow> length rs \<le> length rows"
proof (induction rows arbitrary: stopped w rs w')
  case (Cons row rows)
  obtain r x where "row = (r, x)" by fastforce
  with Cons show ?case
    by (fastforce simp: Let_def split: prod.splits sum.splits if_splits)
qed simp

lemma process_loop_cap:
  assumes "config_get cfg ''protection'' ''max_instances_per_run'' (JInt 3) = Inr v"
    and "json_cmp v = (Inr m :: rat sg)"
  shows "process_loop api cfg env dry v rows stopped w = (Inr rs, w') \<Longrightarrow> 0 < successes rs \<Longrightarrow>
    of_nat (stopped + successes rs) < m + 1"
proof (induction rows arbitrary: stopped w rs w')
  case (Cons row rows)
  obtain r x where row: "row = (r, x)" by fastforce
  obtain result w1 where res: "stop_instance api cfg env dry (w_resource_id x) (r_id r) stopped w = (result, w1)"
    by fastforce
  have below: "of_nat stopped < m" if "rr_success result"
    using stop_gates_below_max [OF stop_instance_success_gates assms, of api env dry "w_resource_id x" "r_id r" stopped w]
      that by (simp add: res)
  define stopped1 where "stopped1 = (if rr_success result then stopped + 1 else stopped)"
  show ?case
  proof (cases "of_nat stopped1 \<ge> m")
    case True
    then show ?thesis
      using Cons.prems below assms(2) row res by (auto simp: successes_def stopped1_def split: if_splits)
  next
    case False
    then obtain rs' where rs: "rs = result # rs'"
      and rest: "process_loop api cfg env dry v rows stopped1 w1 = (Inr rs', w')"
      using Cons.prems(1) assms(2) row res
      by (auto simp: Let_def stopped1_def split: prod.splits sum.splits if_splits)
    have sum: "stopped + successes rs = stopped1 + successes rs'"
      by (simp add: successes_def rs stopped1_def)
    show ?thesis
    proof (cases "0 < successes rs'")
      case True
      from Cons.IH [OF rest this] show ?thesis by (simp only: sum)
    next
      case none: False
      then have "stopped + successes rs = stopped1" using sum by simp
      then show ?thesis using False by linarith
    qed
  qed
qed (simp add: successes_def)

text \<open>
  The AWS writes of a batch, one at most for each row and in the order of the rows, and the
  recommendations it can touch.
\<close>

lemma process_loop_calls:
  "\<exists>cs. aws_calls (snd (process_loop api cfg env dry m rows stopped w)) = aws_calls w @ cs
     \<and> subseq cs (map (\<lambda>(r, x). StopInstances (w_resource_id x) (ec2_region api)) rows)
     \<and> (dry \<longrightarrow> cs = [])"
proof (induction rows arbitrary: stopped w)
  case Nil
  then show ?case by simp
next
  case (Cons row rows)
  obtain r x where row: "row = (r, x)" by fastforce
  obtain result w1 where res: "stop_instance api cfg env dry (w_resource_id x) (r_id r) stopped w = (result, w1)"
    by fastforce
  define c0 where "c0 = (if stop_gates api cfg env (w_resource_id x) (r_id r) stopped w \<and> \<not> dry
      then [StopInstances (w_resource_id x) (ec2_region api)] else [])"
  have c0: "aws_calls w1 = aws_calls w @ c0"
    using stop_instance_calls [of api cfg env dry "w_resource_id x" "r_id r" stopped w]
    by (simp add: res c0_def)
  define stopped1 where "stopped1 = (if rr_success result then stopped + 1 else stopped)"
  obtain cs where cs: "aws_calls (snd (process_loop api cfg env dry m rows stopped1 w1)) = aws_calls w1 @ cs"
    "subseq cs (map (\<lambda>(r, x). StopInstances (w_resource_id x) (ec2_region api)) rows)" "dry \<longrightarrow> cs = []"
    using Cons.IH by blast
  have final: "snd (process_loop api cfg env dry m (row # rows) stopped w) \<in>
      {w1, snd (process_loop api cfg env dry m rows stopped1 w1)}"
    by (auto simp: row res Let_def stopped1_def split: sum.splits prod.splits)
  have one: "subseq c0 [StopInstances (w_resource_id x) (ec2_region api)]"
    by (simp add: c0_def)
  from final show ?case
  proof (elim insertE emptyE)
    assume "snd (process_loop api cfg env dry m (row # rows) stopped w) = w1"
    moreover have "subseq c0 (map (\<lambda>(r, x). StopInstances (w_resource_id x) (ec2_region api)) (row # rows))"
      by (simp add: c0_def row)
    ultimately show ?thesis using c0 by (auto simp: c0_def)
  next
    assume "snd (process_loop api cfg env dry m (row # rows) stopped w)
        = snd (process_loop api cfg env dry m rows stopped1 w1)"
    moreover have "subseq (c0 @ cs) (map (\<lambda>(r, x). StopInstances (w_resource_id x) (ec2_region api)) (row # rows))"
      using list_emb_append_mono [OF one cs(2)] by (simp add: row)
    ultimately show ?thesis using c0 cs by (intro exI [of _ "c0 @ cs"]) (auto simp: c0_def)
  qed
qed

lemma process_pending_frame:
  "ss_held (snd (process_pending_recommendations api cfg env dry limit s)) = ss_held s"
  "ss_other (snd (process_pending_recommendations api cfg env dry limit s)) = ss_other s"
  "ss_other s \<Longrightarrow> process_pending_recommendations api cfg env dry limit s = (Inr [], s)"
  by (auto simp: process_pending_recommendations_def acquire_lock_def release_lock_def
      split: sum.splits prod.splits)

lemma process_pending_world:
  "ss_world (snd (process_pending_recommendations api cfg env dry limit s)) = ss_world s
   \<or> (\<exists>m. ss_world (snd (process_pending_recommendations api cfg env dry limit s))
       = snd (process_loop api cfg env dry m (pending_stops limit (ss_world s)) 0 (ss_world s)))"
  by (auto simp: process_pending_recommendations_def acquire_lock_def release_lock_def
      split: sum.splits prod.splits) (metis snd_conv)

lemma pending_stops_mem:
  "(r, x) \<in> set (pending_stops limit w) \<Longrightarrow>
   r_status r = Pending \<and> r_type r = ''stop_instance'' \<and> r \<in> set (t_rows (recs w))
   \<and> t_get w_id (r_waste r) (wastes w) = Some x"
  by (auto simp: pending_stops_def dest!: in_set_takeD joined_mem)

lemma pending_stops_sorted:
  "sorted (map (\<lambda>(r, x). - r_savings r) (pending_stops limit w))"
  by (simp add: pending_stops_def take_map [symmetric] sorted_wrt_take)

section \<open>Properties\<close>

text \<open>
  C1: a stop writes to AWS only on a real run whose safeguards all passed on the live instance
  and the recorded recommendation; it is then the single stop of that instance, attempted after
  the row of the action and the rollback row were written, and nothing else is attempted.
\<close>

theorem ec2_stop_guarded:
  assumes "stop_instance api cfg env dry iid rid cnt w = (result, w')"
    and "aws_calls w' \<noteq> aws_calls w"
  shows "\<not> dry
    \<and> events w' = events w @ [EvLog (t_next (alog w)), EvSnapshot (t_next (snaps w)),
        EvAws (StopInstances iid (ec2_region api))]
    \<and> (\<exists>d r x idle. get_instance_details api w iid = Some d \<and> rec_join rid w = Some (r, x)
        \<and> is_auto_remediation_enabled cfg = Inr True \<and> is_whitelisted cfg iid (d_tags d) = Inr False
        \<and> check_instance_age cfg env (d_launch_time d) \<in> range Inr
        \<and> check_confidence_score cfg (w_confidence x) \<in> range Inr
        \<and> ec2_idle_days api (e_today env - w_date x) = Inr idle
        \<and> check_idle_duration cfg idle \<in> range Inr \<and> check_schedule cfg env \<in> range Inr
        \<and> check_max_instances_limit cfg cnt \<in> range Inr)"
proof -
  have gates: "stop_gates api cfg env iid rid cnt w" and dry: "\<not> dry"
    using assms stop_instance_calls [of api cfg env dry iid rid cnt w]
    by (auto split: if_splits)
  have "events w' = events w @ stop_trace api dry iid w"
    using stop_instance_allowed(1) [OF gates, of dry] assms(1) by simp
  with dry stop_gates_policy [OF gates] show ?thesis
    by (fastforce simp: stop_trace_def)
qed

definition sample_api :: ec2_api where
  "sample_api =
     \<lparr>ec2_region = ''eu-west-1'',
      ec2_describe = (\<lambda>w i. Inr [[\<lparr>i_id = i, i_type = ''t3.micro'', i_state = ''running'', i_launch = 0,
        i_launch_iso = [], i_az = ''eu-west-1a'', i_tags = None, i_raw = JNull\<rparr>]]),
      ec2_idle_days = Inr\<rparr>"

lemma sample_gates: "stop_gates sample_api sample_policy sample_env ''i-1'' 7 0 sample_world"
  by (simp add: stop_gates_def sample_api_def sample_env_def sample_world_def sample_policy_def
      get_instance_details_def rec_join_def t_get_def validate_all_def is_auto_remediation_enabled_def
      is_whitelisted_def check_instance_age_def check_confidence_score_def check_idle_duration_def
      check_schedule_def days_of_seconds_def check_max_instances_limit_def config_get_def dict_get_def)

theorem ec2_stop_guarded_witness:
  "events (snd (stop_instance sample_api sample_policy sample_env False ''i-1'' 7 0 sample_world))
     = [EvLog 5, EvSnapshot 5, EvAws (StopInstances ''i-1'' ''eu-west-1'')]"
proof -
  obtain result w' where run:
    "stop_instance sample_api sample_policy sample_env False ''i-1'' 7 0 sample_world = (result, w')"
    by fastforce
  have "aws_calls w' \<noteq> aws_calls sample_world"
    using stop_instance_calls [of sample_api sample_policy sample_env False "''i-1''" 7 0 sample_world]
    by (simp add: sample_gates run)
  from ec2_stop_guarded [OF run this] run show ?thesis
    by (simp add: sample_world_def sample_api_def)
qed

text \<open>
  C23: the outcomes of a stop, as the code has them. A live stop that succeeds made its one call and
  marks the recommendation applied and the action successful; so does a dry run that passes the
  safeguards, which calls nothing: its recommendation is applied as well, where the
  documentation has it stay pending. A stop refused by a safeguard, live or dry, changes nothing at all: the
  refusal leaves no row in the audit trail, where the documentation has decisions recorded. A stop
  that fails at AWS keeps the recommendation and marks the action failed. The row of the action holds
  whether it was dry. No action is ever marked blocked.
\<close>

theorem ec2_stop_outcomes:
  assumes "stop_instance api cfg env dry iid rid cnt w = (result, w')"
    and "t_wf l_id (alog w)" "0 < t_next (alog w)"
  shows "(rr_success result \<longrightarrow> status_of rid w' = Some Applied
        \<and> map_option l_status (t_get l_id (t_next (alog w)) (alog w')) = Some LogSuccess
        \<and> map_option l_dry (t_get l_id (t_next (alog w)) (alog w')) = Some dry
        \<and> aws_calls w' = aws_calls w @ (if dry then [] else [StopInstances iid (ec2_region api)]))
    \<and> (\<not> rr_success result \<and> aws_calls w' = aws_calls w \<longrightarrow> w' = w \<and> rr_log result = None)
    \<and> (\<not> rr_success result \<and> aws_calls w' \<noteq> aws_calls w \<longrightarrow> recs w' = recs w \<and> \<not> dry
        \<and> map_option l_status (t_get l_id (t_next (alog w)) (alog w')) = Some LogFailed)"
proof (cases "stop_gates api cfg env iid rid cnt w")
  case False
  from stop_instance_refused [OF False, of dry] assms(1) show ?thesis by simp
next
  case True
  note facts = stop_instance_allowed [OF True, of dry, unfolded assms(1) fst_conv snd_conv]
  obtain r x where join: "rec_join rid w = Some (r, x)"
    using stop_gates_policy [OF True] by blast
  have status: "status_of rid w \<noteq> None"
    using join by (auto simp: rec_join_def status_of_def split: option.splits)
  have calls: "aws_calls w' = aws_calls w @ (if dry then [] else [StopInstances iid (ec2_region api)])"
    using stop_instance_calls [of api cfg env dry iid rid cnt w] True assms(1) by (auto split: if_splits)
  show ?thesis
  proof (cases "stop_outcome api env dry iid w")
    case None
    have "status_of rid w' = Some Applied"
      using facts(4) None status status_mark_applied [of rid env rid w] by (simp add: status_of_def)
    moreover have "map_option l_status (t_get l_id (t_next (alog w)) (alog w')) = Some LogSuccess"
      using facts(6) None assms(2) by (simp add: get_set_log_status log_action_def get_insert_log)
    moreover have "map_option l_dry (t_get l_id (t_next (alog w)) (alog w')) = Some dry"
      using facts(6) None assms(2) by (simp add: get_set_log_status log_action_def get_insert_log)
    ultimately show ?thesis using facts(2) None calls by simp
  next
    case (Some e)
    have "\<not> dry" using Some by (auto simp: stop_outcome_def)
    moreover have "map_option l_status (t_get l_id (t_next (alog w)) (alog w')) = Some LogFailed"
      using facts(7) Some assms(2,3)
      by (simp add: update_action_status_def close_log_def get_set_log_status log_action_def get_insert_log)
    ultimately show ?thesis using facts(2,4) Some calls by simp
  qed
qed

theorem ec2_stop_outcomes_witness:
  "status_of 7 (snd (stop_instance sample_api sample_policy sample_env False ''i-1'' 7 0 sample_world)) = Some Applied
   \<and> aws_calls (snd (stop_instance sample_api sample_policy sample_env False ''i-1'' 7 0 sample_world))
     = aws_calls sample_world @ [StopInstances ''i-1'' (ec2_region sample_api)]
   \<and> status_of 7 (snd (stop_instance sample_api sample_policy sample_env True ''i-1'' 7 0 sample_world)) = Some Applied
   \<and> aws_calls (snd (stop_instance sample_api sample_policy sample_env True ''i-1'' 7 0 sample_world))
     = aws_calls sample_world"
proof -
  have wf: "t_wf l_id (alog sample_world)" "0 < t_next (alog sample_world)"
    by (simp_all add: sample_world_def t_wf_def)
  have live: "stop_outcome sample_api sample_env False ''i-1'' sample_world = None"
    by (simp add: stop_outcome_def sample_api_def sample_env_def)
  have ok: "rr_success (fst (stop_instance sample_api sample_policy sample_env dry ''i-1'' 7 0 sample_world))" for dry
    using stop_instance_allowed(2) [OF sample_gates, of dry] live
    by (cases dry) (simp_all add: stop_outcome_def)
  show ?thesis
    using ec2_stop_outcomes [OF surjective_pairing wf, of sample_api sample_policy sample_env False "''i-1''" 7 0] ok [of False]
      ec2_stop_outcomes [OF surjective_pairing wf, of sample_api sample_policy sample_env True "''i-1''" 7 0] ok [of True]
    by simp
qed

text \<open>
  In a dry run every batch leaves AWS untouched, and still each stop whose gates are open
  marks its recommendation applied, as if the instance had been stopped.
\<close>

theorem ec2_dry_run:
  "aws_calls (ss_world (snd (process_pending_recommendations api cfg env True limit s)))
     = aws_calls (ss_world s)
   \<and> (stop_gates api cfg env iid rid cnt w \<longrightarrow>
        status_of rid (snd (stop_instance api cfg env True iid rid cnt w)) = Some Applied)"
proof
  show "aws_calls (ss_world (snd (process_pending_recommendations api cfg env True limit s)))
     = aws_calls (ss_world s)"
    using process_pending_world [of api cfg env True limit s] process_loop_calls [where dry = True]
    by (metis append_Nil2)
  show "stop_gates api cfg env iid rid cnt w \<longrightarrow>
        status_of rid (snd (stop_instance api cfg env True iid rid cnt w)) = Some Applied"
  proof
    assume gates: "stop_gates api cfg env iid rid cnt w"
    then obtain r x where "rec_join rid w = Some (r, x)" using stop_gates_policy by blast
    then have "status_of rid w \<noteq> None"
      by (auto simp: rec_join_def status_of_def split: option.splits)
    then show "status_of rid (snd (stop_instance api cfg env True iid rid cnt w)) = Some Applied"
      using stop_instance_allowed(4) [OF gates, of True] status_mark_applied [of rid env rid w]
      by (simp add: stop_outcome_def status_of_def)
  qed
qed

theorem ec2_dry_run_witness:
  "status_of 7 (snd (stop_instance sample_api sample_policy sample_env True ''i-1'' 7 0 sample_world))
     = Some Applied \<and> status_of 7 sample_world = Some Pending"
  using ec2_dry_run [of sample_api sample_policy sample_env 0 "\<lparr>ss_world = sample_world, ss_held = 0, ss_other = False\<rparr>"
      "''i-1''" 7 0 sample_world] sample_gates
  by (simp add: sample_world_def status_of_def t_get_def)

text \<open>
  C24: a batch attempts at most one stop for each of the \<open>limit\<close> most valuable pending stop
  recommendations, in their order and no other write; the stops that succeed stay within the
  configured \<open>max_instances_per_run\<close>; the advisory lock is given back on every path, and a
  session that does not get it does nothing.
\<close>

theorem ec2_batch_bounded:
  assumes "config_get cfg ''protection'' ''max_instances_per_run'' (JInt 3) = Inr (JInt k)"
    and "process_pending_recommendations api cfg env dry limit s = (out, s')"
  shows "(\<exists>cs. aws_calls (ss_world s') = aws_calls (ss_world s) @ cs
      \<and> subseq cs (map (\<lambda>(r, x). StopInstances (w_resource_id x) (ec2_region api))
          (pending_stops limit (ss_world s))))
    \<and> length (pending_stops limit (ss_world s)) \<le> limit
    \<and> (\<forall>rs. out = Inr rs \<longrightarrow> length rs \<le> limit \<and> int (successes rs) \<le> max k 0)
    \<and> ss_held s' = ss_held s
    \<and> (ss_other s \<longrightarrow> out = Inr [] \<and> s' = s)"
proof (intro conjI allI impI)
  show "\<exists>cs. aws_calls (ss_world s') = aws_calls (ss_world s) @ cs
      \<and> subseq cs (map (\<lambda>(r, x). StopInstances (w_resource_id x) (ec2_region api))
          (pending_stops limit (ss_world s)))"
  proof (cases "ss_world s' = ss_world s")
    case True
    then show ?thesis by (intro exI [of _ "[]"]) simp
  next
    case False
    with process_pending_world [of api cfg env dry limit s] assms(2) obtain m where
      "ss_world s' = snd (process_loop api cfg env dry m (pending_stops limit (ss_world s)) 0 (ss_world s))"
      by auto
    with process_loop_calls [of api cfg env dry m "pending_stops limit (ss_world s)" 0 "ss_world s"]
    show ?thesis by auto
  qed
  show len: "length (pending_stops limit (ss_world s)) \<le> limit"
    by (simp add: pending_stops_def)
  show "ss_held s' = ss_held s"
    using process_pending_frame(1) [of api cfg env dry limit s] assms(2) by simp
  show "out = Inr []" "s' = s" if "ss_other s"
    using process_pending_frame(3) [OF that, of api cfg env dry limit] assms(2) by simp_all
  fix rs assume out: "out = Inr rs"
  show "length rs \<le> limit"
  proof (cases "ss_other s")
    case True
    then show ?thesis using process_pending_frame(3) [OF True, of api cfg env dry limit] assms(2) out by simp
  next
    case False
    then obtain w1 where "process_loop api cfg env dry (JInt k) (pending_stops limit (ss_world s)) 0
        (ss_world s) = (Inr rs, w1)"
      using assms out by (auto simp: process_pending_recommendations_def acquire_lock_def split: prod.splits)
    from process_loop_length [OF this] len show ?thesis by simp
  qed
  show "int (successes rs) \<le> max k 0"
  proof (cases "0 < successes rs")
    case True
    then have "\<not> ss_other s"
      using process_pending_frame(3) [of s api cfg env dry limit] assms(2) out
      by (auto simp: successes_def)
    then obtain w1 where "process_loop api cfg env dry (JInt k) (pending_stops limit (ss_world s)) 0
        (ss_world s) = (Inr rs, w1)"
      using assms out by (auto simp: process_pending_recommendations_def acquire_lock_def split: prod.splits)
    from process_loop_cap [OF assms(1) _ this True, of "of_int k"]
    have "of_nat (successes rs) < (of_int k + 1 :: rat)" by simp
    then have "(of_int (int (successes rs)) :: rat) < of_int (k + 1)" by simp
    then have "int (successes rs) < k + 1" by (simp only: of_int_less_iff)
    then show ?thesis by simp
  qed simp
qed

theorem ec2_batch_bounded_witness:
  "ss_held (snd (process_pending_recommendations sample_api sample_policy sample_env False 5
      \<lparr>ss_world = sample_world, ss_held = 0, ss_other = False\<rparr>)) = 0"
proof -
  obtain out s' where run: "process_pending_recommendations sample_api sample_policy sample_env False 5
      \<lparr>ss_world = sample_world, ss_held = 0, ss_other = False\<rparr> = (out, s')" by fastforce
  have "config_get sample_policy ''protection'' ''max_instances_per_run'' (JInt 3) = Inr (JInt 2)"
    by (simp add: config_get_def sample_policy_def dict_get_def)
  from ec2_batch_bounded [OF this run] run show ?thesis by simp
qed

end
