(* ===== verification/ResourceRemediator.thy ===== *)
theory ResourceRemediator
  imports ActionsLog
begin

text \<open>
  \<open>src/remediators/resource_remediator.py\<close>: the guarded flow shared by seven remediators and
  the seven themselves. A remediator is a record of hooks over its own type of live state; the
  record \<open>aws_reads\<close> is what the describe calls answer, each possibly an exception and each free
  to depend on the history. Response records keep the fields the code reads.
\<close>

section \<open>The hooks and the flow\<close>

record 's hooks =
  h_resource_type :: string
  h_action_type :: string
  h_can_rollback :: bool
  h_state :: "env \<Rightarrow> world \<Rightarrow> string \<Rightarrow> string \<Rightarrow> rem_error + 's option"
  h_tags :: "'s \<Rightarrow> (string, string) dict"
  h_json :: "'s \<Rightarrow> (string, json) dict"
  h_verify :: "'s \<Rightarrow> string \<Rightarrow> string \<Rightarrow> rem_error + unit"
  h_execute :: "env \<Rightarrow> string \<Rightarrow> string \<Rightarrow> 's \<Rightarrow> world \<Rightarrow> rem_error option \<times> world"

text \<open>
  The checks before anything is written, in the order of the code: the live state, the waste
  condition on it, the action switch, the recommendation, the whitelist, the confidence, the
  schedule, and for a real run the global switch.
\<close>

definition rem_checks ::
    "'s hooks \<Rightarrow> json \<Rightarrow> env \<Rightarrow> bool \<Rightarrow> string \<Rightarrow> nat \<Rightarrow> string \<Rightarrow> world \<Rightarrow> rem_error + 's" where
  "rem_checks h cfg env dry resource_id recommendation_id region w =
     py_bind (h_state h env w resource_id region) (\<lambda>st.
     case st of
       None \<Rightarrow> Inl (ErrNotFound (h_resource_type h @ '' '' @ resource_id @ '' not found in '' @ region))
     | Some state \<Rightarrow>
         py_bind (h_verify h state resource_id region) (\<lambda>_.
         py_bind (lift_sg (is_action_enabled cfg (h_action_type h))) (\<lambda>enabled.
         if \<not> enabled
         then Inl (ErrSafeguard (SgMessage (''Action '' @ h_action_type h @ '' disabled by config'')))
         else
           (case rec_join recommendation_id w of
              None \<Rightarrow> Inl (ErrNotFound ''Recommendation not found in database'')
            | Some (r, x) \<Rightarrow>
                py_bind (lift_sg (is_whitelisted cfg resource_id (h_tags h state))) (\<lambda>wl.
                if wl then Inl (ErrSafeguard (SgMessage (resource_id @ '' is whitelisted'')))
                else
                  py_bind (lift_sg (check_confidence_score cfg (w_confidence x))) (\<lambda>_.
                  py_bind (lift_sg (check_schedule cfg env)) (\<lambda>_.
                  if dry then Inr state
                  else py_bind (lift_sg (is_auto_remediation_enabled cfg)) (\<lambda>on.
                    if \<not> on then Inl (ErrSafeguard (SgMessage auto_disabled_text))
                    else Inr state))))))))"

definition rem_log_action ::
    "'s hooks \<Rightarrow> env \<Rightarrow> bool \<Rightarrow> nat \<Rightarrow> string \<Rightarrow> log_status \<Rightarrow> world \<Rightarrow> nat \<times> world" where
  "rem_log_action h env dry recommendation_id resource_id status w =
     insert_log env (Some recommendation_id) resource_id (h_resource_type h) (h_action_type h)
       status dry w"

definition rem_create_rollback_snapshot ::
    "'s hooks \<Rightarrow> env \<Rightarrow> nat \<Rightarrow> string \<Rightarrow> 's \<Rightarrow> world \<Rightarrow> nat \<times> world" where
  "rem_create_rollback_snapshot h env action_log_id resource_id state w =
     insert_snapshot env action_log_id resource_id (h_resource_type h) (h_json h state)
       (h_can_rollback h) w"

definition rem_body ::
    "'s hooks \<Rightarrow> json \<Rightarrow> env \<Rightarrow> bool \<Rightarrow> string \<Rightarrow> nat \<Rightarrow> string \<Rightarrow> world
     \<Rightarrow> (rem_error option \<times> nat option) \<times> world" where
  "rem_body h cfg env dry resource_id recommendation_id region w =
     (case rem_checks h cfg env dry resource_id recommendation_id region w of
        Inl e \<Rightarrow> ((Some e, None), w)
      | Inr state \<Rightarrow>
          let (lid, w1) = rem_log_action h env dry recommendation_id resource_id LogPending w;
              (_, w2) = rem_create_rollback_snapshot h env lid resource_id state w1;
              (failure, w3) = (if dry then (None, w2) else h_execute h env resource_id region state w2)
          in (case failure of
                Some e \<Rightarrow> ((Some e, Some lid), w3)
              | None \<Rightarrow>
                  let w4 = set_log_status lid LogSuccess w3
                  in ((None, Some lid), if dry then w4 else mark_applied env recommendation_id w4)))"

definition remediate ::
    "'s hooks \<Rightarrow> string \<Rightarrow> json \<Rightarrow> env \<Rightarrow> bool \<Rightarrow> string \<Rightarrow> nat \<Rightarrow> string option \<Rightarrow> world
     \<Rightarrow> rem_result \<times> world" where
  "remediate h default_region cfg env dry resource_id recommendation_id region w =
     (case rem_body h cfg env dry resource_id recommendation_id (or_default region default_region) w of
        ((err, lid), w1) \<Rightarrow>
          (\<lparr>rr_success = (err = None), rr_resource = resource_id, rr_action = h_action_type h,
            rr_dry = dry, rr_log = lid, rr_error = err\<rparr>,
           (case err of
              None \<Rightarrow> w1
            | Some e \<Rightarrow> close_log lid (if is_safeguard_error e then LogBlocked else LogFailed) w1)))"

section \<open>What AWS answers\<close>

record aws_volume =
  vol_id :: string
  vol_type :: string
  vol_size :: int
  vol_state :: string
  vol_az :: string
  vol_attachments :: "string list"
  vol_tags :: "(string \<times> string) list"

record aws_nat =
  nat_id :: string
  nat_state :: string
  nat_vpc :: "string option"
  nat_subnet :: "string option"
  nat_tags :: "(string \<times> string) list"

record aws_classic_lb =
  clb_name :: string
  clb_instances :: "string list"

record aws_lb =
  lb_name :: string
  lb_arn :: string
  lb_type :: string

record aws_address =
  ad_allocation :: string
  ad_public_ip :: "string option"
  ad_association :: "string option"
  ad_instance :: "string option"
  ad_interface :: "string option"
  ad_tags :: "(string \<times> string) list"

record aws_snapshot =
  sn_id :: string
  sn_volume :: "string option"
  sn_size :: int
  sn_start :: int
  sn_tags :: "(string \<times> string) list"

record aws_image =
  im_id :: string
  im_name :: "string option"
  im_created :: int
  im_snapshots :: "string option list"
  im_tags :: "(string \<times> string) list"

text \<open>
  Every call takes the history, the region and the identifier. The images filtered by snapshot
  give their ids; the instances filtered by image give id and state; a target group gives the
  number of its target health descriptions. \<open>new_snapshot\<close> is the id in the response of
  \<open>create_snapshot\<close>. \<open>classic_gone\<close> and \<open>lb_gone\<close> recognise the one exception class each
  load balancer client treats as absence.
\<close>

record aws_reads =
  describe_volumes :: "world \<Rightarrow> string \<Rightarrow> string \<Rightarrow> aws_exc + aws_volume list"
  describe_nats :: "world \<Rightarrow> string \<Rightarrow> string \<Rightarrow> aws_exc + aws_nat list"
  describe_classic :: "world \<Rightarrow> string \<Rightarrow> string \<Rightarrow> aws_exc + aws_classic_lb list"
  classic_gone :: "aws_exc \<Rightarrow> bool"
  describe_lbs :: "world \<Rightarrow> string \<Rightarrow> string \<Rightarrow> aws_exc + aws_lb list"
  lb_gone :: "aws_exc \<Rightarrow> bool"
  describe_target_groups :: "world \<Rightarrow> string \<Rightarrow> string \<Rightarrow> aws_exc + string list"
  describe_target_health :: "world \<Rightarrow> string \<Rightarrow> string \<Rightarrow> aws_exc + nat"
  describe_addresses :: "world \<Rightarrow> string \<Rightarrow> string \<Rightarrow> aws_exc + aws_address list"
  describe_snapshots :: "world \<Rightarrow> string \<Rightarrow> string \<Rightarrow> aws_exc + aws_snapshot list"
  images_of_snapshot :: "world \<Rightarrow> string \<Rightarrow> string \<Rightarrow> aws_exc + string list"
  describe_images :: "world \<Rightarrow> string \<Rightarrow> string \<Rightarrow> aws_exc + aws_image list"
  instances_of_image :: "world \<Rightarrow> string \<Rightarrow> string \<Rightarrow> aws_exc + (string \<times> string) list"
  new_snapshot :: "world \<Rightarrow> string \<Rightarrow> string \<Rightarrow> string"

text \<open>
  \<open>try: ...[0] / except ClientError: return None\<close>: any \<open>ClientError\<close> counts as absence, any
  other exception and an empty answer escape.
\<close>

definition first_or_gone :: "(aws_exc \<Rightarrow> bool) \<Rightarrow> aws_exc + 'a list \<Rightarrow> rem_error + 'a option" where
  "first_or_gone gone r =
     (case r of
        Inl e \<Rightarrow> if gone e then Inr None else Inl (ErrAws e)
      | Inr [] \<Rightarrow> Inl (ErrPy IndexError)
      | Inr (x # _) \<Rightarrow> Inr (Some x))"

fun is_client_error :: "aws_exc \<Rightarrow> bool" where
  "is_client_error (ClientError _) = True"
| "is_client_error (OtherError _) = False"

definition aws_get :: "aws_exc + 'a \<Rightarrow> rem_error + 'a" where
  "aws_get r = (case r of Inl e \<Rightarrow> Inl (ErrAws e) | Inr x \<Rightarrow> Inr x)"

definition tags_dict :: "(string \<times> string) list \<Rightarrow> (string, string) dict" where
  "tags_dict ts = fold (\<lambda>(k, v). AList.update k v) ts []"

definition json_tags :: "(string, string) dict \<Rightarrow> json" where
  "json_tags d = JObj (map (\<lambda>(k, v). (k, JStr v)) d)"

definition json_opt :: "string option \<Rightarrow> json" where
  "json_opt x = (case x of None \<Rightarrow> JNull | Some s \<Rightarrow> JStr s)"

definition json_strs :: "string list \<Rightarrow> json" where
  "json_strs xs = JList (map JStr xs)"

definition aws_write :: "env \<Rightarrow> aws_call \<Rightarrow> world \<Rightarrow> rem_error option \<times> world" where
  "aws_write env c w = (case aws_do env c w of (r, w1) \<Rightarrow> (map_option ErrAws r, w1))"

definition refuse :: "string \<Rightarrow> rem_error + unit" where
  "refuse m = Inl (ErrSafeguard (SgMessage m))"

section \<open>gp2 to gp3\<close>

definition gp2_state :: "aws_reads \<Rightarrow> world \<Rightarrow> string \<Rightarrow> string \<Rightarrow> rem_error + aws_volume option" where
  "gp2_state aws w resource_id region =
     first_or_gone is_client_error (describe_volumes aws w region resource_id)"

definition gp2_verify :: "aws_volume \<Rightarrow> string \<Rightarrow> string \<Rightarrow> rem_error + unit" where
  "gp2_verify state resource_id region =
     (if vol_type state \<noteq> ''gp2''
      then refuse (''Volume '' @ resource_id @ '' is '' @ vol_type state @ '', not gp2'') else Inr ())"

definition gp2_execute ::
    "env \<Rightarrow> string \<Rightarrow> string \<Rightarrow> aws_volume \<Rightarrow> world \<Rightarrow> rem_error option \<times> world" where
  "gp2_execute env resource_id region state w = aws_write env (ModifyVolumeGp3 resource_id region) w"

definition volume_json :: "aws_volume \<Rightarrow> (string, json) dict" where
  "volume_json v =
     [(''volume_id'', JStr (vol_id v)), (''volume_type'', JStr (vol_type v)),
      (''size_gb'', JInt (vol_size v)), (''state'', JStr (vol_state v)), (''az'', JStr (vol_az v)),
      (''tags'', json_tags (tags_dict (vol_tags v)))]"

definition gp2_hooks :: "aws_reads \<Rightarrow> aws_volume hooks" where
  "gp2_hooks aws =
     \<lparr>h_resource_type = ''ebs_volume'', h_action_type = ''migrate_gp2_to_gp3'', h_can_rollback = True,
      h_state = (\<lambda>env. gp2_state aws), h_tags = (\<lambda>v. tags_dict (vol_tags v)), h_json = volume_json,
      h_verify = gp2_verify, h_execute = gp2_execute\<rparr>"

section \<open>Deleting an orphaned volume, snapshot first\<close>

definition volume_delete_json :: "aws_volume \<Rightarrow> (string, json) dict" where
  "volume_delete_json v =
     [(''volume_id'', JStr (vol_id v)), (''volume_type'', JStr (vol_type v)),
      (''size_gb'', JInt (vol_size v)), (''state'', JStr (vol_state v)), (''az'', JStr (vol_az v)),
      (''attachments'', json_strs (vol_attachments v)),
      (''tags'', json_tags (tags_dict (vol_tags v)))]"

definition volume_delete_verify :: "aws_volume \<Rightarrow> string \<Rightarrow> string \<Rightarrow> rem_error + unit" where
  "volume_delete_verify state resource_id region =
     (if vol_state state \<noteq> ''available'' \<or> vol_attachments state \<noteq> []
      then refuse (''Volume '' @ resource_id @ '' no longer orphaned, not deleting'') else Inr ())"

text \<open>\<open>max(id)\<close> over an empty selection is \<open>NULL\<close>: no row is updated.\<close>

definition attach_ebs_snapshot_to_rollback :: "string \<Rightarrow> string \<Rightarrow> string \<Rightarrow> world \<Rightarrow> world" where
  "attach_ebs_snapshot_to_rollback rtype resource_id ebs_snapshot_id w =
     (let ids = map s_id (t_select (\<lambda>s. s_resource s = resource_id \<and> s_rtype s = rtype) (snaps w))
      in if ids = [] then w
         else w\<lparr>snaps := t_update (\<lambda>s. s_id s = Max (set ids))
                (\<lambda>s. s\<lparr>s_state := dict_merge (s_state s)
                       [(''rollback_ebs_snapshot_id'', JStr ebs_snapshot_id)]\<rparr>) (snaps w)\<rparr>)"

definition volume_delete_execute ::
    "aws_reads \<Rightarrow> env \<Rightarrow> string \<Rightarrow> string \<Rightarrow> aws_volume \<Rightarrow> world \<Rightarrow> rem_error option \<times> world" where
  "volume_delete_execute aws env resource_id region state w =
     (case aws_write env (CreateSnapshot resource_id region) w of
        (Some e, w1) \<Rightarrow> (Some e, w1)
      | (None, w1) \<Rightarrow>
          aws_write env (DeleteVolume resource_id region)
            (attach_ebs_snapshot_to_rollback ''ebs_volume'' resource_id
               (new_snapshot aws w region resource_id) w1))"

definition volume_delete_hooks :: "aws_reads \<Rightarrow> aws_volume hooks" where
  "volume_delete_hooks aws =
     \<lparr>h_resource_type = ''ebs_volume'', h_action_type = ''delete_volume'', h_can_rollback = True,
      h_state = (\<lambda>env. gp2_state aws), h_tags = (\<lambda>v. tags_dict (vol_tags v)),
      h_json = volume_delete_json, h_verify = volume_delete_verify,
      h_execute = volume_delete_execute aws\<rparr>"

section \<open>NAT gateways\<close>

definition nat_state_hook :: "aws_reads \<Rightarrow> world \<Rightarrow> string \<Rightarrow> string \<Rightarrow> rem_error + aws_nat option" where
  "nat_state_hook aws w resource_id region =
     py_bind (first_or_gone is_client_error (describe_nats aws w region resource_id)) (\<lambda>n.
     Inr (case n of
            None \<Rightarrow> None
          | Some g \<Rightarrow> if nat_state g \<in> {''deleted'', ''deleting''} then None else Some g))"

definition nat_json :: "aws_nat \<Rightarrow> (string, json) dict" where
  "nat_json g =
     [(''nat_gateway_id'', JStr (nat_id g)), (''state'', JStr (nat_state g)),
      (''vpc_id'', json_opt (nat_vpc g)), (''subnet_id'', json_opt (nat_subnet g)),
      (''tags'', json_tags (tags_dict (nat_tags g)))]"

definition nat_verify :: "aws_nat \<Rightarrow> string \<Rightarrow> string \<Rightarrow> rem_error + unit" where
  "nat_verify state resource_id region = Inr ()"

definition nat_execute ::
    "env \<Rightarrow> string \<Rightarrow> string \<Rightarrow> aws_nat \<Rightarrow> world \<Rightarrow> rem_error option \<times> world" where
  "nat_execute env resource_id region state w = aws_write env (DeleteNatGateway resource_id region) w"

definition nat_hooks :: "aws_reads \<Rightarrow> aws_nat hooks" where
  "nat_hooks aws =
     \<lparr>h_resource_type = ''nat_gateway'', h_action_type = ''delete_nat_gateway'', h_can_rollback = False,
      h_state = (\<lambda>env. nat_state_hook aws), h_tags = (\<lambda>g. tags_dict (nat_tags g)), h_json = nat_json,
      h_verify = nat_verify, h_execute = nat_execute\<rparr>"

section \<open>Load balancers\<close>

datatype lb_state =
    ClassicLb string "string list"
  | TargetLb string string string nat

definition is_classic :: "string \<Rightarrow> bool" where
  "is_classic resource_id = (\<not> prefix ''arn:'' resource_id)"

text \<open>The sum over the target groups stops at the first exception.\<close>

fun registered_targets :: "aws_reads \<Rightarrow> world \<Rightarrow> string \<Rightarrow> string list \<Rightarrow> rem_error + nat" where
  "registered_targets aws w region [] = Inr 0"
| "registered_targets aws w region (tg # tgs) =
     py_bind (aws_get (describe_target_health aws w region tg)) (\<lambda>n.
     py_bind (registered_targets aws w region tgs) (\<lambda>m. Inr (n + m)))"

definition lb_state_hook :: "aws_reads \<Rightarrow> world \<Rightarrow> string \<Rightarrow> string \<Rightarrow> rem_error + lb_state option" where
  "lb_state_hook aws w resource_id region =
     (if is_classic resource_id
      then py_bind (first_or_gone (classic_gone aws) (describe_classic aws w region resource_id)) (\<lambda>lb.
           Inr (map_option (\<lambda>l. ClassicLb (clb_name l) (clb_instances l)) lb))
      else py_bind (first_or_gone (lb_gone aws) (describe_lbs aws w region resource_id)) (\<lambda>lb.
           case lb of
             None \<Rightarrow> Inr None
           | Some l \<Rightarrow>
               py_bind (aws_get (describe_target_groups aws w region resource_id)) (\<lambda>tgs.
               py_bind (registered_targets aws w region tgs) (\<lambda>n.
               Inr (Some (TargetLb (lb_name l) (lb_arn l) (lb_type l) n))))))"

fun lb_json :: "lb_state \<Rightarrow> (string, json) dict" where
  "lb_json (ClassicLb name instances) =
     [(''name'', JStr name), (''lb_type'', JStr ''classic''), (''instances'', json_strs instances),
      (''tags'', JObj [])]"
| "lb_json (TargetLb name arn ty registered) =
     [(''name'', JStr name), (''arn'', JStr arn), (''lb_type'', JStr ty),
      (''registered_targets'', JInt (int registered)), (''tags'', JObj [])]"

text \<open>A listed load balancer whose type reads \<open>classic\<close> has no \<open>instances\<close> key.\<close>

fun lb_verify :: "lb_state \<Rightarrow> string \<Rightarrow> string \<Rightarrow> rem_error + unit" where
  "lb_verify (ClassicLb name instances) resource_id region =
     (if instances \<noteq> [] then refuse (''Classic LB '' @ resource_id @ '' now has instances'') else Inr ())"
| "lb_verify (TargetLb name arn ty registered) resource_id region =
     (if ty = ''classic'' then Inl (ErrPy KeyError)
      else if 0 < registered
      then refuse (''Load balancer '' @ resource_id @ '' now has registered targets'') else Inr ())"

definition lb_execute ::
    "env \<Rightarrow> string \<Rightarrow> string \<Rightarrow> lb_state \<Rightarrow> world \<Rightarrow> rem_error option \<times> world" where
  "lb_execute env resource_id region state w =
     (if is_classic resource_id then aws_write env (DeleteClassicLb resource_id region) w
      else aws_write env (DeleteLbV2 resource_id region) w)"

definition lb_hooks :: "aws_reads \<Rightarrow> lb_state hooks" where
  "lb_hooks aws =
     \<lparr>h_resource_type = ''load_balancer'', h_action_type = ''delete_load_balancer'',
      h_can_rollback = False, h_state = (\<lambda>env. lb_state_hook aws), h_tags = (\<lambda>_. []),
      h_json = lb_json, h_verify = lb_verify, h_execute = lb_execute\<rparr>"

section \<open>Elastic IPs\<close>

definition eip_state :: "aws_reads \<Rightarrow> world \<Rightarrow> string \<Rightarrow> string \<Rightarrow> rem_error + aws_address option" where
  "eip_state aws w resource_id region =
     first_or_gone is_client_error (describe_addresses aws w region resource_id)"

definition eip_json :: "aws_address \<Rightarrow> (string, json) dict" where
  "eip_json a =
     [(''allocation_id'', JStr (ad_allocation a)), (''public_ip'', json_opt (ad_public_ip a)),
      (''association_id'', json_opt (ad_association a)), (''instance_id'', json_opt (ad_instance a)),
      (''network_interface_id'', json_opt (ad_interface a)),
      (''tags'', json_tags (tags_dict (ad_tags a)))]"

definition eip_target :: "aws_address \<Rightarrow> string" where
  "eip_target a =
     or_default (ad_instance a) (or_default (ad_interface a) (or_default (ad_association a) []))"

definition eip_verify :: "aws_address \<Rightarrow> string \<Rightarrow> string \<Rightarrow> rem_error + unit" where
  "eip_verify state resource_id region =
     (if eip_target state \<noteq> []
      then refuse (''Elastic IP '' @ resource_id @ '' is now associated to '' @ eip_target state
             @ '', not releasing'')
      else Inr ())"

definition eip_execute ::
    "env \<Rightarrow> string \<Rightarrow> string \<Rightarrow> aws_address \<Rightarrow> world \<Rightarrow> rem_error option \<times> world" where
  "eip_execute env resource_id region state w = aws_write env (ReleaseAddress resource_id region) w"

definition eip_hooks :: "aws_reads \<Rightarrow> aws_address hooks" where
  "eip_hooks aws =
     \<lparr>h_resource_type = ''elastic_ip'', h_action_type = ''release_ip'', h_can_rollback = True,
      h_state = (\<lambda>env. eip_state aws), h_tags = (\<lambda>a. tags_dict (ad_tags a)), h_json = eip_json,
      h_verify = eip_verify, h_execute = eip_execute\<rparr>"

section \<open>Snapshots\<close>

definition DELETION_MIN_AGE_DAYS :: int where
  "DELETION_MIN_AGE_DAYS = 90"

record snapshot_state =
  ss_snap :: aws_snapshot
  ss_age :: int
  ss_amis :: "string list"

definition snapshot_state_hook ::
    "aws_reads \<Rightarrow> env \<Rightarrow> world \<Rightarrow> string \<Rightarrow> string \<Rightarrow> rem_error + snapshot_state option" where
  "snapshot_state_hook aws env w resource_id region =
     py_bind (first_or_gone is_client_error (describe_snapshots aws w region resource_id)) (\<lambda>sn.
     case sn of
       None \<Rightarrow> Inr None
     | Some s \<Rightarrow>
         py_bind (aws_get (images_of_snapshot aws w region resource_id)) (\<lambda>images.
         Inr (Some \<lparr>ss_snap = s, ss_age = days_of_seconds (e_now env - sn_start s), ss_amis = images\<rparr>)))"

definition snapshot_json :: "snapshot_state \<Rightarrow> (string, json) dict" where
  "snapshot_json s =
     [(''snapshot_id'', JStr (sn_id (ss_snap s))), (''volume_id'', json_opt (sn_volume (ss_snap s))),
      (''size_gb'', JInt (sn_size (ss_snap s))), (''age_days'', JInt (ss_age s)),
      (''ami_ids'', json_strs (ss_amis s)), (''tags'', json_tags (tags_dict (sn_tags (ss_snap s))))]"

definition snapshot_verify :: "snapshot_state \<Rightarrow> string \<Rightarrow> string \<Rightarrow> rem_error + unit" where
  "snapshot_verify state resource_id region =
     (if ss_amis state \<noteq> [] then refuse (''Snapshot '' @ resource_id @ '' backs AMI(s), not deleting'')
      else if ss_age state < DELETION_MIN_AGE_DAYS
      then refuse (''Snapshot '' @ resource_id @ '' is too young, not deleting'') else Inr ())"

definition snapshot_execute ::
    "env \<Rightarrow> string \<Rightarrow> string \<Rightarrow> snapshot_state \<Rightarrow> world \<Rightarrow> rem_error option \<times> world" where
  "snapshot_execute env resource_id region state w = aws_write env (DeleteSnapshot resource_id region) w"

definition snapshot_hooks :: "aws_reads \<Rightarrow> snapshot_state hooks" where
  "snapshot_hooks aws =
     \<lparr>h_resource_type = ''ebs_snapshot'', h_action_type = ''delete_snapshot'', h_can_rollback = False,
      h_state = snapshot_state_hook aws, h_tags = (\<lambda>s. tags_dict (sn_tags (ss_snap s))),
      h_json = snapshot_json, h_verify = snapshot_verify, h_execute = snapshot_execute\<rparr>"

section \<open>AMIs\<close>

record ami_state =
  as_image :: aws_image
  as_age :: int
  as_instances :: "string list"
  as_snapshots :: "string list"

text \<open>The mapped snapshots that have an id, and the instances in any state but terminated.\<close>

definition ami_state_hook ::
    "aws_reads \<Rightarrow> env \<Rightarrow> world \<Rightarrow> string \<Rightarrow> string \<Rightarrow> rem_error + ami_state option" where
  "ami_state_hook aws env w resource_id region =
     (case describe_images aws w region resource_id of
        Inl e \<Rightarrow> if is_client_error e then Inr None else Inl (ErrAws e)
      | Inr [] \<Rightarrow> Inr None
      | Inr (img # _) \<Rightarrow>
          py_bind (aws_get (instances_of_image aws w region resource_id)) (\<lambda>insts.
          Inr (Some
            \<lparr>as_image = img, as_age = days_of_seconds (e_now env - im_created img),
             as_instances = map fst (filter (\<lambda>(i, st). st \<noteq> ''terminated'') insts),
             as_snapshots = List.map_filter (\<lambda>s. if truthy s then s else None) (im_snapshots img)\<rparr>)))"

definition ami_json :: "ami_state \<Rightarrow> (string, json) dict" where
  "ami_json s =
     [(''image_id'', JStr (im_id (as_image s))), (''name'', json_opt (im_name (as_image s))),
      (''age_days'', JInt (as_age s)), (''instance_ids'', json_strs (as_instances s)),
      (''snapshot_ids'', json_strs (as_snapshots s)),
      (''tags'', json_tags (tags_dict (im_tags (as_image s))))]"

definition ami_verify :: "ami_state \<Rightarrow> string \<Rightarrow> string \<Rightarrow> rem_error + unit" where
  "ami_verify state resource_id region =
     (if as_instances state \<noteq> []
      then refuse (''AMI '' @ resource_id @ '' now backs instance(s), not deregistering'')
      else if as_age state < DELETION_MIN_AGE_DAYS
      then refuse (''AMI '' @ resource_id @ '' is too young, not deregistering'') else Inr ())"

text \<open>
  The backing snapshots one by one: a \<open>ClientError\<close> is noted and the loop goes on, another
  exception leaves it.
\<close>

fun delete_backing ::
    "env \<Rightarrow> string \<Rightarrow> string list \<Rightarrow> string list \<Rightarrow> world \<Rightarrow> (rem_error + string list) \<times> world" where
  "delete_backing env region [] failed w = (Inr failed, w)"
| "delete_backing env region (s # ss) failed w =
     (case aws_do env (DeleteSnapshot s region) w of
        (None, w1) \<Rightarrow> delete_backing env region ss failed w1
      | (Some (ClientError m), w1) \<Rightarrow> delete_backing env region ss (failed @ [s]) w1
      | (Some (OtherError m), w1) \<Rightarrow> (Inl (ErrAws (OtherError m)), w1))"

definition ami_execute ::
    "env \<Rightarrow> string \<Rightarrow> string \<Rightarrow> ami_state \<Rightarrow> world \<Rightarrow> rem_error option \<times> world" where
  "ami_execute env resource_id region state w =
     (case aws_write env (DeregisterImage resource_id region) w of
        (Some e, w1) \<Rightarrow> (Some e, w1)
      | (None, w1) \<Rightarrow>
          (case delete_backing env region (as_snapshots state) [] w1 of
             (Inl e, w2) \<Rightarrow> (Some e, w2)
           | (Inr failed, w2) \<Rightarrow> (if failed = [] then None else Some (ErrLeftover failed), w2)))"

definition ami_hooks :: "aws_reads \<Rightarrow> ami_state hooks" where
  "ami_hooks aws =
     \<lparr>h_resource_type = ''ami'', h_action_type = ''deregister_ami'', h_can_rollback = False,
      h_state = ami_state_hook aws, h_tags = (\<lambda>s. tags_dict (im_tags (as_image s))),
      h_json = ami_json, h_verify = ami_verify, h_execute = ami_execute\<rparr>"

section \<open>The dispatch\<close>

definition REMEDIATED_TYPES :: "string list" where
  "REMEDIATED_TYPES =
     [''migrate_gp2_to_gp3'', ''delete_volume'', ''delete_nat_gateway'', ''delete_load_balancer'',
      ''release_ip'', ''delete_snapshot'', ''deregister_ami'']"

text \<open>\<open>REMEDIATORS_BY_RECOMMENDATION[rec_type](dry_run).remediate(...)\<close>.\<close>

definition remediate_by_recommendation ::
    "aws_reads \<Rightarrow> string \<Rightarrow> string \<Rightarrow> json \<Rightarrow> env \<Rightarrow> bool \<Rightarrow> string \<Rightarrow> nat \<Rightarrow> string option \<Rightarrow> world
     \<Rightarrow> (rem_result \<times> world) option" where
  "remediate_by_recommendation aws rec_type default_region cfg env dry resource_id rid region w =
     (if rec_type = ''migrate_gp2_to_gp3''
      then Some (remediate (gp2_hooks aws) default_region cfg env dry resource_id rid region w)
      else if rec_type = ''delete_volume''
      then Some (remediate (volume_delete_hooks aws) default_region cfg env dry resource_id rid region w)
      else if rec_type = ''delete_nat_gateway''
      then Some (remediate (nat_hooks aws) default_region cfg env dry resource_id rid region w)
      else if rec_type = ''delete_load_balancer''
      then Some (remediate (lb_hooks aws) default_region cfg env dry resource_id rid region w)
      else if rec_type = ''release_ip''
      then Some (remediate (eip_hooks aws) default_region cfg env dry resource_id rid region w)
      else if rec_type = ''delete_snapshot''
      then Some (remediate (snapshot_hooks aws) default_region cfg env dry resource_id rid region w)
      else if rec_type = ''deregister_ami''
      then Some (remediate (ami_hooks aws) default_region cfg env dry resource_id rid region w)
      else None)"

section \<open>The contract of a remediator\<close>

text \<open>
  What the flow relies on: the action attempts a prefix of its planned AWS writes, all of them
  when it succeeds, and touches no row of the audit trail or of the recommendations.
\<close>

locale remediator =
  fixes h :: "'s hooks"
    and plan :: "string \<Rightarrow> string \<Rightarrow> 's \<Rightarrow> aws_call list"
  assumes exec_events: "\<exists>cs. events (snd (h_execute h env i region st w)) = events w @ map EvAws cs
      \<and> prefix cs (plan i region st)
      \<and> (fst (h_execute h env i region st w) = None \<longrightarrow> cs = plan i region st)"
    and exec_recs: "recs (snd (h_execute h env i region st w)) = recs w"
    and exec_wastes: "wastes (snd (h_execute h env i region st w)) = wastes w"
    and exec_alog: "alog (snd (h_execute h env i region st w)) = alog w"
begin

definition prepared :: "env \<Rightarrow> bool \<Rightarrow> string \<Rightarrow> nat \<Rightarrow> 's \<Rightarrow> world \<Rightarrow> world" where
  "prepared env dry i rid st w =
     snd (rem_create_rollback_snapshot h env (t_next (alog w)) i st
       (snd (rem_log_action h env dry rid i LogPending w)))"

lemma prepared_frame [simp]:
  "recs (prepared env dry i rid st w) = recs w"
  "wastes (prepared env dry i rid st w) = wastes w"
  "alog (prepared env dry i rid st w) = alog (snd (rem_log_action h env dry rid i LogPending w))"
  "events (prepared env dry i rid st w)
     = events w @ [EvLog (t_next (alog w)), EvSnapshot (t_next (snaps w))]"
  "aws_calls (prepared env dry i rid st w) = aws_calls w"
  by (simp_all add: prepared_def rem_create_rollback_snapshot_def rem_log_action_def)

lemma refused:
  assumes "rem_checks h cfg env dry i rid (or_default region dr) w = Inl e"
  shows "remediate h dr cfg env dry i rid region w =
    (\<lparr>rr_success = False, rr_resource = i, rr_action = h_action_type h, rr_dry = dry,
      rr_log = None, rr_error = Some e\<rparr>, w)"
  using assms by (simp add: remediate_def rem_body_def)

lemma body_allowed:
  assumes "rem_checks h cfg env dry i rid region w = Inr st"
  shows "rem_body h cfg env dry i rid region w =
    (let lid = t_next (alog w); w2 = prepared env dry i rid st w;
         (failure, w3) = (if dry then (None, w2) else h_execute h env i region st w2)
     in (case failure of
           Some e \<Rightarrow> ((Some e, Some lid), w3)
         | None \<Rightarrow> ((None, Some lid),
             if dry then set_log_status lid LogSuccess w3
             else mark_applied env rid (set_log_status lid LogSuccess w3))))"
proof -
  obtain lid w1 where w1: "rem_log_action h env dry rid i LogPending w = (lid, w1)" by fastforce
  obtain sid w2 where w2: "rem_create_rollback_snapshot h env lid i st w1 = (sid, w2)" by fastforce
  have lid: "lid = t_next (alog w)"
    using w1 by (metis fst_conv insert_log_frame(1) rem_log_action_def)
  have "w2 = prepared env dry i rid st w"
    using w1 w2 lid by (simp add: prepared_def)
  then show ?thesis
    using assms w1 w2 lid by (simp add: rem_body_def Let_def split: prod.splits option.splits)
qed

text \<open>What an attempt that passes the checks leaves behind.\<close>

lemma allowed:
  assumes "rem_checks h cfg env dry i rid (or_default region dr) w = Inr st"
  shows "\<exists>cs result w'. remediate h dr cfg env dry i rid region w = (result, w')
    \<and> events w' = events w @ [EvLog (t_next (alog w)), EvSnapshot (t_next (snaps w))] @ map EvAws cs
    \<and> prefix cs (plan i (or_default region dr) st)
    \<and> (dry \<longrightarrow> cs = [] \<and> rr_success result)
    \<and> (rr_success result \<and> \<not> dry \<longrightarrow> cs = plan i (or_default region dr) st)
    \<and> rr_log result = Some (t_next (alog w))
    \<and> wastes w' = wastes w
    \<and> recs w' = (if rr_success result \<and> \<not> dry then recs (mark_applied env rid w) else recs w)
    \<and> alog w' = (if rr_success result
        then alog (set_log_status (t_next (alog w)) LogSuccess
               (snd (rem_log_action h env dry rid i LogPending w)))
        else alog (close_log (Some (t_next (alog w)))
               (case rr_error result of
                  Some e \<Rightarrow> if is_safeguard_error e then LogBlocked else LogFailed
                | None \<Rightarrow> LogFailed)
               (snd (rem_log_action h env dry rid i LogPending w))))"
proof (cases dry)
  case True
  then show ?thesis
    using body_allowed [OF assms]
    by (auto simp: remediate_def Let_def set_log_status_def)
next
  case False
  let ?region = "or_default region dr" and ?w2 = "prepared env dry i rid st w"
  obtain failure w3 where x: "h_execute h env i ?region st ?w2 = (failure, w3)" by fastforce
  obtain cs where cs: "events w3 = events ?w2 @ map EvAws cs" "prefix cs (plan i ?region st)"
    "failure = None \<longrightarrow> cs = plan i ?region st"
    using exec_events [of env i ?region st ?w2] x by auto
  have frame: "recs w3 = recs w" "wastes w3 = wastes w"
    "alog w3 = alog (snd (rem_log_action h env dry rid i LogPending w))"
    using exec_recs [of env i ?region st ?w2] exec_wastes [of env i ?region st ?w2]
      exec_alog [of env i ?region st ?w2] x by simp_all
  show ?thesis
  proof (cases failure)
    case None
    then show ?thesis
      using body_allowed [OF assms] cs frame False x
      by (auto simp: remediate_def Let_def set_log_status_def mark_applied_def)
  next
    case (Some e)
    then show ?thesis
      using body_allowed [OF assms] cs frame False x
      by (auto simp: remediate_def Let_def set_log_status_def close_log_def)
  qed
qed

lemma checks_policy:
  assumes "rem_checks h cfg env dry i rid region w = Inr st"
  shows "h_state h env w i region = Inr (Some st) \<and> h_verify h st i region = Inr ()
    \<and> is_action_enabled cfg (h_action_type h) = Inr True
    \<and> (\<exists>r x b. rec_join rid w = Some (r, x) \<and> check_confidence_score cfg (w_confidence x) = Inr b)
    \<and> is_whitelisted cfg i (h_tags h st) = Inr False
    \<and> (\<exists>b. check_schedule cfg env = Inr b)
    \<and> (\<not> dry \<longrightarrow> is_auto_remediation_enabled cfg = Inr True)"
proof -
  obtain stt where 0: "h_state h env w i region = Inr (Some stt)"
    using assms by (cases "h_state h env w i region")
      (auto simp: rem_checks_def split: option.split_asm)
  have 1: "h_verify h stt i region = Inr ()" "is_action_enabled cfg (h_action_type h) = Inr True"
    using assms by (auto simp: rem_checks_def 0 py_simps split: if_splits)
  obtain r x where 2: "rec_join rid w = Some (r, x)"
    using assms 0 1 by (cases "rec_join rid w") (auto simp: rem_checks_def)
  show ?thesis
    using assms 0 1 2 by (auto simp: rem_checks_def py_simps split: if_splits)
qed

text \<open>The facts the program rests on, for the whole flow.\<close>

lemma write_guarded:
  assumes "remediate h dr cfg env dry i rid region w = (result, w')"
    and "aws_calls w' \<noteq> aws_calls w"
  shows "\<exists>st cs. \<not> dry \<and> rem_checks h cfg env dry i rid (or_default region dr) w = Inr st
    \<and> prefix cs (plan i (or_default region dr) st) \<and> cs \<noteq> []
    \<and> events w' = events w @ [EvLog (t_next (alog w)), EvSnapshot (t_next (snaps w))] @ map EvAws cs"
proof (cases "rem_checks h cfg env dry i rid (or_default region dr) w")
  case (Inl e)
  with refused [OF Inl] assms show ?thesis by simp
next
  case (Inr st)
  from allowed [OF Inr] assms(1) obtain cs where
    ev: "events w' = events w @ [EvLog (t_next (alog w)), EvSnapshot (t_next (snaps w))] @ map EvAws cs"
    and cs: "prefix cs (plan i (or_default region dr) st)" "dry \<longrightarrow> cs = []"
    by auto
  have "cs \<noteq> []"
  proof
    assume "cs = []"
    with ev have "aws_calls w' = aws_calls w"
      by (simp add: aws_calls_def map_filter_def)
    with assms(2) show False by simp
  qed
  with ev cs Inr show ?thesis by auto
qed

lemma guarded:
  assumes "remediate h dr cfg env dry i rid region w = (result, w')"
    and "aws_calls w' \<noteq> aws_calls w"
  shows "\<not> dry \<and> is_auto_remediation_enabled cfg = Inr True
    \<and> is_action_enabled cfg (h_action_type h) = Inr True
    \<and> (\<exists>st. h_state h env w i (or_default region dr) = Inr (Some st)
        \<and> h_verify h st i (or_default region dr) = Inr ()
        \<and> is_whitelisted cfg i (h_tags h st) = Inr False)
    \<and> (\<exists>r x. rec_join rid w = Some (r, x) \<and> check_confidence_score cfg (w_confidence x) \<in> range Inr)
    \<and> check_schedule cfg env \<in> range Inr
    \<and> (\<exists>cs. cs \<noteq> [] \<and> events w' = events w
          @ [EvLog (t_next (alog w)), EvSnapshot (t_next (snaps w))] @ map EvAws cs)"
proof -
  obtain st cs where "\<not> dry" and run: "rem_checks h cfg env dry i rid (or_default region dr) w = Inr st"
    and "cs \<noteq> []" "events w' = events w @ [EvLog (t_next (alog w)), EvSnapshot (t_next (snaps w))] @ map EvAws cs"
    using write_guarded [OF assms] by blast
  with checks_policy [OF run] show ?thesis by blast
qed

lemma guarded_plan:
  assumes "remediate h dr cfg env dry i rid region w = (result, w')"
    and "aws_calls w' \<noteq> aws_calls w"
  shows "\<not> dry \<and> is_auto_remediation_enabled cfg = Inr True
    \<and> is_action_enabled cfg (h_action_type h) = Inr True
    \<and> (\<exists>r x. rec_join rid w = Some (r, x) \<and> check_confidence_score cfg (w_confidence x) \<in> range Inr)
    \<and> check_schedule cfg env \<in> range Inr
    \<and> (\<exists>st cs. h_state h env w i (or_default region dr) = Inr (Some st)
        \<and> is_whitelisted cfg i (h_tags h st) = Inr False
        \<and> cs \<noteq> [] \<and> prefix cs (plan i (or_default region dr) st)
        \<and> events w' = events w
          @ [EvLog (t_next (alog w)), EvSnapshot (t_next (snaps w))] @ map EvAws cs)"
proof -
  obtain st cs where "\<not> dry" and run: "rem_checks h cfg env dry i rid (or_default region dr) w = Inr st"
    and "prefix cs (plan i (or_default region dr) st)" "cs \<noteq> []"
    and "events w' = events w @ [EvLog (t_next (alog w)), EvSnapshot (t_next (snaps w))] @ map EvAws cs"
    using write_guarded [OF assms] by blast
  with checks_policy [OF run] show ?thesis by blast
qed

lemma dry_keeps:
  assumes "remediate h dr cfg env True i rid region w = (result, w')"
  shows "aws_calls w' = aws_calls w \<and> recs w' = recs w \<and> wastes w' = wastes w"
proof (cases "rem_checks h cfg env True i rid (or_default region dr) w")
  case (Inl e)
  with refused [OF Inl] assms show ?thesis by simp
next
  case (Inr st)
  from allowed [OF Inr] assms show ?thesis
    by (auto simp: aws_calls_def map_filter_def)
qed

lemma old_logs_kept:
  assumes "remediate h dr cfg env dry i rid region w = (result, w')"
    and wf: "t_wf l_id (alog w)" and old: "t_get l_id k (alog w) = Some l"
  shows "t_get l_id k (alog w') = Some l \<and> t_wf l_id (alog w')"
proof (cases "rem_checks h cfg env dry i rid (or_default region dr) w")
  case (Inl e)
  with refused [OF Inl] assms show ?thesis by simp
next
  case (Inr st)
  have ne: "k \<noteq> t_next (alog w)"
    using t_get_mem [OF old] wf by (auto simp: t_wf_def)
  let ?w1 = "snd (rem_log_action h env dry rid i LogPending w)"
  have one: "t_get l_id k (alog ?w1) = Some l" "t_wf l_id (alog ?w1)"
    using old ne by (simp_all add: rem_log_action_def get_insert_log [OF wf] wf_insert_log [OF wf])
  from allowed [OF Inr] assms(1) consider
      "alog w' = alog (set_log_status (t_next (alog w)) LogSuccess ?w1)"
    | s where "alog w' = alog (close_log (Some (t_next (alog w))) s ?w1)"
    by (metis Pair_inject)
  then show ?thesis
    using one ne
    by cases (auto simp: get_set_log_status wf_set_log_status close_log_def)
qed

lemma log_wf:
  assumes "remediate h dr cfg env dry i rid region w = (result, w')" and wf: "t_wf l_id (alog w)"
  shows "t_wf l_id (alog w')"
proof (cases "rem_checks h cfg env dry i rid (or_default region dr) w")
  case (Inl e)
  with refused [OF Inl] assms show ?thesis by simp
next
  case (Inr st)
  let ?w1 = "snd (rem_log_action h env dry rid i LogPending w)"
  have one: "t_wf l_id (alog ?w1)" by (simp add: rem_log_action_def wf_insert_log [OF wf])
  from allowed [OF Inr] assms(1) consider
      "alog w' = alog (set_log_status (t_next (alog w)) LogSuccess ?w1)"
    | s where "alog w' = alog (close_log (Some (t_next (alog w))) s ?w1)"
    by (metis Pair_inject)
  then show ?thesis using one by cases (simp_all add: wf_set_log_status wf_close_log)
qed

lemma status_only_on_success:
  assumes "remediate h dr cfg env dry i rid region w = (result, w')"
  shows "recs w' = (if rr_success result \<and> \<not> dry then recs (mark_applied env rid w) else recs w)
    \<and> wastes w' = wastes w"
proof (cases "rem_checks h cfg env dry i rid (or_default region dr) w")
  case (Inl e)
  with refused [OF Inl] assms show ?thesis by auto
next
  case (Inr st)
  from allowed [OF Inr] assms show ?thesis by auto
qed

lemma run_calls:
  assumes "remediate h dr cfg env dry i rid region w = (result, w')"
  shows "\<exists>cs. aws_calls w' = aws_calls w @ cs \<and> (dry \<longrightarrow> cs = [])
    \<and> (cs \<noteq> [] \<or> rr_success result \<and> \<not> dry \<longrightarrow>
        (\<exists>st. h_state h env w i (or_default region dr) = Inr (Some st)
           \<and> prefix cs (plan i (or_default region dr) st)
           \<and> (rr_success result \<longrightarrow> cs = plan i (or_default region dr) st)))"
proof (cases "rem_checks h cfg env dry i rid (or_default region dr) w")
  case (Inl e)
  with refused [OF Inl] assms show ?thesis by auto
next
  case (Inr st)
  from allowed [OF Inr] assms obtain cs where
    ev: "events w' = events w @ [EvLog (t_next (alog w)), EvSnapshot (t_next (snaps w))] @ map EvAws cs"
    and cs: "prefix cs (plan i (or_default region dr) st)" "dry \<longrightarrow> cs = []"
      "rr_success result \<and> \<not> dry \<longrightarrow> cs = plan i (or_default region dr) st" by auto
  have "aws_calls w' = aws_calls w @ cs"
    using ev by (simp add: aws_calls_def map_filter_def comp_def)
  moreover have "h_state h env w i (or_default region dr) = Inr (Some st)"
    using checks_policy [OF Inr] by (rule conjunct1)
  moreover have "rr_success result \<longrightarrow> cs = plan i (or_default region dr) st"
    if "cs \<noteq> [] \<or> rr_success result \<and> \<not> dry"
    using that cs(2,3) by blast
  ultimately show ?thesis using cs(1,2) by blast
qed

lemma recs_cases:
  assumes "remediate h dr cfg env dry i rid region w = (result, w')"
  shows "(recs w' = recs w \<or> recs w' = recs (mark_applied env rid w)) \<and> wastes w' = wastes w"
  using status_only_on_success [OF assms] by simp

end

section \<open>The seven remediators meet the contract\<close>

lemma aws_write_simps [simp]:
  "recs (snd (aws_write env c w)) = recs w"
  "wastes (snd (aws_write env c w)) = wastes w"
  "alog (snd (aws_write env c w)) = alog w"
  "snaps (snd (aws_write env c w)) = snaps w"
  "events (snd (aws_write env c w)) = events w @ [EvAws c]"
  "aws_calls (snd (aws_write env c w)) = aws_calls w @ [c]"
  by (simp_all add: aws_write_def split: prod.splits) (simp_all add: aws_do_def aws_calls_def map_filter_def)

lemma one_write_remediator:
  assumes "\<And>env i region st w. h_execute h env i region st w = aws_write env (c i region) w"
  shows "remediator h (\<lambda>i region st. [c i region])"
proof (unfold_locales, goal_cases)
  case (1 env i region st w)
  show ?case by (rule exI [of _ "[c i region]"]) (simp add: assms)
qed (simp_all add: assms)

lemma attach_frame [simp]:
  "recs (attach_ebs_snapshot_to_rollback rt i s w) = recs w"
  "wastes (attach_ebs_snapshot_to_rollback rt i s w) = wastes w"
  "alog (attach_ebs_snapshot_to_rollback rt i s w) = alog w"
  "events (attach_ebs_snapshot_to_rollback rt i s w) = events w"
  by (simp_all add: attach_ebs_snapshot_to_rollback_def Let_def)

interpretation gp2: remediator "gp2_hooks aws" "\<lambda>i region st. [ModifyVolumeGp3 i region]"
  by (rule one_write_remediator) (simp add: gp2_hooks_def gp2_execute_def)

interpretation nat_gw: remediator "nat_hooks aws" "\<lambda>i region st. [DeleteNatGateway i region]"
  by (rule one_write_remediator) (simp add: nat_hooks_def nat_execute_def)

interpretation lb: remediator "lb_hooks aws"
  "\<lambda>i region st. [if is_classic i then DeleteClassicLb i region else DeleteLbV2 i region]"
  by (rule one_write_remediator) (simp add: lb_hooks_def lb_execute_def)

interpretation eip: remediator "eip_hooks aws" "\<lambda>i region st. [ReleaseAddress i region]"
  by (rule one_write_remediator) (simp add: eip_hooks_def eip_execute_def)

interpretation snapshot: remediator "snapshot_hooks aws" "\<lambda>i region st. [DeleteSnapshot i region]"
  by (rule one_write_remediator) (simp add: snapshot_hooks_def snapshot_execute_def)

interpretation volume: remediator "volume_delete_hooks aws"
  "\<lambda>i region st. [CreateSnapshot i region, DeleteVolume i region]"
proof (unfold_locales, goal_cases)
  case (1 env i region st w)
  obtain e w1 where w1: "aws_write env (CreateSnapshot i region) w = (e, w1)" by fastforce
  then have ev: "events w1 = events w @ [EvAws (CreateSnapshot i region)]"
    by (metis aws_write_simps(5) snd_conv)
  show ?case
  proof (cases e)
    case None
    then show ?thesis
      by (intro exI [of _ "[CreateSnapshot i region, DeleteVolume i region]"])
        (simp add: volume_delete_hooks_def volume_delete_execute_def w1 ev)
  next
    case (Some x)
    then show ?thesis
      by (intro exI [of _ "[CreateSnapshot i region]"])
        (simp add: volume_delete_hooks_def volume_delete_execute_def w1 ev)
  qed
qed (simp_all add: volume_delete_hooks_def volume_delete_execute_def aws_write_def aws_do_def
       split: prod.splits option.splits)

lemma delete_backing_events:
  "\<exists>cs. events (snd (delete_backing env region ss failed w)) = events w @ map EvAws cs
     \<and> prefix cs (map (\<lambda>s. DeleteSnapshot s region) ss)
     \<and> (\<forall>f. fst (delete_backing env region ss failed w) = Inr f \<longrightarrow>
          cs = map (\<lambda>s. DeleteSnapshot s region) ss)"
proof (induction ss arbitrary: failed w)
  case (Cons s ss)
  obtain e w1 where w1: "aws_do env (DeleteSnapshot s region) w = (e, w1)" by fastforce
  then have ev: "events w1 = events w @ [EvAws (DeleteSnapshot s region)]"
    by (metis aws_do_simps(6) snd_conv)
  have step: ?case if "delete_backing env region (s # ss) failed w = delete_backing env region ss f w1" for f
  proof -
    obtain cs where "events (snd (delete_backing env region ss f w1)) = events w1 @ map EvAws cs"
      "prefix cs (map (\<lambda>s. DeleteSnapshot s region) ss)"
      "\<forall>g. fst (delete_backing env region ss f w1) = Inr g \<longrightarrow> cs = map (\<lambda>s. DeleteSnapshot s region) ss"
      using Cons.IH by blast
    with ev show ?thesis
      unfolding that by (intro exI [of _ "DeleteSnapshot s region # cs"]) auto
  qed
  show ?case
  proof (cases e)
    case None
    with w1 show ?thesis by (intro step [of failed]) simp
  next
    case (Some x)
    show ?thesis
    proof (cases x)
      case (ClientError m)
      with w1 Some show ?thesis by (intro step [of "failed @ [s]"]) simp
    next
      case (OtherError m)
      with w1 Some ev show ?thesis
        by (intro exI [of _ "[DeleteSnapshot s region]"]) auto
    qed
  qed
qed simp

lemma delete_backing_frame [simp]:
  "recs (snd (delete_backing env region ss failed w)) = recs w"
  "wastes (snd (delete_backing env region ss failed w)) = wastes w"
  "alog (snd (delete_backing env region ss failed w)) = alog w"
  by (induction ss arbitrary: failed w) (auto simp: aws_do_def split: option.splits aws_exc.splits)

lemma ami_execute_frame [simp]:
  "recs (snd (ami_execute env i region st w)) = recs w
   \<and> wastes (snd (ami_execute env i region st w)) = wastes w
   \<and> alog (snd (ami_execute env i region st w)) = alog w"
proof -
  obtain e w1 where w1: "aws_write env (DeregisterImage i region) w = (e, w1)" by fastforce
  obtain r w2 where w2: "delete_backing env region (as_snapshots st) [] w1 = (r, w2)" by fastforce
  have "recs w1 = recs w" "wastes w1 = wastes w" "alog w1 = alog w"
    using aws_write_simps [of env "DeregisterImage i region" w] w1 by simp_all
  moreover have "recs w2 = recs w1" "wastes w2 = wastes w1" "alog w2 = alog w1"
    using delete_backing_frame [of env region "as_snapshots st" "[]" w1] w2 by simp_all
  ultimately show ?thesis
    by (simp add: ami_execute_def w1 w2 split: option.splits sum.splits)
qed

interpretation ami: remediator "ami_hooks aws"
  "\<lambda>i region st. DeregisterImage i region # map (\<lambda>s. DeleteSnapshot s region) (as_snapshots st)"
proof (unfold_locales, goal_cases)
  case (1 env i region st w)
  obtain e w1 where w1: "aws_write env (DeregisterImage i region) w = (e, w1)" by fastforce
  then have ev: "events w1 = events w @ [EvAws (DeregisterImage i region)]"
    by (metis aws_write_simps(5) snd_conv)
  show ?case
  proof (cases e)
    case (Some x)
    then show ?thesis
      by (intro exI [of _ "[DeregisterImage i region]"])
        (simp add: ami_hooks_def ami_execute_def w1 ev)
  next
    case None
    obtain cs where cs: "events (snd (delete_backing env region (as_snapshots st) [] w1)) = events w1 @ map EvAws cs"
      "prefix cs (map (\<lambda>s. DeleteSnapshot s region) (as_snapshots st))"
      "\<forall>f. fst (delete_backing env region (as_snapshots st) [] w1) = Inr f \<longrightarrow>
          cs = map (\<lambda>s. DeleteSnapshot s region) (as_snapshots st)"
      using delete_backing_events by blast
    with None show ?thesis
      by (intro exI [of _ "DeregisterImage i region # cs"])
        (auto simp: ami_hooks_def ami_execute_def w1 ev split: prod.splits sum.splits)
  qed
qed (simp_all add: ami_hooks_def)

section \<open>Facts about the deletions\<close>

lemma aws_write_eq: "aws_write env c w =
   (map_option ErrAws (e_write env (length (aws_calls w)) c), w\<lparr>events := events w @ [EvAws c]\<rparr>)"
  by (simp add: aws_write_def aws_do_def)

lemma delete_backing_clean:
  "delete_backing env region ss failed w = (Inr [], w') \<Longrightarrow>
   failed = [] \<and> (\<forall>k < length ss. e_write env (length (aws_calls w) + k) (DeleteSnapshot (ss ! k) region) = None)"
proof (induction ss arbitrary: failed w)
  case (Cons s ss)
  let ?w1 = "snd (aws_do env (DeleteSnapshot s region) w)"
  show ?case
  proof (cases "e_write env (length (aws_calls w)) (DeleteSnapshot s region)")
    case None
    then have "delete_backing env region ss failed ?w1 = (Inr [], w')"
      using Cons.prems by (simp add: aws_do_def)
    from Cons.IH [OF this] None show ?thesis
      by (auto simp: less_Suc_eq_0_disj)
  next
    case (Some x)
    then obtain m where "x = ClientError m" using Cons.prems by (cases x) (simp_all add: aws_do_def)
    with Some have "delete_backing env region ss (failed @ [s]) ?w1 = (Inr [], w')"
      using Cons.prems by (simp add: aws_do_def)
    from Cons.IH [OF this] show ?thesis by simp
  qed
qed simp

lemma ami_execute_success:
  assumes "fst (ami_execute env i region st w) = None"
  defines "cs \<equiv> DeregisterImage i region # map (\<lambda>s. DeleteSnapshot s region) (as_snapshots st)"
  shows "\<forall>k < length cs. e_write env (length (aws_calls w) + k) (cs ! k) = None"
proof -
  let ?w1 = "snd (aws_write env (DeregisterImage i region) w)"
  have first: "e_write env (length (aws_calls w)) (DeregisterImage i region) = None"
    using assms by (cases "e_write env (length (aws_calls w)) (DeregisterImage i region)")
      (simp_all add: ami_execute_def aws_write_eq)
  obtain r w2 where run: "delete_backing env region (as_snapshots st) [] ?w1 = (r, w2)" by fastforce
  have "r = Inr []"
    using assms(1) first run
    by (cases r) (auto simp: ami_execute_def aws_write_eq split: if_splits)
  with run have "delete_backing env region (as_snapshots st) [] ?w1 = (Inr [], w2)" by simp
  from delete_backing_clean [OF this]
  have "\<forall>k < length (as_snapshots st). e_write env (length (aws_calls ?w1) + k)
      (DeleteSnapshot (as_snapshots st ! k) region) = None" ..
  with first show ?thesis by (auto simp: cs_def less_Suc_eq_0_disj)
qed

lemma Max_new_id:
  assumes "t_wf s_id (snaps w)"
    and "snaps w' = snd (t_insert mk (snaps w))" "\<And>k. s_id (mk k) = k"
    and "p (mk (t_next (snaps w)))"
  shows "Max (set (map s_id (t_select p (snaps w')))) = t_next (snaps w)"
proof (rule Max_eqI)
  fix y assume "y \<in> set (map s_id (t_select p (snaps w')))"
  then show "y \<le> t_next (snaps w)"
    using assms(1-3) by (auto simp: t_select_def t_wf_def less_imp_le split: if_splits)
next
  show "t_next (snaps w) \<in> set (map s_id (t_select p (snaps w')))"
    using assms(2-4) by (force simp: t_select_def)
qed simp

lemma dispatch_cases:
  assumes "remediate_by_recommendation aws ty dr cfg env dry i rid region w = Some (result, w')"
  shows "remediate (gp2_hooks aws) dr cfg env dry i rid region w = (result, w')
    \<or> remediate (volume_delete_hooks aws) dr cfg env dry i rid region w = (result, w')
    \<or> remediate (nat_hooks aws) dr cfg env dry i rid region w = (result, w')
    \<or> remediate (lb_hooks aws) dr cfg env dry i rid region w = (result, w')
    \<or> remediate (eip_hooks aws) dr cfg env dry i rid region w = (result, w')
    \<or> remediate (snapshot_hooks aws) dr cfg env dry i rid region w = (result, w')
    \<or> remediate (ami_hooks aws) dr cfg env dry i rid region w = (result, w')"
  using assms unfolding remediate_by_recommendation_def
  by (metis option.distinct(1) option.inject)

lemma dispatch_dry:
  assumes "remediate_by_recommendation aws ty dr cfg env True i rid region w = Some (result, w')"
  shows "aws_calls w' = aws_calls w \<and> recs w' = recs w \<and> wastes w' = wastes w"
  using dispatch_cases [OF assms] gp2.dry_keeps volume.dry_keeps nat_gw.dry_keeps lb.dry_keeps
    eip.dry_keeps snapshot.dry_keeps ami.dry_keeps by (elim disjE) blast+

lemma dispatch_recs:
  assumes "remediate_by_recommendation aws ty dr cfg env dry i rid region w = Some (result, w')"
  shows "(recs w' = recs w \<or> recs w' = recs (mark_applied env rid w)) \<and> wastes w' = wastes w"
  using dispatch_cases [OF assms] gp2.recs_cases volume.recs_cases nat_gw.recs_cases lb.recs_cases
    eip.recs_cases snapshot.recs_cases ami.recs_cases by (elim disjE) blast+

lemma dispatch_old_logs:
  assumes "remediate_by_recommendation aws ty dr cfg env dry i rid region w = Some (result, w')"
    and "t_wf l_id (alog w)" "t_get l_id k (alog w) = Some l"
  shows "t_get l_id k (alog w') = Some l \<and> t_wf l_id (alog w')"
  using dispatch_cases [OF assms(1)] assms(2,3) gp2.old_logs_kept volume.old_logs_kept
    nat_gw.old_logs_kept lb.old_logs_kept eip.old_logs_kept snapshot.old_logs_kept ami.old_logs_kept
  by (elim disjE) blast+

lemma dispatch_log_wf:
  assumes "remediate_by_recommendation aws ty dr cfg env dry i rid region w = Some (result, w')"
    and "t_wf l_id (alog w)"
  shows "t_wf l_id (alog w')"
  using dispatch_cases [OF assms(1)] assms(2) gp2.log_wf volume.log_wf
    nat_gw.log_wf lb.log_wf eip.log_wf snapshot.log_wf ami.log_wf
  by (elim disjE) blast+

section \<open>The live tags and the planned write, read off the answers of AWS\<close>

text \<open>
  The tags AWS reports for the resource at the start of the attempt, for each type of
  recommendation. For a load balancer the source asks AWS for no tags (\<open>'tags': {}\<close>): the
  whitelist is consulted with none.
\<close>

definition first_answer :: "aws_exc + 'a list \<Rightarrow> 'a option" where
  "first_answer r = (case r of Inr (x # _) \<Rightarrow> Some x | _ \<Rightarrow> None)"

definition live_tags ::
    "aws_reads \<Rightarrow> string \<Rightarrow> world \<Rightarrow> string \<Rightarrow> string \<Rightarrow> (string \<times> string) list option" where
  "live_tags aws ty w i region =
     (if ty \<in> {''migrate_gp2_to_gp3'', ''delete_volume''}
      then map_option vol_tags (first_answer (describe_volumes aws w region i))
      else if ty = ''delete_nat_gateway''
      then map_option nat_tags (first_answer (describe_nats aws w region i))
      else if ty = ''release_ip''
      then map_option ad_tags (first_answer (describe_addresses aws w region i))
      else if ty = ''delete_snapshot''
      then map_option sn_tags (first_answer (describe_snapshots aws w region i))
      else if ty = ''deregister_ami''
      then map_option im_tags (first_answer (describe_images aws w region i))
      else if ty = ''delete_load_balancer'' then Some []
      else None)"

text \<open>The write each type begins with: on that resource, in that region.\<close>

definition first_write :: "string \<Rightarrow> string \<Rightarrow> string \<Rightarrow> aws_call" where
  "first_write ty i region =
     (if ty = ''migrate_gp2_to_gp3'' then ModifyVolumeGp3 i region
      else if ty = ''delete_volume'' then CreateSnapshot i region
      else if ty = ''delete_nat_gateway'' then DeleteNatGateway i region
      else if ty = ''delete_load_balancer''
      then if is_classic i then DeleteClassicLb i region else DeleteLbV2 i region
      else if ty = ''release_ip'' then ReleaseAddress i region
      else if ty = ''delete_snapshot'' then DeleteSnapshot i region
      else DeregisterImage i region)"

text \<open>
  The writes a recommendation may lead to: those of its type, on its resource, in that region; for
  an image also the deletion of a snapshot AWS lists behind it.
\<close>

definition backs :: "aws_reads \<Rightarrow> string \<Rightarrow> string \<Rightarrow> string \<Rightarrow> bool" where
  "backs aws s i region \<longleftrightarrow>
     (\<exists>w img rest. describe_images aws w region i = Inr (img # rest) \<and> Some s \<in> set (im_snapshots img))"

definition remedial_call :: "aws_reads \<Rightarrow> string \<Rightarrow> string \<Rightarrow> string \<Rightarrow> aws_call \<Rightarrow> bool" where
  "remedial_call aws ty i region c \<longleftrightarrow>
     c = first_write ty i region
     \<or> ty = ''delete_volume'' \<and> c = DeleteVolume i region
     \<or> ty = ''deregister_ami'' \<and> (\<exists>s. c = DeleteSnapshot s region \<and> backs aws s i region)"

lemma first_or_gone_answer:
  "first_or_gone g r = Inr (Some x) \<Longrightarrow> first_answer r = Some x"
  by (auto simp: first_or_gone_def first_answer_def split: sum.splits list.splits if_splits)

lemma volume_live_tags:
  "gp2_state aws w i region = Inr (Some v)
   \<Longrightarrow> live_tags aws ''migrate_gp2_to_gp3'' w i region = Some (vol_tags v)
     \<and> live_tags aws ''delete_volume'' w i region = Some (vol_tags v)"
  by (auto simp: gp2_state_def live_tags_def dest: first_or_gone_answer)

lemma nat_live_tags:
  "nat_state_hook aws w i region = Inr (Some g)
   \<Longrightarrow> live_tags aws ''delete_nat_gateway'' w i region = Some (nat_tags g)"
  by (auto simp: nat_state_hook_def py_simps live_tags_def dest!: first_or_gone_answer
      split: option.splits if_splits)

lemma eip_live_tags:
  "eip_state aws w i region = Inr (Some a)
   \<Longrightarrow> live_tags aws ''release_ip'' w i region = Some (ad_tags a)"
  by (auto simp: eip_state_def live_tags_def dest: first_or_gone_answer)

lemma snapshot_live_tags:
  "snapshot_state_hook aws env w i region = Inr (Some s)
   \<Longrightarrow> live_tags aws ''delete_snapshot'' w i region = Some (sn_tags (ss_snap s))"
  by (auto simp: snapshot_state_hook_def py_simps live_tags_def dest!: first_or_gone_answer
      split: option.splits)

lemma ami_live_tags:
  "ami_state_hook aws env w i region = Inr (Some s)
   \<Longrightarrow> live_tags aws ''deregister_ami'' w i region = Some (im_tags (as_image s))"
  by (auto simp: ami_state_hook_def py_simps live_tags_def first_answer_def
      split: sum.splits list.splits if_splits)

lemma prefix_head: "prefix cs (c # ds) \<Longrightarrow> cs \<noteq> [] \<Longrightarrow> hd cs = c"
  by (cases cs) auto

lemma ami_state_backs:
  assumes "ami_state_hook aws env w i region = Inr (Some st)" "s \<in> set (as_snapshots st)"
  shows "backs aws s i region"
proof -
  obtain img rest where img: "describe_images aws w region i = Inr (img # rest)"
    and st: "as_snapshots st = List.map_filter (\<lambda>s. if truthy s then s else None) (im_snapshots img)"
    using assms(1) by (auto simp: ami_state_hook_def py_simps split: sum.splits list.splits if_splits)
  have "Some s \<in> set (im_snapshots img)"
    using assms(2) by (auto simp: st map_filter_def split: if_splits)
  with img show ?thesis unfolding backs_def by blast
qed

lemma dispatch_calls:
  assumes "remediate_by_recommendation aws ty dr cfg env dry i rid region w = Some (result, w')"
  shows "\<exists>cs. aws_calls w' = aws_calls w @ cs \<and> (dry \<longrightarrow> cs = [])
    \<and> (\<forall>c \<in> set cs. remedial_call aws ty i (or_default region dr) c)
    \<and> (rr_success result \<and> \<not> dry \<longrightarrow> first_write ty i (or_default region dr) \<in> set cs)"
proof -
  consider "ty = ''migrate_gp2_to_gp3''" | "ty = ''delete_volume''" | "ty = ''delete_nat_gateway''"
    | "ty = ''delete_load_balancer''" | "ty = ''release_ip''" | "ty = ''delete_snapshot''"
    | "ty = ''deregister_ami''"
    using assms(1) by (fastforce simp: remediate_by_recommendation_def split: if_split_asm)
  then show ?thesis
  proof cases
    case 1
    with assms have "remediate (gp2_hooks aws) dr cfg env dry i rid region w = (result, w')"
      by (simp add: remediate_by_recommendation_def)
    from gp2.run_calls [OF this] 1 show ?thesis
      by (fastforce simp: remedial_call_def first_write_def dest: set_mono_prefix)
  next
    case 2
    with assms have "remediate (volume_delete_hooks aws) dr cfg env dry i rid region w = (result, w')"
      by (simp add: remediate_by_recommendation_def)
    from volume.run_calls [OF this] 2 show ?thesis
      by (fastforce simp: remedial_call_def first_write_def dest: set_mono_prefix)
  next
    case 3
    with assms have "remediate (nat_hooks aws) dr cfg env dry i rid region w = (result, w')"
      by (simp add: remediate_by_recommendation_def)
    from nat_gw.run_calls [OF this] 3 show ?thesis
      by (fastforce simp: remedial_call_def first_write_def dest: set_mono_prefix)
  next
    case 4
    with assms have "remediate (lb_hooks aws) dr cfg env dry i rid region w = (result, w')"
      by (simp add: remediate_by_recommendation_def)
    from lb.run_calls [OF this] 4 show ?thesis
      by (fastforce simp: remedial_call_def first_write_def dest: set_mono_prefix)
  next
    case 5
    with assms have "remediate (eip_hooks aws) dr cfg env dry i rid region w = (result, w')"
      by (simp add: remediate_by_recommendation_def)
    from eip.run_calls [OF this] 5 show ?thesis
      by (fastforce simp: remedial_call_def first_write_def dest: set_mono_prefix)
  next
    case 6
    with assms have "remediate (snapshot_hooks aws) dr cfg env dry i rid region w = (result, w')"
      by (simp add: remediate_by_recommendation_def)
    from snapshot.run_calls [OF this] 6 show ?thesis
      by (fastforce simp: remedial_call_def first_write_def dest: set_mono_prefix)
  next
    case 7
    with assms have run: "remediate (ami_hooks aws) dr cfg env dry i rid region w = (result, w')"
      by (simp add: remediate_by_recommendation_def)
    have hook: "h_state (ami_hooks aws) = ami_state_hook aws" by (simp add: ami_hooks_def)
    obtain cs where cs: "aws_calls w' = aws_calls w @ cs" "dry \<longrightarrow> cs = []"
      and plan: "cs \<noteq> [] \<or> rr_success result \<and> \<not> dry \<Longrightarrow>
        \<exists>st. ami_state_hook aws env w i (or_default region dr) = Inr (Some st)
          \<and> prefix cs (DeregisterImage i (or_default region dr)
              # map (\<lambda>s. DeleteSnapshot s (or_default region dr)) (as_snapshots st))
          \<and> (rr_success result \<longrightarrow> cs = DeregisterImage i (or_default region dr)
              # map (\<lambda>s. DeleteSnapshot s (or_default region dr)) (as_snapshots st))"
      using ami.run_calls [OF run] unfolding hook by blast
    have "remedial_call aws ty i (or_default region dr) c" if c: "c \<in> set cs" for c
    proof -
      from c have "cs \<noteq> []" by auto
      with plan obtain st where st: "ami_state_hook aws env w i (or_default region dr) = Inr (Some st)"
        "prefix cs (DeregisterImage i (or_default region dr)
           # map (\<lambda>s. DeleteSnapshot s (or_default region dr)) (as_snapshots st))" by blast
      from set_mono_prefix [OF st(2)] c have
        "c = DeregisterImage i (or_default region dr)
         \<or> (\<exists>s \<in> set (as_snapshots st). c = DeleteSnapshot s (or_default region dr))" by auto
      with ami_state_backs [OF st(1)] 7 show ?thesis by (auto simp: remedial_call_def first_write_def)
    qed
    moreover have "first_write ty i (or_default region dr) \<in> set cs" if "rr_success result \<and> \<not> dry"
      using plan that 7 by (fastforce simp: first_write_def)
    ultimately show ?thesis using cs by blast
  qed
qed

section \<open>Properties\<close>

text \<open>
  C2: whatever the type of recommendation, a write reaches AWS only on a real run with the
  global switch and the switch of that action on, a recorded recommendation with enough
  confidence, and an open schedule, and only if the whitelist lets the resource pass under its
  id and the tags AWS reported for it; for a load balancer, whose tags the source never asks
  for, under its id alone. The row of the action and the rollback row precede every write, and
  the first write is that of the type, on that resource and region.
\<close>

theorem remediation_guarded:
  assumes "remediate_by_recommendation aws ty dr cfg env dry i rid region w = Some (result, w')"
    and "aws_calls w' \<noteq> aws_calls w"
  shows "\<not> dry \<and> ty \<in> set REMEDIATED_TYPES \<and> is_auto_remediation_enabled cfg = Inr True
    \<and> is_action_enabled cfg ty = Inr True
    \<and> (\<exists>ts. live_tags aws ty w i (or_default region dr) = Some ts
        \<and> is_whitelisted cfg i (tags_dict ts) = Inr False)
    \<and> (\<exists>r x. rec_join rid w = Some (r, x) \<and> check_confidence_score cfg (w_confidence x) \<in> range Inr)
    \<and> check_schedule cfg env \<in> range Inr
    \<and> (\<exists>cs. cs \<noteq> [] \<and> hd cs = first_write ty i (or_default region dr)
        \<and> events w' = events w
          @ [EvLog (t_next (alog w)), EvSnapshot (t_next (snaps w))] @ map EvAws cs)"
proof -
  consider "ty = ''migrate_gp2_to_gp3''" | "ty = ''delete_volume''" | "ty = ''delete_nat_gateway''"
    | "ty = ''delete_load_balancer''" | "ty = ''release_ip''" | "ty = ''delete_snapshot''"
    | "ty = ''deregister_ami''"
    using assms(1) by (fastforce simp: remediate_by_recommendation_def split: if_split_asm)
  then show ?thesis
  proof cases
    case 1
    with assms(1) have "remediate (gp2_hooks aws) dr cfg env dry i rid region w = (result, w')"
      by (simp add: remediate_by_recommendation_def)
    from gp2.guarded_plan [OF this assms(2)] 1 show ?thesis
      by (force simp: gp2_hooks_def REMEDIATED_TYPES_def first_write_def
          dest!: volume_live_tags dest: prefix_head)
  next
    case 2
    with assms(1) have "remediate (volume_delete_hooks aws) dr cfg env dry i rid region w = (result, w')"
      by (simp add: remediate_by_recommendation_def)
    from volume.guarded_plan [OF this assms(2)] 2 show ?thesis
      by (force simp: volume_delete_hooks_def REMEDIATED_TYPES_def first_write_def
          dest!: volume_live_tags dest: prefix_head)
  next
    case 3
    with assms(1) have "remediate (nat_hooks aws) dr cfg env dry i rid region w = (result, w')"
      by (simp add: remediate_by_recommendation_def)
    from nat_gw.guarded_plan [OF this assms(2)] 3 show ?thesis
      by (force simp: nat_hooks_def REMEDIATED_TYPES_def first_write_def
          dest!: nat_live_tags dest: prefix_head)
  next
    case 4
    with assms(1) have "remediate (lb_hooks aws) dr cfg env dry i rid region w = (result, w')"
      by (simp add: remediate_by_recommendation_def)
    from lb.guarded_plan [OF this assms(2)] 4 show ?thesis
      by (force simp: lb_hooks_def REMEDIATED_TYPES_def first_write_def live_tags_def tags_dict_def
          dest: prefix_head)
  next
    case 5
    with assms(1) have "remediate (eip_hooks aws) dr cfg env dry i rid region w = (result, w')"
      by (simp add: remediate_by_recommendation_def)
    from eip.guarded_plan [OF this assms(2)] 5 show ?thesis
      by (force simp: eip_hooks_def REMEDIATED_TYPES_def first_write_def
          dest!: eip_live_tags dest: prefix_head)
  next
    case 6
    with assms(1) have "remediate (snapshot_hooks aws) dr cfg env dry i rid region w = (result, w')"
      by (simp add: remediate_by_recommendation_def)
    from snapshot.guarded_plan [OF this assms(2)] 6 show ?thesis
      by (force simp: snapshot_hooks_def REMEDIATED_TYPES_def first_write_def
          dest!: snapshot_live_tags dest: prefix_head)
  next
    case 7
    with assms(1) have "remediate (ami_hooks aws) dr cfg env dry i rid region w = (result, w')"
      by (simp add: remediate_by_recommendation_def)
    from ami.guarded_plan [OF this assms(2)] 7 show ?thesis
      by (force simp: ami_hooks_def REMEDIATED_TYPES_def first_write_def
          dest!: ami_live_tags dest: prefix_head)
  qed
qed

text \<open>
  A dry run of any remediator attempts no write at AWS and changes no recommendation: a
  pending one stays pending, unlike the dry run of the instance remediator.
\<close>

theorem remediation_dry_run:
  assumes "remediate_by_recommendation aws ty dr cfg env True i rid region w = Some (result, w')"
  shows "aws_calls w' = aws_calls w \<and> recs w' = recs w \<and> wastes w' = wastes w"
  by (rule dispatch_dry [OF assms])

definition sample_volume :: aws_volume where
  "sample_volume = \<lparr>vol_id = ''vol-1'', vol_type = ''gp2'', vol_size = 8, vol_state = ''available'',
     vol_az = ''eu-west-1a'', vol_attachments = [], vol_tags = []\<rparr>"

definition sample_aws :: aws_reads where
  "sample_aws =
     \<lparr>describe_volumes = \<lambda>w r i. Inr [sample_volume],
      describe_nats = \<lambda>w r i. Inr [], describe_classic = \<lambda>w r i. Inr [], classic_gone = \<lambda>e. False,
      describe_lbs = \<lambda>w r i. Inr [], lb_gone = \<lambda>e. False,
      describe_target_groups = \<lambda>w r i. Inr [], describe_target_health = \<lambda>w r i. Inr 0,
      describe_addresses = \<lambda>w r i. Inr [],
      describe_snapshots = \<lambda>w r i. Inr [\<lparr>sn_id = i, sn_volume = None, sn_size = 8, sn_start = 0, sn_tags = []\<rparr>],
      images_of_snapshot = \<lambda>w r i. Inr [],
      describe_images = \<lambda>w r i. Inr [\<lparr>im_id = i, im_name = None, im_created = 0,
          im_snapshots = [Some ''snap-1'', None], im_tags = []\<rparr>],
      instances_of_image = \<lambda>w r i. Inr [], new_snapshot = \<lambda>w r i. ''snap-9''\<rparr>"

lemma sample_policy_open:
  "is_action_enabled sample_policy ty = Inr True"
  "is_whitelisted sample_policy i [] = Inr False"
  "check_confidence_score sample_policy 1 = Inr True"
  "check_schedule sample_policy sample_env = Inr True"
  "is_auto_remediation_enabled sample_policy = Inr True"
  by (simp_all add: is_action_enabled_def is_whitelisted_def check_confidence_score_def
      check_schedule_def is_auto_remediation_enabled_def config_get_def sample_policy_def dict_get_def)

lemma sample_join:
  "\<exists>r x. rec_join 7 sample_world = Some (r, x) \<and> w_confidence x = 1"
  by (simp add: rec_join_def sample_world_def t_get_def)

lemma sample_volume_checks:
  "rem_checks (volume_delete_hooks sample_aws) sample_policy sample_env dry ''vol-1'' 7 ''eu-west-1'' sample_world
     = Inr sample_volume"
proof -
  obtain r x where "rec_join 7 sample_world = Some (r, x)" "w_confidence x = 1"
    using sample_join by blast
  then show ?thesis
    by (simp add: rem_checks_def volume_delete_hooks_def gp2_state_def first_or_gone_def sample_aws_def
        volume_delete_verify_def sample_volume_def tags_dict_def sample_policy_open)
qed

lemma sample_env_writes [simp]: "e_write sample_env k c = None"
  by (simp add: sample_env_def)

lemma sample_volume_run:
  "\<exists>result w'. remediate_by_recommendation sample_aws ''delete_volume'' ''eu-west-1'' sample_policy
      sample_env False ''vol-1'' 7 None sample_world = Some (result, w')
    \<and> aws_calls w' = [CreateSnapshot ''vol-1'' ''eu-west-1'', DeleteVolume ''vol-1'' ''eu-west-1''] \<and> rr_success result"
proof -
  have checks: "rem_checks (volume_delete_hooks sample_aws) sample_policy sample_env False ''vol-1'' 7
      (or_default None ''eu-west-1'') sample_world = Inr sample_volume"
    using sample_volume_checks by (simp add: or_default_def)
  have none: "aws_calls sample_world = []"
    by (simp add: aws_calls_def sample_world_def map_filter_def)
  from volume.allowed [OF checks] obtain result w' cs where
    run: "remediate (volume_delete_hooks sample_aws) ''eu-west-1'' sample_policy sample_env False ''vol-1'' 7 None
        sample_world = (result, w')"
    and ev: "events w' = events sample_world @ [EvLog (t_next (alog sample_world)),
        EvSnapshot (t_next (snaps sample_world))] @ map EvAws cs"
    and cs: "rr_success result \<longrightarrow> cs = [CreateSnapshot ''vol-1'' ''eu-west-1'', DeleteVolume ''vol-1'' ''eu-west-1'']"
    by (auto simp: or_default_def)
  have "rr_success (fst (remediate (volume_delete_hooks sample_aws) ''eu-west-1'' sample_policy sample_env False
      ''vol-1'' 7 None sample_world))"
    using volume.body_allowed [OF checks]
    by (simp add: remediate_def or_default_def Let_def volume_delete_hooks_def volume_delete_execute_def
        aws_write_eq)
  with run have ok: "rr_success result" by simp
  have "aws_calls w' = cs"
    using aws_calls_by_events [OF ev] none by (simp add: map_filter_def comp_def)
  with run ok cs show ?thesis
    by (simp add: remediate_by_recommendation_def)
qed

theorem remediation_guarded_witness:
  "is_auto_remediation_enabled sample_policy = Inr True \<and> ''delete_volume'' \<in> set REMEDIATED_TYPES
   \<and> (\<exists>ts. live_tags sample_aws ''delete_volume'' sample_world ''vol-1'' (or_default None ''eu-west-1'') = Some ts
        \<and> is_whitelisted sample_policy ''vol-1'' (tags_dict ts) = Inr False)"
proof -
  obtain result w' where run: "remediate_by_recommendation sample_aws ''delete_volume'' ''eu-west-1''
      sample_policy sample_env False ''vol-1'' 7 None sample_world = Some (result, w')"
    and calls: "aws_calls w' = [CreateSnapshot ''vol-1'' ''eu-west-1'', DeleteVolume ''vol-1'' ''eu-west-1'']"
    using sample_volume_run by blast
  have "aws_calls sample_world = []"
    by (simp add: aws_calls_def sample_world_def map_filter_def)
  with calls have "aws_calls w' \<noteq> aws_calls sample_world" by simp
  from remediation_guarded [OF run this] show ?thesis by blast
qed

theorem remediation_dry_run_witness:
  "\<exists>result w'. remediate_by_recommendation sample_aws ''delete_volume'' ''eu-west-1'' sample_policy
      sample_env True ''vol-1'' 7 None sample_world = Some (result, w') \<and> recs w' = recs sample_world"
proof -
  obtain result w' where run: "remediate_by_recommendation sample_aws ''delete_volume'' ''eu-west-1''
      sample_policy sample_env True ''vol-1'' 7 None sample_world = Some (result, w')"
    by (cases "remediate (volume_delete_hooks sample_aws) ''eu-west-1'' sample_policy sample_env True
        ''vol-1'' 7 None sample_world") (simp add: remediate_by_recommendation_def)
  with remediation_dry_run [OF run] show ?thesis by blast
qed

text \<open>
  C5: a volume is deleted only if its live state was available and unattached, directly after
  the snapshot of that volume was created without error, and the rollback row of the action then
  holds the id of that snapshot.
\<close>

theorem volume_delete_recoverable:
  assumes run: "remediate (volume_delete_hooks aws) dr cfg env dry i rid region w = (result, w')"
    and wf: "t_wf s_id (snaps w)"
    and deleted: "aws_calls w' = aws_calls w @ cs" "DeleteVolume i (or_default region dr) \<in> set cs"
  shows "\<exists>v row w0. gp2_state aws w i (or_default region dr) = Inr (Some v)
    \<and> vol_state v = ''available'' \<and> vol_attachments v = []
    \<and> cs = [CreateSnapshot i (or_default region dr), DeleteVolume i (or_default region dr)]
    \<and> e_write env (length (aws_calls w)) (CreateSnapshot i (or_default region dr)) = None
    \<and> t_get s_id (t_next (snaps w)) (snaps w') = Some row \<and> s_resource row = i
    \<and> map_of (s_state row) ''rollback_ebs_snapshot_id''
        = Some (JStr (new_snapshot aws w0 (or_default region dr) i))"
proof -
  let ?R = "or_default region dr" and ?h = "volume_delete_hooks aws"
  have neq: "aws_calls w' \<noteq> aws_calls w" using deleted by auto
  from volume.write_guarded [OF run neq] obtain st where dry: "\<not> dry"
    and checks: "rem_checks ?h cfg env dry i rid ?R w = Inr st" by blast
  have st: "gp2_state aws w i ?R = Inr (Some st)" "vol_state st = ''available''" "vol_attachments st = []"
    using volume.checks_policy [OF checks]
    by (auto simp: volume_delete_hooks_def volume_delete_verify_def refuse_def split: if_splits)
  define lid where "lid = t_next (alog w)"
  define w1 where "w1 = snd (rem_log_action ?h env dry rid i LogPending w)"
  define w2 where "w2 = snd (rem_create_rollback_snapshot ?h env lid i st w1)"
  have snaps1: "snaps w1 = snaps w" by (simp add: w1_def rem_log_action_def)
  let ?mk = "\<lambda>k. \<lparr>s_id = k, s_log = lid, s_resource = i, s_rtype = ''ebs_volume'',
      s_state = volume_delete_json st, s_can_rollback = True, s_expiry = e_now env + 7 * 86400\<rparr>"
  have snaps2: "snaps w2 = snd (t_insert ?mk (snaps w))"
    by (simp add: w2_def rem_create_rollback_snapshot_def insert_snapshot_def snaps1
        volume_delete_hooks_def t_insert_def)
  have prep: "volume.prepared aws env dry i rid st w = w2"
    by (simp add: volume.prepared_def w2_def w1_def lid_def)
  have calls2: "aws_calls w2 = aws_calls w" using volume.prepared_frame(5) prep by metis
  obtain failure w3 where exec: "volume_delete_execute aws env i ?R st w2 = (failure, w3)" by fastforce
  have body: "rem_body ?h cfg env dry i rid ?R w =
    (case failure of
       Some e \<Rightarrow> ((Some e, Some lid), w3)
     | None \<Rightarrow> ((None, Some lid), mark_applied env rid (set_log_status lid LogSuccess w3)))"
    using volume.body_allowed [OF checks] dry prep exec
    by (cases failure) (simp_all add: Let_def lid_def volume_delete_hooks_def)
  have final: "aws_calls w' = aws_calls w3" "snaps w' = snaps w3"
    using run body by (auto simp: remediate_def split: option.splits)
  show ?thesis
  proof (cases "e_write env (length (aws_calls w)) (CreateSnapshot i ?R)")
    case (Some e)
    then have "aws_calls w3 = aws_calls w @ [CreateSnapshot i ?R]"
      using exec calls2 by (auto simp: volume_delete_execute_def aws_write_eq)
    with final(1) deleted show ?thesis by simp
  next
    case None
    let ?w2' = "w2\<lparr>events := events w2 @ [EvAws (CreateSnapshot i ?R)]\<rparr>"
    let ?sid = "new_snapshot aws w2 ?R i"
    let ?w3 = "attach_ebs_snapshot_to_rollback ''ebs_volume'' i ?sid ?w2'"
    have w3: "w3 = ?w3\<lparr>events := events ?w3 @ [EvAws (DeleteVolume i ?R)]\<rparr>"
      using exec None calls2 by (simp add: volume_delete_execute_def aws_write_eq)
    have calls: "aws_calls w3 = aws_calls w @ [CreateSnapshot i ?R, DeleteVolume i ?R]"
    proof -
      have "aws_calls ?w3 = aws_calls ?w2'" by (rule aws_calls_cong) simp
      then show ?thesis unfolding w3 aws_calls_write using calls2 by simp
    qed
    let ?p = "\<lambda>s. s_resource s = i \<and> s_rtype s = ''ebs_volume''"
    have Max: "Max (set (map s_id (t_select ?p (snaps w2)))) = t_next (snaps w)"
      by (rule Max_new_id [OF wf snaps2]) simp_all
    have sel: "map s_id (t_select ?p (snaps w2)) \<noteq> []"
      by (simp add: snaps2 t_select_def)
    have "snaps w3 = t_update (\<lambda>s. s_id s = t_next (snaps w))
        (\<lambda>s. s\<lparr>s_state := dict_merge (s_state s) [(''rollback_ebs_snapshot_id'', JStr ?sid)]\<rparr>) (snaps w2)"
      using Max sel by (simp add: w3 attach_ebs_snapshot_to_rollback_def Let_def)
    moreover have "t_get s_id (t_next (snaps w)) (snaps w2) = Some (?mk (t_next (snaps w)))"
      unfolding snaps2 using snap_table.get_ins_new [OF wf, of ?mk] by simp
    ultimately have row: "t_get s_id (t_next (snaps w)) (snaps w3) = Some
        ((?mk (t_next (snaps w)))\<lparr>s_state := dict_merge (volume_delete_json st)
            [(''rollback_ebs_snapshot_id'', JStr ?sid)]\<rparr>)"
      by (simp add: snap_table.get_upd_key)
    have "cs = [CreateSnapshot i ?R, DeleteVolume i ?R]" using calls final(1) deleted(1) by simp
    with st None row final(2) show ?thesis
      by (intro exI [of _ st] exI [of _ "(?mk (t_next (snaps w)))\<lparr>s_state := dict_merge (volume_delete_json st)
            [(''rollback_ebs_snapshot_id'', JStr ?sid)]\<rparr>"] exI [of _ w2]) simp
  qed
qed

theorem volume_delete_recoverable_witness:
  "\<exists>w' row. aws_calls w' = [CreateSnapshot ''vol-1'' ''eu-west-1'', DeleteVolume ''vol-1'' ''eu-west-1'']
     \<and> t_get s_id 5 (snaps w') = Some row
     \<and> map_of (s_state row) ''rollback_ebs_snapshot_id'' = Some (JStr ''snap-9'')"
proof -
  obtain result w' where run: "remediate (volume_delete_hooks sample_aws) ''eu-west-1'' sample_policy
      sample_env False ''vol-1'' 7 None sample_world = (result, w')"
    and calls: "aws_calls w' = [CreateSnapshot ''vol-1'' ''eu-west-1'', DeleteVolume ''vol-1'' ''eu-west-1'']"
    using sample_volume_run by (auto simp: remediate_by_recommendation_def)
  have none: "aws_calls sample_world = []"
    by (simp add: aws_calls_def sample_world_def map_filter_def)
  have wf: "t_wf s_id (snaps sample_world)" by (simp add: sample_world_def t_wf_def)
  have nxt: "t_next (snaps sample_world) = 5" by (simp add: sample_world_def)
  have nine: "new_snapshot sample_aws w0 r i = ''snap-9''" for w0 r i by (simp add: sample_aws_def)
  have mem: "DeleteVolume ''vol-1'' (or_default None ''eu-west-1'')
      \<in> set [CreateSnapshot ''vol-1'' ''eu-west-1'', DeleteVolume ''vol-1'' ''eu-west-1'']"
    by (simp add: or_default_def)
  from volume_delete_recoverable [OF run wf _ mem] calls none
  obtain row where "t_get s_id 5 (snaps w') = Some row"
    "map_of (s_state row) ''rollback_ebs_snapshot_id'' = Some (JStr ''snap-9'')"
    unfolding nxt nine by auto
  with calls show ?thesis by blast
qed

lemma delete_backing_error:
  "delete_backing env region ss failed w = (Inl e, w') \<Longrightarrow> \<not> is_safeguard_error e"
  by (induction ss arbitrary: failed w) (auto simp: aws_do_def split: option.splits aws_exc.splits)

text \<open>
  C16: a snapshot or an image is deleted only if its age, computed again from live data, is at
  least 90 days and nothing live depends on it: no image for the snapshot, no instance for the
  image.
\<close>

theorem deletion_needs_age:
  assumes "ty = ''delete_snapshot'' \<or> ty = ''deregister_ami''"
    and "remediate_by_recommendation aws ty dr cfg env dry i rid region w = Some (result, w')"
    and "aws_calls w' \<noteq> aws_calls w"
  shows "if ty = ''delete_snapshot''
    then (\<exists>s. snapshot_state_hook aws env w i (or_default region dr) = Inr (Some s)
        \<and> 90 \<le> days_of_seconds (e_now env - sn_start (ss_snap s))
        \<and> images_of_snapshot aws w (or_default region dr) i = Inr [])
    else (\<exists>s. ami_state_hook aws env w i (or_default region dr) = Inr (Some s)
        \<and> 90 \<le> days_of_seconds (e_now env - im_created (as_image s))
        \<and> (\<exists>insts. instances_of_image aws w (or_default region dr) i = Inr insts
            \<and> list_all (\<lambda>(k, st). st = ''terminated'') insts))"
proof (cases "ty = ''delete_snapshot''")
  case True
  then have run: "remediate (snapshot_hooks aws) dr cfg env dry i rid region w = (result, w')"
    using assms(2) by (simp add: remediate_by_recommendation_def)
  obtain s where st: "snapshot_state_hook aws env w i (or_default region dr) = Inr (Some s)"
    and ok: "snapshot_verify s i (or_default region dr) = Inr ()"
    using snapshot.guarded [OF run assms(3)] by (auto simp: snapshot_hooks_def)
  from ok have age: "90 \<le> ss_age s" and amis: "ss_amis s = []"
    by (auto simp: snapshot_verify_def refuse_def DELETION_MIN_AGE_DAYS_def split: if_splits)
  from st have "ss_age s = days_of_seconds (e_now env - sn_start (ss_snap s))"
    and "images_of_snapshot aws w (or_default region dr) i = Inr (ss_amis s)"
    by (auto simp: snapshot_state_hook_def py_simps aws_get_def split: option.splits sum.splits)
  with st age amis True show ?thesis by auto
next
  case False
  then have run: "remediate (ami_hooks aws) dr cfg env dry i rid region w = (result, w')"
    using assms(1,2) by (simp add: remediate_by_recommendation_def)
  obtain s where st: "ami_state_hook aws env w i (or_default region dr) = Inr (Some s)"
    and ok: "ami_verify s i (or_default region dr) = Inr ()"
    using ami.guarded [OF run assms(3)] by (auto simp: ami_hooks_def)
  from ok have age: "90 \<le> as_age s" and none: "as_instances s = []"
    by (auto simp: ami_verify_def refuse_def DELETION_MIN_AGE_DAYS_def split: if_splits)
  from st obtain insts where "as_age s = days_of_seconds (e_now env - im_created (as_image s))"
    and "instances_of_image aws w (or_default region dr) i = Inr insts"
    and "as_instances s = map fst (filter (\<lambda>(k, st). st \<noteq> ''terminated'') insts)"
    by (auto simp: ami_state_hook_def py_simps aws_get_def split: sum.splits list.splits if_splits)
  with st age none False show ?thesis
    by (auto simp: list_all_iff filter_empty_conv)
qed

lemma sample_snapshot_run:
  "\<exists>result w'. remediate_by_recommendation sample_aws ''delete_snapshot'' ''eu-west-1'' sample_policy
      sample_env False ''snap-1'' 7 None sample_world = Some (result, w') \<and> aws_calls w' \<noteq> aws_calls sample_world"
proof -
  let ?st = "\<lparr>ss_snap = \<lparr>sn_id = ''snap-1'', sn_volume = None, sn_size = 8, sn_start = 0, sn_tags = []\<rparr>,
      ss_age = 100, ss_amis = []\<rparr>"
  obtain r x where "rec_join 7 sample_world = Some (r, x)" "w_confidence x = 1"
    using sample_join by blast
  then have checks: "rem_checks (snapshot_hooks sample_aws) sample_policy sample_env False ''snap-1'' 7
      (or_default None ''eu-west-1'') sample_world = Inr ?st"
    by (simp add: rem_checks_def snapshot_hooks_def snapshot_state_hook_def first_or_gone_def
        sample_aws_def aws_get_def snapshot_verify_def DELETION_MIN_AGE_DAYS_def tags_dict_def
        sample_policy_open days_of_seconds_def) (simp add: sample_env_def sample_policy_open [unfolded sample_env_def])
  from snapshot.allowed [OF checks] obtain result w' cs where
    run: "remediate (snapshot_hooks sample_aws) ''eu-west-1'' sample_policy sample_env False ''snap-1'' 7 None
        sample_world = (result, w')"
    and ev: "events w' = events sample_world @ [EvLog (t_next (alog sample_world)),
        EvSnapshot (t_next (snaps sample_world))] @ map EvAws cs"
    and cs: "rr_success result \<longrightarrow> cs = [DeleteSnapshot ''snap-1'' (or_default None ''eu-west-1'')]"
    by auto
  have "rr_success (fst (remediate (snapshot_hooks sample_aws) ''eu-west-1'' sample_policy sample_env False
      ''snap-1'' 7 None sample_world))"
    using snapshot.body_allowed [OF checks]
    by (simp add: remediate_def Let_def snapshot_hooks_def snapshot_execute_def aws_write_eq)
  with run cs have "cs \<noteq> []" by simp
  with aws_calls_by_events [OF ev] have "aws_calls w' \<noteq> aws_calls sample_world"
    by (simp add: map_filter_def comp_def)
  with run show ?thesis by (simp add: remediate_by_recommendation_def)
qed

theorem deletion_needs_age_witness:
  "\<exists>s. snapshot_state_hook sample_aws sample_env sample_world ''snap-1'' ''eu-west-1'' = Inr (Some s)
     \<and> 90 \<le> days_of_seconds (e_now sample_env - sn_start (ss_snap s))"
proof -
  obtain result w' where "remediate_by_recommendation sample_aws ''delete_snapshot'' ''eu-west-1''
      sample_policy sample_env False ''snap-1'' 7 None sample_world = Some (result, w')"
    "aws_calls w' \<noteq> aws_calls sample_world" using sample_snapshot_run by blast
  from deletion_needs_age [OF _ this] show ?thesis by (auto simp: or_default_def)
qed

text \<open>
  A real deregistration of an image succeeds only if the image and then every one of its
  backing snapshots, in order, were deleted without error; otherwise the recommendation keeps
  its status and the action is marked failed even though the image may be gone.
\<close>

theorem ami_deregister_outcome:
  assumes "remediate (ami_hooks aws) dr cfg env False i rid region w = (result, w')"
    and "aws_calls w' = aws_calls w @ cs" "cs \<noteq> []"
    and "t_wf l_id (alog w)" "0 < t_next (alog w)"
  shows "if rr_success result
    then (\<exists>s. ami_state_hook aws env w i (or_default region dr) = Inr (Some s)
        \<and> cs = DeregisterImage i (or_default region dr)
            # map (\<lambda>k. DeleteSnapshot k (or_default region dr)) (as_snapshots s)
        \<and> (\<forall>k < length cs. e_write env (length (aws_calls w) + k) (cs ! k) = None)
        \<and> status_of rid w' = Some Applied)
    else recs w' = recs w
        \<and> map_option l_status (t_get l_id (t_next (alog w)) (alog w')) = Some LogFailed"
proof -
  let ?R = "or_default region dr" and ?h = "ami_hooks aws"
  have neq: "aws_calls w' \<noteq> aws_calls w" using assms(2,3) by auto
  from ami.write_guarded [OF assms(1) neq] obtain st where checks: "rem_checks ?h cfg env False i rid ?R w = Inr st"
    by blast
  have st: "ami_state_hook aws env w i ?R = Inr (Some st)"
    using ami.checks_policy [OF checks] by (auto simp: ami_hooks_def)
  obtain r x where "rec_join rid w = Some (r, x)" using ami.checks_policy [OF checks] by blast
  then have status: "status_of rid w \<noteq> None"
    by (auto simp: rec_join_def status_of_def split: option.splits)
  from ami.allowed [OF checks] obtain es r0 w0 where
    run: "remediate ?h dr cfg env False i rid region w = (r0, w0)"
    and ev0: "events w0 = events w @ [EvLog (t_next (alog w)), EvSnapshot (t_next (snaps w))] @ map EvAws es"
    and planned0: "rr_success r0 \<and> \<not> False \<longrightarrow>
        es = DeregisterImage i ?R # map (\<lambda>s. DeleteSnapshot s ?R) (as_snapshots st)"
    and recs0: "recs w0 = (if rr_success r0 \<and> \<not> False then recs (mark_applied env rid w) else recs w)"
    and alog0: "alog w0 = (if rr_success r0
        then alog (set_log_status (t_next (alog w)) LogSuccess
               (snd (rem_log_action ?h env False rid i LogPending w)))
        else alog (close_log (Some (t_next (alog w)))
               (case rr_error r0 of
                  Some e \<Rightarrow> if is_safeguard_error e then LogBlocked else LogFailed
                | None \<Rightarrow> LogFailed)
               (snd (rem_log_action ?h env False rid i LogPending w))))"
    by blast
  have same: "r0 = result" "w0 = w'" using run assms(1) by simp_all
  note ev = ev0 [unfolded same] and planned = planned0 [unfolded same, simplified]
    and recs = recs0 [unfolded same, simplified] and alog = alog0 [unfolded same]
  have es: "es = cs"
    using aws_calls_by_events [OF ev] assms(2) by (simp add: map_filter_def comp_def)
  let ?w2 = "ami.prepared aws env False i rid st w"
  obtain failure w3 where exec: "ami_execute env i ?R st ?w2 = (failure, w3)" by fastforce
  have result: "rr_success result = (failure = None)" "rr_error result = failure"
    using assms(1) ami.body_allowed [OF checks] exec
    by (cases failure; auto simp: remediate_def Let_def ami_hooks_def)+
  have calls2: "aws_calls ?w2 = aws_calls w" by simp
  show ?thesis
  proof (cases failure)
    case None
    with exec have "fst (ami_execute env i ?R st ?w2) = None" by simp
    from ami_execute_success [OF this] planned es result None calls2
    have "\<forall>k < length cs. e_write env (length (aws_calls w) + k) (cs ! k) = None" by simp
    moreover have "status_of rid w' = Some Applied"
      using recs result None status status_mark_applied [of rid env rid w] by (simp add: status_of_def)
    ultimately show ?thesis using st planned es result None by auto
  next
    case (Some e)
    have "\<not> is_safeguard_error e"
      using exec Some by (auto simp: ami_execute_def aws_write_eq split: option.splits sum.splits prod.splits if_splits
          dest: delete_backing_error)
    then have "map_option l_status (t_get l_id (t_next (alog w)) (alog w')) = Some LogFailed"
      using alog result Some assms(4,5)
      by (simp add: close_log_def get_set_log_status rem_log_action_def get_insert_log)
    with recs result Some show ?thesis by simp
  qed
qed

definition failing_env :: env where
  "failing_env = sample_env\<lparr>e_write := \<lambda>k c. if k = 1 then Some (ClientError ''InUse'') else None\<rparr>"

lemma sample_ami_checks:
  "rem_checks (ami_hooks sample_aws) sample_policy failing_env False ''ami-1'' 7
      (or_default None ''eu-west-1'') sample_world
    = Inr \<lparr>as_image = \<lparr>im_id = ''ami-1'', im_name = None, im_created = 0,
          im_snapshots = [Some ''snap-1'', None], im_tags = []\<rparr>,
        as_age = 100, as_instances = [], as_snapshots = [''snap-1'']\<rparr>"
proof -
  obtain r x where "rec_join 7 sample_world = Some (r, x)" "w_confidence x = 1"
    using sample_join by blast
  moreover have "check_schedule sample_policy failing_env = Inr True"
    by (simp add: check_schedule_def sample_policy_def dict_get_def)
  moreover have "e_now failing_env = 100 * 86400" by (simp add: failing_env_def sample_env_def)
  ultimately show ?thesis
    by (simp add: rem_checks_def ami_hooks_def ami_state_hook_def sample_aws_def aws_get_def
        ami_verify_def DELETION_MIN_AGE_DAYS_def tags_dict_def days_of_seconds_def map_filter_def
        sample_policy_open)
qed

lemma ami_hooks_execute [simp]: "h_execute (ami_hooks aws) = ami_execute"
  by (simp add: ami_hooks_def)

theorem ami_deregister_outcome_witness:
  "\<exists>result w'. remediate (ami_hooks sample_aws) ''eu-west-1'' sample_policy failing_env False
      ''ami-1'' 7 None sample_world = (result, w')
    \<and> aws_calls w' = [DeregisterImage ''ami-1'' ''eu-west-1'', DeleteSnapshot ''snap-1'' ''eu-west-1'']
    \<and> recs w' = recs sample_world
    \<and> map_option l_status (t_get l_id 5 (alog w')) = Some LogFailed"
proof -
  let ?w2 = "\<lambda>st. ami.prepared sample_aws failing_env False ''ami-1'' 7 st sample_world"
  obtain result w' where run: "remediate (ami_hooks sample_aws) ''eu-west-1'' sample_policy failing_env
      False ''ami-1'' 7 None sample_world = (result, w')" by fastforce
  have none: "aws_calls sample_world = []"
    by (simp add: aws_calls_def sample_world_def map_filter_def)
  have w0: "e_write failing_env 0 c = None" "e_write failing_env 1 c = Some (ClientError ''InUse'')"
    "e_write failing_env (Suc 0) c = Some (ClientError ''InUse'')" for c
    by (simp_all add: failing_env_def)
  have calls: "aws_calls w' = [DeregisterImage ''ami-1'' ''eu-west-1'', DeleteSnapshot ''snap-1'' ''eu-west-1'']"
    and failed: "\<not> rr_success result"
    using run ami.body_allowed [OF sample_ami_checks] none
    by (auto simp: remediate_def Let_def ami_execute_def aws_write_eq aws_do_def w0 or_default_def
        sample_world_def aws_calls_def map_filter_def)
  from ami_deregister_outcome [OF run, of "aws_calls w'"] none calls failed run show ?thesis
    by (simp add: sample_world_def t_wf_def)
qed

end
