(* ===== verification/Actions.thy ===== *)
theory Actions
  imports Ec2Remediator ResourceRemediator
begin

text \<open>
  The actions API: \<open>POST /api/actions\<close> of \<open>ui/routes/recommendations.py\<close>, with what it
  calls: the registry of execution modes, the getters of the configuration manager, the proxy to
  the remediators, the direct EC2 path of \<open>ui/jobs.py\<close>, and the routing to a Terraform pull
  request. The document of \<open>config/remediation.yaml\<close> is an argument; the record \<open>app\<close> holds
  what is outside: the answers of AWS, of GitHub and of the Terraform checkout.
\<close>

section \<open>Execution modes\<close>

datatype exec_mode = Boto3 | Remediator | Manual

definition EXECUTION_MODES :: "(string \<times> exec_mode) list" where
  "EXECUTION_MODES =
     [(''stop_instance'', Boto3), (''terminate_instance'', Boto3),
      (''migrate_gp2_to_gp3'', Remediator), (''delete_volume'', Remediator),
      (''delete_nat_gateway'', Remediator), (''delete_load_balancer'', Remediator),
      (''release_ip'', Remediator), (''delete_snapshot'', Remediator),
      (''deregister_ami'', Remediator), (''downsize_instance'', Manual), (''delete_vpc'', Manual),
      (''delete_rds_instance'', Manual), (''downsize_rds_instance'', Manual),
      (''delete_rds_snapshot'', Manual)]"

definition execution_mode :: "string \<Rightarrow> exec_mode" where
  "execution_mode recommendation_type =
     (case map_of EXECUTION_MODES recommendation_type of None \<Rightarrow> Manual | Some m \<Rightarrow> m)"

section \<open>The getters of the configuration\<close>

definition get_dry_run :: "json \<Rightarrow> json sg" where
  "get_dry_run cfg = json_get ''dry_run'' (JBool True) cfg"

definition get_grace_period_days :: "json \<Rightarrow> json sg" where
  "get_grace_period_days cfg = config_get cfg ''approval'' ''grace_period_days'' (JInt 0)"

definition get_action_enabled :: "json \<Rightarrow> string \<Rightarrow> json sg" where
  "get_action_enabled cfg action_type =
     py_bind (config_get cfg ''auto_remediation'' ''actions'' (JObj [])) (\<lambda>a.
     json_get action_type (JBool True) (json_or_empty a))"

text \<open>
  \<open>float(v)\<close> of a configuration value: of the strings only plain decimals (an optional sign,
  digits, an optional fraction) are read, the others raise \<open>ValueError\<close>.
\<close>

definition digits_val :: "string \<Rightarrow> nat" where
  "digits_val s = foldl (\<lambda>n c. 10 * n + (of_char c - 48)) 0 s"

definition parse_unsigned :: "string \<Rightarrow> rat option" where
  "parse_unsigned s =
     (let whole = takeWhile is_digit s; rest = dropWhile is_digit s
      in case rest of
           [] \<Rightarrow> if whole = [] then None else Some (of_nat (digits_val whole))
         | c # frc \<Rightarrow>
             if c = CHR ''.'' \<and> list_all is_digit frc \<and> whole @ frc \<noteq> []
             then Some (of_nat (digits_val (whole @ frc)) / 10 ^ length frc) else None)"

definition parse_decimal :: "string \<Rightarrow> rat option" where
  "parse_decimal s =
     (case s of
        [] \<Rightarrow> None
      | c # cs \<Rightarrow> if c = CHR ''-'' then map_option uminus (parse_unsigned cs)
                 else if c = CHR ''+'' then parse_unsigned cs else parse_unsigned s)"

fun py_float :: "json \<Rightarrow> 'e pyexc + rat" where
  "py_float (JInt n) = Inr (of_int n)"
| "py_float (JFloat x) = Inr x"
| "py_float (JBool b) = Inr (if b then 1 else 0)"
| "py_float (JStr s) = (case parse_decimal (strip s) of None \<Rightarrow> Inl ValueError | Some x \<Rightarrow> Inr x)"
| "py_float _ = Inl TypeError"

section \<open>Routing to a Terraform pull request\<close>

record tf_config =
  tf_enabled :: json
  tf_threshold :: rat
  tf_types :: json

definition requires_pr :: "tf_config \<Rightarrow> string \<Rightarrow> rat \<Rightarrow> bool sg" where
  "requires_pr c resource_type monthly_savings =
     (if \<not> json_truthy (tf_enabled c) then Inr False
      else py_bind (json_in resource_type (tf_types c)) (\<lambda>listed.
        if listed then Inr True else Inr (monthly_savings \<ge> tf_threshold c)))"

definition tf_from_dict :: "json \<Rightarrow> tf_config sg" where
  "tf_from_dict data =
     py_bind (json_get ''enabled'' (JBool False) data) (\<lambda>en.
     py_bind (json_get ''pr_threshold_eur'' (JFloat 50) data) (\<lambda>th.
     py_bind (py_float th) (\<lambda>threshold.
     py_bind (json_get ''pr_required_resource_types'' (JList []) data) (\<lambda>ty.
     Inr \<lparr>tf_enabled = en, tf_threshold = threshold,
          tf_types = (if json_truthy ty then ty else JList [])\<rparr>))))"

text \<open>
  \<open>RemediationConfig.from_yaml(...).terraform_pr\<close>: reading the other sections comes first
  and raises when one of them is not a mapping.
\<close>

definition load_backend_config :: "json \<Rightarrow> tf_config sg" where
  "load_backend_config config =
     (if config = JNull then Inr \<lparr>tf_enabled = JBool False, tf_threshold = 50, tf_types = JList []\<rparr>
      else
        py_bind (json_get ''auto_remediation'' (JObj []) config) (\<lambda>auto_rem.
        py_bind (json_get ''protection'' (JObj []) config) (\<lambda>protection.
        py_bind (json_get ''whitelist'' (JObj []) config) (\<lambda>whitelist.
        py_bind (json_get ''schedule'' (JObj []) config) (\<lambda>schedule.
        py_bind (json_get ''enabled'' (JBool False) auto_rem) (\<lambda>_.
        py_bind (json_get ''min_instance_age_days'' (JInt 30) protection) (\<lambda>_.
        py_bind (json_get ''instance_ids'' (JList []) whitelist) (\<lambda>_.
        py_bind (json_get ''allowed_days'' (JList []) schedule) (\<lambda>_.
        py_bind (json_get ''terraform_pr'' (JObj []) config) (\<lambda>tf.
        tf_from_dict (json_or_empty tf)))))))))))"

text \<open>
  What \<open>TerraformPRRemediator.propose_removal\<close> ends in: a proposal with its URL (none in a dry
  run), a resource that Terraform does not manage, \<open>TerraformPRError\<close>, or another exception.
\<close>

datatype pr_outcome = PrProposal "string option" | PrUnmanaged | PrRefused string | PrCrash string

section \<open>What is outside\<close>

text \<open>
  \<open>ap_states\<close> is \<open>describe_instances\<close> filtered by an instance id: the states of the instances
  of each reservation. \<open>ap_pr_state\<close> is what \<open>gh pr view\<close> answers, \<open>None\<close> when it fails.
\<close>

record app =
  ap_env :: env
  ap_aws :: aws_reads
  ap_ec2 :: ec2_api
  ap_default_region :: string
  ap_regions :: "string list"
  ap_states :: "world \<Rightarrow> string \<Rightarrow> string \<Rightarrow> aws_exc + string list list"
  ap_propose :: "rec_row \<Rightarrow> waste_row \<Rightarrow> bool \<Rightarrow> pr_outcome"
  ap_pr_state :: "string \<Rightarrow> string option"

section \<open>The direct EC2 path\<close>

datatype boto_exc = BotoAws aws_exc | BotoIndexError

text \<open>\<open>"Errors: ..."\<close> with one entry per region that raised, or not found in any region.\<close>

datatype boto_error = BotoErrors "(string \<times> boto_exc) list" | BotoNotFound string

fun first_state :: "string list list \<Rightarrow> string option" where
  "first_state ((s # _) # _) = Some s"
| "first_state _ = None"

fun boto3_regions ::
    "app \<Rightarrow> string \<Rightarrow> string \<Rightarrow> string list \<Rightarrow> (string \<times> boto_exc) list \<Rightarrow> world
     \<Rightarrow> boto_error option \<times> world" where
  "boto3_regions app instance_id rec_type [] errs w =
     (Some (if errs \<noteq> [] then BotoErrors errs else BotoNotFound instance_id), w)"
| "boto3_regions app instance_id rec_type (region # rs) errs w =
     (if rec_type \<notin> {''stop_instance'', ''terminate_instance''}
      then boto3_regions app instance_id rec_type rs errs w
      else
        (case ap_states app w region instance_id of
           Inl e \<Rightarrow> boto3_regions app instance_id rec_type rs (errs @ [(region, BotoAws e)]) w
         | Inr reservations \<Rightarrow>
             if reservations = [] then boto3_regions app instance_id rec_type rs errs w
             else
               (case first_state reservations of
                  None \<Rightarrow> boto3_regions app instance_id rec_type rs (errs @ [(region, BotoIndexError)]) w
                | Some st \<Rightarrow>
                    if st \<in> {''terminated'', ''shutting-down''} then (None, w)
                    else
                      (case aws_do (ap_env app)
                              (if rec_type = ''stop_instance'' then StopInstances instance_id region
                               else TerminateInstances instance_id region) w of
                         (None, w1) \<Rightarrow> (None, w1)
                       | (Some e, w1) \<Rightarrow>
                           boto3_regions app instance_id rec_type rs (errs @ [(region, BotoAws e)]) w1))))"

text \<open>The stored region comes first; detectors store it as a string or null.\<close>

fun json_text :: "json \<Rightarrow> string option" where
  "json_text (JStr s) = Some s"
| "json_text _ = None"

definition stored_region :: "waste_row \<Rightarrow> string option" where
  "stored_region x =
     (case map_of (w_metadata x) ''region'' of None \<Rightarrow> None | Some v \<Rightarrow> json_text v)"

definition execute_ec2_boto3 ::
    "app \<Rightarrow> string \<Rightarrow> string \<Rightarrow> string option \<Rightarrow> world \<Rightarrow> boto_error option \<times> world" where
  "execute_ec2_boto3 app instance_id rec_type stored w =
     (let regions = (if truthy stored
                     then the stored # filter (\<lambda>r. r \<noteq> the stored) (ap_regions app)
                     else ap_regions app)
      in boto3_regions app instance_id rec_type regions [] w)"

section \<open>The proxy to the remediators\<close>

datatype act_error =
    ActText string
  | ActRem rem_error
  | ActBoto boto_error
  | ActPy "sg_error pyexc"
  | ActPr string

record act_result =
  ac_rec :: nat
  ac_success :: bool
  ac_action :: string
  ac_dry :: bool
  ac_manual :: bool
  ac_scheduled :: bool
  ac_pr :: bool
  ac_error :: "act_error option"

definition plain_result :: "nat \<Rightarrow> bool \<Rightarrow> string \<Rightarrow> act_error option \<Rightarrow> act_result" where
  "plain_result rid ok action err =
     \<lparr>ac_rec = rid, ac_success = ok, ac_action = action, ac_dry = False, ac_manual = False,
      ac_scheduled = False, ac_pr = False, ac_error = err\<rparr>"

text \<open>
  One recommendation of \<open>execute_recommendations\<close>: the remediators are built, and with them the
  safeguards, from the document at that time.
\<close>

definition proxy_execute ::
    "app \<Rightarrow> json \<Rightarrow> bool \<Rightarrow> nat \<Rightarrow> nat \<Rightarrow> world \<Rightarrow> act_result \<times> world" where
  "proxy_execute app cfg dry rid stopped w =
     (case rec_join rid w of
        None \<Rightarrow> (plain_result rid False [] (Some (ActText ''Recommendation not found in database'')), w)
      | Some (r, x) \<Rightarrow>
          let ok = (\<lambda>res. plain_result rid (rr_success res) (r_type r) (map_option ActRem (rr_error res)))
          in
          if r_type r \<in> {''stop_instance'', ''terminate_instance''} then
            (case load_config cfg of
               Inl e \<Rightarrow> (plain_result rid False [] (Some (ActPy e)), w)
             | Inr c \<Rightarrow>
                 (case stop_instance (ap_ec2 app) c (ap_env app) dry (w_resource_id x) rid stopped w of
                    (res, w1) \<Rightarrow> (ok res, w1)))
          else if r_type r \<notin> set REMEDIATED_TYPES
          then (plain_result rid False [] (Some (ActText ''has no automated remediator yet'')), w)
          else
            (case load_config cfg of
               Inl e \<Rightarrow> (plain_result rid False [] (Some (ActPy e)), w)
             | Inr c \<Rightarrow>
                 (case remediate_by_recommendation (ap_aws app) (r_type r) (ap_default_region app) c
                         (ap_env app) dry (w_resource_id x) rid (stored_region x) w of
                    None \<Rightarrow> (plain_result rid False [] None, w)
                  | Some (res, w1) \<Rightarrow> (ok res, w1))))"

fun execute_recommendations ::
    "app \<Rightarrow> json \<Rightarrow> bool \<Rightarrow> nat list \<Rightarrow> nat \<Rightarrow> world \<Rightarrow> act_result list \<times> world" where
  "execute_recommendations app cfg dry [] stopped w = ([], w)"
| "execute_recommendations app cfg dry (rid # rids) stopped w =
     (case proxy_execute app cfg dry rid stopped w of
        (res, w1) \<Rightarrow>
          (case execute_recommendations app cfg dry rids
                  (if ac_success res \<and> ac_action res \<in> {''stop_instance'', ''terminate_instance''}
                   then stopped + 1 else stopped) w1 of
             (rs, w2) \<Rightarrow> (res # rs, w2)))"

section \<open>The bookkeeping actions\<close>

text \<open>\<open>UPDATE recommendations SET ... WHERE id = %s AND status IN (...) RETURNING id\<close>.\<close>

definition update_if ::
    "nat \<Rightarrow> rec_status list \<Rightarrow> (rec_row \<Rightarrow> rec_row) \<Rightarrow> world \<Rightarrow> bool \<times> world" where
  "update_if rid from f w =
     (t_count (\<lambda>r. r_id r = rid \<and> r_status r \<in> set from) (recs w) \<noteq> 0,
      w\<lparr>recs := t_update (\<lambda>r. r_id r = rid \<and> r_status r \<in> set from) f (recs w)\<rparr>)"

definition bookkeeping_result :: "nat \<Rightarrow> bool \<Rightarrow> string \<Rightarrow> string \<Rightarrow> act_result" where
  "bookkeeping_result rid found action complaint =
     plain_result rid found action (if found then None else Some (ActText complaint))"

definition api_reject :: "app \<Rightarrow> nat \<Rightarrow> world \<Rightarrow> act_result \<times> world" where
  "api_reject app rid w =
     (case update_if rid [Pending, ApprovedManual]
             (\<lambda>r. r\<lparr>r_status := Rejected, r_applied_at := Some (e_now (ap_env app))\<rparr>) w of
        (found, w1) \<Rightarrow> (bookkeeping_result rid found ''rejected'' ''not in a skippable state'', w1))"

definition api_dismiss :: "app \<Rightarrow> nat \<Rightarrow> world \<Rightarrow> act_result \<times> world" where
  "api_dismiss app rid w =
     (case update_if rid [Pending, ApprovedManual]
             (\<lambda>r. r\<lparr>r_status := Dismissed, r_applied_at := Some (e_now (ap_env app))\<rparr>) w of
        (found, w1) \<Rightarrow> (bookkeeping_result rid found ''dismissed'' ''not in pending state'', w1))"

definition cancel_logs :: "nat \<Rightarrow> world \<Rightarrow> world" where
  "cancel_logs rid w =
     w\<lparr>alog := t_update (\<lambda>l. l_rec l = Some rid \<and> l_status l = LogPending)
         (\<lambda>l. l\<lparr>l_status := LogCancelled\<rparr>) (alog w)\<rparr>"

definition api_cancel :: "app \<Rightarrow> nat \<Rightarrow> world \<Rightarrow> act_result \<times> world" where
  "api_cancel app rid w =
     (case update_if rid [Scheduled]
             (\<lambda>r. r\<lparr>r_status := Pending, r_execute_after := None\<rparr>) w of
        (found, w1) \<Rightarrow>
          (bookkeeping_result rid found ''cancelled'' ''not in scheduled state'',
           if found then cancel_logs rid w1 else w1))"

definition api_restore :: "app \<Rightarrow> nat \<Rightarrow> world \<Rightarrow> act_result \<times> world" where
  "api_restore app rid w =
     (case update_if rid [Rejected]
             (\<lambda>r. r\<lparr>r_status := Pending, r_applied_at := None\<rparr>) w of
        (found, w1) \<Rightarrow> (bookkeeping_result rid found ''restored'' ''not in rejected state'', w1))"

section \<open>Approval\<close>

definition set_status :: "nat \<Rightarrow> (rec_row \<Rightarrow> rec_row) \<Rightarrow> world \<Rightarrow> world" where
  "set_status rid f w = w\<lparr>recs := t_update (\<lambda>r. r_id r = rid) f (recs w)\<rparr>"

text \<open>\<open>str.replace(old, "")\<close>, left to right.\<close>

function remove_sub :: "string \<Rightarrow> string \<Rightarrow> string" where
  "remove_sub old s =
     (if s = [] \<or> old = [] then s
      else if prefix old s then remove_sub old (drop (length old) s)
      else hd s # remove_sub old (tl s))"
  by pat_completeness auto
termination
  by (relation "measure (\<lambda>(old, s). length s)") auto

declare remove_sub.simps [simp del]

definition action_type_of :: "string \<Rightarrow> string" where
  "action_type_of rec_type =
     remove_sub ''_snapshot'' (remove_sub ''_volume'' (remove_sub ''_instance'' rec_type))"

text \<open>
  \<open>maybe_open_pr\<close>: nothing when the configuration cannot be read or the policy does not route
  this recommendation, or when Terraform does not manage the resource.
\<close>

definition maybe_open_pr ::
    "app \<Rightarrow> json \<Rightarrow> nat \<Rightarrow> rec_row \<Rightarrow> waste_row \<Rightarrow> bool \<Rightarrow> world \<Rightarrow> (act_error + act_result option) \<times> world" where
  "maybe_open_pr app cfg rid r x dry w =
     (case load_backend_config cfg of
        Inl _ \<Rightarrow> (Inr None, w)
      | Inr c \<Rightarrow>
          (case requires_pr c (w_resource_type x) (r_savings r) of
             Inl e \<Rightarrow> (Inl (ActPy e), w)
           | Inr required \<Rightarrow>
               if \<not> required then (Inr None, w)
               else
                 let base = (plain_result rid False (r_type r) None)\<lparr>ac_pr := True, ac_dry := dry\<rparr>
                 in case ap_propose app r x dry of
                      PrCrash m \<Rightarrow> (Inl (ActText m), w)
                    | PrRefused m \<Rightarrow> (Inr (Some (base\<lparr>ac_error := Some (ActPr m)\<rparr>)), w)
                    | PrUnmanaged \<Rightarrow> (Inr None, w)
                    | PrProposal url \<Rightarrow>
                        let w1 = (if truthy url
                                  then set_status rid (\<lambda>q. q\<lparr>r_status := PrOpen, r_pr_url := url\<rparr>) w
                                  else w)
                        in (Inr (Some (base\<lparr>ac_success := True\<rparr>)),
                            snd (add_log (ap_env app) (Some rid) (w_resource_id x) (w_resource_type x)
                                   ''terraform_pr'' LogSuccess dry None w1))))"

text \<open>A disabled action degrades to manual review.\<close>

definition effective_mode :: "json \<Rightarrow> string \<Rightarrow> exec_mode sg" where
  "effective_mode cfg rec_type =
     (let mode = execution_mode rec_type
      in if mode = Manual then Inr Manual
         else py_bind (get_action_enabled cfg rec_type) (\<lambda>en.
           Inr (if json_truthy en then mode else Manual)))"

text \<open>
  The grace period as the code compares it, and as PostgreSQL takes it: only an integer is a
  number of days for \<open>make_interval\<close>.
\<close>

definition grace_days :: "json \<Rightarrow> rat sg" where
  "grace_days cfg = py_bind (get_grace_period_days cfg) json_cmp"

definition grace_int :: "json \<Rightarrow> int option" where
  "grace_int cfg =
     (case (get_grace_period_days cfg :: json sg) of Inr (JInt n) \<Rightarrow> Some n | _ \<Rightarrow> None)"

definition schedule_execution ::
    "app \<Rightarrow> int \<Rightarrow> nat \<Rightarrow> rec_row \<Rightarrow> waste_row \<Rightarrow> world \<Rightarrow> act_result \<times> world" where
  "schedule_execution app days rid r x w =
     (let due = e_now (ap_env app) + days * 86400
      in case update_if rid [Pending] (\<lambda>q. q\<lparr>r_status := Scheduled, r_execute_after := Some due\<rparr>) w of
           (found, w1) \<Rightarrow>
             if \<not> found then (plain_result rid False [] (Some (ActText ''not in pending state'')), w1)
             else
               ((plain_result rid True (r_type r) None)\<lparr>ac_scheduled := True\<rparr>,
                snd (add_log (ap_env app) (Some rid) (w_resource_id x) (w_resource_type x)
                       (action_type_of (r_type r)) LogPending False None w1)))"

text \<open>The immediate path of the modes \<open>boto3\<close> and \<open>manual\<close>.\<close>

definition approve_now ::
    "app \<Rightarrow> bool \<Rightarrow> exec_mode \<Rightarrow> nat \<Rightarrow> rec_row \<Rightarrow> waste_row \<Rightarrow> world \<Rightarrow> act_result \<times> world" where
  "approve_now app dry mode rid r x w =
     (let manual_review = (mode \<noteq> Boto3);
          (aws_error, w1) =
            (if \<not> dry \<and> \<not> manual_review
             then execute_ec2_boto3 app (w_resource_id x) (r_type r) (stored_region x) w
             else (None, w));
          aws_success = (aws_error = None);
          (_, w2) = add_log (ap_env app) (Some rid) (w_resource_id x) (w_resource_type x)
                      (action_type_of (r_type r)) (if dry \<or> aws_success then LogSuccess else LogFailed)
                      (dry \<or> manual_review) None w1;
          new_status = (if manual_review then Some ApprovedManual
                        else if dry then None
                        else Some (if aws_success then Approved else Pending));
          w3 = (case new_status of
                  None \<Rightarrow> w2
                | Some st \<Rightarrow> set_status rid (\<lambda>q. q\<lparr>r_status := st,
                               r_applied_at := Some (e_now (ap_env app))\<rparr>) w2)
      in (\<lparr>ac_rec = rid, ac_success = (dry \<or> aws_success), ac_action = r_type r,
           ac_dry = (dry \<and> \<not> manual_review), ac_manual = manual_review, ac_scheduled = False,
           ac_pr = False, ac_error = map_option ActBoto aws_error\<rparr>, w3))"

definition raised :: "nat \<Rightarrow> act_error \<Rightarrow> act_result" where
  "raised rid e = plain_result rid False [] (Some e)"

definition api_approve :: "app \<Rightarrow> json \<Rightarrow> nat \<Rightarrow> world \<Rightarrow> act_result \<times> world" where
  "api_approve app cfg rid w =
     (case rec_join rid w of
        None \<Rightarrow> (raised rid (ActText ''Recommendation not found''), w)
      | Some (r, x) \<Rightarrow>
     (case get_dry_run cfg of
        Inl e \<Rightarrow> (raised rid (ActPy e), w)
      | Inr dv \<Rightarrow>
          let dry = json_truthy dv in
     (case maybe_open_pr app cfg rid r x dry w of
        (Inl e, w1) \<Rightarrow> (raised rid e, w1)
      | (Inr (Some res), w1) \<Rightarrow> (res, w1)
      | (Inr None, w1) \<Rightarrow>
     (case effective_mode cfg (r_type r) of
        Inl e \<Rightarrow> (raised rid (ActPy e), w1)
      | Inr mode \<Rightarrow>
     (case grace_days cfg of
        Inl e \<Rightarrow> (raised rid (ActPy e), w1)
      | Inr days \<Rightarrow>
          if days > 0 \<and> \<not> dry \<and> mode \<noteq> Manual then
            (case grace_int cfg of
               None \<Rightarrow> (raised rid (ActText ''make_interval does not exist''), w1)
             | Some n \<Rightarrow> schedule_execution app n rid r x w1)
          else if mode = Remediator then
            (case proxy_execute app cfg dry rid 0 w1 of
               (res, w2) \<Rightarrow> (res\<lparr>ac_action := r_type r\<rparr>, w2))
          else approve_now app dry mode rid r x w1)))))"

section \<open>The request\<close>

datatype act = Approve | Reject | Dismiss | Cancel | Execute | Restore

definition api_action :: "app \<Rightarrow> json \<Rightarrow> act \<Rightarrow> nat \<Rightarrow> world \<Rightarrow> act_result \<times> world" where
  "api_action app cfg a rid w =
     (case a of
        Reject \<Rightarrow> api_reject app rid w
      | Dismiss \<Rightarrow> api_dismiss app rid w
      | Cancel \<Rightarrow> api_cancel app rid w
      | Restore \<Rightarrow> api_restore app rid w
      | Approve \<Rightarrow> api_approve app cfg rid w
      | Execute \<Rightarrow> api_approve app cfg rid w)"

fun api_execute_actions ::
    "app \<Rightarrow> json \<Rightarrow> act \<Rightarrow> nat list \<Rightarrow> world \<Rightarrow> act_result list \<times> world" where
  "api_execute_actions app cfg a [] w = ([], w)"
| "api_execute_actions app cfg a (rid # rids) w =
     (case api_action app cfg a rid w of
        (res, w1) \<Rightarrow>
          (case api_execute_actions app cfg a rids w1 of (rs, w2) \<Rightarrow> (res # rs, w2)))"

section \<open>Frames\<close>

lemma update_if_frame [simp]:
  "aws_calls (snd (update_if rid from f w)) = aws_calls w"
  "wastes (snd (update_if rid from f w)) = wastes w"
  "alog (snd (update_if rid from f w)) = alog w"
  "snaps (snd (update_if rid from f w)) = snaps w"
  "events (snd (update_if rid from f w)) = events w"
  by (simp_all add: update_if_def)

lemma set_status_frame [simp]:
  "aws_calls (set_status rid f w) = aws_calls w"
  "wastes (set_status rid f w) = wastes w"
  "alog (set_status rid f w) = alog w"
  "snaps (set_status rid f w) = snaps w"
  "events (set_status rid f w) = events w"
  by (simp_all add: set_status_def)

lemma cancel_logs_frame [simp]:
  "aws_calls (cancel_logs rid w) = aws_calls w"
  "recs (cancel_logs rid w) = recs w"
  "wastes (cancel_logs rid w) = wastes w"
  by (simp_all add: cancel_logs_def)

lemma status_of_recs: "recs w = recs v \<Longrightarrow> status_of j w = status_of j v"
  by (simp add: status_of_def)

lemma status_set_status:
  assumes "\<And>r. r_id (f r) = r_id r"
  shows "status_of j (set_status rid f w) =
    (if j = rid then map_option (\<lambda>r. r_status (f r)) (t_get r_id rid (recs w)) else status_of j w)"
  by (simp add: status_of_def set_status_def rec_table.get_upd_key [OF assms] option.map_comp comp_def)

lemma status_update_if:
  assumes "\<And>r. r_id (f r) = r_id r"
  shows "status_of j (snd (update_if rid from f w)) =
    (if j = rid
     then map_option (\<lambda>r. if r_status r \<in> set from then r_status (f r) else r_status r)
            (t_get r_id rid (recs w))
     else status_of j w)"
proof -
  have "map_option r_status (t_get r_id j (t_update (\<lambda>r. r_id r = rid \<and> r_status r \<in> set from) f (recs w)))
    = (if j = rid then map_option r_status (map_option (\<lambda>r. if r_status r \<in> set from then f r else r)
           (t_get r_id rid (recs w))) else map_option r_status (t_get r_id j (recs w)))"
    by (simp add: rec_table.get_upd_guarded [OF assms])
  then show ?thesis
    by (auto simp: status_of_def update_if_def option.map_comp comp_def intro!: option.map_cong)
qed

lemma update_if_found:
  assumes "t_wf r_id (recs w)"
  shows "fst (update_if rid from f w) \<longleftrightarrow> (\<exists>s \<in> set from. status_of rid w = Some s)"
proof -
  have "fst (update_if rid from f w) \<longleftrightarrow> (\<exists>r \<in> set (t_rows (recs w)). r_id r = rid \<and> r_status r \<in> set from)"
    by (auto simp: update_if_def t_count_def t_select_def filter_empty_conv)
  also have "\<dots> \<longleftrightarrow> (\<exists>s \<in> set from. status_of rid w = Some s)"
  proof
    assume "\<exists>r \<in> set (t_rows (recs w)). r_id r = rid \<and> r_status r \<in> set from"
    then obtain r where r: "r \<in> set (t_rows (recs w))" "r_id r = rid" "r_status r \<in> set from" by blast
    have "t_get r_id rid (recs w) = Some r"
      using t_get_of_mem [OF assms r(1)] r(2) by simp
    with r show "\<exists>s \<in> set from. status_of rid w = Some s" by (auto simp: status_of_def)
  qed (auto simp: status_of_def dest: t_get_mem)
  finally show ?thesis .
qed

section \<open>Dry runs and manual review never write to AWS\<close>

definition boto3_write :: "string \<Rightarrow> string \<Rightarrow> string \<Rightarrow> aws_call" where
  "boto3_write ty i region =
     (if ty = ''stop_instance'' then StopInstances i region else TerminateInstances i region)"

text \<open>What one region does: nothing, an end without a write, or one write.\<close>

lemma boto3_step:
  obtains (skip) errs' where "boto3_regions app i ty (region # rs) errs w = boto3_regions app i ty rs errs' w"
  | (already) "boto3_regions app i ty (region # rs) errs w = (None, w)"
  | (written) "ty \<in> {''stop_instance'', ''terminate_instance''}"
      "boto3_regions app i ty (region # rs) errs w = (None, snd (aws_do (ap_env app) (boto3_write ty i region) w))"
  | (failed) errs' where "ty \<in> {''stop_instance'', ''terminate_instance''}"
      "boto3_regions app i ty (region # rs) errs w
       = boto3_regions app i ty rs errs' (snd (aws_do (ap_env app) (boto3_write ty i region) w))"
proof (cases "ty \<in> {''stop_instance'', ''terminate_instance''}")
  case False
  then show thesis by (intro skip [of errs]) simp
next
  case ty: True
  show thesis
  proof (cases "ap_states app w region i")
    case (Inl e)
    with ty show thesis by (intro skip [of "errs @ [(region, BotoAws e)]"]) simp
  next
    case (Inr res)
    consider "res = []" | "res \<noteq> []" "first_state res = None"
      | st where "res \<noteq> []" "first_state res = Some st" by (cases "first_state res") auto
    then show thesis
    proof cases
      case 1
      with ty Inr show thesis by (intro skip [of errs]) simp
    next
      case 2
      with ty Inr show thesis by (intro skip [of "errs @ [(region, BotoIndexError)]"]) simp
    next
      case (3 st)
      show thesis
      proof (cases "st \<in> {''terminated'', ''shutting-down''}")
        case True
        with ty Inr 3 show thesis by (intro already) simp
      next
        case False
        obtain e w1 where w1: "aws_do (ap_env app) (boto3_write ty i region) w = (e, w1)" by fastforce
        have "boto3_regions app i ty (region # rs) errs w =
          (case aws_do (ap_env app) (boto3_write ty i region) w of
             (None, w1) \<Rightarrow> (None, w1)
           | (Some e, w1) \<Rightarrow> boto3_regions app i ty rs (errs @ [(region, BotoAws e)]) w1)"
          using ty Inr 3 False unfolding boto3_write_def by simp
        then show thesis
          using w1 ty by (cases e) (auto intro: written failed)
      qed
    qed
  qed
qed

declare boto3_regions.simps(2) [simp del]

lemma boto3_regions_frame:
  "recs (snd (boto3_regions app i ty rs errs w)) = recs w
   \<and> alog (snd (boto3_regions app i ty rs errs w)) = alog w
   \<and> wastes (snd (boto3_regions app i ty rs errs w)) = wastes w"
proof (induction rs arbitrary: errs w)
  case (Cons region rs)
  show ?case
    by (cases rule: boto3_step [of app i ty region rs errs w]) (simp_all add: Cons.IH)
qed simp

lemma execute_ec2_boto3_frame [simp]:
  "recs (snd (execute_ec2_boto3 app i ty st w)) = recs w"
  "alog (snd (execute_ec2_boto3 app i ty st w)) = alog w"
  "wastes (snd (execute_ec2_boto3 app i ty st w)) = wastes w"
  using boto3_regions_frame by (simp_all add: execute_ec2_boto3_def Let_def)

text \<open>The writes of the direct path: at most one for each region, in their order.\<close>

lemma boto3_regions_calls:
  "\<exists>cs. aws_calls (snd (boto3_regions app i ty rs errs w)) = aws_calls w @ cs
     \<and> subseq cs (map (boto3_write ty i) rs)
     \<and> (ty \<notin> {''stop_instance'', ''terminate_instance''} \<longrightarrow> cs = [])"
proof (induction rs arbitrary: errs w)
  case (Cons region rs)
  show ?case
  proof (cases rule: boto3_step [of app i ty region rs errs w])
    case (skip errs')
    then show ?thesis using Cons.IH [of errs' w] by (auto intro: list_emb_Cons)
  next
    case already
    then show ?thesis by (intro exI [of _ "[]"]) simp
  next
    case written
    then show ?thesis by (intro exI [of _ "[boto3_write ty i region]"]) auto
  next
    case (failed errs')
    let ?w1 = "snd (aws_do (ap_env app) (boto3_write ty i region) w)"
    obtain cs where "aws_calls (snd (boto3_regions app i ty rs errs' ?w1)) = aws_calls ?w1 @ cs"
      "subseq cs (map (boto3_write ty i) rs)" using Cons.IH by blast
    with failed show ?thesis by (intro exI [of _ "boto3_write ty i region # cs"]) auto
  qed
qed simp

lemma proxy_dry:
  "aws_calls (snd (proxy_execute app cfg True rid stopped w)) = aws_calls w"
proof (cases "rec_join rid w")
  case (Some y)
  obtain r x where y: "y = (r, x)" by fastforce
  have disp: "aws_calls w1 = aws_calls w"
    if "remediate_by_recommendation aws ty dr c env True i rid region w = Some (res, w1)"
    for aws ty dr c env i region res w1
    using dispatch_dry [OF that] by simp
  have stop': "aws_calls (snd (stop_instance api c env True i rid stopped w)) = aws_calls w" for api c env i
    by (simp add: stop_instance_calls)
  show ?thesis
    unfolding proxy_execute_def Some y option.case prod.case Let_def case_prod_unfold
    by (simp add: stop' split: sum.split option.split) (auto dest: disp)
qed (simp add: proxy_execute_def)

lemma maybe_open_pr_calls [simp]: "aws_calls (snd (maybe_open_pr app cfg rid r x dry w)) = aws_calls w"
  by (auto simp: maybe_open_pr_def Let_def split: sum.splits pr_outcome.splits)

lemma approve_now_calls:
  "aws_calls (snd (approve_now app dry mode rid r x w)) =
     (if \<not> dry \<and> mode = Boto3
      then aws_calls (snd (execute_ec2_boto3 app (w_resource_id x) (r_type r) (stored_region x) w))
      else aws_calls w)"
  by (simp add: approve_now_def Let_def case_prod_unfold split: option.splits)

lemma schedule_execution_calls [simp]:
  "aws_calls (snd (schedule_execution app n rid r x w)) = aws_calls w"
  by (simp add: schedule_execution_def Let_def case_prod_unfold)

end
