(* ===== verification/ConfigManager.thy ===== *)
theory ConfigManager
  imports Actions
begin

text \<open>
  \<open>ui/utils/config_manager.py\<close>: the settings that the user changes, as transformations of the
  document of \<open>config/remediation.yaml\<close>, with the settings routes of \<open>ui/routes/settings.py\<close>
  that call them. Locking and the backup copy are I/O: a save either writes the new document or
  leaves the old one. Keys of mappings are strings.
\<close>

section \<open>Errors and values\<close>

datatype cfg_error = ConfigValidationError string

type_synonym 'a cfg = "cfg_error pyexc + 'a"

text \<open>\<open>d[k] = v\<close> on a value, and \<open>xs.append(v)\<close>.\<close>

fun json_set :: "string \<Rightarrow> json \<Rightarrow> json \<Rightarrow> 'e pyexc + json" where
  "json_set k v (JObj d) = Inr (JObj (AList.update k v d))"
| "json_set k v _ = Inl TypeError"

fun json_append :: "json \<Rightarrow> json \<Rightarrow> 'e pyexc + json" where
  "json_append v (JList xs) = Inr (JList (xs @ [v]))"
| "json_append v _ = Inl AttributeError"

text \<open>\<open>xs.remove(v)\<close>, for an element that is there.\<close>

fun json_remove :: "json \<Rightarrow> json \<Rightarrow> 'e pyexc + json" where
  "json_remove v (JList xs) = Inr (JList (remove1 v xs))"
| "json_remove v _ = Inl AttributeError"

text \<open>
  \<open>int(v)\<close>: truncation of floats; of the strings only an optional sign and decimal digits are
  read (no underscores), the others raise \<open>ValueError\<close>.
\<close>

definition parse_digits :: "string \<Rightarrow> int option" where
  "parse_digits s = (if s \<noteq> [] \<and> list_all is_digit s then Some (int (digits_val s)) else None)"

definition parse_int :: "string \<Rightarrow> int option" where
  "parse_int s =
     (case s of
        [] \<Rightarrow> None
      | c # cs \<Rightarrow> if c = CHR ''-'' then map_option uminus (parse_digits cs)
                 else if c = CHR ''+'' then parse_digits cs else parse_digits s)"

definition trunc :: "rat \<Rightarrow> int" where
  "trunc x = (if x \<ge> 0 then \<lfloor>x\<rfloor> else \<lceil>x\<rceil>)"

fun py_int :: "json \<Rightarrow> 'e pyexc + int" where
  "py_int (JInt n) = Inr n"
| "py_int (JFloat x) = Inr (trunc x)"
| "py_int (JBool b) = Inr (if b then 1 else 0)"
| "py_int (JStr s) = (case parse_int (strip s) of None \<Rightarrow> Inl ValueError | Some n \<Rightarrow> Inr n)"
| "py_int _ = Inl TypeError"

section \<open>Validation\<close>

datatype limit = IntLimit int int | FloatLimit rat rat

definition CONFIG_LIMITS :: "(string \<times> limit) list" where
  "CONFIG_LIMITS =
     [(''dry_run_days'', IntLimit 0 30), (''grace_period_days'', IntLimit 0 30),
      (''min_instance_age_days'', IntLimit 1 365), (''min_idle_days'', IntLimit 1 90),
      (''min_confidence_score'', FloatLimit 0 1), (''max_instances_per_run'', IntLimit 1 100)]"

text \<open>\<open>except (ValueError, TypeError)\<close>, the only exceptions of the conversions.\<close>

definition or_invalid :: "string \<Rightarrow> cfg_error pyexc + 'a \<Rightarrow> 'a cfg" where
  "or_invalid key r =
     (case r of Inl _ \<Rightarrow> Inl (Raised (ConfigValidationError (''Invalid type for '' @ key))) | Inr x \<Rightarrow> Inr x)"

definition validate_config_value :: "string \<Rightarrow> json \<Rightarrow> json cfg" where
  "validate_config_value key v =
     (case map_of CONFIG_LIMITS key of
        None \<Rightarrow> Inr v
      | Some (IntLimit lo hi) \<Rightarrow>
          py_bind (or_invalid key (py_int v)) (\<lambda>n.
          if n < lo \<or> n > hi then Inl (Raised (ConfigValidationError (''Value for '' @ key))) else Inr (JInt n))
      | Some (FloatLimit lo hi) \<Rightarrow>
          py_bind (or_invalid key (py_float v)) (\<lambda>x.
          if x < lo \<or> x > hi then Inl (Raised (ConfigValidationError (''Value for '' @ key))) else Inr (JFloat x)))"

definition is_hex :: "char \<Rightarrow> bool" where
  "is_hex c \<longleftrightarrow> c \<in> set ''0123456789abcdef''"

definition validate_instance_id :: "string \<Rightarrow> string cfg" where
  "validate_instance_id s =
     (if s = [] then Inl (Raised (ConfigValidationError ''Instance ID cannot be empty''))
      else
        let i = strip s; id_part = drop 2 i in
        if \<not> prefix ''i-'' i then Inl (Raised (ConfigValidationError ''must start with i-''))
        else if length id_part \<notin> {8, 17} then Inl (Raised (ConfigValidationError ''Invalid instance ID length''))
        else if \<not> list_all is_hex (lower id_part)
        then Inl (Raised (ConfigValidationError ''must be hexadecimal after i-''))
        else Inr i)"

section \<open>Loading and saving\<close>

text \<open>
  \<open>save_config\<close>: \<open>ok\<close> tells whether the write goes through; otherwise the old content stays (the
  backup is written back). A changing operation gives the new document, or \<open>None\<close> when it saves
  nothing; its result is the boolean returned and the document in the file.
\<close>

definition save_config :: "bool \<Rightarrow> json \<Rightarrow> json \<Rightarrow> bool \<times> json" where
  "save_config ok new old = (ok, if ok then new else old)"

definition config_op :: "bool \<Rightarrow> json option cfg \<Rightarrow> json \<Rightarrow> bool cfg \<times> json" where
  "config_op ok change doc =
     (case change of
        Inl e \<Rightarrow> (Inl e, doc)
      | Inr None \<Rightarrow> (Inr True, doc)
      | Inr (Some new) \<Rightarrow> (case save_config ok new doc of (b, doc') \<Rightarrow> (Inr b, doc')))"

text \<open>\<open>if s not in config: config[s] = v\<close>, and \<open>config[s][k] = v\<close>.\<close>

definition ensure_section :: "string \<Rightarrow> json \<Rightarrow> json \<Rightarrow> json cfg" where
  "ensure_section s v config =
     py_bind (json_in s config) (\<lambda>present. if present then Inr config else json_set s v config)"

definition set_in :: "string \<Rightarrow> string \<Rightarrow> json \<Rightarrow> json \<Rightarrow> json cfg" where
  "set_in s k v config =
     py_bind (json_index s config) (\<lambda>sect.
     py_bind (json_set k v sect) (\<lambda>sect'. json_set s sect' config))"

definition set_section_key :: "string \<Rightarrow> string \<Rightarrow> json \<Rightarrow> json \<Rightarrow> json option cfg" where
  "set_section_key s k v config =
     py_bind (ensure_section s (JObj []) config) (\<lambda>c1. py_bind (set_in s k v c1) (\<lambda>c2. Inr (Some c2)))"

section \<open>The switches and numbers\<close>

definition get_auto_remediation_enabled :: "json \<Rightarrow> json sg" where
  "get_auto_remediation_enabled cfg = config_get cfg ''auto_remediation'' ''enabled'' (JBool False)"

definition set_auto_remediation_enabled :: "json \<Rightarrow> json \<Rightarrow> json option cfg" where
  "set_auto_remediation_enabled v cfg = set_section_key ''auto_remediation'' ''enabled'' v cfg"

definition set_grace_period_days :: "json \<Rightarrow> json \<Rightarrow> json option cfg" where
  "set_grace_period_days days cfg =
     py_bind (validate_config_value ''grace_period_days'' days) (\<lambda>d.
     set_section_key ''approval'' ''grace_period_days'' d cfg)"

text \<open>\<open>isinstance(v, dict)\<close>.\<close>

fun json_is_dict :: "json \<Rightarrow> bool" where
  "json_is_dict (JObj _) = True"
| "json_is_dict _ = False"

definition set_action_enabled :: "string \<Rightarrow> bool \<Rightarrow> json \<Rightarrow> json option cfg" where
  "set_action_enabled action_type enabled cfg =
     py_bind (ensure_section ''auto_remediation'' (JObj []) cfg) (\<lambda>c1.
     py_bind (json_index ''auto_remediation'' c1) (\<lambda>sect.
     py_bind (json_get ''actions'' JNull sect) (\<lambda>acts.
     py_bind (json_set ''actions''
         (JObj []) sect) (\<lambda>fresh.
     let sect1 = (if json_is_dict acts then sect else fresh) in
     py_bind (json_index ''actions'' sect1) (\<lambda>acts1.
     py_bind (json_set action_type (JBool enabled) acts1) (\<lambda>acts2.
     py_bind (json_set ''actions'' acts2 sect1) (\<lambda>sect2.
     py_bind (json_set ''auto_remediation'' sect2 c1) (\<lambda>c2. Inr (Some c2)))))))))"

definition set_dry_run :: "json \<Rightarrow> json \<Rightarrow> json option cfg" where
  "set_dry_run enabled cfg =
     py_bind (json_set ''dry_run'' (JBool (json_truthy enabled)) cfg) (\<lambda>c. Inr (Some c))"

definition get_dry_run_days :: "json \<Rightarrow> json sg" where
  "get_dry_run_days cfg = config_get cfg ''auto_remediation'' ''dry_run_days'' (JInt 7)"

definition set_dry_run_days :: "json \<Rightarrow> json \<Rightarrow> json option cfg" where
  "set_dry_run_days days cfg =
     py_bind (validate_config_value ''dry_run_days'' days) (\<lambda>d.
     set_section_key ''auto_remediation'' ''dry_run_days'' d cfg)"

definition get_protection_rules :: "json \<Rightarrow> json sg" where
  "get_protection_rules cfg = json_get ''protection'' (JObj []) cfg"

definition update_protection_rule :: "string \<Rightarrow> json \<Rightarrow> json \<Rightarrow> json option cfg" where
  "update_protection_rule key v cfg =
     py_bind (validate_config_value key v) (\<lambda>x. set_section_key ''protection'' key x cfg)"

section \<open>The Terraform section\<close>

text \<open>
  \<open>str(v)\<close>, given what \<open>str\<close> makes of a float. Of a list or a mapping only the first character
  is kept: what reads it looks for a day of the week.
\<close>

fun py_str :: "(rat \<Rightarrow> string) \<Rightarrow> json \<Rightarrow> string" where
  "py_str fl JNull = ''None''"
| "py_str fl (JBool b) = (if b then ''True'' else ''False'')"
| "py_str fl (JInt n) = show_int n"
| "py_str fl (JFloat x) = fl x"
| "py_str fl (JStr s) = s"
| "py_str fl (JList _) = ''[''"
| "py_str fl (JObj _) = ''{''"

definition get_terraform_pr :: "json \<Rightarrow> json sg" where
  "get_terraform_pr cfg = py_bind (json_get ''terraform_pr'' (JObj []) cfg) (\<lambda>v. Inr (json_or_empty v))"

definition terraform_value :: "(rat \<Rightarrow> string) \<Rightarrow> string \<Rightarrow> json \<Rightarrow> json cfg" where
  "terraform_value fl key v =
     (let s = strip (py_str fl v) in
      if key = ''enabled'' then Inr (JBool (json_truthy v))
      else if key = ''repo'' then
        (if s \<noteq> [] \<and> CHR ''/'' \<notin> set s
         then Inl (Raised (ConfigValidationError ''repo must be owner/name'')) else Inr (JStr s))
      else if key = ''base_branch'' then Inr (JStr (if s = [] then ''main'' else s))
      else if key = ''terraform_dir'' then Inr (JStr (if s = [] then ''.'' else s))
      else if key = ''pr_threshold_eur'' then
        py_bind (py_float v) (\<lambda>x.
        if x < 0 then Inl (Raised (ConfigValidationError ''pr_threshold_eur must be >= 0''))
        else Inr (JFloat x))
      else Inl (Raised (ConfigValidationError (''Unknown terraform_pr field: '' @ key))))"

definition set_terraform_pr_field ::
    "(rat \<Rightarrow> string) \<Rightarrow> string \<Rightarrow> json \<Rightarrow> json \<Rightarrow> json option cfg" where
  "set_terraform_pr_field fl key v cfg =
     py_bind (terraform_value fl key v) (\<lambda>x.
     py_bind (json_in ''terraform_pr'' cfg) (\<lambda>present.
     py_bind (if present then json_index ''terraform_pr'' cfg else Inr JNull) (\<lambda>sect.
     py_bind (if json_truthy sect then Inr cfg else json_set ''terraform_pr'' (JObj []) cfg) (\<lambda>c1.
     py_bind (set_in ''terraform_pr'' key x c1) (\<lambda>c2. Inr (Some c2))))))"

section \<open>The whitelist\<close>

definition get_whitelist :: "json \<Rightarrow> json sg" where
  "get_whitelist cfg = json_get ''whitelist'' (JObj []) cfg"

definition add_instance_to_whitelist :: "string \<Rightarrow> json \<Rightarrow> json option cfg" where
  "add_instance_to_whitelist instance_id cfg =
     py_bind (validate_instance_id instance_id) (\<lambda>i.
     py_bind (ensure_section ''whitelist'' (JObj [(''instance_ids'', JList [])]) cfg) (\<lambda>c1.
     py_bind (json_index ''whitelist'' c1) (\<lambda>wl.
     py_bind (json_in ''instance_ids'' wl) (\<lambda>has.
     py_bind (if has then Inr wl else json_set ''instance_ids'' (JList []) wl) (\<lambda>wl1.
     py_bind (json_index ''instance_ids'' wl1) (\<lambda>ids.
     py_bind (json_in i ids) (\<lambda>listed.
     if listed then Inr None
     else
       py_bind (json_append (JStr i) ids) (\<lambda>ids1.
       py_bind (json_set ''instance_ids'' ids1 wl1) (\<lambda>wl2.
       py_bind (json_set ''whitelist'' wl2 c1) (\<lambda>c2. Inr (Some c2)))))))))))"

definition remove_instance_from_whitelist :: "string \<Rightarrow> json \<Rightarrow> json option cfg" where
  "remove_instance_from_whitelist instance_id cfg =
     py_bind (json_in ''whitelist'' cfg) (\<lambda>has_wl.
     if \<not> has_wl then Inr None
     else
       py_bind (json_index ''whitelist'' cfg) (\<lambda>wl.
       py_bind (json_in ''instance_ids'' wl) (\<lambda>has.
       if \<not> has then Inr None
       else
         py_bind (json_index ''instance_ids'' wl) (\<lambda>ids.
         py_bind (json_in instance_id ids) (\<lambda>listed.
         if \<not> listed then Inr None
         else
           py_bind (json_remove (JStr instance_id) ids) (\<lambda>ids1.
           py_bind (json_set ''instance_ids'' ids1 wl) (\<lambda>wl1.
           py_bind (json_set ''whitelist'' wl1 cfg) (\<lambda>c. Inr (Some c)))))))))"

section \<open>The remediation schedule\<close>

definition get_schedule :: "json \<Rightarrow> json sg" where
  "get_schedule cfg = json_get ''schedule'' (JObj []) cfg"

definition is_schedule_enabled :: "json \<Rightarrow> bool sg" where
  "is_schedule_enabled cfg =
     py_bind (get_schedule cfg) (\<lambda>s.
     py_bind (json_get ''allowed_days'' (JList []) s) (\<lambda>days.
     py_bind (json_get ''allowed_hours'' (JList []) s) (\<lambda>hours.
     Inr (json_truthy days \<and> json_truthy hours))))"

definition disable_schedule_restrictions :: "json \<Rightarrow> json option cfg" where
  "disable_schedule_restrictions cfg =
     py_bind (ensure_section ''schedule'' (JObj []) cfg) (\<lambda>c1.
     py_bind (set_in ''schedule'' ''allowed_days'' (JList []) c1) (\<lambda>c2.
     py_bind (set_in ''schedule'' ''allowed_hours'' (JList []) c2) (\<lambda>c3. Inr (Some c3))))"

definition enable_schedule_restrictions :: "json option \<Rightarrow> json option \<Rightarrow> json \<Rightarrow> json option cfg" where
  "enable_schedule_restrictions days hours cfg =
     py_bind (ensure_section ''schedule'' (JObj []) cfg) (\<lambda>c1.
     py_bind (case days of None \<Rightarrow> Inr c1 | Some d \<Rightarrow> set_in ''schedule'' ''allowed_days'' d c1) (\<lambda>c2.
     py_bind (case hours of None \<Rightarrow> Inr c2 | Some h \<Rightarrow> set_in ''schedule'' ''allowed_hours'' h c2) (\<lambda>c3.
     Inr (Some c3))))"

definition get_notifications :: "json \<Rightarrow> json sg" where
  "get_notifications cfg = json_get ''notifications'' (JObj []) cfg"

section \<open>The schedule of instances\<close>

text \<open>\<open>get_instance_schedule\<close> with all its fields, in the order of the code.\<close>

definition instance_schedule :: "json \<Rightarrow> 'e pyexc + (string, json) dict" where
  "instance_schedule cfg =
     py_bind (json_get ''instance_schedule'' (JObj []) cfg) (\<lambda>v.
     let s = json_or_empty v in
     py_bind (json_get ''enabled'' (JBool False) s) (\<lambda>en.
     py_bind (json_get ''stop_time'' (JStr ''19:00'') s) (\<lambda>stop.
     py_bind (json_get ''start_time'' (JStr ''08:00'') s) (\<lambda>start.
     py_bind (json_get ''days'' JNull s) (\<lambda>days.
     py_bind (json_get ''timezone'' (JStr ''Europe/Paris'') s) (\<lambda>tz.
     py_bind (json_get ''tag_key'' (JStr ''wasteless:schedule'') s) (\<lambda>k.
     py_bind (json_get ''tag_value'' (JStr ''office-hours'') s) (\<lambda>tv.
     py_bind (json_get ''dry_run'' (JBool True) s) (\<lambda>dry.
     Inr [(''enabled'', JBool (json_truthy en)), (''stop_time'', stop), (''start_time'', start),
          (''days'', if json_truthy days then days
             else JList (map JStr [''mon'', ''tue'', ''wed'', ''thu'', ''fri''])),
          (''timezone'', tz), (''tag_key'', k), (''tag_value'', tv),
          (''dry_run'', JBool (json_truthy dry))])))))))))"

text \<open>
  \<open>^([01]?\d|2[0-3]):[0-5]\d$\<close> on a stripped string: the hour part and the minutes.
\<close>

definition hour_ok :: "string \<Rightarrow> bool" where
  "hour_ok h =
     (case h of
        [a] \<Rightarrow> is_digit a
      | [a, b] \<Rightarrow> (a \<in> set ''01'' \<and> is_digit b) \<or> (a = CHR ''2'' \<and> b \<in> set ''0123'')
      | _ \<Rightarrow> False)"

definition minute_ok :: "string \<Rightarrow> bool" where
  "minute_ok m = (case m of [a, b] \<Rightarrow> a \<in> set ''012345'' \<and> is_digit b | _ \<Rightarrow> False)"

text \<open>\<open>f"{int(h):02d}"\<close>.\<close>

definition two_digits :: "nat \<Rightarrow> string" where
  "two_digits n = (if n < 10 then ''0'' @ show_nat n else show_nat n)"

text \<open>\<open>v.split(":")\<close> of a string with one colon.\<close>

definition split_colon :: "string \<Rightarrow> string \<times> string" where
  "split_colon v = (takeWhile (\<lambda>c. c \<noteq> CHR '':'') v, tl (dropWhile (\<lambda>c. c \<noteq> CHR '':'') v))"

definition time_value :: "string \<Rightarrow> string cfg" where
  "time_value s =
     (let v = strip s; (h, m) = split_colon v
      in if \<not> (CHR '':'' \<in> set v \<and> hour_ok h \<and> minute_ok m)
         then Inl (Raised (ConfigValidationError (''invalid time '' @ v)))
         else Inr (two_digits (digits_val h) @ '':'' @ m))"

definition canon_days :: "string list" where
  "canon_days = [''mon'', ''tue'', ''wed'', ''thu'', ''fri'', ''sat'', ''sun'']"

text \<open>The payload: the fields that are present, with the types of \<open>InstanceScheduleRequest\<close>.\<close>

record schedule_values =
  sv_enabled :: "bool option"
  sv_stop :: "string option"
  sv_start :: "string option"
  sv_days_of :: "json list option"
  sv_tz :: "string option"
  sv_key :: "string option"
  sv_value :: "string option"
  sv_dry :: "bool option"

definition put_opt :: "string \<Rightarrow> ('a \<Rightarrow> json) \<Rightarrow> 'a option \<Rightarrow> (string, json) dict \<Rightarrow> (string, json) dict" where
  "put_opt k f v d = (case v of None \<Rightarrow> d | Some x \<Rightarrow> AList.update k (f x) d)"

definition map_cfg :: "('a \<Rightarrow> 'b cfg) \<Rightarrow> 'a option \<Rightarrow> 'b option cfg" where
  "map_cfg f v = (case v of None \<Rightarrow> Inr None | Some x \<Rightarrow> py_bind (f x) (\<lambda>y. Inr (Some y)))"

definition days_value :: "(rat \<Rightarrow> string) \<Rightarrow> json list \<Rightarrow> json cfg" where
  "days_value fl ds =
     (let given = map (\<lambda>d. take 3 (lower (py_str fl d))) ds;
          days = filter (\<lambda>d. d \<in> set given) canon_days
      in if days = [] then Inl (Raised (ConfigValidationError ''select at least one day''))
         else Inr (JList (map JStr days)))"

definition tz_value :: "(string \<Rightarrow> bool) \<Rightarrow> string \<Rightarrow> string cfg" where
  "tz_value zone s =
     (if zone (strip s) then Inr (strip s)
      else Inl (Raised (ConfigValidationError (''invalid timezone '' @ strip s))))"

text \<open>The fields of the payload over those that are stored.\<close>

definition schedule_fields ::
    "schedule_values \<Rightarrow> string option \<Rightarrow> string option \<Rightarrow> string option \<Rightarrow> json option
     \<Rightarrow> (string, json) dict \<Rightarrow> (string, json) dict" where
  "schedule_fields v stop start tz days out =
     (let nonempty = (\<lambda>d s. JStr (if strip s = [] then d else strip s))
      in put_opt ''tag_value'' (nonempty ''office-hours'') (sv_value v)
        (put_opt ''tag_key'' (nonempty ''wasteless:schedule'') (sv_key v)
        (put_opt ''days'' id days
        (put_opt ''timezone'' JStr tz
        (put_opt ''start_time'' JStr start
        (put_opt ''stop_time'' JStr stop
        (put_opt ''dry_run'' JBool (sv_dry v)
        (put_opt ''enabled'' JBool (sv_enabled v) out))))))))"

text \<open>\<open>zone\<close>: the names that the time zone database of the host knows (\<open>ZoneInfo\<close>).\<close>

definition set_instance_schedule ::
    "(string \<Rightarrow> bool) \<Rightarrow> (rat \<Rightarrow> string) \<Rightarrow> schedule_values \<Rightarrow> json \<Rightarrow> json option cfg" where
  "set_instance_schedule zone fl v cfg =
     py_bind (instance_schedule cfg) (\<lambda>out.
     py_bind (map_cfg time_value (sv_stop v)) (\<lambda>stop.
     py_bind (map_cfg time_value (sv_start v)) (\<lambda>start.
     py_bind (map_cfg (tz_value zone) (sv_tz v)) (\<lambda>tz.
     py_bind (map_cfg (days_value fl) (sv_days_of v)) (\<lambda>days.
     py_bind (json_set ''instance_schedule'' (JObj (schedule_fields v stop start tz days out)) cfg)
       (\<lambda>c. Inr (Some c)))))))"

section \<open>The settings routes\<close>

definition starts_with :: "string \<Rightarrow> string \<Rightarrow> bool" where
  "starts_with p s = prefix p s"

text \<open>
  \<open>POST /api/config\<close>: \<open>None\<close> when the request is refused with status 400, otherwise the boolean
  in the answer.
\<close>

definition http :: "bool cfg \<times> json \<Rightarrow> bool option \<times> json" where
  "http r = (case r of (Inl _, d) \<Rightarrow> (None, d) | (Inr b, d) \<Rightarrow> (Some b, d))"

definition api_update_config ::
    "(rat \<Rightarrow> string) \<Rightarrow> bool \<Rightarrow> string \<Rightarrow> json \<Rightarrow> json \<Rightarrow> bool option \<times> json" where
  "api_update_config fl ok key v doc =
     http (
       if key = ''auto_remediation_enabled'' then config_op ok (set_auto_remediation_enabled v doc) doc
       else if key = ''dry_run_days'' then config_op ok (set_dry_run_days v doc) doc
       else if key = ''grace_period_days'' then config_op ok (set_grace_period_days v doc) doc
       else if key = ''dry_run'' then config_op ok (set_dry_run v doc) doc
       else if starts_with ''terraform_pr:'' key
       then config_op ok (set_terraform_pr_field fl (drop (length ''terraform_pr:'') key) v doc) doc
       else if starts_with ''action:'' key then
         (let action_type = drop (length ''action:'') key
          in if map_of EXECUTION_MODES action_type \<notin> {Some Boto3, Some Remediator}
             then (Inl (Raised (ConfigValidationError (action_type @ '' is not an automatable action type''))), doc)
             else config_op ok (set_action_enabled action_type (json_truthy v) doc) doc)
       else config_op ok (update_protection_rule key v doc) doc)"

definition api_whitelist :: "bool \<Rightarrow> string \<Rightarrow> bool \<Rightarrow> json \<Rightarrow> bool option \<times> json" where
  "api_whitelist ok instance_id add doc =
     http (config_op ok (if add then add_instance_to_whitelist instance_id doc
                         else remove_instance_from_whitelist instance_id doc) doc)"

text \<open>
  \<open>reschedule_instance_jobs\<close>: the fields of the two cron jobs (stop, then start), none when the
  schedule is off. \<open>int(s)\<close> of a part that is not a number raises, and so does a value that is no
  string with one colon.
\<close>

fun intercalate :: "string \<Rightarrow> string list \<Rightarrow> string" where
  "intercalate sep [] = []"
| "intercalate sep [x] = x"
| "intercalate sep (x # xs) = x @ sep @ intercalate sep xs"

fun str_of :: "json \<Rightarrow> string cfg" where
  "str_of (JStr s) = Inr s"
| "str_of _ = Inl TypeError"

text \<open>\<open>",".join(v)\<close>.\<close>

fun join_days :: "json \<Rightarrow> string cfg" where
  "join_days (JList xs) = py_bind (py_map str_of xs) (\<lambda>ss. Inr (intercalate '','' ss))"
| "join_days (JObj d) = Inr (intercalate '','' (map fst d))"
| "join_days (JStr s) = Inr (intercalate '','' (map (\<lambda>c. [c]) s))"
| "join_days _ = Inl TypeError"

record cron =
  cr_days :: string
  cr_hour :: int
  cr_minute :: int
  cr_tz :: json

fun cron_time :: "json \<Rightarrow> (int \<times> int) cfg" where
  "cron_time (JStr s) =
     (let (h, m) = split_colon s
      in if count_list s (CHR '':'') \<noteq> 1 then Inl ValueError
         else py_bind (py_int (JStr h)) (\<lambda>hh. py_bind (py_int (JStr m)) (\<lambda>mm. Inr (hh, mm))))"
| "cron_time _ = Inl AttributeError"

definition reschedule_instance_jobs :: "json \<Rightarrow> (cron \<times> cron) option cfg" where
  "reschedule_instance_jobs cfg =
     py_bind (instance_schedule cfg) (\<lambda>s.
     if \<not> json_truthy (dict_get s ''enabled'' JNull) then Inr None
     else
       py_bind (join_days (dict_get s ''days'' JNull)) (\<lambda>dow.
       py_bind (cron_time (dict_get s ''stop_time'' JNull)) (\<lambda>(sh, sm).
       py_bind (cron_time (dict_get s ''start_time'' JNull)) (\<lambda>(bh, bm).
       Inr (Some (\<lparr>cr_days = dow, cr_hour = sh, cr_minute = sm, cr_tz = dict_get s ''timezone'' JNull\<rparr>,
                  \<lparr>cr_days = dow, cr_hour = bh, cr_minute = bm, cr_tz = dict_get s ''timezone'' JNull\<rparr>))))))"

section \<open>What a setter writes\<close>

definition top_map :: "json \<Rightarrow> string \<Rightarrow> json option" where
  "top_map doc = (case doc of JObj d \<Rightarrow> map_of d | _ \<Rightarrow> Map.empty)"

definition sect_map :: "json \<Rightarrow> string \<Rightarrow> string \<Rightarrow> json option" where
  "sect_map doc s = (case top_map doc s of Some v \<Rightarrow> top_map v | None \<Rightarrow> Map.empty)"

text \<open>One key of one section changes, the rest of the document stays.\<close>

definition written :: "string \<Rightarrow> string \<Rightarrow> json \<Rightarrow> json \<Rightarrow> json \<Rightarrow> bool" where
  "written s k v doc doc' \<longleftrightarrow>
     (\<exists>d d' x. doc = JObj d \<and> doc' = JObj d' \<and> map_of d' s = Some (JObj x)
        \<and> (map_of d s = None \<or> (\<exists>y. map_of d s = Some (JObj y)))
        \<and> map_of x = (sect_map doc s)(k \<mapsto> v) \<and> (\<forall>t. t \<noteq> s \<longrightarrow> map_of d' t = map_of d t))"

lemma json_set_eq: "json_set k v j = Inr r \<longleftrightarrow> (\<exists>d. j = JObj d \<and> r = JObj (AList.update k v d))"
  by (cases j) auto

lemma json_index_eq: "json_index k j = Inr r \<longleftrightarrow> (\<exists>d. j = JObj d \<and> map_of d k = Some r)"
  by (cases j) (auto split: option.splits)

lemma map_of_dom: "k \<in> fst ` set d \<longleftrightarrow> map_of d k \<noteq> None"
  by (simp add: map_of_eq_None_iff)

lemma set_in_eq:
  "set_in s k v doc = Inr r \<longleftrightarrow>
     (\<exists>d x. doc = JObj d \<and> map_of d s = Some (JObj x)
        \<and> r = JObj (AList.update s (JObj (AList.update k v x)) d))"
  by (auto simp: set_in_def py_simps json_set_eq json_index_eq)

lemma ensure_section_obj:
  "ensure_section s v (JObj d) = Inr (JObj (if map_of d s = None then AList.update s v d else d))"
  by (auto simp: ensure_section_def map_of_dom)

lemma ensure_then_index:
  assumes "ensure_section s v doc = Inr c" "json_index s c = Inr sect"
  obtains d where "doc = JObj d"
    "c = JObj (if map_of d s = None then AList.update s v d else d)"
    "sect = (case map_of d s of None \<Rightarrow> v | Some y \<Rightarrow> y)"
proof -
  obtain dc where dc: "c = JObj dc" "map_of dc s = Some sect"
    using assms(2) by (auto simp: json_index_eq)
  show thesis
  proof (cases doc)
    case (JObj d)
    have "c = JObj (if map_of d s = None then AList.update s v d else d)"
      using assms(1) JObj by (simp add: ensure_section_obj)
    with dc JObj show thesis
      by (intro that [of d]) (auto simp: update_conv' split: if_splits option.splits)
  qed (use assms(1) dc in \<open>auto simp: ensure_section_def split: if_splits\<close>)
qed

lemma set_section_key_written:
  assumes "set_section_key s k v doc = Inr (Some doc')"
  shows "written s k v doc doc'"
proof -
  obtain c where c: "ensure_section s (JObj []) doc = Inr c" "set_in s k v c = Inr doc'"
    using assms by (auto simp: set_section_key_def py_simps)
  obtain dc x where dc: "c = JObj dc" "map_of dc s = Some (JObj x)"
      "doc' = JObj (AList.update s (JObj (AList.update k v x)) dc)"
    using c(2) by (auto simp: set_in_eq)
  have "json_index s c = Inr (JObj x)" using dc by simp
  from ensure_then_index [OF c(1) this] obtain d where d: "doc = JObj d"
    "c = JObj (if map_of d s = None then AList.update s (JObj []) d else d)"
    "JObj x = (case map_of d s of None \<Rightarrow> JObj [] | Some y \<Rightarrow> y)" by blast
  have "map_of x = sect_map doc s"
    using d(3) by (auto simp: d(1) sect_map_def top_map_def split: option.splits)
  moreover have "map_of dc t = map_of d t" if "t \<noteq> s" for t
    using that d(2) dc(1) by (auto simp: update_conv' split: if_splits)
  moreover have "map_of d s = None \<or> (\<exists>y. map_of d s = Some (JObj y))"
    using d(3) by (auto split: option.splits)
  ultimately show ?thesis
    unfolding written_def
    by (intro exI [of _ d] exI [of _ "AList.update s (JObj (AList.update k v x)) dc"] exI [of _ "AList.update k v x"])
      (auto simp: d(1) dc(3) update_conv')
qed

lemma set_section_key_some: "set_section_key s k v doc = Inr r \<Longrightarrow> r \<noteq> None"
  by (auto simp: set_section_key_def py_simps)

section \<open>The contract of a setting\<close>

locale setting =
  fixes change :: "'a \<Rightarrow> json \<Rightarrow> json option cfg"
    and sect :: string
    and key :: string
    and stored :: "'a \<Rightarrow> json"
  assumes change_written: "change v doc = Inr (Some doc') \<Longrightarrow> written sect key (stored v) doc doc'"
    and change_saves: "change v doc = Inr r \<Longrightarrow> r \<noteq> None"
begin

lemma get_after:
  assumes "change v doc = Inr (Some doc')"
  shows "config_get doc' sect key dflt = Inr (stored v)"
  using change_written [OF assms] by (auto simp: written_def config_get_def dict_get_def)

lemma get_other:
  assumes "change v doc = Inr (Some doc')" "s \<noteq> sect \<or> k \<noteq> key"
  shows "config_get doc' s k dflt = config_get doc s k dflt"
  using change_written [OF assms(1)] assms(2)
  by (cases "s = sect") (auto simp: written_def config_get_def dict_get_def sect_map_def top_map_def)

lemma other_section:
  assumes "change v doc = Inr (Some doc')" "s \<noteq> sect"
  shows "json_get s dflt doc' = json_get s dflt doc"
  using change_written [OF assms(1)] assms(2) by (auto simp: written_def dict_get_def)

text \<open>A save that goes through is read back; one that does not leaves the file.\<close>

lemma saved:
  assumes "config_op ok (change v doc) doc = (Inr True, doc')"
  shows "ok \<and> change v doc = Inr (Some doc')"
  using assms change_saves
  by (auto simp: config_op_def save_config_def split: sum.splits option.splits if_splits)

lemma not_saved:
  assumes "config_op ok (change v doc) doc = (r, doc')" "r \<noteq> Inr True"
  shows "doc' = doc"
  using assms by (auto simp: config_op_def save_config_def split: sum.splits option.splits if_splits)

end

definition validated :: "string \<Rightarrow> json \<Rightarrow> json" where
  "validated key v = (case validate_config_value key v of Inr x \<Rightarrow> x | Inl _ \<Rightarrow> v)"

lemma validated_eq: "validate_config_value key v = Inr x \<Longrightarrow> validated key v = x"
  by (simp add: validated_def)

interpretation auto_remediation: setting set_auto_remediation_enabled "''auto_remediation''" "''enabled''" "\<lambda>v. v"
  by unfold_locales (auto simp: set_auto_remediation_enabled_def dest: set_section_key_written set_section_key_some)

interpretation grace_period: setting set_grace_period_days "''approval''" "''grace_period_days''"
    "validated ''grace_period_days''"
  by unfold_locales (auto simp: set_grace_period_days_def py_simps validated_eq
      dest: set_section_key_written set_section_key_some)

interpretation dry_run_days: setting set_dry_run_days "''auto_remediation''" "''dry_run_days''"
    "validated ''dry_run_days''"
  by unfold_locales (auto simp: set_dry_run_days_def py_simps validated_eq
      dest: set_section_key_written set_section_key_some)

interpretation protection: setting "update_protection_rule key" "''protection''" key "validated key" for key
  by unfold_locales (auto simp: update_protection_rule_def py_simps validated_eq
      dest: set_section_key_written set_section_key_some)

end
