(* ===== verification/Jobs.thy ===== *)
theory Jobs
  imports Actions
begin

text \<open>
  The background jobs of \<open>ui/jobs.py\<close> that change recommendations or write to AWS, with
  \<open>ui/utils/aws_sync.py\<close>, \<open>sync_open_prs\<close> of \<open>ui/utils/terraform_pr.py\<close> and the manual
  synchronisation of \<open>ui/routes/sync.py\<close>: reconciliation with AWS, with GitHub, the executor of
  approvals whose grace period is over, and the stop/start schedule of instances. The record
  \<open>sync_api\<close> is what the describe calls answer, response by response.
\<close>

section \<open>What still exists in AWS\<close>

record sync_api =
  sy_instances :: "string \<Rightarrow> string list \<Rightarrow> aws_exc + (string \<times> string) list list"
  sy_volumes :: "string \<Rightarrow> string list \<Rightarrow> aws_exc + string list"
  sy_addresses :: "string \<Rightarrow> string list \<Rightarrow> aws_exc + string option list"
  sy_snapshots :: "string \<Rightarrow> string list \<Rightarrow> aws_exc + string list"
  sy_vpcs :: "string \<Rightarrow> string list \<Rightarrow> aws_exc + string list"
  sy_nats :: "string \<Rightarrow> string list \<Rightarrow> aws_exc + (string \<times> string option) list"
  sy_elbv2 :: "string \<Rightarrow> aws_exc + string list list"
  sy_elb :: "string \<Rightarrow> aws_exc + string list list"

definition existing_instances :: "sync_api \<Rightarrow> string \<Rightarrow> string list \<Rightarrow> aws_exc + string list" where
  "existing_instances sy region ids =
     py_bind (sy_instances sy region ids) (\<lambda>reservations.
     Inr (map fst (filter (\<lambda>(i, st). st \<noteq> ''terminated'') (concat reservations))))"

definition existing_eips :: "sync_api \<Rightarrow> string \<Rightarrow> string list \<Rightarrow> aws_exc + string list" where
  "existing_eips sy region ids =
     py_bind (sy_addresses sy region ids) (\<lambda>as.
     Inr (List.map_filter (\<lambda>a. if truthy a then a else None) as))"

definition existing_nat_gateways :: "sync_api \<Rightarrow> string \<Rightarrow> string list \<Rightarrow> aws_exc + string list" where
  "existing_nat_gateways sy region ids =
     py_bind (sy_nats sy region ids) (\<lambda>ns.
     Inr (map fst (filter (\<lambda>(i, st). st \<notin> {Some ''deleted'', Some ''deleting''}) ns)))"

definition existing_load_balancers :: "sync_api \<Rightarrow> string \<Rightarrow> aws_exc + string list" where
  "existing_load_balancers sy region =
     py_bind (sy_elbv2 sy region) (\<lambda>arns.
     py_bind (sy_elb sy region) (\<lambda>names. Inr (concat arns @ concat names)))"

definition SYNCABLE_RESOURCE_TYPES :: "string list" where
  "SYNCABLE_RESOURCE_TYPES =
     [''ec2_instance'', ''ebs_volume'', ''elastic_ip'', ''ebs_snapshot'', ''nat_gateway'', ''vpc'',
      ''load_balancer'']"

text \<open>The dispatch on the resource type; called on syncable types only.\<close>

definition existing_in_region ::
    "sync_api \<Rightarrow> string \<Rightarrow> string list \<Rightarrow> string \<Rightarrow> aws_exc + string list" where
  "existing_in_region sy rtype ids region =
     (if rtype = ''load_balancer'' then existing_load_balancers sy region
      else if rtype = ''ec2_instance'' then existing_instances sy region ids
      else if rtype = ''ebs_volume'' then sy_volumes sy region ids
      else if rtype = ''elastic_ip'' then existing_eips sy region ids
      else if rtype = ''ebs_snapshot'' then sy_snapshots sy region ids
      else if rtype = ''nat_gateway'' then existing_nat_gateways sy region ids
      else sy_vpcs sy region ids)"

text \<open>The loop over the regions: what was found, and how many regions answered.\<close>

fun check_regions :: "(string \<Rightarrow> aws_exc + string list) \<Rightarrow> string list \<Rightarrow> string list \<times> nat" where
  "check_regions f [] = ([], 0)"
| "check_regions f (region # rs) =
     (let (found, n) = check_regions f rs
      in case f region of Inl _ \<Rightarrow> (found, n) | Inr ids \<Rightarrow> (ids @ found, n + 1))"

fun find_vanished_resources ::
    "sync_api \<Rightarrow> string list \<Rightarrow> (string \<times> string list) list \<Rightarrow> (string \<times> string list) list" where
  "find_vanished_resources sy regions [] = []"
| "find_vanished_resources sy regions ((rtype, ids) # pending) =
     (if ids = [] \<or> rtype \<notin> set SYNCABLE_RESOURCE_TYPES then find_vanished_resources sy regions pending
      else
        let (existing, checked) = check_regions (existing_in_region sy rtype ids) regions;
            gone = filter (\<lambda>i. i \<notin> set existing) ids
        in if checked < length regions \<or> gone = [] then find_vanished_resources sy regions pending
           else (rtype, gone) # find_vanished_resources sy regions pending)"

section \<open>Resolving recommendations\<close>

definition SYNCABLE_STATUSES :: "rec_status list" where
  "SYNCABLE_STATUSES = [Pending, Rejected, Scheduled, PrOpen, ApprovedManual]"

definition resolve :: "env \<Rightarrow> rec_row \<Rightarrow> rec_row" where
  "resolve env r =
     r\<lparr>r_status := (if r_status r = ApprovedManual then Applied else Obsolete),
       r_applied_at := Some (e_now env)\<rparr>"

text \<open>\<open>UPDATE recommendations r ... FROM waste_detected w WHERE r.waste_id = w.id AND ...\<close>.\<close>

definition waste_matches :: "(waste_row \<Rightarrow> bool) \<Rightarrow> world \<Rightarrow> rec_row \<Rightarrow> bool" where
  "waste_matches p w r =
     (case t_get w_id (r_waste r) (wastes w) of None \<Rightarrow> False | Some x \<Rightarrow> p x)"

definition resolve_where :: "env \<Rightarrow> (waste_row \<Rightarrow> bool) \<Rightarrow> world \<Rightarrow> nat \<times> world" where
  "resolve_where env p w =
     (let q = (\<lambda>r. waste_matches p w r \<and> r_status r \<in> set SYNCABLE_STATUSES)
      in (t_count q (recs w), w\<lparr>recs := t_update q (resolve env) (recs w)\<rparr>))"

definition resolve_vanished :: "env \<Rightarrow> string \<Rightarrow> string list \<Rightarrow> world \<Rightarrow> nat \<times> world" where
  "resolve_vanished env rtype ids w =
     resolve_where env (\<lambda>x. w_resource_type x = rtype \<and> w_resource_id x \<in> set ids) w"

fun resolve_all :: "env \<Rightarrow> (string \<times> string list) list \<Rightarrow> world \<Rightarrow> nat \<times> world" where
  "resolve_all env [] w = (0, w)"
| "resolve_all env ((rtype, ids) # vs) w =
     (let (n, w1) = resolve_vanished env rtype ids w; (m, w2) = resolve_all env vs w1 in (n + m, w2))"

section \<open>Reconciling instance states\<close>

text \<open>The state of each instance over all regions, and whether a region failed.\<close>

fun sweep_instances ::
    "sync_api \<Rightarrow> string list \<Rightarrow> string list \<Rightarrow> (string, string) dict \<Rightarrow> bool \<Rightarrow> (string, string) dict \<times> bool" where
  "sweep_instances sy ids [] states failed = (states, failed)"
| "sweep_instances sy ids (region # rs) states failed =
     (case sy_instances sy region ids of
        Inl _ \<Rightarrow> sweep_instances sy ids rs states True
      | Inr reservations \<Rightarrow>
          sweep_instances sy ids rs (fold (\<lambda>(i, st). AList.update i st) (concat reservations) states)
            failed)"

definition stopped_outside :: "string \<Rightarrow> string \<Rightarrow> bool" where
  "stopped_outside rec_type aws_state \<longleftrightarrow>
     (rec_type = ''stop_instance'' \<and> aws_state \<in> {''stopped'', ''terminated''})
     \<or> (rec_type = ''terminate_instance'' \<and> aws_state = ''terminated'')"

definition store_state :: "string \<Rightarrow> string \<Rightarrow> world \<Rightarrow> world" where
  "store_state instance_id aws_state w =
     w\<lparr>wastes := t_update (\<lambda>x. w_resource_id x = instance_id)
         (\<lambda>x. x\<lparr>w_metadata := AList.update ''instance_state'' (JStr aws_state) (w_metadata x)\<rparr>) (wastes w)\<rparr>"

fun sync_recs ::
    "env \<Rightarrow> string \<Rightarrow> string \<Rightarrow> rec_row list \<Rightarrow> world \<Rightarrow> (nat \<times> nat) \<times> world" where
  "sync_recs env instance_id aws_state [] w = ((0, 0), w)"
| "sync_recs env instance_id aws_state (r # rs) w =
     (if stopped_outside (r_type r) aws_state
      then (let ((s, o'), w1) = sync_recs env instance_id aws_state rs (set_status (r_id r) (resolve env) w)
            in ((s, o' + 1), w1))
      else (let ((s, o'), w1) = sync_recs env instance_id aws_state rs (store_state instance_id aws_state w)
            in ((s + 1, o'), w1)))"

definition open_recs_of :: "string \<Rightarrow> world \<Rightarrow> rec_row list" where
  "open_recs_of instance_id w =
     map fst (filter (\<lambda>(r, x). w_resource_id x = instance_id \<and> r_status r \<in> set SYNCABLE_STATUSES) (joined w))"

fun sync_instances ::
    "env \<Rightarrow> (string, string) dict \<Rightarrow> bool \<Rightarrow> string list \<Rightarrow> world \<Rightarrow> (nat \<times> nat) \<times> world" where
  "sync_instances env states failed [] w = ((0, 0), w)"
| "sync_instances env states failed (i # is) w =
     (let ((s, o'), w1) =
            (case map_of states i of
               None \<Rightarrow> if failed then ((0, 0), w)
                       else (let (n, w1) = resolve_where env (\<lambda>x. w_resource_id x = i) w in ((0, n), w1))
             | Some st \<Rightarrow> sync_recs env i st (open_recs_of i w) w);
          ((s', o''), w2) = sync_instances env states failed is w1
      in ((s + s', o' + o''), w2))"

definition sync_ec2_instance_states ::
    "env \<Rightarrow> sync_api \<Rightarrow> string list \<Rightarrow> string list \<Rightarrow> world \<Rightarrow> (nat \<times> nat) \<times> world" where
  "sync_ec2_instance_states env sy regions instance_ids w =
     (let (states, failed) = sweep_instances sy instance_ids regions [] False
      in sync_instances env states failed instance_ids w)"

section \<open>The synchronisation job\<close>

text \<open>\<open>GROUP BY resource_type\<close> with the distinct ids; the order of the groups is not promised.\<close>

definition pending_by_type :: "world \<Rightarrow> (string \<times> string list) list" where
  "pending_by_type w =
     (let rows = filter (\<lambda>(r, x). r_status r \<in> set SYNCABLE_STATUSES) (joined w)
      in map (\<lambda>t. (t, remdups (map (\<lambda>(r, x). w_resource_id x) (filter (\<lambda>(r, x). w_resource_type x = t) rows))))
           (remdups (map (\<lambda>(r, x). w_resource_type x) rows)))"

definition sync_aws_job :: "env \<Rightarrow> sync_api \<Rightarrow> string list \<Rightarrow> world \<Rightarrow> nat \<times> world" where
  "sync_aws_job env sy regions w =
     (let pending = pending_by_type w;
          instance_ids = (case map_of pending ''ec2_instance'' of None \<Rightarrow> [] | Some is \<Rightarrow> is);
          others = filter (\<lambda>(t, is). t \<noteq> ''ec2_instance'') pending
      in if pending = [] then (0, w)
         else
           let (n, w1) = resolve_all env (find_vanished_resources sy regions others) w
           in if instance_ids = [] then (n, w1)
              else (let ((s, m), w2) = sync_ec2_instance_states env sy regions instance_ids w1
                    in (n + m, w2)))"

text \<open>
  \<open>POST /api/sync-aws\<close>: the button; synced, resolved and checked numbers (all 0 when nothing
  is open). The stamp of the last sync is not kept.
\<close>

definition api_sync_aws :: "env \<Rightarrow> sync_api \<Rightarrow> string list \<Rightarrow> world \<Rightarrow> (nat \<times> nat \<times> nat) \<times> world" where
  "api_sync_aws env sy regions w =
     (let pending = pending_by_type w;
          pending_instances = (case map_of pending ''ec2_instance'' of None \<Rightarrow> [] | Some is \<Rightarrow> is);
          others = filter (\<lambda>(t, is). t \<noteq> ''ec2_instance'') pending
      in if pending_instances = [] \<and> others = [] then ((0, 0, 0), w)
         else
           let total = length pending_instances + sum_list (map (\<lambda>(t, is). length is) others);
               (n, w1) = (if others = [] then (0, w)
                          else resolve_all env (find_vanished_resources sy regions others) w);
               ((s, m), w2) = (if pending_instances = [] then ((0, 0), w1)
                               else sync_ec2_instance_states env sy regions pending_instances w1)
           in ((s, n + m, total), w2))"

text \<open>\<open>_warn_default_priced\<close>: the recommendations whose price is a default.\<close>

definition default_priced :: "world \<Rightarrow> nat" where
  "default_priced w =
     length (filter (\<lambda>(r, x). r_status r = Pending
         \<and> map_of (w_metadata x) ''pricing_fallback'' = Some (JBool True)) (joined w))"

section \<open>Terraform pull requests\<close>

fun sync_prs :: "app \<Rightarrow> rec_row list \<Rightarrow> world \<Rightarrow> nat \<times> world" where
  "sync_prs app [] w = (0, w)"
| "sync_prs app (r # rs) w =
     (let target = (case r_pr_url r of
            None \<Rightarrow> None
          | Some url \<Rightarrow>
              (case ap_pr_state app url of
                 Some st \<Rightarrow> if st = ''MERGED'' then Some Approved
                            else if st = ''CLOSED'' then Some Rejected else None
               | None \<Rightarrow> None))
      in case target of
           None \<Rightarrow> sync_prs app rs w
         | Some st \<Rightarrow>
             let (found, w1) = update_if (r_id r) [PrOpen]
                   (\<lambda>q. q\<lparr>r_status := st, r_applied_at := Some (e_now (ap_env app))\<rparr>) w;
                 (n, w2) = sync_prs app rs w1
             in ((if found then n + 1 else n), w2))"

definition sync_open_prs :: "app \<Rightarrow> world \<Rightarrow> nat \<times> world" where
  "sync_open_prs app w =
     sync_prs app (t_select (\<lambda>r. r_status r = PrOpen \<and> r_pr_url r \<noteq> None) (recs w)) w"

section \<open>The grace executor\<close>

text \<open>\<open>"not found" in error\<close>, on the texts that the errors stand for.\<close>

fun sg_text :: "sg_error \<Rightarrow> string" where
  "sg_text (SgMessage m) = m"
| "sg_text _ = []"

fun rem_not_found :: "rem_error \<Rightarrow> bool" where
  "rem_not_found (ErrSafeguard e) = contains ''not found'' (sg_text e)"
| "rem_not_found (ErrRefused (Some e)) = contains ''not found'' (sg_text e)"
| "rem_not_found (ErrRefused None) = False"
| "rem_not_found (ErrNotFound m) = True"
| "rem_not_found (ErrText m) = contains ''not found'' m"
| "rem_not_found (ErrAws e) = contains ''not found'' (exc_text e)"
| "rem_not_found (ErrPy x) = False"
| "rem_not_found (ErrLeftover ids) = list_ex (contains ''not found'') ids"

fun boto_not_found :: "boto_error \<Rightarrow> bool" where
  "boto_not_found (BotoErrors es) =
     list_ex (\<lambda>(region, e). case e of BotoAws a \<Rightarrow> contains ''not found'' (exc_text a) | BotoIndexError \<Rightarrow> False) es"
| "boto_not_found (BotoNotFound i) = True"

fun act_not_found :: "act_error \<Rightarrow> bool" where
  "act_not_found (ActText m) = contains ''not found'' m"
| "act_not_found (ActRem e) = rem_not_found e"
| "act_not_found (ActBoto e) = boto_not_found e"
| "act_not_found (ActPy x) = False"
| "act_not_found (ActPr m) = contains ''not found'' m"

definition grace_execution_status :: "bool \<Rightarrow> act_error option \<Rightarrow> bool \<Rightarrow> exec_mode \<Rightarrow> rec_status" where
  "grace_execution_status success error dry mode =
     (if success \<and> \<not> dry \<and> mode \<noteq> Manual then Approved
      else if \<not> success \<and> (case error of None \<Rightarrow> False | Some e \<Rightarrow> act_not_found e) then Obsolete
      else Pending)"

definition due_recommendations :: "env \<Rightarrow> world \<Rightarrow> (rec_row \<times> waste_row) list" where
  "due_recommendations env w =
     take 20 (sort_key (\<lambda>(r, x). the (r_execute_after r))
       (filter (\<lambda>(r, x). r_status r = Scheduled
            \<and> (case r_execute_after r of None \<Rightarrow> False | Some t \<Rightarrow> t \<le> e_now env)) (joined w)))"

text \<open>The attempt for one row: success, error, and the state.\<close>

definition grace_attempt ::
    "app \<Rightarrow> json \<Rightarrow> bool \<Rightarrow> exec_mode \<Rightarrow> rec_row \<Rightarrow> waste_row \<Rightarrow> world
     \<Rightarrow> (bool \<times> act_error option) \<times> world" where
  "grace_attempt app cfg dry mode r x w =
     (if mode = Remediator then
        (case proxy_execute app cfg dry (r_id r) 0 w of
           (res, w1) \<Rightarrow> ((ac_success res, ac_error res), w1))
      else if mode = Boto3 \<and> \<not> dry then
        (case execute_ec2_boto3 app (w_resource_id x) (r_type r) (stored_region x) w of
           (err, w1) \<Rightarrow> ((err = None, map_option ActBoto err), w1))
      else ((True, None), w))"

definition grace_row ::
    "app \<Rightarrow> json \<Rightarrow> bool \<Rightarrow> exec_mode \<Rightarrow> rec_row \<Rightarrow> waste_row \<Rightarrow> world \<Rightarrow> world" where
  "grace_row app cfg dry mode r x w =
     (let ((success, error), w1) = grace_attempt app cfg dry mode r x w;
          (_, w2) = add_log (ap_env app) (Some (r_id r)) (w_resource_id x) (w_resource_type x)
                      (action_type_of (r_type r)) (if success then LogSuccess else LogFailed)
                      (dry \<or> mode = Manual) (Some ''grace_executor'') w1
      in set_status (r_id r)
           (\<lambda>q. q\<lparr>r_status := grace_execution_status success error dry mode,
                  r_applied_at := Some (e_now (ap_env app)), r_execute_after := None\<rparr>) w2)"

text \<open>An exception of the configuration ends the job; the rows before it are committed.\<close>

fun grace_rows ::
    "app \<Rightarrow> json \<Rightarrow> bool \<Rightarrow> (rec_row \<times> waste_row) list \<Rightarrow> world \<Rightarrow> world" where
  "grace_rows app cfg dry [] w = w"
| "grace_rows app cfg dry ((r, x) # rows) w =
     (case effective_mode cfg (r_type r) of
        Inl _ \<Rightarrow> w
      | Inr mode \<Rightarrow> grace_rows app cfg dry rows (grace_row app cfg dry mode r x w))"

definition grace_executor_job :: "app \<Rightarrow> json \<Rightarrow> world \<Rightarrow> world" where
  "grace_executor_job app cfg w =
     (let due = due_recommendations (ap_env app) w
      in if due = [] then w
         else (case (get_dry_run cfg :: json sg) of
                 Inl _ \<Rightarrow> w
               | Inr dv \<Rightarrow> grace_rows app cfg (json_truthy dv) due w))"

section \<open>The instance schedule\<close>

record sched_cfg =
  sc_enabled :: bool
  sc_dry :: bool
  sc_tag_key :: json
  sc_tag_value :: json

definition get_instance_schedule :: "json \<Rightarrow> sched_cfg sg" where
  "get_instance_schedule cfg =
     py_bind (json_get ''instance_schedule'' (JObj []) cfg) (\<lambda>v.
     let s = json_or_empty v in
     py_bind (json_get ''enabled'' (JBool False) s) (\<lambda>en.
     py_bind (json_get ''tag_key'' (JStr ''wasteless:schedule'') s) (\<lambda>k.
     py_bind (json_get ''tag_value'' (JStr ''office-hours'') s) (\<lambda>tv.
     py_bind (json_get ''dry_run'' (JBool True) s) (\<lambda>dry.
     Inr \<lparr>sc_enabled = json_truthy en, sc_dry = json_truthy dry, sc_tag_key = k, sc_tag_value = tv\<rparr>)))))"

text \<open>\<open>set((get_whitelist() or {}).get("instance_ids", []) or [])\<close>.\<close>

fun hashable :: "json \<Rightarrow> bool" where
  "hashable (JList _) = False"
| "hashable (JObj _) = False"
| "hashable _ = True"

definition schedule_whitelist :: "json \<Rightarrow> json list sg" where
  "schedule_whitelist cfg =
     py_bind (json_get ''whitelist'' (JObj []) cfg) (\<lambda>wl.
     py_bind (json_get ''instance_ids'' (JList []) (json_or_empty wl)) (\<lambda>ids.
     py_bind (json_iter (if json_truthy ids then ids else JList [])) (\<lambda>xs.
     if list_all hashable xs then Inr xs else Inl TypeError)))"

text \<open>What the paginated, filtered describe gives: ids and tags, or an exception.\<close>

type_synonym tagged_api =
  "json \<Rightarrow> json \<Rightarrow> string \<Rightarrow> aws_exc + (string \<times> (string \<times> string) list) list"

definition schedule_targets ::
    "json list \<Rightarrow> (string \<times> (string \<times> string) list) list \<Rightarrow> string list" where
  "schedule_targets whitelist insts =
     map fst (filter (\<lambda>(iid, tags). \<not> (JStr iid \<in> set whitelist
         \<or> ''aws:autoscaling:groupName'' \<in> set (map fst tags))) insts)"

datatype sched_out =
    SchedDisabled
  | SchedRan bool "string list" "string list"
  | SchedRaised "sg_error pyexc"
  | SchedAws aws_exc

definition log_schedule_action :: "env \<Rightarrow> string \<Rightarrow> string \<Rightarrow> log_status \<Rightarrow> bool \<Rightarrow> world \<Rightarrow> world" where
  "log_schedule_action env resource_id action status dry w =
     snd (add_log env None resource_id ''ec2_instance'' action status dry (Some ''scheduler'') w)"

fun schedule_loop ::
    "env \<Rightarrow> string \<Rightarrow> bool \<Rightarrow> bool \<Rightarrow> string list \<Rightarrow> world \<Rightarrow> (string list \<times> string list) \<times> world" where
  "schedule_loop env region stop dry [] w = (([], []), w)"
| "schedule_loop env region stop dry (i # is) w =
     (let name = (if stop then ''schedule_stop'' else ''schedule_start'')
      in if dry then
           (let ((acted, failed), w1) = schedule_loop env region stop dry is
                    (log_schedule_action env i name LogDryRun True w)
            in ((i # acted, failed), w1))
         else
           (case aws_do env (if stop then StopInstances i region else StartInstances i region) w of
              (None, w1) \<Rightarrow>
                (let ((acted, failed), w2) = schedule_loop env region stop dry is
                         (log_schedule_action env i name LogSuccess False w1)
                 in ((i # acted, failed), w2))
            | (Some e, w1) \<Rightarrow>
                (let ((acted, failed), w2) = schedule_loop env region stop dry is
                         (log_schedule_action env i name LogFailed dry w1)
                 in ((acted, i # failed), w2))))"

definition run_instance_schedule ::
    "env \<Rightarrow> string \<Rightarrow> tagged_api \<Rightarrow> json \<Rightarrow> bool \<Rightarrow> world \<Rightarrow> sched_out \<times> world" where
  "run_instance_schedule env region api cfg stop w =
     (case get_instance_schedule cfg of
        Inl e \<Rightarrow> (SchedRaised e, w)
      | Inr sc \<Rightarrow>
          if \<not> sc_enabled sc then (SchedDisabled, w)
          else
            (case (if sc_dry sc then Inr (JBool True) else get_dry_run cfg) of
               Inl e \<Rightarrow> (SchedRaised e, w)
             | Inr dv \<Rightarrow>
                 (case schedule_whitelist cfg of
                    Inl e \<Rightarrow> (SchedRaised e, w)
                  | Inr wl \<Rightarrow>
                      (case api (sc_tag_key sc) (sc_tag_value sc) (if stop then ''running'' else ''stopped'') of
                         Inl e \<Rightarrow> (SchedAws e, w)
                       | Inr insts \<Rightarrow>
                           (case schedule_loop env region stop (json_truthy dv) (schedule_targets wl insts) w of
                              ((acted, failed), w1) \<Rightarrow>
                                (SchedRan (json_truthy dv) acted failed, w1))))))"

end
