(* ===== verification/Lifecycle.thy ===== *)
theory Lifecycle
  imports Jobs
begin

text \<open>
  The life of a recommendation as a state machine: the transitions that the user, the
  synchronisation, GitHub and the grace executor may make, and the proof that the operations of
  \<open>Actions\<close> and \<open>Jobs\<close> make no others (a simulation on the status column). Approvals are
  outside this machine: they do not look at the status, as stated below.
\<close>

section \<open>The abstract machine\<close>

inductive transition :: "rec_status \<Rightarrow> rec_status \<Rightarrow> bool" where
  reject: "s = Pending \<or> s = ApprovedManual \<Longrightarrow> transition s Rejected"
| dismiss: "s = Pending \<or> s = ApprovedManual \<Longrightarrow> transition s Dismissed"
| cancel: "transition Scheduled Pending"
| restore: "transition Rejected Pending"
| vanish: "s = Pending \<or> s = Rejected \<or> s = Scheduled \<or> s = PrOpen \<Longrightarrow> transition s Obsolete"
| confirm: "transition ApprovedManual Applied"
| merge: "transition PrOpen Approved"
| close: "transition PrOpen Rejected"
| execute: "s' = Approved \<or> s' = Obsolete \<or> s' = Pending \<Longrightarrow> transition Scheduled s'"

inductive_cases transition_from_Applied: "transition Applied s"
inductive_cases transition_from_Dismissed: "transition Dismissed s"
inductive_cases transition_from_Obsolete: "transition Obsolete s"
inductive_cases transition_from_Approved: "transition Approved s"
inductive_cases transition_from_Cancelled: "transition Cancelled s"
inductive_simps transition_simps: "transition s s'"

definition final_status :: "rec_status \<Rightarrow> bool" where
  "final_status s \<longleftrightarrow> s \<in> {Applied, Approved, Dismissed, Obsolete, Cancelled}"

lemma final_stuck: "final_status s \<Longrightarrow> \<not> transition s s'"
  by (auto simp: final_status_def elim: transition_from_Applied transition_from_Dismissed
      transition_from_Obsolete transition_from_Approved transition_from_Cancelled)

lemma final_absorbing: "transition\<^sup>*\<^sup>* s s' \<Longrightarrow> final_status s \<Longrightarrow> s' = s"
  by (induction rule: converse_rtranclp_induct) (auto dest: final_stuck)

section \<open>Simulation\<close>

text \<open>Every recommendation keeps existing, and its status moves along transitions only.\<close>

definition moves :: "world \<Rightarrow> world \<Rightarrow> bool" where
  "moves w w' \<longleftrightarrow> (\<forall>j. rel_option transition\<^sup>*\<^sup>* (status_of j w) (status_of j w'))"

lemma moves_refl [simp, intro]: "moves w w"
  by (auto simp: moves_def intro: option.rel_refl)

lemma moves_trans: "moves u v \<Longrightarrow> moves v w \<Longrightarrow> moves u w"
  unfolding moves_def
proof
  fix j
  assume "\<forall>j. rel_option transition\<^sup>*\<^sup>* (status_of j u) (status_of j v)"
    and "\<forall>j. rel_option transition\<^sup>*\<^sup>* (status_of j v) (status_of j w)"
  then have "rel_option transition\<^sup>*\<^sup>* (status_of j u) (status_of j v)"
    "rel_option transition\<^sup>*\<^sup>* (status_of j v) (status_of j w)" by blast+
  then show "rel_option transition\<^sup>*\<^sup>* (status_of j u) (status_of j w)"
    by (cases "status_of j u"; cases "status_of j v"; cases "status_of j w") auto
qed

lemma moves_same_recs: "recs w' = recs w \<Longrightarrow> moves w w'"
  by (auto simp: moves_def status_of_def intro: option.rel_refl)

lemma moves_cong: "moves w w' \<Longrightarrow> recs v' = recs w' \<Longrightarrow> moves w v'"
  by (simp add: moves_def status_of_def)

lemma moves_update:
  assumes "recs w' = t_update p f (recs w)" "\<And>r. r_id (f r) = r_id r"
    and "\<And>r. p r \<Longrightarrow> r \<in> set (t_rows (recs w)) \<Longrightarrow> transition (r_status r) (r_status (f r))"
  shows "moves w w'"
  unfolding moves_def
proof
  fix j
  have "t_get r_id j (recs w') = map_option (\<lambda>r. if p r then f r else r) (t_get r_id j (recs w))"
    using rec_table.get_upd [OF assms(2)] assms(1) by simp
  then show "rel_option transition\<^sup>*\<^sup>* (status_of j w) (status_of j w')"
  proof (cases "t_get r_id j (recs w)")
    case (Some r)
    then have "r \<in> set (t_rows (recs w))" by (auto dest: t_get_mem)
    with assms(3) have "p r \<Longrightarrow> transition\<^sup>*\<^sup>* (r_status r) (r_status (f r))" by blast
    with \<open>t_get r_id j (recs w') = _\<close> Some show ?thesis by (auto simp: status_of_def)
  qed (simp add: status_of_def)
qed

lemma moves_final:
  assumes "moves w w'" "status_of j w = Some s" "final_status s"
  shows "status_of j w' = Some s"
proof -
  have "rel_option transition\<^sup>*\<^sup>* (Some s) (status_of j w')" using assms(1,2) by (metis moves_def)
  then show ?thesis using final_absorbing assms(3) by (cases "status_of j w'") auto
qed

section \<open>The bookkeeping actions\<close>

lemma update_if_recs:
  "recs (snd (update_if rid from f w))
     = t_update (\<lambda>r. r_id r = rid \<and> r_status r \<in> set from) f (recs w)"
  by (simp add: update_if_def)

lemma moves_update_if:
  assumes "\<And>r. r_id (f r) = r_id r"
    and "\<And>r. r_status r \<in> set from \<Longrightarrow> transition (r_status r) (r_status (f r))"
  shows "moves w (snd (update_if rid from f w))"
  by (rule moves_update [where p = "\<lambda>r. r_id r = rid \<and> r_status r \<in> set from" and f = f])
    (use assms in \<open>auto simp: update_if_recs\<close>)

lemma moves_api:
  assumes "a \<noteq> Approve" "a \<noteq> Execute"
  shows "moves w (snd (api_action app cfg a rid w))"
proof -
  have "moves w (snd (api_reject app rid w))"
    by (auto simp: api_reject_def case_prod_unfold intro!: moves_update_if transition.intros)
  moreover have "moves w (snd (api_dismiss app rid w))"
    by (auto simp: api_dismiss_def case_prod_unfold intro!: moves_update_if transition.intros)
  moreover have "moves w (snd (api_cancel app rid w))"
  proof -
    let ?u = "update_if rid [Scheduled] (\<lambda>r. r\<lparr>r_status := Pending, r_execute_after := None\<rparr>) w"
    have "moves w (snd ?u)" by (rule moves_update_if) (auto intro: transition.intros)
    moreover have "recs (snd (api_cancel app rid w)) = recs (snd ?u)"
      by (simp add: api_cancel_def case_prod_unfold)
    ultimately show ?thesis by (rule moves_cong)
  qed
  moreover have "moves w (snd (api_restore app rid w))"
    by (auto simp: api_restore_def case_prod_unfold intro!: moves_update_if transition.intros)
  ultimately show ?thesis using assms by (cases a) (simp_all add: api_action_def)
qed

section \<open>The synchronisation\<close>

lemma resolve_id [simp]: "r_id (resolve env r) = r_id r"
  by (simp add: resolve_def)

lemma resolve_transition:
  "r_status r \<in> set SYNCABLE_STATUSES \<Longrightarrow> transition (r_status r) (r_status (resolve env r))"
  by (auto simp: SYNCABLE_STATUSES_def resolve_def intro: transition.intros)

lemma moves_resolve_where: "moves w (snd (resolve_where env p w))"
  by (rule moves_update [where p = "\<lambda>r. waste_matches p w r \<and> r_status r \<in> set SYNCABLE_STATUSES"
        and f = "resolve env"])
    (auto simp: resolve_where_def Let_def intro: resolve_transition)

lemma resolve_where_frame [simp]:
  "aws_calls (snd (resolve_where env p w)) = aws_calls w"
  "wastes (snd (resolve_where env p w)) = wastes w"
  "alog (snd (resolve_where env p w)) = alog w"
  by (simp_all add: resolve_where_def Let_def)

lemma wf_resolve_where: "t_wf r_id (recs w) \<Longrightarrow> t_wf r_id (recs (snd (resolve_where env p w)))"
  by (simp add: resolve_where_def Let_def rec_table.wf_upd)

lemma moves_resolve_all: "moves w (snd (resolve_all env vs w))"
proof (induction vs arbitrary: w)
  case (Cons v vs)
  obtain t ids where v: "v = (t, ids)" by fastforce
  show ?case
    using moves_trans [OF moves_resolve_where Cons.IH]
    by (simp add: v case_prod_unfold Let_def resolve_vanished_def)
qed simp

lemma resolve_all_frame [simp]:
  "aws_calls (snd (resolve_all env vs w)) = aws_calls w
   \<and> wastes (snd (resolve_all env vs w)) = wastes w
   \<and> (t_wf r_id (recs w) \<longrightarrow> t_wf r_id (recs (snd (resolve_all env vs w))))"
  by (induction vs arbitrary: w)
    (auto simp: case_prod_unfold Let_def resolve_vanished_def wf_resolve_where)

lemma store_state_frame [simp]:
  "recs (store_state i st w) = recs w" "aws_calls (store_state i st w) = aws_calls w"
  by (simp_all add: store_state_def)

lemma wf_set_status:
  "t_wf r_id (recs w) \<Longrightarrow> (\<And>r. r_id (f r) = r_id r) \<Longrightarrow> t_wf r_id (recs (set_status rid f w))"
  by (simp add: set_status_def rec_table.wf_upd)

text \<open>
  The rows of one instance are resolved one by one; each is still as the query saw it.
\<close>

lemma sync_recs_moves:
  assumes "t_wf r_id (recs w)" "distinct (map r_id rs)"
    and "\<And>r. r \<in> set rs \<Longrightarrow> r \<in> set (t_rows (recs w)) \<and> r_status r \<in> set SYNCABLE_STATUSES"
  shows "moves w (snd (sync_recs env i st rs w))
    \<and> aws_calls (snd (sync_recs env i st rs w)) = aws_calls w
    \<and> t_wf r_id (recs (snd (sync_recs env i st rs w)))"
  using assms
proof (induction rs arbitrary: w)
  case (Cons r rs)
  show ?case
  proof (cases "stopped_outside (r_type r) st")
    case False
    have "moves (store_state i st w) (snd (sync_recs env i st rs (store_state i st w)))
        \<and> aws_calls (snd (sync_recs env i st rs (store_state i st w))) = aws_calls (store_state i st w)
        \<and> t_wf r_id (recs (snd (sync_recs env i st rs (store_state i st w))))"
      by (rule Cons.IH) (use Cons.prems in auto)
    moreover have "moves w (store_state i st w)" by (rule moves_same_recs) simp
    ultimately show ?thesis
      using False by (simp add: case_prod_unfold Let_def) (metis moves_trans)
  next
    case True
    let ?w1 = "set_status (r_id r) (resolve env) w"
    have here: "moves w ?w1"
    proof (rule moves_update)
      show "recs ?w1 = t_update (\<lambda>q. r_id q = r_id r) (resolve env) (recs w)"
        by (simp add: set_status_def)
      fix q assume q: "r_id q = r_id r" "q \<in> set (t_rows (recs w))"
      have "t_get r_id (r_id r) (recs w) = Some r"
        using t_get_of_mem [OF Cons.prems(1)] Cons.prems(3) [of r] by simp
      moreover have "t_get r_id (r_id r) (recs w) = Some q"
        using t_get_of_mem [OF Cons.prems(1) q(2)] q(1) by simp
      ultimately show "transition (r_status q) (r_status (resolve env q))"
        using Cons.prems(3) [of r] by (simp add: resolve_transition)
    qed simp
    have "moves ?w1 (snd (sync_recs env i st rs ?w1))
        \<and> aws_calls (snd (sync_recs env i st rs ?w1)) = aws_calls ?w1
        \<and> t_wf r_id (recs (snd (sync_recs env i st rs ?w1)))"
    proof (rule Cons.IH)
      show "t_wf r_id (recs ?w1)" using Cons.prems(1) by (simp add: wf_set_status)
      show "distinct (map r_id rs)" using Cons.prems(2) by simp
      fix q assume q: "q \<in> set rs"
      then have "r_id q \<noteq> r_id r" using Cons.prems(2) by (auto simp: image_iff)
      then show "q \<in> set (t_rows (recs ?w1)) \<and> r_status q \<in> set SYNCABLE_STATUSES"
        using Cons.prems(3) [of q] q by (auto simp: set_status_def t_update_def image_iff)
    qed
    with True here show ?thesis
      by (auto simp: case_prod_unfold Let_def intro: moves_trans)
  qed
qed simp

lemma joined_distinct:
  assumes "t_wf r_id (recs w)"
  shows "distinct (map (\<lambda>(r, x). r_id r) (joined w))"
proof -
  have "distinct (map (\<lambda>(r, x). r_id r) (List.map_filter (\<lambda>r. map_option (Pair r) (g r)) rs))
      \<and> set (map (\<lambda>(r, x). r_id r) (List.map_filter (\<lambda>r. map_option (Pair r) (g r)) rs)) \<subseteq> r_id ` set rs"
    if "distinct (map r_id rs)" for rs and g :: "rec_row \<Rightarrow> waste_row option"
    using that
  proof (induction rs)
    case (Cons r rs)
    then show ?case by (cases "g r") (auto simp: map_filter_simps)
  qed (simp add: map_filter_simps)
  then show ?thesis using assms by (simp add: joined_def t_wf_def)
qed

lemma open_recs_facts:
  assumes "t_wf r_id (recs w)"
  shows "distinct (map r_id (open_recs_of i w))"
    and "r \<in> set (open_recs_of i w) \<Longrightarrow>
      r \<in> set (t_rows (recs w)) \<and> r_status r \<in> set SYNCABLE_STATUSES"
proof -
  have "map r_id (map fst ps) = map (\<lambda>(r, x). r_id r) ps" for ps :: "(rec_row \<times> waste_row) list"
    by (induction ps) auto
  then show "distinct (map r_id (open_recs_of i w))"
    unfolding open_recs_of_def using joined_distinct [OF assms] distinct_map_filter by metis
  show "r \<in> set (open_recs_of i w) \<Longrightarrow>
      r \<in> set (t_rows (recs w)) \<and> r_status r \<in> set SYNCABLE_STATUSES"
    by (auto simp: open_recs_of_def dest: joined_mem)
qed

lemma sync_instances_moves:
  "t_wf r_id (recs w) \<Longrightarrow>
     moves w (snd (sync_instances env states failed is w))
     \<and> aws_calls (snd (sync_instances env states failed is w)) = aws_calls w
     \<and> t_wf r_id (recs (snd (sync_instances env states failed is w)))"
proof (induction "is" arbitrary: w)
  case (Cons i "is")
  define w1 where "w1 = snd (case map_of states i of
               None \<Rightarrow> if failed then ((0::nat, 0::nat), w)
                       else (let (n, w1) = resolve_where env (\<lambda>x. w_resource_id x = i) w in ((0, n), w1))
             | Some st \<Rightarrow> sync_recs env i st (open_recs_of i w) w)"
  have one: "moves w w1 \<and> aws_calls w1 = aws_calls w \<and> t_wf r_id (recs w1)"
  proof (cases "map_of states i")
    case None
    then show ?thesis
      using Cons.prems
      by (simp add: w1_def case_prod_unfold Let_def moves_resolve_where wf_resolve_where)
  next
    case (Some st)
    then show ?thesis
      using sync_recs_moves [OF Cons.prems open_recs_facts [OF Cons.prems]] by (simp add: w1_def)
  qed
  have "snd (sync_instances env states failed (i # is) w) = snd (sync_instances env states failed is w1)"
    by (simp add: w1_def case_prod_unfold Let_def)
  with one Cons.IH [of w1] show ?case by (auto intro: moves_trans)
qed simp

lemma sync_aws_job_moves:
  assumes "t_wf r_id (recs w)"
  shows "moves w (snd (sync_aws_job env sy regions w))
    \<and> aws_calls (snd (sync_aws_job env sy regions w)) = aws_calls w
    \<and> t_wf r_id (recs (snd (sync_aws_job env sy regions w)))"
proof -
  let ?others = "filter (\<lambda>(t, is). t \<noteq> ''ec2_instance'') (pending_by_type w)"
  let ?w1 = "snd (resolve_all env (find_vanished_resources sy regions ?others) w)"
  have one: "moves w ?w1 \<and> aws_calls ?w1 = aws_calls w \<and> t_wf r_id (recs ?w1)"
    using moves_resolve_all resolve_all_frame assms by blast
  have two: "moves ?w1 (snd (sync_ec2_instance_states env sy regions is ?w1))
      \<and> aws_calls (snd (sync_ec2_instance_states env sy regions is ?w1)) = aws_calls ?w1
      \<and> t_wf r_id (recs (snd (sync_ec2_instance_states env sy regions is ?w1)))" for "is"
    using sync_instances_moves one by (simp add: sync_ec2_instance_states_def case_prod_unfold Let_def)
  show ?thesis
    using one two assms
    by (auto simp: sync_aws_job_def Let_def case_prod_unfold intro: moves_trans)
qed

section \<open>Pull requests\<close>

lemma sync_prs_moves:
  "moves w (snd (sync_prs app rs w)) \<and> aws_calls (snd (sync_prs app rs w)) = aws_calls w
   \<and> (t_wf r_id (recs w) \<longrightarrow> t_wf r_id (recs (snd (sync_prs app rs w))))"
proof (induction rs arbitrary: w)
  case (Cons r rs)
  define target where "target = (case r_pr_url r of
            None \<Rightarrow> None
          | Some url \<Rightarrow>
              (case ap_pr_state app url of
                 Some st \<Rightarrow> if st = ''MERGED'' then Some Approved
                            else if st = ''CLOSED'' then Some Rejected else None
               | None \<Rightarrow> None))"
  show ?case
  proof (cases target)
    case None
    then show ?thesis using Cons.IH [of w] by (simp add: Let_def target_def)
  next
    case (Some st)
    let ?f = "\<lambda>q. q\<lparr>r_status := st, r_applied_at := Some (e_now (ap_env app))\<rparr>"
    let ?w1 = "snd (update_if (r_id r) [PrOpen] ?f w)"
    have st: "st = Approved \<or> st = Rejected"
      using Some by (auto simp: target_def split: option.splits if_splits)
    have "moves w ?w1"
      by (rule moves_update_if) (use st in \<open>auto intro: transition.intros\<close>)
    moreover have "snd (sync_prs app (r # rs) w) = snd (sync_prs app rs ?w1)"
      using Some by (simp add: Let_def target_def case_prod_unfold)
    moreover have "t_wf r_id (recs w) \<Longrightarrow> t_wf r_id (recs ?w1)"
      by (simp add: update_if_recs rec_table.wf_upd)
    ultimately show ?thesis using Cons.IH [of ?w1] by (auto intro: moves_trans)
  qed
qed simp

lemma sync_open_prs_moves:
  "moves w (snd (sync_open_prs app w)) \<and> aws_calls (snd (sync_open_prs app w)) = aws_calls w
   \<and> (t_wf r_id (recs w) \<longrightarrow> t_wf r_id (recs (snd (sync_open_prs app w))))"
  unfolding sync_open_prs_def by (rule sync_prs_moves)

section \<open>The grace executor\<close>

lemma stop_instance_recs:
  "(recs (snd (stop_instance api c env dry i rid n w)) = recs w
    \<or> recs (snd (stop_instance api c env dry i rid n w)) = recs (mark_applied env rid w))
   \<and> wastes (snd (stop_instance api c env dry i rid n w)) = wastes w"
proof (cases "stop_gates api c env i rid n w")
  case True
  show ?thesis using stop_instance_allowed(4,5) [OF True, of dry] by simp
next
  case False
  then show ?thesis using stop_instance_refused by metis
qed

lemma proxy_recs:
  "(recs (snd (proxy_execute app cfg dry rid n w)) = recs w
    \<or> recs (snd (proxy_execute app cfg dry rid n w)) = recs (mark_applied (ap_env app) rid w))
   \<and> wastes (snd (proxy_execute app cfg dry rid n w)) = wastes w"
proof (cases "rec_join rid w")
  case (Some y)
  obtain r x where y: "y = (r, x)" by fastforce
  show ?thesis
    unfolding proxy_execute_def Some y option.case prod.case Let_def case_prod_unfold
    by (simp add: stop_instance_recs split: sum.split option.split) (auto dest: dispatch_recs)
qed (simp add: proxy_execute_def)

lemma grace_attempt_recs:
  "(recs (snd (grace_attempt app cfg dry mode r x w)) = recs w
    \<or> recs (snd (grace_attempt app cfg dry mode r x w)) = recs (mark_applied (ap_env app) (r_id r) w))
   \<and> wastes (snd (grace_attempt app cfg dry mode r x w)) = wastes w"
  using proxy_recs [of app cfg dry "r_id r" 0 w]
  by (simp add: grace_attempt_def case_prod_unfold)

text \<open>Only the row of the recommendation changes, to the status the attempt decides.\<close>

definition grace_status_after ::
    "app \<Rightarrow> json \<Rightarrow> bool \<Rightarrow> exec_mode \<Rightarrow> rec_row \<Rightarrow> waste_row \<Rightarrow> world \<Rightarrow> rec_status" where
  "grace_status_after app cfg dry mode r x w =
     (let res = fst (grace_attempt app cfg dry mode r x w)
      in grace_execution_status (fst res) (snd res) dry mode)"

lemma grace_row_recs:
  "t_get r_id j (recs (grace_row app cfg dry mode r x w)) =
     (if j = r_id r
      then map_option (\<lambda>q. q\<lparr>r_status := grace_status_after app cfg dry mode r x w,
               r_applied_at := Some (e_now (ap_env app)), r_execute_after := None\<rparr>)
             (t_get r_id j (recs w))
      else t_get r_id j (recs w))"
proof -
  let ?v = "snd (grace_attempt app cfg dry mode r x w)"
  have "t_get r_id j (recs ?v) = t_get r_id j (recs w)
      \<or> j = r_id r \<and> t_get r_id j (recs ?v) =
           map_option (\<lambda>q. q\<lparr>r_status := Applied, r_applied_at := Some (e_now (ap_env app))\<rparr>)
             (t_get r_id j (recs w))"
    using grace_attempt_recs [of app cfg dry mode r x w]
    by (auto simp: mark_applied_def rec_table.get_upd_key split: if_splits)
  then show ?thesis
    by (auto simp: grace_row_def Let_def case_prod_unfold set_status_def rec_table.get_upd_key
        grace_status_after_def option.map_comp comp_def)
qed

lemma wf_grace_row:
  assumes "t_wf r_id (recs w)"
  shows "t_wf r_id (recs (grace_row app cfg dry mode r x w))"
proof -
  have "t_wf r_id (recs (snd (grace_attempt app cfg dry mode r x w)))"
    using grace_attempt_recs [of app cfg dry mode r x w] assms
    by (auto simp: mark_applied_def rec_table.wf_upd)
  then show ?thesis
    by (simp add: grace_row_def Let_def case_prod_unfold wf_set_status)
qed

lemma grace_status_cases: "grace_status_after app cfg dry mode r x w \<in> {Approved, Obsolete, Pending}"
  by (auto simp: grace_status_after_def grace_execution_status_def Let_def)

lemma moves_grace_row:
  assumes "status_of (r_id r) w = Some Scheduled"
  shows "moves w (grace_row app cfg dry mode r x w)"
  unfolding moves_def
proof
  fix j
  have "transition Scheduled (grace_status_after app cfg dry mode r x w)"
    by (rule transition.execute) (use grace_status_cases [of app cfg dry mode r x w] in auto)
  then show "rel_option transition\<^sup>*\<^sup>* (status_of j w) (status_of j (grace_row app cfg dry mode r x w))"
    using assms by (auto simp: status_of_def grace_row_recs option.rel_refl)
qed

text \<open>The due rows are handled one by one, and each is still scheduled when its turn comes.\<close>

lemma grace_rows_moves:
  assumes "t_wf r_id (recs w)" "distinct (map (\<lambda>(r, x). r_id r) rows)"
    and "\<And>r x. (r, x) \<in> set rows \<Longrightarrow> status_of (r_id r) w = Some Scheduled"
  shows "moves w (grace_rows app cfg dry rows w) \<and> t_wf r_id (recs (grace_rows app cfg dry rows w))"
  using assms
proof (induction rows arbitrary: w)
  case (Cons row rows)
  obtain r x where row: "row = (r, x)" by fastforce
  show ?case
  proof (cases "effective_mode cfg (r_type r)")
    case (Inl e)
    then show ?thesis using Cons.prems(1) by (simp add: row)
  next
    case (Inr mode)
    let ?w1 = "grace_row app cfg dry mode r x w"
    have "moves ?w1 (grace_rows app cfg dry rows ?w1) \<and> t_wf r_id (recs (grace_rows app cfg dry rows ?w1))"
    proof (rule Cons.IH)
      show "t_wf r_id (recs ?w1)" by (rule wf_grace_row) (rule Cons.prems(1))
      show "distinct (map (\<lambda>(r, x). r_id r) rows)" using Cons.prems(2) by simp
      fix q y assume q: "(q, y) \<in> set rows"
      then have "r_id q \<noteq> r_id r" using Cons.prems(2) by (force simp: row)
      moreover have "status_of (r_id q) w = Some Scheduled" using Cons.prems(3) [of q y] q by simp
      ultimately show "status_of (r_id q) ?w1 = Some Scheduled"
        by (simp add: status_of_def grace_row_recs)
    qed
    moreover have "moves w ?w1"
      by (rule moves_grace_row) (use Cons.prems(3) [of r x] row in simp)
    ultimately show ?thesis using Inr by (auto simp: row intro: moves_trans)
  qed
qed simp

lemma due_facts:
  assumes "t_wf r_id (recs w)"
  shows "distinct (map (\<lambda>(r, x). r_id r) (due_recommendations env w))"
    and "(r, x) \<in> set (due_recommendations env w) \<Longrightarrow>
      (r, x) \<in> set (joined w) \<and> r_status r = Scheduled
      \<and> (\<exists>t. r_execute_after r = Some t \<and> t \<le> e_now env)"
proof -
  let ?g = "\<lambda>(r :: rec_row, x :: waste_row). r_id r"
  have keys: "distinct (map ?g (sort_key k xs)) \<longleftrightarrow> distinct (map ?g xs)" for k :: "_ \<Rightarrow> int" and xs
    by (simp add: distinct_map)
  have "distinct (map ?g (joined w))" using joined_distinct [OF assms] .
  then show "distinct (map ?g (due_recommendations env w))"
    unfolding due_recommendations_def take_map [symmetric]
    by (intro distinct_take) (simp add: keys distinct_map_filter)
  assume "(r, x) \<in> set (due_recommendations env w)"
  from in_set_takeD [OF this [unfolded due_recommendations_def]]
  show "(r, x) \<in> set (joined w) \<and> r_status r = Scheduled
      \<and> (\<exists>t. r_execute_after r = Some t \<and> t \<le> e_now env)"
    by (auto split: option.splits)
qed

lemma grace_executor_moves:
  assumes "t_wf r_id (recs w)"
  shows "moves w (grace_executor_job app cfg w) \<and> t_wf r_id (recs (grace_executor_job app cfg w))"
proof -
  have sch: "status_of (r_id r) w = Some Scheduled" if "(r, x) \<in> set (due_recommendations (ap_env app) w)" for r x
  proof -
    from due_facts(2) [OF assms that] have "r \<in> set (t_rows (recs w))" "r_status r = Scheduled"
      by (auto dest: joined_mem)
    with t_get_of_mem [OF assms] show ?thesis by (auto simp: status_of_def)
  qed
  show ?thesis
    using grace_rows_moves [OF assms due_facts(1) [OF assms] sch] assms
    by (auto simp: grace_executor_job_def Let_def split: sum.splits)
qed

section \<open>Runs\<close>

text \<open>
  Everything that changes recommendations but an approval: a bookkeeping action of the user, the
  synchronisation with AWS, with GitHub, and the grace executor, each in its own environment.
\<close>

inductive app_step :: "world \<Rightarrow> world \<Rightarrow> bool" where
  user: "a \<noteq> Approve \<Longrightarrow> a \<noteq> Execute \<Longrightarrow> app_step w (snd (api_action app cfg a rid w))"
| sync: "app_step w (snd (sync_aws_job env sy regions w))"
| prs: "app_step w (snd (sync_open_prs app w))"
| grace: "app_step w (grace_executor_job app cfg w)"

inductive_cases app_stepE: "app_step w w'"

lemma update_if_wf:
  "t_wf r_id (recs w) \<Longrightarrow> (\<And>r. r_id (f r) = r_id r) \<Longrightarrow> t_wf r_id (recs (snd (update_if rid from f w)))"
  by (simp add: update_if_recs rec_table.wf_upd)

lemma api_wf:
  assumes "t_wf r_id (recs w)" "a \<noteq> Approve" "a \<noteq> Execute"
  shows "t_wf r_id (recs (snd (api_action app cfg a rid w)))"
  using assms
  by (cases a) (auto simp: api_action_def api_reject_def api_dismiss_def api_cancel_def api_restore_def
      case_prod_unfold update_if_wf)

lemma app_step_moves:
  assumes "app_step w w'" "t_wf r_id (recs w)"
  shows "moves w w' \<and> t_wf r_id (recs w')"
  using assms(1)
proof cases
  case (user a app cfg rid)
  then show ?thesis using moves_api api_wf assms(2) by blast
qed (use assms(2) sync_aws_job_moves sync_open_prs_moves grace_executor_moves in blast)+

section \<open>Properties\<close>

text \<open>
  C4: whatever the user skips, cancels or restores, whatever AWS and GitHub answer to the
  synchronisation and whenever the grace executor runs, a recommendation keeps existing and its
  status moves along the transitions of the machine only; one that was applied, approved,
  dismissed, found obsolete or cancelled keeps its status for good. Only an approval can bring it
  back.
\<close>

theorem recommendations_follow_machine:
  assumes "app_step\<^sup>*\<^sup>* w w'" "t_wf r_id (recs w)" "status_of j w = Some s"
  shows "\<exists>s'. status_of j w' = Some s' \<and> transition\<^sup>*\<^sup>* s s' \<and> (final_status s \<longrightarrow> s' = s)"
proof -
  have "moves w w' \<and> t_wf r_id (recs w')"
    using assms(1,2) by (induction rule: rtranclp_induct) (auto dest: app_step_moves intro: moves_trans)
  then have "rel_option transition\<^sup>*\<^sup>* (Some s) (status_of j w')" using assms(3) by (metis moves_def)
  then show ?thesis using final_absorbing by (cases "status_of j w'") auto
qed

definition dismissed_world :: world where
  "dismissed_world =
     sample_world\<lparr>recs := t_update (\<lambda>r. r_id r = 7) (\<lambda>r. r\<lparr>r_status := Dismissed\<rparr>) (recs sample_world)\<rparr>"

theorem recommendations_follow_machine_witness:
  "\<forall>app cfg. \<exists>s'. status_of 7 (grace_executor_job app cfg dismissed_world) = Some s'
     \<and> transition\<^sup>*\<^sup>* Dismissed s' \<and> s' = Dismissed"
  using recommendations_follow_machine [OF r_into_rtranclp [where r = app_step, OF app_step.grace],
      of dismissed_world 7 Dismissed]
  by (simp add: dismissed_world_def sample_world_def status_of_def t_get_def t_update_def t_wf_def
      final_status_def)

text \<open>
  Skipping, dismissing, cancelling and restoring succeed exactly when the recommendation is
  in a status they start from, and then give it their status; otherwise nothing is written. Never
  do they call AWS or touch another recommendation.
\<close>

definition bookkeeping_from :: "act \<Rightarrow> rec_status set" where
  "bookkeeping_from a = (case a of Reject \<Rightarrow> {Pending, ApprovedManual} | Dismiss \<Rightarrow> {Pending, ApprovedManual}
     | Cancel \<Rightarrow> {Scheduled} | Restore \<Rightarrow> {Rejected} | _ \<Rightarrow> {})"

definition bookkeeping_to :: "act \<Rightarrow> rec_status" where
  "bookkeeping_to a = (case a of Reject \<Rightarrow> Rejected | Dismiss \<Rightarrow> Dismissed | _ \<Rightarrow> Pending)"

lemma t_update_none: "t_count p t = 0 \<Longrightarrow> t_update p f t = t"
  by (cases t) (auto simp: t_count_def t_select_def t_update_def filter_empty_conv intro!: map_idI)

lemma update_if_none: "\<not> fst (update_if rid from f w) \<Longrightarrow> snd (update_if rid from f w) = w"
  by (simp add: update_if_def t_update_none)

lemma status_update_if_found:
  assumes "t_wf r_id (recs w)" "\<And>r. r_id (f r) = r_id r" "\<And>r. r_status (f r) = s"
  shows "status_of j (snd (update_if rid from f w)) =
    (if j = rid \<and> fst (update_if rid from f w) then Some s else status_of j w)"
proof (cases "t_get r_id rid (recs w)")
  case None
  have "\<not> fst (update_if rid from f w)"
    using None by (simp add: update_if_found [OF assms(1)] status_of_def)
  then show ?thesis by (simp add: update_if_none)
next
  case (Some r)
  have "fst (update_if rid from f w) \<longleftrightarrow> r_status r \<in> set from"
    using Some by (auto simp: update_if_found [OF assms(1)] status_of_def)
  then show ?thesis
    using Some unfolding status_update_if [OF assms(2)] assms(3) by (auto simp: status_of_def)
qed

theorem bookkeeping_outcome:
  assumes "t_wf r_id (recs w)" "a \<noteq> Approve" "a \<noteq> Execute"
    and "api_action app cfg a rid w = (res, w')"
  shows "(ac_success res \<longleftrightarrow> (\<exists>s \<in> bookkeeping_from a. status_of rid w = Some s))
    \<and> (\<forall>j. status_of j w' = (if j = rid \<and> ac_success res then Some (bookkeeping_to a) else status_of j w))
    \<and> (\<not> ac_success res \<longrightarrow> w' = w) \<and> aws_calls w' = aws_calls w"
proof -
  have out: ?thesis
    if src: "set sts = bookkeeping_from a" and ids: "\<And>r. r_id (f r) = r_id r"
      and st: "\<And>r. r_status (f r) = bookkeeping_to a"
      and act: "ac_success (fst (api_action app cfg a rid w)) = fst (update_if rid sts f w)"
        "recs (snd (api_action app cfg a rid w)) = recs (snd (update_if rid sts f w))"
        "aws_calls (snd (api_action app cfg a rid w)) = aws_calls w"
        "\<not> fst (update_if rid sts f w) \<Longrightarrow> snd (api_action app cfg a rid w) = snd (update_if rid sts f w)"
    for sts f
  proof -
    have "status_of j w' = status_of j (snd (update_if rid sts f w))" for j
      using act(2) assms(4) by (simp add: status_of_def)
    then have "status_of j w' = (if j = rid \<and> ac_success res then Some (bookkeeping_to a) else status_of j w)" for j
      using status_update_if_found [OF assms(1) ids st, of j rid sts] act(1) assms(4) by simp
    moreover have "ac_success res \<longleftrightarrow> (\<exists>s \<in> bookkeeping_from a. status_of rid w = Some s)"
      using update_if_found [OF assms(1), of rid sts f] src act(1) assms(4) by simp
    moreover have "\<not> ac_success res \<longrightarrow> w' = w"
      using update_if_none [of rid sts f w] act(1,4) assms(4) by auto
    ultimately show ?thesis using act(3) assms(4) by auto
  qed
  note defs = api_action_def bookkeeping_from_def bookkeeping_to_def bookkeeping_result_def
    plain_result_def case_prod_unfold
  show ?thesis
  proof (cases a)
    case Reject
    show ?thesis
      by (rule out [where sts = "[Pending, ApprovedManual]"
            and f = "\<lambda>r. r\<lparr>r_status := Rejected, r_applied_at := Some (e_now (ap_env app))\<rparr>"])
        (simp_all add: Reject defs api_reject_def)
  next
    case Dismiss
    show ?thesis
      by (rule out [where sts = "[Pending, ApprovedManual]"
            and f = "\<lambda>r. r\<lparr>r_status := Dismissed, r_applied_at := Some (e_now (ap_env app))\<rparr>"])
        (simp_all add: Dismiss defs api_dismiss_def)
  next
    case Cancel
    show ?thesis
      by (rule out [where sts = "[Scheduled]"
            and f = "\<lambda>r. r\<lparr>r_status := Pending, r_execute_after := None\<rparr>"])
        (simp_all add: Cancel defs api_cancel_def)
  next
    case Restore
    show ?thesis
      by (rule out [where sts = "[Rejected]"
            and f = "\<lambda>r. r\<lparr>r_status := Pending, r_applied_at := None\<rparr>"])
        (simp_all add: Restore defs api_restore_def)
  qed (use assms in auto)
qed

theorem bookkeeping_outcome_witness:
  "\<forall>app cfg. ac_success (fst (api_action app cfg Dismiss 7 sample_world))
     \<and> status_of 7 (snd (api_action app cfg Dismiss 7 sample_world)) = Some Dismissed"
proof (intro allI)
  fix app cfg
  have wf: "t_wf r_id (recs sample_world)" "status_of 7 sample_world = Some Pending"
    by (simp_all add: sample_world_def t_wf_def status_of_def t_get_def)
  show "ac_success (fst (api_action app cfg Dismiss 7 sample_world))
     \<and> status_of 7 (snd (api_action app cfg Dismiss 7 sample_world)) = Some Dismissed"
    using bookkeeping_outcome [OF wf(1) _ _ surjective_pairing, of Dismiss app cfg 7] wf(2)
    by (simp add: bookkeeping_from_def bookkeeping_to_def)
qed

end
