(* ===== verification/Approvals.thy ===== *)
theory Approvals
  imports Lifecycle
begin

text \<open>
  What an approval does: when it may write to AWS, what becomes of the recommendation on each
  path (pull request, grace period, direct execution, manual review), and what the grace executor
  does when the delay is over.
\<close>

section \<open>The routes of an approval\<close>

text \<open>No pull request is asked for: the policy cannot be read or does not route the row.\<close>

definition no_pr_route :: "json \<Rightarrow> rec_row \<Rightarrow> waste_row \<Rightarrow> bool" where
  "no_pr_route cfg r x =
     (case load_backend_config cfg of
        Inl _ \<Rightarrow> True
      | Inr c \<Rightarrow> requires_pr c (w_resource_type x) (r_savings r) = Inr False)"

lemma no_pr_route: "no_pr_route cfg r x \<Longrightarrow> maybe_open_pr app cfg rid r x dry w = (Inr None, w)"
  by (cases "load_backend_config cfg") (simp_all add: no_pr_route_def maybe_open_pr_def)

text \<open>What the dry-run switch and the mode say, when the document answers.\<close>

definition runs_dry :: "json \<Rightarrow> bool" where
  "runs_dry cfg = (case (get_dry_run cfg :: json sg) of Inl _ \<Rightarrow> True | Inr v \<Rightarrow> json_truthy v)"

definition allows_execution :: "json \<Rightarrow> string \<Rightarrow> bool" where
  "allows_execution cfg rec_type \<longleftrightarrow>
     execution_mode rec_type \<noteq> Manual
     \<and> (\<exists>v. (get_action_enabled cfg rec_type :: json sg) = Inr v \<and> json_truthy v)"

lemma effective_mode_allows:
  "effective_mode cfg ty = Inr mode \<Longrightarrow> mode \<noteq> Manual \<Longrightarrow> allows_execution cfg ty \<and> mode = execution_mode ty"
  by (auto simp: effective_mode_def allows_execution_def py_bind_def Let_def split: sum.splits if_splits)

lemma boto3_writes:
  "\<exists>cs. aws_calls (snd (execute_ec2_boto3 app i ty st w)) = aws_calls w @ cs
     \<and> set cs \<subseteq> {StopInstances i region |region. True} \<union> {TerminateInstances i region |region. True}"
proof -
  define rs where "rs = (if truthy st then the st # filter (\<lambda>r. r \<noteq> the st) (ap_regions app) else ap_regions app)"
  obtain cs where cs: "aws_calls (snd (boto3_regions app i ty rs [] w)) = aws_calls w @ cs"
    "subseq cs (map (boto3_write ty i) rs)"
    using boto3_regions_calls [of app i ty rs "[]" w] by blast
  have "set cs \<subseteq> set (map (boto3_write ty i) rs)"
    by (rule subsetI) (erule list_emb_set [OF cs(2)], simp)
  moreover have "boto3_write ty i region \<in> {StopInstances i region |region. True}
      \<union> {TerminateInstances i region |region. True}" for region
    by (simp add: boto3_write_def)
  ultimately have "set cs \<subseteq> {StopInstances i region |region. True} \<union> {TerminateInstances i region |region. True}"
    by force
  with cs(1) show ?thesis by (auto simp: execute_ec2_boto3_def Let_def rs_def)
qed

section \<open>The writes of an approval\<close>

lemma approve_writes:
  assumes "api_approve app cfg rid w = (res, w')" "aws_calls w' \<noteq> aws_calls w"
  shows "\<exists>r x days. rec_join rid w = Some (r, x) \<and> \<not> runs_dry cfg \<and> allows_execution cfg (r_type r)
    \<and> grace_days cfg = Inr days \<and> days \<le> 0
    \<and> (execution_mode (r_type r) = Boto3 \<longrightarrow>
        (\<exists>cs. aws_calls w' = aws_calls w @ cs
          \<and> set cs \<subseteq> {StopInstances (w_resource_id x) region |region. True}
              \<union> {TerminateInstances (w_resource_id x) region |region. True}))"
proof -
  obtain r x where join: "rec_join rid w = Some (r, x)"
    using assms by (cases "rec_join rid w") (auto simp: api_approve_def)
  obtain dv where dv: "get_dry_run cfg = Inr dv"
    using assms join by (cases "get_dry_run cfg :: json sg") (auto simp: api_approve_def)
  define m where "m = maybe_open_pr app cfg rid r x (json_truthy dv) w"
  have m_calls: "aws_calls (snd m) = aws_calls w" by (simp add: m_def)
  note step0 = assms(1) [unfolded api_approve_def join dv option.case prod.case sum.case Let_def,
      folded m_def]
  have "fst m = Inr None"
  proof (rule ccontr)
    assume "fst m \<noteq> Inr None"
    then obtain e res1 where "fst m = Inl e \<or> fst m = Inr (Some res1)"
      by (cases "fst m") auto
    then have "w' = snd m"
      using step0 by (cases m) auto
    then show False using m_calls assms(2) by simp
  qed
  then obtain w1 where m: "m = (Inr None, w1)" "aws_calls w1 = aws_calls w"
    using m_calls by (cases m) auto
  note step = step0 [unfolded m(1) prod.case sum.case option.case]
  obtain mode where mode: "effective_mode cfg (r_type r) = Inr mode"
    using step assms(2) m(2) by (cases "effective_mode cfg (r_type r)") auto
  obtain days where days: "grace_days cfg = Inr days"
    using step assms(2) m(2) mode by (cases "grace_days cfg") auto
  note step2 = step [unfolded mode days sum.case]
  show ?thesis
  proof (cases "days > 0 \<and> \<not> json_truthy dv \<and> mode \<noteq> Manual")
    case True
    then have "aws_calls w' = aws_calls w1"
      using step2 by (auto split: option.splits) (metis schedule_execution_calls snd_conv)
    with assms(2) m(2) show ?thesis by simp
  next
    case False
    show ?thesis
    proof (cases "mode = Remediator")
      case True
      have "\<not> json_truthy dv"
      proof
        assume "json_truthy dv"
        then have "aws_calls w' = aws_calls w1"
          using step2 True proxy_dry [of app cfg rid 0 w1] by (auto simp: case_prod_unfold)
        with assms(2) m(2) show False by simp
      qed
      then show ?thesis
        using join dv days mode True False effective_mode_allows [OF mode]
        by (auto simp: runs_dry_def)
    next
      case notrem: False
      have w': "w' = snd (approve_now app (json_truthy dv) mode rid r x w1)"
        using step2 False notrem by simp
      have live: "\<not> json_truthy dv \<and> mode = Boto3"
        using assms(2) m(2) unfolding w' approve_now_calls by (auto split: if_splits)
      obtain cs where "aws_calls w' = aws_calls w1 @ cs"
        "set cs \<subseteq> {StopInstances (w_resource_id x) region |region. True}
              \<union> {TerminateInstances (w_resource_id x) region |region. True}"
        using boto3_writes live unfolding w' approve_now_calls by meson
      then show ?thesis
        using join dv days mode live False effective_mode_allows [OF mode] m(2)
        by (auto simp: runs_dry_def)
    qed
  qed
qed

section \<open>Properties\<close>

text \<open>
  C3: an approval writes to AWS only when the recommendation exists, the configuration is not in
  dry-run, the type has an executor that is not disabled, and no grace period applies. On the
  direct path the only calls are stops and terminations of the very instance of the
  recommendation.
\<close>

theorem approval_guarded:
  assumes "api_approve app cfg rid w = (res, w')" "aws_calls w' \<noteq> aws_calls w"
  shows "\<exists>r x days. rec_join rid w = Some (r, x) \<and> \<not> runs_dry cfg \<and> allows_execution cfg (r_type r)
    \<and> grace_days cfg = Inr days \<and> days \<le> 0
    \<and> (execution_mode (r_type r) = Boto3 \<longrightarrow>
        (\<exists>cs. aws_calls w' = aws_calls w @ cs
          \<and> set cs \<subseteq> {StopInstances (w_resource_id x) region |region. True}
              \<union> {TerminateInstances (w_resource_id x) region |region. True}))"
  by (rule approve_writes [OF assms])

definition live_config :: json where
  "live_config = JObj [(''dry_run'', JBool False), (''approval'', JObj [(''grace_period_days'', JInt 0)])]"

definition running_app :: app where
  "running_app =
     \<lparr>ap_env = sample_env, ap_aws = sample_aws, ap_ec2 = sample_api, ap_default_region = ''eu-west-1'',
      ap_regions = [''eu-west-1'', ''eu-west-3''], ap_states = \<lambda>w region i. Inr [[''running'']],
      ap_propose = \<lambda>r x dry. PrUnmanaged, ap_pr_state = \<lambda>u. None\<rparr>"

lemma live_config_answers:
  "get_dry_run live_config = Inr (JBool False)" "grace_days live_config = Inr 0"
  "get_action_enabled live_config ''stop_instance'' = Inr (JBool True)"
  "effective_mode live_config ''stop_instance'' = Inr Boto3"
  "requires_pr \<lparr>tf_enabled = JBool False, tf_threshold = t, tf_types = ty\<rparr> rt sv = Inr False"
  by (simp_all add: live_config_def get_dry_run_def grace_days_def get_grace_period_days_def
      config_get_def get_action_enabled_def effective_mode_def execution_mode_def EXECUTION_MODES_def
      dict_get_def json_or_empty_def requires_pr_def)

lemma live_no_pr: "no_pr_route live_config r x"
  by (simp add: no_pr_route_def load_backend_config_def live_config_def dict_get_def json_or_empty_def
      tf_from_dict_def requires_pr_def)

lemma sample_rec:
  obtains r x where "rec_join 7 sample_world = Some (r, x)" "r_type r = ''stop_instance''"
    "w_resource_id x = ''i-1''" "w_metadata x = []" "r_id r = 7" "r_status r = Pending"
  by (rule that [of "hd (t_rows (recs sample_world))" "hd (t_rows (wastes sample_world))"])
    (simp_all add: sample_world_def rec_join_def t_get_def)

lemma sample_boto3:
  "execute_ec2_boto3 running_app ''i-1'' ''stop_instance'' None w
     = (None, snd (aws_do sample_env (StopInstances ''i-1'' ''eu-west-1'') w))"
  by (simp add: execute_ec2_boto3_def running_app_def boto3_regions.simps aws_do_def sample_env_def)

lemma sample_approval:
  "aws_calls (snd (api_approve running_app live_config 7 sample_world))
     = aws_calls sample_world @ [StopInstances ''i-1'' ''eu-west-1'']"
proof -
  obtain r x where "rec_join 7 sample_world = Some (r, x)" "r_type r = ''stop_instance''"
    "w_resource_id x = ''i-1''" "w_metadata x = []" by (rule sample_rec)
  then show ?thesis
    by (simp add: api_approve_def live_config_answers no_pr_route [OF live_no_pr] approve_now_calls
        sample_boto3 stored_region_def)
qed

theorem approval_guarded_witness:
  "\<not> runs_dry live_config \<and> allows_execution live_config ''stop_instance''
     \<and> aws_calls (snd (api_approve running_app live_config 7 sample_world)) \<noteq> aws_calls sample_world"
proof -
  have ne: "aws_calls (snd (api_approve running_app live_config 7 sample_world)) \<noteq> aws_calls sample_world"
    by (simp add: sample_approval)
  then obtain r x where "rec_join 7 sample_world = Some (r, x)" "\<not> runs_dry live_config"
    "allows_execution live_config (r_type r)"
    using approval_guarded [OF surjective_pairing ne] by blast
  moreover obtain r' x' where "rec_join 7 sample_world = Some (r', x')" "r_type r' = ''stop_instance''"
    by (rule sample_rec)
  ultimately show ?thesis using ne by simp
qed

lemma api_action_dry:
  assumes "runs_dry cfg"
  shows "aws_calls (snd (api_action app cfg a rid w)) = aws_calls w"
proof -
  have "aws_calls (snd (api_approve app cfg rid w)) = aws_calls w"
    using approve_writes [OF surjective_pairing] assms by metis
  then show ?thesis
    by (cases a) (simp_all add: api_action_def api_reject_def api_dismiss_def api_cancel_def
        api_restore_def case_prod_unfold)
qed

lemma grace_row_calls [simp]:
  "aws_calls (grace_row app cfg dry mode r x w) = aws_calls (snd (grace_attempt app cfg dry mode r x w))"
  by (simp add: grace_row_def Let_def case_prod_unfold)

lemma grace_attempt_dry [simp]:
  "aws_calls (snd (grace_attempt app cfg True mode r x w)) = aws_calls w"
  by (simp add: grace_attempt_def case_prod_unfold proxy_dry)

lemma grace_rows_dry [simp]: "aws_calls (grace_rows app cfg True rows w) = aws_calls w"
proof (induction rows arbitrary: w)
  case (Cons row rows)
  then show ?case by (cases row) (simp split: sum.split)
qed simp

text \<open>
  C9: with the dry-run switch on (or a document that is no mapping), a whole request, of any
  action on any list of recommendations, and the grace executor leave AWS untouched.
\<close>

theorem dry_run_never_writes:
  assumes "runs_dry cfg"
  shows "aws_calls (snd (api_execute_actions app cfg a ids w)) = aws_calls w
    \<and> aws_calls (grace_executor_job app cfg w) = aws_calls w"
proof
  show "aws_calls (snd (api_execute_actions app cfg a ids w)) = aws_calls w"
    using api_action_dry [OF assms] by (induction ids arbitrary: w) (simp_all add: case_prod_unfold)
  show "aws_calls (grace_executor_job app cfg w) = aws_calls w"
    using assms by (auto simp: grace_executor_job_def runs_dry_def Let_def split: sum.splits)
qed

theorem dry_run_never_writes_witness:
  "\<forall>app. aws_calls (snd (api_execute_actions app (JObj []) Approve [7, 8] sample_world)) = []"
  using dry_run_never_writes [of "JObj []" _ Approve "[7, 8]" sample_world]
  by (simp add: runs_dry_def get_dry_run_def dict_get_def sample_world_def aws_calls_def map_filter_def)

text \<open>
  With a positive grace period and the dry-run off, approving a recommendation that has an
  enabled executor and no pull-request route never executes it: a pending one is scheduled for
  the end of the period and logged as in flight, one in any other status is refused unchanged.
\<close>

definition approval_scheduled :: "json \<Rightarrow> rec_row \<Rightarrow> waste_row \<Rightarrow> int \<Rightarrow> bool" where
  "approval_scheduled cfg r x n \<longleftrightarrow>
     no_pr_route cfg r x \<and> \<not> runs_dry cfg \<and> allows_execution cfg (r_type r)
     \<and> get_grace_period_days cfg = (Inr (JInt n) :: json sg) \<and> 0 < n"

lemma allows_mode: "allows_execution cfg ty \<Longrightarrow> effective_mode cfg ty = Inr (execution_mode ty)"
  by (auto simp: allows_execution_def effective_mode_def py_bind_def Let_def)

lemma api_approve_scheduled:
  assumes "rec_join rid w = Some (r, x)" "approval_scheduled cfg r x n"
  shows "api_approve app cfg rid w = schedule_execution app n rid r x w"
proof -
  obtain dv where dv: "get_dry_run cfg = Inr dv" "\<not> json_truthy dv"
    using assms(2) by (auto simp: approval_scheduled_def runs_dry_def split: sum.splits)
  have "grace_days cfg = Inr (of_int n)" "grace_int cfg = Some n" "0 < (of_int n :: rat)"
    using assms(2) by (simp_all add: approval_scheduled_def grace_days_def grace_int_def)
  then show ?thesis
    using assms dv allows_mode [of cfg "r_type r"] no_pr_route [of cfg r x]
    by (simp add: api_approve_def approval_scheduled_def allows_execution_def)
qed

theorem approval_in_grace_period:
  assumes "rec_join rid w = Some (r, x)" "approval_scheduled cfg r x n" "world_wf w"
    and "api_approve app cfg rid w = (res, w')"
  shows "aws_calls w' = aws_calls w
    \<and> (if r_status r = Pending
       then ac_success res \<and> ac_scheduled res
         \<and> t_get r_id rid (recs w') = Some (r\<lparr>r_status := Scheduled,
               r_execute_after := Some (e_now (ap_env app) + n * 86400)\<rparr>)
         \<and> map_option l_status (t_get l_id (t_next (alog w)) (alog w')) = Some LogPending
       else \<not> ac_success res \<and> w' = w)"
proof -
  let ?f = "\<lambda>q. q\<lparr>r_status := Scheduled, r_execute_after := Some (e_now (ap_env app) + n * 86400)\<rparr>"
  have get: "t_get r_id rid (recs w) = Some r"
    using assms(1) by (auto simp: rec_join_def split: option.splits)
  have wf: "t_wf r_id (recs w)" using assms(3) by (simp add: world_wf_def)
  have found: "fst (update_if rid [Pending] ?f w) \<longleftrightarrow> r_status r = Pending"
    using update_if_found [OF wf, of rid "[Pending]" ?f] get by (auto simp: status_of_def)
  have run: "(res, w') = schedule_execution app n rid r x w"
    using api_approve_scheduled [OF assms(1,2)] assms(4) by simp
  show ?thesis
  proof (cases "r_status r = Pending")
    case True
    have rec: "t_get r_id rid (recs (snd (update_if rid [Pending] ?f w))) = Some (?f r)"
      using get True by (simp add: update_if_recs rec_table.get_upd_guarded)
    have log: "t_wf l_id (alog (snd (update_if rid [Pending] ?f w)))"
      using assms(3) by (simp add: world_wf_def)
    show ?thesis
      using run True found rec get_add_log [OF log]
      by (simp add: schedule_execution_def Let_def case_prod_unfold plain_result_def)
  next
    case False
    then show ?thesis
      using run found update_if_none [of rid "[Pending]" ?f w]
      by (simp add: schedule_execution_def Let_def case_prod_unfold plain_result_def)
  qed
qed

definition grace_config :: json where
  "grace_config = JObj [(''dry_run'', JBool False), (''approval'', JObj [(''grace_period_days'', JInt 3)])]"

lemma grace_config_scheduled:
  "r_type r = ''stop_instance'' \<Longrightarrow> approval_scheduled grace_config r x 3"
  by (simp add: approval_scheduled_def no_pr_route_def load_backend_config_def grace_config_def
      dict_get_def json_or_empty_def tf_from_dict_def requires_pr_def runs_dry_def get_dry_run_def
      allows_execution_def execution_mode_def EXECUTION_MODES_def get_action_enabled_def config_get_def
      get_grace_period_days_def)

lemma sample_world_wf: "world_wf sample_world"
  by (simp add: world_wf_def sample_world_def t_wf_def)

theorem approval_in_grace_period_witness:
  "\<forall>app. aws_calls (snd (api_approve app grace_config 7 sample_world)) = aws_calls sample_world
     \<and> status_of 7 (snd (api_approve app grace_config 7 sample_world)) = Some Scheduled"
proof
  fix app
  obtain r x where s: "rec_join 7 sample_world = Some (r, x)" "r_type r = ''stop_instance''"
    "r_status r = Pending" by (rule sample_rec)
  show "aws_calls (snd (api_approve app grace_config 7 sample_world)) = aws_calls sample_world
     \<and> status_of 7 (snd (api_approve app grace_config 7 sample_world)) = Some Scheduled"
    using approval_in_grace_period [OF s(1) grace_config_scheduled [OF s(2)] sample_world_wf
        surjective_pairing, of app] s(3)
    by (simp add: status_of_def)
qed

definition approval_immediate :: "json \<Rightarrow> rec_row \<Rightarrow> waste_row \<Rightarrow> exec_mode \<Rightarrow> bool" where
  "approval_immediate cfg r x mode \<longleftrightarrow>
     no_pr_route cfg r x \<and> (\<exists>v. (get_dry_run cfg :: json sg) = Inr v)
     \<and> effective_mode cfg (r_type r) = Inr mode \<and> mode \<noteq> Remediator
     \<and> (\<exists>days. grace_days cfg = Inr days \<and> (mode = Manual \<or> runs_dry cfg \<or> days \<le> 0))"

lemma api_approve_immediate:
  assumes "rec_join rid w = Some (r, x)" "approval_immediate cfg r x mode"
  shows "api_approve app cfg rid w = approve_now app (runs_dry cfg) mode rid r x w"
  using assms no_pr_route [of cfg r x]
  by (auto simp: api_approve_def approval_immediate_def runs_dry_def)

text \<open>
  An approval that is executed at once or left to a human, on the direct path: manual review
  gives the status approved-manual and calls nothing; a dry run keeps the status; otherwise the
  instance is stopped or terminated and the status tells whether that succeeded. The earlier
  status plays no part: a dismissed or obsolete recommendation is executed like a pending one.
\<close>

theorem approval_now_outcome:
  assumes "rec_join rid w = Some (r, x)" "approval_immediate cfg r x mode"
    and "api_approve app cfg rid w = (res, w')"
  defines "err \<equiv> fst (execute_ec2_boto3 app (w_resource_id x) (r_type r) (stored_region x) w)"
  shows "status_of rid w' = Some (if mode = Manual then ApprovedManual
           else if runs_dry cfg then r_status r
           else if err = None then Approved else Pending)
    \<and> (ac_success res \<longleftrightarrow> mode = Manual \<or> runs_dry cfg \<or> err = None)
    \<and> (mode = Manual \<or> runs_dry cfg \<longrightarrow> aws_calls w' = aws_calls w)
    \<and> (\<forall>j. j \<noteq> rid \<longrightarrow> status_of j w' = status_of j w)"
proof -
  have get: "t_get r_id rid (recs w) = Some r"
    using assms(1) by (auto simp: rec_join_def split: option.splits)
  have mode: "mode = Manual \<or> mode = Boto3"
    using assms(2) by (cases mode) (simp_all add: approval_immediate_def)
  have run: "res = fst (approve_now app (runs_dry cfg) mode rid r x w)"
      "w' = snd (approve_now app (runs_dry cfg) mode rid r x w)"
    using api_approve_immediate [OF assms(1,2), of app] assms(3) by (metis fst_conv, metis snd_conv)
  have same: "status_of rid v = Some (r_status r)" if "recs v = recs w" for v
    using get that by (simp add: status_of_def)
  show ?thesis
    using mode get
    by (auto simp: run approve_now_def Let_def case_prod_unfold status_set_status err_def
        intro: same status_of_recs)
qed

theorem approval_now_outcome_witness:
  "rec_join 7 dismissed_world \<noteq> None \<and> status_of 7 dismissed_world = Some Dismissed
     \<and> status_of 7 (snd (api_approve running_app live_config 7 dismissed_world)) = Some Approved"
proof -
  obtain r x where s: "rec_join 7 dismissed_world = Some (r, x)" "r_type r = ''stop_instance''"
    "w_resource_id x = ''i-1''" "w_metadata x = []" "r_status r = Dismissed"
    by (rule that [of "hd (t_rows (recs dismissed_world))" "hd (t_rows (wastes dismissed_world))"])
      (simp_all add: dismissed_world_def sample_world_def rec_join_def t_get_def t_update_def)
  have now: "approval_immediate live_config r x Boto3"
    using s(2) live_no_pr live_config_answers by (auto simp: approval_immediate_def)
  have live: "\<not> runs_dry live_config" by (simp add: runs_dry_def live_config_answers)
  have "status_of 7 dismissed_world = Some Dismissed"
    using s by (auto simp: status_of_def rec_join_def split: option.splits)
  then show ?thesis
    using approval_now_outcome [OF s(1) now surjective_pairing, of running_app] s live
    by (simp add: sample_boto3 stored_region_def)
qed

end
