(* ===== verification/GraceCalls.thy ===== *)
theory GraceCalls
  imports Approvals
begin

text \<open>
  The AWS writes of the grace executor of \<open>ui/jobs.py\<close>, row by row: which calls an attempt may make,
  which it makes when it succeeds, and the calls of a whole run as one segment for each due row.
\<close>

section \<open>The calls of a row\<close>

text \<open>The regions the direct path looks in: the stored one first.\<close>

definition searched :: "app \<Rightarrow> waste_row \<Rightarrow> string list" where
  "searched app x =
     (if truthy (stored_region x)
      then the (stored_region x) # filter (\<lambda>r. r \<noteq> the (stored_region x)) (ap_regions app)
      else ap_regions app)"

definition remedial_region :: "app \<Rightarrow> waste_row \<Rightarrow> string" where
  "remedial_region app x = or_default (stored_region x) (ap_default_region app)"

text \<open>The calls that execute a recommendation, on its resource and in its region.\<close>

definition row_call :: "app \<Rightarrow> rec_row \<Rightarrow> waste_row \<Rightarrow> aws_call \<Rightarrow> bool" where
  "row_call app r x c =
     (case execution_mode (r_type r) of
        Manual \<Rightarrow> False
      | Boto3 \<Rightarrow> c \<in> set (map (boto3_write (r_type r) (w_resource_id x)) (searched app x))
      | Remediator \<Rightarrow>
          remedial_call (ap_aws app) (r_type r) (w_resource_id x) (remedial_region app x) c)"

text \<open>AWS reported the instance as ended, in a region that was searched.\<close>

definition ended_at :: "app \<Rightarrow> string \<Rightarrow> string \<Rightarrow> bool" where
  "ended_at app i region \<longleftrightarrow>
     (\<exists>v reservations st. ap_states app v region i = Inr reservations
        \<and> first_state reservations = Some st \<and> st \<in> {''terminated'', ''shutting-down''})"

definition seen_ended :: "app \<Rightarrow> waste_row \<Rightarrow> bool" where
  "seen_ended app x \<longleftrightarrow>
     (\<exists>region \<in> set (searched app x). ended_at app (w_resource_id x) region)"

text \<open>What carries out a recommendation: the call of its type, or an instance that had already ended.\<close>

definition carried_out :: "app \<Rightarrow> rec_row \<Rightarrow> waste_row \<Rightarrow> aws_call list \<Rightarrow> bool" where
  "carried_out app r x cs =
     (case execution_mode (r_type r) of
        Manual \<Rightarrow> False
      | Boto3 \<Rightarrow> (\<exists>region \<in> set (searched app x). boto3_write (r_type r) (w_resource_id x) region \<in> set cs)
                \<or> seen_ended app x
      | Remediator \<Rightarrow> first_write (r_type r) (w_resource_id x) (remedial_region app x) \<in> set cs)"

text \<open>The search either ends at an ended instance, or goes on, or writes.\<close>

lemma boto3_one:
  obtains (skip) errs' where "boto3_regions app i ty (region # rs) errs w = boto3_regions app i ty rs errs' w"
  | (ended) "ended_at app i region"
  | (wrote) errs' where "ty \<in> {''stop_instance'', ''terminate_instance''}"
      "boto3_regions app i ty (region # rs) errs w
       = (case fst (aws_do (ap_env app) (boto3_write ty i region) w) of
            None \<Rightarrow> (None, snd (aws_do (ap_env app) (boto3_write ty i region) w))
          | Some e \<Rightarrow> boto3_regions app i ty rs errs' (snd (aws_do (ap_env app) (boto3_write ty i region) w)))"
proof (cases "ty \<in> {''stop_instance'', ''terminate_instance''}")
  case False
  then show thesis by (intro skip [of errs]) (simp add: boto3_regions.simps(2))
next
  case ty: True
  show thesis
  proof (cases "ap_states app w region i")
    case (Inl e)
    with ty show thesis by (intro skip [of "errs @ [(region, BotoAws e)]"]) (simp add: boto3_regions.simps(2))
  next
    case (Inr res)
    consider "res = []" | "res \<noteq> []" "first_state res = None"
      | st where "res \<noteq> []" "first_state res = Some st" by (cases "first_state res") auto
    then show thesis
    proof cases
      case 1
      with ty Inr show thesis by (intro skip [of errs]) (simp add: boto3_regions.simps(2))
    next
      case 2
      with ty Inr show thesis
        by (intro skip [of "errs @ [(region, BotoIndexError)]"]) (simp add: boto3_regions.simps(2))
    next
      case (3 st)
      show thesis
      proof (cases "st \<in> {''terminated'', ''shutting-down''}")
        case True
        with Inr 3 have "ended_at app i region" unfolding ended_at_def by blast
        then show thesis by (rule ended)
      next
        case False
        obtain e w1 where w1: "aws_do (ap_env app) (boto3_write ty i region) w = (e, w1)" by fastforce
        have "boto3_regions app i ty (region # rs) errs w =
          (case aws_do (ap_env app) (boto3_write ty i region) w of
             (None, w1) \<Rightarrow> (None, w1)
           | (Some e, w1) \<Rightarrow> boto3_regions app i ty rs (errs @ [(region, BotoAws e)]) w1)"
          using ty Inr 3 False unfolding boto3_write_def by (simp add: boto3_regions.simps(2))
        with w1 show thesis
          by (cases e) (auto intro: wrote [OF ty, of errs] wrote [OF ty, of "errs @ [(region, BotoAws (the e))]"])
      qed
    qed
  qed
qed

lemma boto3_success:
  assumes "boto3_regions app i ty rs errs w = (None, w')"
  shows "\<exists>pre. aws_calls w' = aws_calls w @ pre
    \<and> ((\<exists>region \<in> set rs. boto3_write ty i region \<in> set pre) \<or> (\<exists>region \<in> set rs. ended_at app i region))"
  using assms
proof (induction rs arbitrary: errs w)
  case (Cons region rs)
  obtain cs where cs: "aws_calls w' = aws_calls w @ cs"
    using boto3_regions_calls [of app i ty "region # rs" errs w] Cons.prems by auto
  show ?case
  proof (cases rule: boto3_one [of app i ty region rs errs w])
    case (skip errs')
    with Cons.prems Cons.IH [of errs' w] show ?thesis by auto
  next
    case ended
    with cs show ?thesis by auto
  next
    case (wrote errs')
    let ?aws = "aws_do (ap_env app) (boto3_write ty i region) w"
    show ?thesis
    proof (cases "fst ?aws")
      case None
      with wrote Cons.prems show ?thesis by auto
    next
      case (Some e)
      with wrote Cons.prems have "boto3_regions app i ty rs errs' (snd ?aws) = (None, w')" by simp
      from Cons.IH [OF this] show ?thesis by auto
    qed
  qed
qed simp

section \<open>One attempt\<close>

lemma execution_mode_types:
  "execution_mode ty = Boto3 \<Longrightarrow> ty \<in> {''stop_instance'', ''terminate_instance''}"
  "execution_mode ty = Remediator \<Longrightarrow> ty \<in> set REMEDIATED_TYPES \<and> ty \<notin> {''stop_instance'', ''terminate_instance''}"
  by (auto simp: execution_mode_def EXECUTION_MODES_def REMEDIATED_TYPES_def split: if_splits)

lemma boto3_attempt:
  "\<exists>cs. aws_calls (snd (execute_ec2_boto3 app (w_resource_id x) ty (stored_region x) w)) = aws_calls w @ cs
     \<and> set cs \<subseteq> set (map (boto3_write ty (w_resource_id x)) (searched app x))
     \<and> (fst (execute_ec2_boto3 app (w_resource_id x) ty (stored_region x) w) = None \<longrightarrow>
          (\<exists>region \<in> set (searched app x). boto3_write ty (w_resource_id x) region \<in> set cs) \<or> seen_ended app x)"
proof -
  let ?run = "boto3_regions app (w_resource_id x) ty (searched app x) [] w"
  have run: "execute_ec2_boto3 app (w_resource_id x) ty (stored_region x) w = ?run"
    by (simp add: execute_ec2_boto3_def searched_def Let_def)
  obtain cs where cs: "aws_calls (snd ?run) = aws_calls w @ cs"
    "subseq cs (map (boto3_write ty (w_resource_id x)) (searched app x))"
    using boto3_regions_calls [of app "w_resource_id x" ty "searched app x" "[]" w] by blast
  have "set cs \<subseteq> set (map (boto3_write ty (w_resource_id x)) (searched app x))"
    by (rule subsetI) (erule list_emb_set [OF cs(2)], simp)
  moreover have "(\<exists>region \<in> set (searched app x). boto3_write ty (w_resource_id x) region \<in> set cs) \<or> seen_ended app x"
    if "fst ?run = None"
    using boto3_success [of app "w_resource_id x" ty "searched app x" "[]" w "snd ?run"] that cs(1)
    by (auto simp: prod_eq_iff seen_ended_def)
  ultimately show ?thesis unfolding run by (intro exI [of _ cs]) (use cs(1) in blast)
qed

text \<open>The remediator finds the recommendation of the row in the database.\<close>

definition row_found :: "rec_row \<Rightarrow> waste_row \<Rightarrow> world \<Rightarrow> bool" where
  "row_found r x w \<longleftrightarrow> (\<exists>q. rec_join (r_id r) w = Some (q, x) \<and> r_type q = r_type r)"

lemma remedial_attempt:
  assumes found: "row_found r x w" and mode: "execution_mode (r_type r) = Remediator"
  shows "\<exists>cs. aws_calls (snd (proxy_execute app cfg dry (r_id r) n w)) = aws_calls w @ cs
     \<and> (dry \<longrightarrow> cs = [])
     \<and> (\<forall>c \<in> set cs. remedial_call (ap_aws app) (r_type r) (w_resource_id x) (remedial_region app x) c)
     \<and> (ac_success (fst (proxy_execute app cfg dry (r_id r) n w)) \<and> \<not> dry \<longrightarrow>
          first_write (r_type r) (w_resource_id x) (remedial_region app x) \<in> set cs)"
proof -
  obtain q where q: "rec_join (r_id r) w = Some (q, x)" "r_type q = r_type r"
    using found by (auto simp: row_found_def)
  note ty = execution_mode_types(2) [OF mode]
  show ?thesis
  proof (cases "load_config cfg :: json sg")
    case (Inl e)
    then show ?thesis using ty by (simp add: proxy_execute_def q plain_result_def)
  next
    case (Inr c)
    show ?thesis
    proof (cases "remediate_by_recommendation (ap_aws app) (r_type r) (ap_default_region app) c (ap_env app) dry
        (w_resource_id x) (r_id r) (stored_region x) w")
      case None
      then show ?thesis using ty Inr by (simp add: proxy_execute_def q plain_result_def)
    next
      case (Some y)
      obtain res w1 where y: "y = (res, w1)" by fastforce
      from dispatch_calls [OF Some [unfolded y]] show ?thesis
        using ty Inr Some by (simp add: proxy_execute_def q plain_result_def y remedial_region_def)
    qed
  qed
qed

lemma attempt_calls:
  assumes mode: "effective_mode cfg (r_type r) = Inr mode" and found: "row_found r x w"
  shows "\<exists>cs. aws_calls (snd (grace_attempt app cfg dry mode r x w)) = aws_calls w @ cs
     \<and> (\<forall>c \<in> set cs. \<not> dry \<and> allows_execution cfg (r_type r) \<and> row_call app r x c)
     \<and> (fst (fst (grace_attempt app cfg dry mode r x w)) \<and> \<not> dry \<and> mode \<noteq> Manual \<longrightarrow> carried_out app r x cs)"
proof (cases mode)
  case Manual
  then show ?thesis by (simp add: grace_attempt_def)
next
  case Boto3
  with effective_mode_allows [OF mode] have m: "execution_mode (r_type r) = Boto3" "allows_execution cfg (r_type r)"
    by simp_all
  obtain cs where "aws_calls (snd (execute_ec2_boto3 app (w_resource_id x) (r_type r) (stored_region x) w)) = aws_calls w @ cs"
    "set cs \<subseteq> set (map (boto3_write (r_type r) (w_resource_id x)) (searched app x))"
    "fst (execute_ec2_boto3 app (w_resource_id x) (r_type r) (stored_region x) w) = None \<longrightarrow>
      (\<exists>region \<in> set (searched app x). boto3_write (r_type r) (w_resource_id x) region \<in> set cs) \<or> seen_ended app x"
    using boto3_attempt by blast
  then show ?thesis
    using m Boto3 by (cases dry) (auto simp: grace_attempt_def case_prod_unfold row_call_def carried_out_def)
next
  case Remediator
  with effective_mode_allows [OF mode] have m: "execution_mode (r_type r) = Remediator" "allows_execution cfg (r_type r)"
    by simp_all
  from remedial_attempt [OF found m(1), of app cfg dry 0] show ?thesis
    using m Remediator by (auto simp: grace_attempt_def case_prod_unfold row_call_def carried_out_def)
qed

section \<open>One run\<close>

lemma row_found_joined:
  assumes "t_wf r_id (recs w)" "(r, x) \<in> set (joined w)"
  shows "row_found r x w"
proof -
  have "r \<in> set (t_rows (recs w))" "t_get w_id (r_waste r) (wastes w) = Some x"
    using assms(2) by (auto simp: joined_def List.map_filter_def)
  with t_get_of_mem [OF assms(1)] show ?thesis by (auto simp: row_found_def rec_join_def)
qed

lemma grace_row_keeps_wastes: "wastes (grace_row app cfg dry mode r x w) = wastes w"
  using grace_attempt_recs [of app cfg dry mode r x w]
  by (simp add: grace_row_def Let_def case_prod_unfold set_status_def)

lemma row_found_grace_row: "row_found r x w \<Longrightarrow> row_found r x (grace_row app cfg dry mode q y w)"
  by (auto simp: row_found_def rec_join_def grace_row_recs grace_row_keeps_wastes split: option.splits)

lemma no_segments: "(\<And>y. P y []) \<Longrightarrow> list_all2 P ys (replicate (length ys) [])"
  by (induction ys) simp_all

lemma grace_rows_calls:
  assumes "\<And>r x. (r, x) \<in> set rows \<Longrightarrow> row_found r x w"
  shows "\<exists>segments. aws_calls (grace_rows app cfg dry rows w) = aws_calls w @ concat segments
    \<and> list_all2 (\<lambda>(r, x) cs. \<forall>c \<in> set cs. \<not> dry \<and> allows_execution cfg (r_type r) \<and> row_call app r x c) rows segments"
  using assms
proof (induction rows arbitrary: w)
  case Nil
  then show ?case by (intro exI [of _ "[]"]) simp
next
  case (Cons row rows)
  obtain r x where row: "row = (r, x)" by fastforce
  show ?case
  proof (cases "effective_mode cfg (r_type r)")
    case (Inl e)
    then have "aws_calls (grace_rows app cfg dry (row # rows) w) = aws_calls w @ concat (replicate (length (row # rows)) [])"
      by (simp add: row)
    moreover have "list_all2 (\<lambda>(r, x) cs. \<forall>c \<in> set cs. \<not> dry \<and> allows_execution cfg (r_type r) \<and> row_call app r x c)
        (row # rows) (replicate (length (row # rows)) [])" by (rule no_segments) (simp split: prod.split)
    ultimately show ?thesis by blast
  next
    case (Inr mode)
    let ?w1 = "grace_row app cfg dry mode r x w"
    obtain cs where cs: "aws_calls ?w1 = aws_calls w @ cs"
      "\<forall>c \<in> set cs. \<not> dry \<and> allows_execution cfg (r_type r) \<and> row_call app r x c"
    proof -
      have "row_found r x w" by (rule Cons.prems) (simp add: row)
      from attempt_calls [OF Inr this, of app dry] that show thesis unfolding grace_row_calls by blast
    qed
    obtain segments where "aws_calls (grace_rows app cfg dry rows ?w1) = aws_calls ?w1 @ concat segments"
      "list_all2 (\<lambda>(r, x) cs. \<forall>c \<in> set cs. \<not> dry \<and> allows_execution cfg (r_type r) \<and> row_call app r x c) rows segments"
    proof -
      have "row_found q y ?w1" if "(q, y) \<in> set rows" for q y
        by (rule row_found_grace_row, rule Cons.prems) (simp add: that)
      from Cons.IH [OF this] that show thesis by blast
    qed
    with cs Inr show ?thesis by (intro exI [of _ "cs # segments"]) (simp add: row)
  qed
qed

text \<open>The calls of the job, one segment for each due row, in the order of the rows.\<close>

lemma executor_calls:
  assumes wf: "t_wf r_id (recs w)"
  shows "\<exists>segments. aws_calls (grace_executor_job app cfg w) = aws_calls w @ concat segments
    \<and> list_all2 (\<lambda>(r, x) cs. \<forall>c \<in> set cs. \<not> runs_dry cfg \<and> allows_execution cfg (r_type r) \<and> row_call app r x c)
        (due_recommendations (ap_env app) w) segments"
proof (cases "due_recommendations (ap_env app) w = [] \<or> (\<exists>e. (get_dry_run cfg :: json sg) = Inl e)")
  case True
  then have "grace_executor_job app cfg w = w" by (auto simp: grace_executor_job_def Let_def)
  then have "aws_calls (grace_executor_job app cfg w)
      = aws_calls w @ concat (replicate (length (due_recommendations (ap_env app) w)) [])" by simp
  moreover have "list_all2 (\<lambda>(r, x) cs. \<forall>c \<in> set cs. \<not> runs_dry cfg \<and> allows_execution cfg (r_type r) \<and> row_call app r x c)
      (due_recommendations (ap_env app) w) (replicate (length (due_recommendations (ap_env app) w)) [])"
    by (rule no_segments) (simp split: prod.split)
  ultimately show ?thesis by blast
next
  case False
  then obtain dv where dv: "get_dry_run cfg = Inr dv" by (cases "get_dry_run cfg :: json sg") auto
  have "row_found r x w" if "(r, x) \<in> set (due_recommendations (ap_env app) w)" for r x
    using row_found_joined [OF wf] due_facts(2) [OF wf that] by blast
  from grace_rows_calls [OF this, where app = app and cfg = cfg and dry = "json_truthy dv"] show ?thesis
    using False dv by (simp add: grace_executor_job_def Let_def runs_dry_def)
qed

end
