(* ===== verification/Reconcile.thy ===== *)
theory Reconcile
  imports GraceCalls "HOL-Library.Multiset"
begin

text \<open>
  What the synchronisation with AWS may conclude: a recommendation is resolved only on evidence
  (every region answered without the resource, or AWS reports the instance stopped), and the
  button and the job conclude the same. Then the reconciliation of pull requests and the
  schedule of instances.
\<close>

section \<open>Evidence\<close>

definition absent_everywhere :: "sync_api \<Rightarrow> string list \<Rightarrow> string \<Rightarrow> string list \<Rightarrow> string \<Rightarrow> bool" where
  "absent_everywhere sy regions rtype ids i \<longleftrightarrow>
     i \<in> set ids
     \<and> (\<forall>region \<in> set regions. \<exists>found. existing_in_region sy rtype ids region = Inr found \<and> i \<notin> set found)"

definition reported_stopped :: "sync_api \<Rightarrow> string list \<Rightarrow> string list \<Rightarrow> string \<Rightarrow> string \<Rightarrow> bool" where
  "reported_stopped sy regions ids ty i \<longleftrightarrow>
     (\<exists>region \<in> set regions. \<exists>res st. sy_instances sy region ids = Inr res
        \<and> (i, st) \<in> set (concat res) \<and> stopped_outside ty st)"

lemma check_regions_count: "snd (check_regions f rs) \<le> length rs"
  by (induction rs) (auto simp: Let_def case_prod_unfold split: sum.splits)

lemma check_regions_all:
  "snd (check_regions f rs) = length rs \<Longrightarrow> region \<in> set rs \<Longrightarrow>
   \<exists>found. f region = Inr found \<and> set found \<subseteq> set (fst (check_regions f rs))"
proof (induction rs)
  case (Cons r rs)
  show ?case
  proof (cases "f r")
    case (Inl e)
    then have "snd (check_regions f rs) = Suc (length rs)"
      using Cons.prems(1) by (simp add: Let_def case_prod_unfold)
    then show ?thesis using check_regions_count [of f rs] by simp
  next
    case (Inr ids)
    then show ?thesis
      using Cons.prems Cons.IH by (auto simp: Let_def case_prod_unfold)
  qed
qed simp

lemma find_vanished_sound:
  "(t, gone) \<in> set (find_vanished_resources sy regions pending) \<Longrightarrow>
   \<exists>ids. (t, ids) \<in> set pending \<and> (\<forall>i \<in> set gone. absent_everywhere sy regions t ids i)"
proof (induction pending)
  case (Cons p pending)
  obtain t' ids where p: "p = (t', ids)" by fastforce
  let ?c = "check_regions (existing_in_region sy t' ids) regions"
  show ?case
  proof (cases "(t, gone) \<in> set (find_vanished_resources sy regions pending)")
    case True
    with Cons.IH show ?thesis by auto
  next
    case False
    then have facts: "snd ?c = length regions" "t = t'" "gone = filter (\<lambda>i. i \<notin> set (fst ?c)) ids"
      using Cons.prems check_regions_count [of "existing_in_region sy t' ids" regions]
      by (auto simp: p Let_def case_prod_unfold split: if_splits)
    then have "absent_everywhere sy regions t ids i" if "i \<in> set gone" for i
      using that check_regions_all [OF facts(1)] by (fastforce simp: absent_everywhere_def)
    then show ?thesis using p facts(2) by auto
  qed
qed simp

lemma map_of_fold_update:
  "map_of (fold (\<lambda>(i, st). AList.update i st) kvs d) k = Some v \<Longrightarrow>
   map_of d k = Some v \<or> (k, v) \<in> set kvs"
proof (induction kvs arbitrary: d)
  case (Cons kv kvs)
  obtain a b where kv: "kv = (a, b)" by fastforce
  from Cons.prems have "map_of (AList.update a b d) k = Some v \<or> (k, v) \<in> set kvs"
    using Cons.IH kv by simp
  then show ?case by (auto simp: kv update_conv' split: if_splits)
qed simp

lemma map_of_fold_update_None:
  "map_of (fold (\<lambda>(i, st). AList.update i st) kvs d) k = None \<Longrightarrow>
   map_of d k = None \<and> k \<notin> fst ` set kvs"
proof (induction kvs arbitrary: d)
  case (Cons kv kvs)
  obtain a b where kv: "kv = (a, b)" by fastforce
  from Cons.prems have "map_of (AList.update a b d) k = None \<and> k \<notin> fst ` set kvs"
    using Cons.IH kv by simp
  then show ?case by (auto simp: kv update_conv' split: if_splits)
qed simp

lemma sweep_found:
  "map_of (fst (sweep_instances sy ids rs states failed)) i = Some st \<Longrightarrow>
   map_of states i = Some st
   \<or> (\<exists>region \<in> set rs. \<exists>res. sy_instances sy region ids = Inr res \<and> (i, st) \<in> set (concat res))"
proof (induction rs arbitrary: states failed)
  case (Cons r rs)
  show ?case
  proof (cases "sy_instances sy r ids")
    case (Inl e)
    with Cons show ?thesis by fastforce
  next
    case (Inr res)
    with Cons.prems Cons.IH
    have "map_of (fold (\<lambda>(i, st). AList.update i st) (concat res) states) i = Some st
      \<or> (\<exists>region \<in> set rs. \<exists>res. sy_instances sy region ids = Inr res \<and> (i, st) \<in> set (concat res))"
      by simp
    with Inr show ?thesis using map_of_fold_update [of "concat res" states i st] by auto
  qed
qed simp

lemma sweep_missing:
  "sweep_instances sy ids rs states failed = (states', False) \<Longrightarrow> map_of states' i = None \<Longrightarrow>
   \<not> failed \<and> map_of states i = None
   \<and> (\<forall>region \<in> set rs. \<exists>res. sy_instances sy region ids = Inr res \<and> i \<notin> fst ` set (concat res))"
proof (induction rs arbitrary: states failed)
  case (Cons r rs)
  show ?case
  proof (cases "sy_instances sy r ids")
    case (Inl e)
    with Cons show ?thesis by fastforce
  next
    case (Inr res)
    with Cons.prems Cons.IH [of "fold (\<lambda>(i, st). AList.update i st) (concat res) states" failed]
    show ?thesis using map_of_fold_update_None [of "concat res" states i] by auto
  qed
qed simp

lemma sweep_absent:
  assumes "sweep_instances sy ids regions [] False = (states, False)" "map_of states i = None"
    and "i \<in> set ids"
  shows "absent_everywhere sy regions ''ec2_instance'' ids i"
proof -
  have "\<exists>found. existing_in_region sy ''ec2_instance'' ids region = Inr found \<and> i \<notin> set found"
    if region: "region \<in> set regions" for region
  proof -
    obtain res where res: "sy_instances sy region ids = Inr res" "i \<notin> fst ` set (concat res)"
      using sweep_missing [OF assms(1,2)] region by blast
    have "i \<notin> set (map fst (filter (\<lambda>(i, st). st \<noteq> ''terminated'') (concat res)))"
      using res(2) by force
    then show ?thesis using res(1) by (simp add: existing_in_region_def existing_instances_def)
  qed
  with assms(3) show ?thesis by (simp add: absent_everywhere_def)
qed

section \<open>Resolving on evidence\<close>

text \<open>The columns that tie a recommendation to its resource.\<close>

definition same_refs :: "world \<Rightarrow> world \<Rightarrow> bool" where
  "same_refs w v \<longleftrightarrow>
     (\<forall>j. map_option (\<lambda>r. (r_waste r, r_type r)) (t_get r_id j (recs v))
        = map_option (\<lambda>r. (r_waste r, r_type r)) (t_get r_id j (recs w)))
     \<and> (\<forall>k. map_option (\<lambda>x. (w_resource_id x, w_resource_type x)) (t_get w_id k (wastes v))
        = map_option (\<lambda>x. (w_resource_id x, w_resource_type x)) (t_get w_id k (wastes w)))"

text \<open>Each status is as before, or was open and is resolved with evidence \<open>P\<close>.\<close>

definition resolved_by ::
    "(string \<Rightarrow> string \<Rightarrow> string \<Rightarrow> bool) \<Rightarrow> world \<Rightarrow> world \<Rightarrow> bool" where
  "resolved_by P w v \<longleftrightarrow> same_refs w v \<and>
     (\<forall>j. status_of j v = status_of j w
       \<or> (\<exists>r x. rec_join j w = Some (r, x) \<and> r_status r \<in> set SYNCABLE_STATUSES
            \<and> status_of j v = Some (if r_status r = ApprovedManual then Applied else Obsolete)
            \<and> P (r_type r) (w_resource_id x) (w_resource_type x)))"

lemma resolved_by_refl [intro]: "resolved_by P w w"
  by (simp add: resolved_by_def same_refs_def)

lemma same_refs_join:
  assumes "same_refs w v" "t_get r_id j (recs v) = Some r" "t_get w_id (r_waste r) (wastes v) = Some x"
  obtains r' x' where "rec_join j w = Some (r', x')" "r_type r' = r_type r"
    "w_resource_id x' = w_resource_id x" "w_resource_type x' = w_resource_type x"
proof -
  have "map_option (\<lambda>r. (r_waste r, r_type r)) (t_get r_id j (recs v))
      = map_option (\<lambda>r. (r_waste r, r_type r)) (t_get r_id j (recs w))"
    using assms(1) unfolding same_refs_def by blast
  then obtain r' where r': "t_get r_id j (recs w) = Some r'" "r_waste r' = r_waste r" "r_type r' = r_type r"
    using assms(2) by (cases "t_get r_id j (recs w)") auto
  have "map_option (\<lambda>x. (w_resource_id x, w_resource_type x)) (t_get w_id (r_waste r) (wastes v))
      = map_option (\<lambda>x. (w_resource_id x, w_resource_type x)) (t_get w_id (r_waste r) (wastes w))"
    using assms(1) unfolding same_refs_def by blast
  then obtain x' where "t_get w_id (r_waste r) (wastes w) = Some x'"
    "w_resource_id x' = w_resource_id x" "w_resource_type x' = w_resource_type x"
    using assms(3) by (cases "t_get w_id (r_waste r) (wastes w)") auto
  with r' show thesis by (intro that [of r' x']) (simp_all add: rec_join_def)
qed

lemma same_refs_resolve:
  assumes "same_refs w v" "wastes v' = wastes v" "recs v' = t_update q (resolve env) (recs v)"
  shows "same_refs w v'"
proof -
  have "map_option (\<lambda>r. (r_waste r, r_type r)) (t_get r_id j (recs v'))
      = map_option (\<lambda>r. (r_waste r, r_type r)) (t_get r_id j (recs v))" for j
    unfolding assms(3) rec_table.get_upd [OF resolve_id]
    by (cases "t_get r_id j (recs v)") (auto simp: resolve_def)
  then show ?thesis using assms(1,2) by (simp add: same_refs_def)
qed

lemma resolved_step:
  assumes res: "resolved_by P w v" "wastes v' = wastes v" "recs v' = t_update q (resolve env) (recs v)"
    and q: "\<And>r. r \<in> set (t_rows (recs v)) \<Longrightarrow> q r \<Longrightarrow> r_status r \<in> set SYNCABLE_STATUSES
        \<and> (\<exists>x. t_get w_id (r_waste r) (wastes v) = Some x \<and> P (r_type r) (w_resource_id x) (w_resource_type x))"
  shows "resolved_by P w v'"
  unfolding resolved_by_def
proof (intro conjI allI)
  have refs: "same_refs w v" using res(1) by (simp add: resolved_by_def)
  show "same_refs w v'" using same_refs_resolve [OF refs res(2,3)] .
  fix j
  let ?goal = "\<lambda>v. status_of j v = status_of j w
    \<or> (\<exists>r x. rec_join j w = Some (r, x) \<and> r_status r \<in> set SYNCABLE_STATUSES
          \<and> status_of j v = Some (if r_status r = ApprovedManual then Applied else Obsolete)
          \<and> P (r_type r) (w_resource_id x) (w_resource_type x))"
  have old: "?goal v" using res(1) unfolding resolved_by_def by blast
  show "?goal v'"
  proof (cases "t_get r_id j (recs v)")
    case None
    then have "status_of j v' = status_of j v"
      by (simp add: status_of_def res(3) rec_table.get_upd [OF resolve_id])
    with old show ?thesis by simp
  next
    case (Some r)
    have st': "status_of j v' = Some (r_status (if q r then resolve env r else r))"
      using Some by (simp add: status_of_def res(3) rec_table.get_upd [OF resolve_id])
    show ?thesis
    proof (cases "q r")
      case False
      then have "status_of j v' = status_of j v" using st' Some by (simp add: status_of_def)
      with old show ?thesis by simp
    next
      case True
      have mem: "r \<in> set (t_rows (recs v))" using t_get_mem [OF Some] by simp
      obtain x where x: "t_get w_id (r_waste r) (wastes v) = Some x"
          "P (r_type r) (w_resource_id x) (w_resource_type x)" and open_st: "r_status r \<in> set SYNCABLE_STATUSES"
        using q [OF mem True] by blast
      obtain r' x' where j: "rec_join j w = Some (r', x')" "r_type r' = r_type r"
          "w_resource_id x' = w_resource_id x" "w_resource_type x' = w_resource_type x"
        by (rule same_refs_join [OF refs Some x(1)])
      have "status_of j v = status_of j w"
        using old open_st Some by (auto simp: status_of_def SYNCABLE_STATUSES_def split: if_splits)
      then have "r_status r' = r_status r"
        using j(1) Some by (auto simp: status_of_def rec_join_def split: option.splits)
      then show ?thesis
        using st' True j x(2) open_st by (auto simp: resolve_def)
    qed
  qed
qed

lemma resolved_where:
  assumes "resolved_by P w v"
    and "\<And>ty x. p x \<Longrightarrow> P ty (w_resource_id x) (w_resource_type x)"
  shows "resolved_by P w (snd (resolve_where env p v))"
  by (rule resolved_step [OF assms(1), where q = "\<lambda>r. waste_matches p v r \<and> r_status r \<in> set SYNCABLE_STATUSES"
        and env = env])
    (use assms(2) in \<open>auto simp: resolve_where_def Let_def waste_matches_def split: option.splits\<close>)

lemma resolved_all:
  assumes "resolved_by P w v"
    and "\<And>t ids i ty. (t, ids) \<in> set vs \<Longrightarrow> i \<in> set ids \<Longrightarrow> P ty i t"
  shows "resolved_by P w (snd (resolve_all env vs v))"
  using assms
proof (induction vs arbitrary: v)
  case (Cons p vs)
  obtain t ids where p: "p = (t, ids)" by fastforce
  have "resolved_by P w (snd (resolve_vanished env t ids v))"
    unfolding resolve_vanished_def
    by (rule resolved_where [OF Cons.prems(1)]) (use Cons.prems(2) p in auto)
  then have "resolved_by P w (snd (resolve_all env vs (snd (resolve_vanished env t ids v))))"
    by (rule Cons.IH) (use Cons.prems(2) in auto)
  then show ?case by (simp add: p case_prod_unfold Let_def)
qed simp

lemma resolved_store:
  assumes "resolved_by P w v"
  shows "resolved_by P w (store_state i st v)"
proof -
  let ?f = "\<lambda>x. x\<lparr>w_metadata := AList.update ''instance_state'' (JStr st) (w_metadata x)\<rparr>"
  have "map_option (\<lambda>x. (w_resource_id x, w_resource_type x)) (t_get w_id k (wastes (store_state i st v)))
      = map_option (\<lambda>x. (w_resource_id x, w_resource_type x)) (t_get w_id k (wastes v))" for k
    by (cases "t_get w_id k (wastes v)") (auto simp: store_state_def waste_table.get_upd)
  then show ?thesis using assms by (simp add: resolved_by_def same_refs_def status_of_def)
qed

text \<open>The open recommendations of one instance, as the query returned them.\<close>

definition open_row :: "string \<Rightarrow> world \<Rightarrow> rec_row \<Rightarrow> bool" where
  "open_row i v r \<longleftrightarrow> r \<in> set (t_rows (recs v)) \<and> r_status r \<in> set SYNCABLE_STATUSES
     \<and> (\<exists>x. t_get w_id (r_waste r) (wastes v) = Some x \<and> w_resource_id x = i)"

lemma open_row_store: "open_row i v r \<Longrightarrow> open_row i (store_state k st v) r"
proof -
  assume "open_row i v r"
  moreover obtain x where "t_get w_id (r_waste r) (wastes v) = Some x" "w_resource_id x = i"
    using calculation by (auto simp: open_row_def)
  moreover from this have "\<exists>y. t_get w_id (r_waste r) (wastes (store_state k st v)) = Some y \<and> w_resource_id y = i"
    by (auto simp: store_state_def waste_table.get_upd)
  ultimately show ?thesis by (simp add: open_row_def)
qed

lemma open_row_set_status:
  "open_row i v q \<Longrightarrow> r_id q \<noteq> k \<Longrightarrow> open_row i (set_status k f v) q"
  by (auto simp: open_row_def set_status_def t_update_def image_iff)

lemma resolved_sync_recs:
  assumes "resolved_by P w v" "t_wf r_id (recs v)" "distinct (map r_id rs)"
    and "\<And>r. r \<in> set rs \<Longrightarrow> open_row i v r"
    and "\<And>ty rt. stopped_outside ty st \<Longrightarrow> P ty i rt"
  shows "resolved_by P w (snd (sync_recs env i st rs v))"
  using assms(1-4)
proof (induction rs arbitrary: v)
  case (Cons r rs)
  show ?case
  proof (cases "stopped_outside (r_type r) st")
    case False
    have "resolved_by P w (snd (sync_recs env i st rs (store_state i st v)))"
    proof (rule Cons.IH)
      show "resolved_by P w (store_state i st v)" using Cons.prems(1) by (rule resolved_store)
      show "open_row i (store_state i st v) q" if "q \<in> set rs" for q
        using that Cons.prems(4) by (simp add: open_row_store)
    qed (use Cons.prems in auto)
    with False show ?thesis by (simp add: case_prod_unfold Let_def)
  next
    case True
    let ?v1 = "set_status (r_id r) (resolve env) v"
    have r: "open_row i v r" using Cons.prems(4) by simp
    have "resolved_by P w ?v1"
    proof (rule resolved_step [OF Cons.prems(1)])
      show "recs ?v1 = t_update (\<lambda>q. r_id q = r_id r) (resolve env) (recs v)" by (simp add: set_status_def)
      fix q assume q: "q \<in> set (t_rows (recs v))" "r_id q = r_id r"
      have "r \<in> set (t_rows (recs v))" using r by (simp add: open_row_def)
      then have "q = r"
        using q Cons.prems(2) by (auto simp: t_wf_def distinct_map inj_on_def)
      then show "r_status q \<in> set SYNCABLE_STATUSES \<and> (\<exists>x. t_get w_id (r_waste q) (wastes v) = Some x
          \<and> P (r_type q) (w_resource_id x) (w_resource_type x))"
        using r True assms(5) by (auto simp: open_row_def)
    qed simp
    then have "resolved_by P w (snd (sync_recs env i st rs ?v1))"
    proof (rule Cons.IH)
      show "t_wf r_id (recs ?v1)" using Cons.prems(2) by (simp add: wf_set_status)
      show "open_row i ?v1 q" if q: "q \<in> set rs" for q
        using q Cons.prems(3,4) by (intro open_row_set_status) (auto simp: image_iff)
    qed (use Cons.prems(3) in auto)
    with True show ?thesis by (simp add: case_prod_unfold Let_def)
  qed
qed simp

lemma open_recs_open:
  assumes "r \<in> set (open_recs_of i v)"
  shows "open_row i v r"
  using assms by (auto simp: open_recs_of_def open_row_def dest: joined_mem)

lemma resolved_sync_instances:
  assumes "resolved_by P w v" "t_wf r_id (recs v)"
    and missing: "\<And>i ty rt. i \<in> set is \<Longrightarrow> map_of states i = None \<Longrightarrow> \<not> failed \<Longrightarrow> P ty i rt"
    and stopped: "\<And>i st ty rt. i \<in> set is \<Longrightarrow> map_of states i = Some st \<Longrightarrow> stopped_outside ty st \<Longrightarrow> P ty i rt"
  shows "resolved_by P w (snd (sync_instances env states failed is v))"
  using assms
proof (induction "is" arbitrary: v)
  case (Cons i "is")
  define v1 where "v1 = snd (case map_of states i of
               None \<Rightarrow> if failed then ((0::nat, 0::nat), v)
                       else (let (n, w1) = resolve_where env (\<lambda>x. w_resource_id x = i) v in ((0, n), w1))
             | Some st \<Rightarrow> sync_recs env i st (open_recs_of i v) v)"
  have "resolved_by P w v1 \<and> t_wf r_id (recs v1)"
  proof (cases "map_of states i")
    case None
    show ?thesis
    proof (cases failed)
      case False
      have "resolved_by P w (snd (resolve_where env (\<lambda>x. w_resource_id x = i) v))"
        by (rule resolved_where [OF Cons.prems(1)]) (use Cons.prems(3) None False in auto)
      then show ?thesis
        using None False Cons.prems(2) by (simp add: v1_def case_prod_unfold Let_def wf_resolve_where)
    qed (use None Cons.prems(1,2) v1_def in simp)
  next
    case (Some st)
    have "resolved_by P w (snd (sync_recs env i st (open_recs_of i v) v))"
      by (rule resolved_sync_recs [OF Cons.prems(1,2) open_recs_facts(1) [OF Cons.prems(2)] open_recs_open])
        (use Cons.prems(4) Some in auto)
    then show ?thesis
      using Some sync_recs_moves [OF Cons.prems(2) open_recs_facts [OF Cons.prems(2)]] by (simp add: v1_def)
  qed
  then have "resolved_by P w (snd (sync_instances env states failed is v1))"
    using Cons.IH Cons.prems(3,4) by simp
  moreover have "snd (sync_instances env states failed (i # is) v) = snd (sync_instances env states failed is v1)"
    by (simp add: v1_def case_prod_unfold Let_def)
  ultimately show ?case by simp
qed simp

text \<open>The evidence of a run: the query's own list of ids, absent everywhere or reported stopped.\<close>

definition resolve_evidence :: "sync_api \<Rightarrow> string list \<Rightarrow> string \<Rightarrow> string \<Rightarrow> string \<Rightarrow> bool" where
  "resolve_evidence sy regions ty i rt \<longleftrightarrow>
     (\<exists>t ids. t \<in> {rt, ''ec2_instance''} \<and> absent_everywhere sy regions t ids i)
     \<or> (\<exists>ids. reported_stopped sy regions ids ty i)"

lemma sync_job_resolved:
  assumes "t_wf r_id (recs w)"
  shows "resolved_by (resolve_evidence sy regions) w (snd (sync_aws_job env sy regions w))"
proof -
  let ?P = "resolve_evidence sy regions"
  let ?others = "filter (\<lambda>(t, is). t \<noteq> ''ec2_instance'') (pending_by_type w)"
  let ?w1 = "snd (resolve_all env (find_vanished_resources sy regions ?others) w)"
  have one: "resolved_by ?P w ?w1"
    by (rule resolved_all [OF resolved_by_refl])
      (use find_vanished_sound in \<open>fastforce simp: resolve_evidence_def\<close>)
  have wf: "t_wf r_id (recs ?w1)" using resolve_all_frame assms by blast
  have two: "resolved_by ?P w (snd (sync_ec2_instance_states env sy regions is ?w1))" for "is"
  proof -
    obtain states failed where sweep: "sweep_instances sy is regions [] False = (states, failed)" by fastforce
    have "resolved_by ?P w (snd (sync_instances env states failed is ?w1))"
    proof (rule resolved_sync_instances [OF one wf])
      fix i ty rt assume "i \<in> set is" "map_of states i = None" "\<not> failed"
      then show "?P ty i rt"
        using sweep sweep_absent [of sy "is" regions states i] unfolding resolve_evidence_def by auto
    next
      fix i st ty rt assume st: "map_of states i = Some st" "stopped_outside ty st"
      obtain region res where "region \<in> set regions" "sy_instances sy region is = Inr res"
        "(i, st) \<in> set (concat res)"
        using sweep_found [of sy "is" regions "[]" False i st] sweep st(1) by auto
      then have "reported_stopped sy regions is ty i"
        using st(2) unfolding reported_stopped_def by blast
      then show "?P ty i rt" unfolding resolve_evidence_def by blast
    qed
    then show ?thesis by (simp add: sync_ec2_instance_states_def sweep)
  qed
  show ?thesis
    using one two by (auto simp: sync_aws_job_def Let_def case_prod_unfold)
qed

section \<open>Properties of the synchronisation\<close>

text \<open>
  C7: a synchronisation resolves a recommendation only on evidence: the row was open, and either
  every region answered for a query naming its resource and none of them had it, or AWS reported
  the instance stopped or terminated as the recommendation asked. It then becomes applied when a
  human had approved it, obsolete otherwise; no other status changes and nothing is written to
  AWS. In particular an outage, or one region that fails, resolves nothing.
\<close>

theorem sync_resolves_on_evidence:
  assumes "t_wf r_id (recs w)"
  shows "(\<forall>j. status_of j (snd (sync_aws_job env sy regions w)) = status_of j w
      \<or> (\<exists>r x. rec_join j w = Some (r, x) \<and> r_status r \<in> set SYNCABLE_STATUSES
          \<and> status_of j (snd (sync_aws_job env sy regions w))
              = Some (if r_status r = ApprovedManual then Applied else Obsolete)
          \<and> resolve_evidence sy regions (r_type r) (w_resource_id x) (w_resource_type x)))
    \<and> aws_calls (snd (sync_aws_job env sy regions w)) = aws_calls w"
  using sync_job_resolved [OF assms, of sy regions env] sync_aws_job_moves [OF assms, of env sy regions]
  by (simp add: resolved_by_def)

definition outage_api :: sync_api where
  "outage_api =
     \<lparr>sy_instances = \<lambda>region ids. Inl (OtherError ''timed out''),
      sy_volumes = \<lambda>region ids. Inl (OtherError ''timed out''),
      sy_addresses = \<lambda>region ids. Inl (OtherError ''timed out''),
      sy_snapshots = \<lambda>region ids. Inl (OtherError ''timed out''),
      sy_vpcs = \<lambda>region ids. Inl (OtherError ''timed out''),
      sy_nats = \<lambda>region ids. Inl (OtherError ''timed out''),
      sy_elbv2 = \<lambda>region. Inl (OtherError ''timed out''),
      sy_elb = \<lambda>region. Inl (OtherError ''timed out'')\<rparr>"

lemma outage_no_evidence: "\<not> resolve_evidence outage_api [''eu-west-1''] ty i rt"
  by (auto simp: resolve_evidence_def absent_everywhere_def reported_stopped_def outage_api_def
      existing_in_region_def existing_instances_def existing_eips_def existing_nat_gateways_def
      existing_load_balancers_def)

theorem sync_resolves_on_evidence_witness:
  "\<forall>env. status_of 7 (snd (sync_aws_job env outage_api [''eu-west-1''] sample_world)) = Some Pending"
proof -
  have "t_wf r_id (recs sample_world)" using sample_world_wf by (simp add: world_wf_def)
  from sync_resolves_on_evidence [OF this] outage_no_evidence
  have "status_of 7 (snd (sync_aws_job env outage_api [''eu-west-1''] sample_world)) = status_of 7 sample_world" for env
    by blast
  then show ?thesis by (simp add: sample_world_def status_of_def t_get_def)
qed

text \<open>
  The manual synchronisation resolves exactly what the periodic job resolves, and counts it
  alike.
\<close>

theorem manual_sync_equals_job:
  "snd (api_sync_aws env sy regions w) = snd (sync_aws_job env sy regions w)
   \<and> fst (snd (fst (api_sync_aws env sy regions w))) = fst (sync_aws_job env sy regions w)"
proof -
  let ?p = "pending_by_type w"
  have ne: "ids \<noteq> []" if ids: "(t, ids) \<in> set ?p" for t ids
  proof -
    from ids obtain r x where "(r, x) \<in> set (joined w)" "w_resource_type x = t"
      "r_status r \<in> set SYNCABLE_STATUSES"
      and "ids = remdups (map (\<lambda>(r, x). w_resource_id x) (filter (\<lambda>(r, x). w_resource_type x = t)
           (filter (\<lambda>(r, x). r_status r \<in> set SYNCABLE_STATUSES) (joined w))))"
      by (auto simp: pending_by_type_def Let_def)
    then have "w_resource_id x \<in> set ids" by force
    then show ?thesis by auto
  qed
  have empty: "?p = [] \<longleftrightarrow> (case map_of ?p ''ec2_instance'' of None \<Rightarrow> [] | Some is \<Rightarrow> is) = []
      \<and> filter (\<lambda>(t, is). t \<noteq> ''ec2_instance'') ?p = []"
  proof
    assume h: "(case map_of ?p ''ec2_instance'' of None \<Rightarrow> [] | Some is \<Rightarrow> is) = []
      \<and> filter (\<lambda>(t, is). t \<noteq> ''ec2_instance'') ?p = []"
    have "map_of ?p ''ec2_instance'' = None"
      using h ne by (auto split: option.splits dest: map_of_SomeD)
    then have "\<forall>(t, is) \<in> set ?p. t \<noteq> ''ec2_instance''" by (force simp: map_of_eq_None_iff)
    with h show "?p = []" by (auto simp: filter_empty_conv)
  qed simp
  have none: "find_vanished_resources sy regions [] = []" by simp
  show ?thesis
    by (simp add: api_sync_aws_def sync_aws_job_def Let_def empty [symmetric] case_prod_unfold)
qed

section \<open>Pull requests\<close>

definition pr_verdict :: "app \<Rightarrow> rec_row \<Rightarrow> rec_status" where
  "pr_verdict app r =
     (case r_pr_url r of
        None \<Rightarrow> PrOpen
      | Some url \<Rightarrow>
          if ap_pr_state app url = Some ''MERGED'' then Approved
          else if ap_pr_state app url = Some ''CLOSED'' then Rejected else PrOpen)"

lemma sync_prs_step:
  "sync_prs app (r # rs) w =
     (if pr_verdict app r = PrOpen then sync_prs app rs w
      else let (found, w1) = update_if (r_id r) [PrOpen]
                 (\<lambda>q. q\<lparr>r_status := pr_verdict app r, r_applied_at := Some (e_now (ap_env app))\<rparr>) w;
               (n, w2) = sync_prs app rs w1
           in ((if found then n + 1 else n), w2))"
  by (auto simp: pr_verdict_def Let_def split: option.split)

declare sync_prs.simps(2) [simp del]

lemma sync_prs_spec:
  assumes "t_wf r_id (recs w)" "distinct (map r_id rs)"
    and "\<And>r. r \<in> set rs \<Longrightarrow> status_of (r_id r) w = Some PrOpen"
  shows "(\<forall>j. status_of j (snd (sync_prs app rs w)) =
        (case find (\<lambda>r. r_id r = j) rs of None \<Rightarrow> status_of j w | Some r \<Rightarrow> Some (pr_verdict app r)))
    \<and> fst (sync_prs app rs w) = length (filter (\<lambda>r. pr_verdict app r \<noteq> PrOpen) rs)"
  using assms
proof (induction rs arbitrary: w)
  case (Cons r rs)
  have notin: "find (\<lambda>q. r_id q = r_id r) rs = None"
    using Cons.prems(2) by (auto simp: find_None_iff image_iff)
  show ?case
  proof (cases "pr_verdict app r = PrOpen")
    case True
    have "status_of (r_id r) w = Some PrOpen" using Cons.prems(3) by simp
    then show ?thesis
      using Cons.IH [of w] Cons.prems True notin by (auto simp: sync_prs_step split: option.split)
  next
    case False
    let ?f = "\<lambda>q. q\<lparr>r_status := pr_verdict app r, r_applied_at := Some (e_now (ap_env app))\<rparr>"
    let ?w1 = "snd (update_if (r_id r) [PrOpen] ?f w)"
    have found: "fst (update_if (r_id r) [PrOpen] ?f w)"
      using update_if_found [OF Cons.prems(1)] Cons.prems(3) by simp
    have st: "status_of j ?w1 = (if j = r_id r then Some (pr_verdict app r) else status_of j w)" for j
      using status_update_if_found [OF Cons.prems(1), of ?f "pr_verdict app r" j "r_id r" "[PrOpen]"] found by simp
    have "r_id q \<noteq> r_id r" if "q \<in> set rs" for q
      using that Cons.prems(2) by (auto simp: image_iff)
    then have "(\<forall>j. status_of j (snd (sync_prs app rs ?w1)) =
        (case find (\<lambda>r. r_id r = j) rs of None \<Rightarrow> status_of j ?w1 | Some r \<Rightarrow> Some (pr_verdict app r)))
      \<and> fst (sync_prs app rs ?w1) = length (filter (\<lambda>r. pr_verdict app r \<noteq> PrOpen) rs)"
      using Cons.prems by (intro Cons.IH) (auto simp: update_if_wf st)
    moreover have "sync_prs app (r # rs) w = (fst (sync_prs app rs ?w1) + 1, snd (sync_prs app rs ?w1))"
      using False found by (simp add: sync_prs_step case_prod_unfold Let_def)
    ultimately show ?thesis
      using False notin by (auto simp: st split: option.split)
  qed
qed simp

lemma find_filter_distinct:
  assumes "distinct (map f xs)"
  shows "find (\<lambda>x. f x = k) (filter p xs) =
    (case find (\<lambda>x. f x = k) xs of None \<Rightarrow> None | Some x \<Rightarrow> if p x then Some x else None)"
  using assms
proof (induction xs)
  case (Cons a xs)
  then have "find (\<lambda>x. f x = f a) xs = None" by (auto simp: find_None_iff image_iff)
  with Cons show ?case by (auto split: option.splits)
qed simp

text \<open>
  The synchronisation with GitHub approves the open pull-request recommendations whose
  request was merged and rejects those whose request was closed; every other status stays, and the
  count returned is the number of rows that changed.
\<close>

theorem pr_sync_outcome:
  assumes "t_wf r_id (recs w)"
  shows "(\<forall>j. status_of j (snd (sync_open_prs app w)) =
        map_option (\<lambda>r. if r_status r = PrOpen then pr_verdict app r else r_status r) (t_get r_id j (recs w)))
    \<and> fst (sync_open_prs app w)
        = t_count (\<lambda>r. r_status r = PrOpen \<and> pr_verdict app r \<noteq> PrOpen) (recs w)"
proof -
  let ?p = "\<lambda>r. r_status r = PrOpen \<and> r_pr_url r \<noteq> None"
  let ?rs = "t_select ?p (recs w)"
  have d: "distinct (map r_id (t_rows (recs w)))" using assms by (simp add: t_wf_def)
  have rs: "status_of (r_id r) w = Some PrOpen" if "r \<in> set ?rs" for r
    using that t_get_of_mem [OF assms, of r] by (auto simp: t_select_def status_of_def)
  have "distinct (map r_id ?rs)" using d by (simp add: t_select_def distinct_map_filter)
  note spec = sync_prs_spec [OF assms this rs]
  have verdict: "pr_verdict app r = PrOpen" if "r_pr_url r = None" for r
    using that by (simp add: pr_verdict_def)
  have "status_of j (snd (sync_open_prs app w)) =
      map_option (\<lambda>r. if r_status r = PrOpen then pr_verdict app r else r_status r) (t_get r_id j (recs w))" for j
    unfolding sync_open_prs_def
    using spec [THEN conjunct1, rule_format, of j] find_filter_distinct [OF d, of j ?p] verdict
    by (cases "t_get r_id j (recs w)") (auto simp: t_select_def t_get_def status_of_def)
  moreover have "filter (\<lambda>r. pr_verdict app r \<noteq> PrOpen) ?rs
      = t_select (\<lambda>r. r_status r = PrOpen \<and> pr_verdict app r \<noteq> PrOpen) (recs w)"
    using verdict by (auto simp: t_select_def intro!: filter_cong)
  ultimately show ?thesis
    using spec by (simp add: sync_open_prs_def t_count_def)
qed

definition merged_app :: app where
  "merged_app = running_app\<lparr>ap_pr_state := \<lambda>u. Some ''MERGED''\<rparr>"

definition pr_world :: world where
  "pr_world = sample_world\<lparr>recs := t_update (\<lambda>r. r_id r = 7)
     (\<lambda>r. r\<lparr>r_status := PrOpen, r_pr_url := Some ''u''\<rparr>) (recs sample_world)\<rparr>"

theorem pr_sync_outcome_witness:
  "status_of 7 (snd (sync_open_prs merged_app pr_world)) = Some Approved \<and> fst (sync_open_prs merged_app pr_world) = 1"
proof -
  have "t_wf r_id (recs pr_world)"
    by (simp add: pr_world_def sample_world_def t_wf_def t_update_def)
  from pr_sync_outcome [OF this, of merged_app] show ?thesis
    by (simp add: pr_world_def sample_world_def t_get_def t_update_def t_count_def t_select_def
        pr_verdict_def merged_app_def)
qed

section \<open>The instance schedule\<close>


lemma log_schedule_frame [simp]:
  "recs (log_schedule_action env i a st dry w) = recs w"
  "wastes (log_schedule_action env i a st dry w) = wastes w"
  "aws_calls (log_schedule_action env i a st dry w) = aws_calls w"
  "length (t_rows (alog (log_schedule_action env i a st dry w))) = length (t_rows (alog w)) + 1"
  by (simp_all add: log_schedule_action_def alog_add_log)






section \<open>The grace executor\<close>

lemma proxy_old_logs:
  assumes "t_wf l_id (alog w)" "t_get l_id k (alog w) = Some l"
  shows "t_get l_id k (alog (snd (proxy_execute app cfg dry rid n w))) = Some l
    \<and> t_wf l_id (alog (snd (proxy_execute app cfg dry rid n w)))"
proof (cases "rec_join rid w")
  case (Some y)
  obtain r x where y: "y = (r, x)" by fastforce
  show ?thesis
    unfolding proxy_execute_def Some y option.case prod.case Let_def case_prod_unfold
    using stop_instance_old_logs [OF assms] assms
    by (simp split: sum.split option.split) (auto dest: dispatch_old_logs [OF _ assms])
qed (simp add: proxy_execute_def assms)

lemma grace_row_old_logs:
  assumes "t_wf l_id (alog w)" "t_get l_id k (alog w) = Some l"
  shows "t_get l_id k (alog (grace_row app cfg dry mode r x w)) = Some l
    \<and> t_wf l_id (alog (grace_row app cfg dry mode r x w))"
proof -
  let ?v = "snd (grace_attempt app cfg dry mode r x w)"
  have v: "t_get l_id k (alog ?v) = Some l" "t_wf l_id (alog ?v)"
    using proxy_old_logs [OF assms] assms by (simp_all add: grace_attempt_def case_prod_unfold)
  then have "k \<noteq> t_next (alog ?v)" using t_get_mem [OF v(1)] by (auto simp: t_wf_def)
  then show ?thesis
    using v by (simp add: grace_row_def Let_def case_prod_unfold get_add_log wf_add_log)
qed

lemma grace_rows_old_logs:
  assumes "t_wf l_id (alog w)" "t_get l_id k (alog w) = Some l"
  shows "t_get l_id k (alog (grace_rows app cfg dry rows w)) = Some l"
  using assms
proof (induction rows arbitrary: w)
  case (Cons row rows)
  obtain r x where row: "row = (r, x)" by fastforce
  show ?case
    using Cons.prems Cons.IH grace_row_old_logs [OF Cons.prems]
    by (cases "effective_mode cfg (r_type r)") (simp_all add: row)
qed simp

text \<open>
  C18: every call the grace executor makes belongs to one of the rows that are due, at most twenty and
  each once, longest waiting first: the calls of a run are one segment for each. A row calls AWS only
  while it is scheduled and its delay is over, with the dry-run off and an executor for its type that
  was not disabled in the meantime, and then only what its type stands for, on its own resource and in
  its region: a stop or a termination of that instance, or the writes of the remediator of that type.
  The job never changes a row of the log that was there before: the row that announced the execution
  stays in flight.
\<close>

theorem grace_executor_guarded:
  assumes "world_wf w"
  shows "(\<exists>segments. aws_calls (grace_executor_job app cfg w) = aws_calls w @ concat segments
      \<and> list_all2 (\<lambda>(r, x) cs. (r, x) \<in> set (joined w) \<and> r_status r = Scheduled
            \<and> (\<exists>t. r_execute_after r = Some t \<and> t \<le> e_now (ap_env app))
            \<and> (\<forall>c \<in> set cs. \<not> runs_dry cfg \<and> allows_execution cfg (r_type r) \<and> row_call app r x c))
          (due_recommendations (ap_env app) w) segments)
    \<and> distinct (map (\<lambda>(r, x). r_id r) (due_recommendations (ap_env app) w))
    \<and> length (due_recommendations (ap_env app) w) \<le> 20
    \<and> sorted (map (\<lambda>(r, x). the (r_execute_after r)) (due_recommendations (ap_env app) w))
    \<and> (\<forall>k l. t_get l_id k (alog w) = Some l \<longrightarrow>
          t_get l_id k (alog (grace_executor_job app cfg w)) = Some l)"
proof (intro conjI)
  have wf: "t_wf l_id (alog w)" "t_wf r_id (recs w)" using assms by (simp_all add: world_wf_def)
  obtain segments where calls: "aws_calls (grace_executor_job app cfg w) = aws_calls w @ concat segments"
    and seg: "list_all2 (\<lambda>(r, x) cs. \<forall>c \<in> set cs. \<not> runs_dry cfg \<and> allows_execution cfg (r_type r) \<and> row_call app r x c)
        (due_recommendations (ap_env app) w) segments"
    using executor_calls [OF wf(2)] by blast
  have "list_all2 (\<lambda>(r, x) cs. (r, x) \<in> set (joined w) \<and> r_status r = Scheduled
        \<and> (\<exists>t. r_execute_after r = Some t \<and> t \<le> e_now (ap_env app))
        \<and> (\<forall>c \<in> set cs. \<not> runs_dry cfg \<and> allows_execution cfg (r_type r) \<and> row_call app r x c))
      (due_recommendations (ap_env app) w) segments"
  proof (rule list.rel_mono_strong [OF seg])
    fix row :: "rec_row \<times> waste_row" and cs
    obtain r x where rx: "row = (r, x)" by fastforce
    assume "row \<in> set (due_recommendations (ap_env app) w)"
      and "(case row of (r, x) \<Rightarrow> \<lambda>cs. \<forall>c \<in> set cs. \<not> runs_dry cfg \<and> allows_execution cfg (r_type r) \<and> row_call app r x c) cs"
    then show "(case row of (r, x) \<Rightarrow> \<lambda>cs. (r, x) \<in> set (joined w) \<and> r_status r = Scheduled
        \<and> (\<exists>t. r_execute_after r = Some t \<and> t \<le> e_now (ap_env app))
        \<and> (\<forall>c \<in> set cs. \<not> runs_dry cfg \<and> allows_execution cfg (r_type r) \<and> row_call app r x c)) cs"
      using due_facts(2) [OF wf(2), of r x "ap_env app"] by (simp add: rx)
  qed
  with calls show "\<exists>segments. aws_calls (grace_executor_job app cfg w) = aws_calls w @ concat segments
      \<and> list_all2 (\<lambda>(r, x) cs. (r, x) \<in> set (joined w) \<and> r_status r = Scheduled
            \<and> (\<exists>t. r_execute_after r = Some t \<and> t \<le> e_now (ap_env app))
            \<and> (\<forall>c \<in> set cs. \<not> runs_dry cfg \<and> allows_execution cfg (r_type r) \<and> row_call app r x c))
          (due_recommendations (ap_env app) w) segments" by blast
  show "distinct (map (\<lambda>(r, x). r_id r) (due_recommendations (ap_env app) w))" by (rule due_facts(1) [OF wf(2)])
  show "length (due_recommendations (ap_env app) w) \<le> 20" by (simp add: due_recommendations_def)
  show "sorted (map (\<lambda>(r, x). the (r_execute_after r)) (due_recommendations (ap_env app) w))"
    unfolding due_recommendations_def take_map [symmetric] by (intro sorted_wrt_take sorted_sort_key)
  show "\<forall>k l. t_get l_id k (alog w) = Some l \<longrightarrow>
      t_get l_id k (alog (grace_executor_job app cfg w)) = Some l"
    using grace_rows_old_logs [OF wf(1)] by (simp add: grace_executor_job_def Let_def split: sum.split)
qed

definition due_world :: world where
  "due_world = sample_world\<lparr>recs := t_update (\<lambda>r. r_id r = 7)
       (\<lambda>r. r\<lparr>r_status := Scheduled, r_execute_after := Some 5\<rparr>) (recs sample_world),
     alog := \<lparr>t_rows = [\<lparr>l_id = 3, l_rec = Some 7, l_resource = ''i-1'', l_rtype = ''ec2_instance'',
       l_action = ''stop'', l_status = LogPending, l_dry = False, l_by = None, l_date = 5\<rparr>], t_next = 5\<rparr>\<rparr>"

lemma due_world_wf: "world_wf due_world"
  using sample_world_wf by (simp add: world_wf_def due_world_def t_wf_def sample_world_def t_update_def)

lemma due_world_rows:
  obtains r x where "due_recommendations sample_env due_world = [(r, x)]" "r_type r = ''stop_instance''"
    "w_resource_id x = ''i-1''" "w_metadata x = []" "r_id r = 7"
  by (rule that [of "hd (t_rows (recs due_world))" "hd (t_rows (wastes due_world))"])
    (simp_all add: due_recommendations_def joined_def List.map_filter_def due_world_def sample_world_def
      t_update_def t_get_def sample_env_def)

lemma due_world_call:
  "aws_calls (grace_executor_job running_app live_config due_world) = [StopInstances ''i-1'' ''eu-west-1'']"
proof -
  obtain r x where row: "due_recommendations sample_env due_world = [(r, x)]" "r_type r = ''stop_instance''"
    "w_resource_id x = ''i-1''" "w_metadata x = []" "r_id r = 7" by (rule due_world_rows)
  have env: "ap_env running_app = sample_env" by (simp add: running_app_def)
  have none: "aws_calls due_world = []" by (simp add: due_world_def sample_world_def aws_calls_def map_filter_def)
  show ?thesis
    by (simp add: grace_executor_job_def env row live_config_answers grace_attempt_def stored_region_def
        sample_boto3 Let_def none)
qed

theorem grace_executor_guarded_witness:
  "\<exists>r x cs. due_recommendations sample_env due_world = [(r, x)]
     \<and> aws_calls (grace_executor_job running_app live_config due_world) = [StopInstances ''i-1'' ''eu-west-1'']
     \<and> row_call running_app r x (StopInstances ''i-1'' ''eu-west-1'') \<and> \<not> runs_dry live_config
     \<and> map_option l_status (t_get l_id 3 (alog (grace_executor_job running_app live_config due_world))) = Some LogPending"
proof -
  obtain r x where row: "due_recommendations sample_env due_world = [(r, x)]" "r_type r = ''stop_instance''"
    "w_resource_id x = ''i-1''" "w_metadata x = []" "r_id r = 7" by (rule due_world_rows)
  have env: "ap_env running_app = sample_env" by (simp add: running_app_def)
  have none: "aws_calls due_world = []" by (simp add: due_world_def sample_world_def aws_calls_def map_filter_def)
  note guarded = grace_executor_guarded [OF due_world_wf, of running_app live_config, unfolded env row]
  have "\<not> runs_dry live_config \<and> row_call running_app r x (StopInstances ''i-1'' ''eu-west-1'')"
  proof -
    from guarded [THEN conjunct1] obtain segments where
      calls: "aws_calls (grace_executor_job running_app live_config due_world) = aws_calls due_world @ concat segments"
      and rows: "list_all2 (\<lambda>(r, x) cs. (r, x) \<in> set (joined due_world) \<and> r_status r = Scheduled
            \<and> (\<exists>t. r_execute_after r = Some t \<and> t \<le> e_now sample_env)
            \<and> (\<forall>c \<in> set cs. \<not> runs_dry live_config \<and> allows_execution live_config (r_type r) \<and> row_call running_app r x c))
          [(r, x)] segments" by (elim exE conjE)
    from rows obtain cs where cs: "segments = [cs]" and
      ok: "\<forall>c \<in> set cs. \<not> runs_dry live_config \<and> allows_execution live_config (r_type r) \<and> row_call running_app r x c"
      by (auto simp: list_all2_Cons1)
    have "cs = [StopInstances ''i-1'' ''eu-west-1'']"
      using calls by (simp only: due_world_call none cs) simp
    with ok show ?thesis by simp
  qed
  moreover have "map_option l_status (t_get l_id 3 (alog (grace_executor_job running_app live_config due_world))) = Some LogPending"
    using guarded by (simp add: due_world_def t_get_def)
  ultimately show ?thesis using row(1) due_world_call by blast
qed

end
