(* ===== verification/Settings.thy ===== *)
theory Settings
  imports ConfigManager Reconcile
begin

text \<open>
  What a change of the settings guarantees to the rest of the program: values are read back
  within their limits, a refused change leaves the file, and the switches reach the components
  that write to AWS.
\<close>

section \<open>Validated values\<close>

lemma validate_idem:
  assumes "validate_config_value key v = Inr x"
  shows "validate_config_value key x = Inr x"
proof (cases "map_of CONFIG_LIMITS key")
  case (Some l)
  with assms show ?thesis
    by (cases l) (auto simp: validate_config_value_def py_simps or_invalid_def split: if_splits)
qed (use assms in \<open>simp add: validate_config_value_def\<close>)

lemma validate_int:
  assumes "validate_config_value key v = Inr x" "map_of CONFIG_LIMITS key = Some (IntLimit lo hi)"
  shows "\<exists>n. x = JInt n \<and> lo \<le> n \<and> n \<le> hi"
  using assms by (auto simp: validate_config_value_def py_simps split: if_splits)

lemma validate_float:
  assumes "validate_config_value key v = Inr x" "map_of CONFIG_LIMITS key = Some (FloatLimit lo hi)"
  shows "\<exists>r. x = JFloat r \<and> lo \<le> r \<and> r \<le> hi"
  using assms by (auto simp: validate_config_value_def py_simps split: if_splits)

text \<open>An operation whose result is not true leaves the document.\<close>

definition keeps :: "json \<Rightarrow> bool cfg \<times> json \<Rightarrow> bool" where
  "keeps doc p \<longleftrightarrow> (fst p \<noteq> Inr True \<longrightarrow> snd p = doc)"

lemma keeps_op [intro]: "keeps doc (config_op ok r doc)"
  by (auto simp: keeps_def config_op_def save_config_def split: sum.splits option.splits)

lemma keeps_err [intro]: "keeps doc (Inl e, doc)"
  by (simp add: keeps_def)

lemma keeps_if [intro]: "keeps doc a \<Longrightarrow> keeps doc b \<Longrightarrow> keeps doc (if c then a else b)"
  by simp

lemma http_keeps: "keeps doc p \<Longrightarrow> http p = (r, d) \<Longrightarrow> r \<noteq> Some True \<Longrightarrow> d = doc"
  by (cases p) (auto simp: keeps_def http_def split: sum.splits)

lemma http_eq: "http r = (Some b, d) \<longleftrightarrow> r = (Inr b, d)"
  by (cases r) (auto simp: http_def split: sum.splits)

section \<open>Properties\<close>

text \<open>
  A change of a setting that is refused, or whose write fails, leaves the document as it was,
  whatever the key; so does a refused change of the whitelist.
\<close>

theorem refused_setting_keeps_file:
  "(api_update_config fl ok key v doc = (r, doc') \<longrightarrow> r \<noteq> Some True \<longrightarrow> doc' = doc)
   \<and> (api_whitelist ok i add doc = (r', doc'') \<longrightarrow> r' \<noteq> Some True \<longrightarrow> doc'' = doc)"
  unfolding api_update_config_def api_whitelist_def Let_def
  by (intro conjI impI) (erule http_keeps [rotated], assumption, intro keeps_if keeps_op keeps_err)+

theorem refused_setting_keeps_file_witness:
  "api_update_config (\<lambda>x. []) True ''grace_period_days'' (JInt 31) (JObj []) = (None, JObj [])"
proof -
  have "\<exists>d. api_update_config (\<lambda>x. []) True ''grace_period_days'' (JInt 31) (JObj []) = (None, d)"
    by (simp add: api_update_config_def set_grace_period_days_def validate_config_value_def
        CONFIG_LIMITS_def or_invalid_def config_op_def http_def)
  then obtain d where d: "api_update_config (\<lambda>x. []) True ''grace_period_days'' (JInt 31) (JObj []) = (None, d)" ..
  with refused_setting_keeps_file [of "\<lambda>x. []" True "''grace_period_days''" "JInt 31" "JObj []" None d
      "[]" True None "JObj []"]
  show ?thesis by simp
qed

text \<open>
  An accepted grace period is read back as a number of days from 0 to 30, and the switches
  that guard the remediation are what they were.
\<close>

theorem grace_setting_roundtrip:
  assumes "api_update_config fl ok ''grace_period_days'' v doc = (Some True, doc')"
  shows "(\<exists>n. get_grace_period_days doc' = Inr (JInt n) \<and> 0 \<le> n \<and> n \<le> 30)
    \<and> get_dry_run doc' = get_dry_run doc
    \<and> get_action_enabled doc' ty = get_action_enabled doc ty
    \<and> is_whitelisted doc' i tags = is_whitelisted doc i tags"
proof -
  have set: "set_grace_period_days v doc = Inr (Some doc')"
    using assms grace_period.saved [of ok v doc doc']
    by (simp add: api_update_config_def http_eq)
  then obtain x where x: "validate_config_value ''grace_period_days'' v = Inr x"
    by (auto simp: set_grace_period_days_def py_simps)
  obtain n where "x = JInt n" "0 \<le> n" "n \<le> 30"
    using validate_int [OF x, of 0 30] by (auto simp: CONFIG_LIMITS_def)
  then have "\<exists>n. get_grace_period_days doc' = Inr (JInt n) \<and> 0 \<le> n \<and> n \<le> 30"
    using grace_period.get_after [OF set, of "JInt 0"] validated_eq [OF x]
    by (simp add: get_grace_period_days_def)
  moreover have "get_dry_run doc' = get_dry_run doc"
    using grace_period.other_section [OF set, of "''dry_run''" "JBool True"] by (simp add: get_dry_run_def)
  moreover have "get_action_enabled doc' ty = get_action_enabled doc ty"
    using grace_period.get_other [OF set, of "''auto_remediation''" "''actions''" "JObj []"]
    by (simp add: get_action_enabled_def)
  moreover have "is_whitelisted doc' i tags = is_whitelisted doc i tags"
  proof -
    have "(json_get ''whitelist'' (JObj []) doc' :: json sg) = json_get ''whitelist'' (JObj []) doc"
      by (rule grace_period.other_section [OF set]) simp
    then show ?thesis by (simp add: is_whitelisted_def)
  qed
  ultimately show ?thesis by simp
qed

theorem grace_setting_roundtrip_witness:
  "get_grace_period_days (snd (api_update_config (\<lambda>x. []) True ''grace_period_days'' (JStr '' 7 '') (JObj [])))
     = Inr (JInt 7)"
proof -
  have run: "api_update_config (\<lambda>x. []) True ''grace_period_days'' (JStr '' 7 '') (JObj [])
      = (Some True, JObj [(''approval'', JObj [(''grace_period_days'', JInt 7)])])"
    by code_simp
  have "\<exists>n. get_grace_period_days (JObj [(''approval'', JObj [(''grace_period_days'', JInt 7)])]) = Inr (JInt n)"
    using grace_setting_roundtrip [OF run] by blast
  then show ?thesis by (simp add: run get_grace_period_days_def config_get_def dict_get_def)
qed

lemma set_dry_run_runs_dry:
  assumes "set_dry_run v doc = Inr (Some doc')" "json_truthy v"
  shows "runs_dry doc'"
  using assms by (auto simp: set_dry_run_def py_simps json_set_eq runs_dry_def get_dry_run_def dict_get_def update_conv')

lemma set_dry_run_some: "set_dry_run v doc = Inr r \<Longrightarrow> r \<noteq> None"
  by (auto simp: set_dry_run_def py_simps)

lemma config_op_saved:
  assumes "config_op ok c doc = (Inr True, doc')" "\<And>r. c = Inr r \<Longrightarrow> r \<noteq> None"
  shows "c = Inr (Some doc')"
  using assms by (auto simp: config_op_def save_config_def split: sum.splits option.splits if_splits)

lemma set_action_disabled:
  assumes "set_action_enabled ty b doc = Inr (Some doc')"
  shows "get_action_enabled doc' ty = Inr (JBool b)"
proof -
  obtain c1 sect where c1: "ensure_section ''auto_remediation'' (JObj []) doc = Inr c1"
      "json_index ''auto_remediation'' c1 = (Inr sect :: json cfg)"
    using assms unfolding set_action_enabled_def py_simps by blast
  obtain d where d: "c1 = JObj d" using c1(2) by (auto simp: json_index_eq)
  show ?thesis
    using assms c1 d
    by (auto simp: set_action_enabled_def py_simps json_set_eq json_index_eq Let_def get_action_enabled_def
        config_get_def dict_get_def update_conv' json_or_empty_def split: if_splits)
qed

lemma set_action_some: "set_action_enabled ty b doc = Inr r \<Longrightarrow> r \<noteq> None"
  by (auto simp: set_action_enabled_def py_simps Let_def)

text \<open>
  C21: the switches reach AWS. Once the dry-run has been turned on in the settings, no request
  of \<open>POST /api/actions\<close> and no grace execution writes to AWS; once an action has been turned off, no
  approval of a recommendation of that type does, and in a run of the grace executor no row of that
  type does: every call of the run belongs to a row of another type.
\<close>

theorem switches_reach_aws:
  "(api_update_config fl ok ''dry_run'' v doc = (Some True, doc') \<longrightarrow> json_truthy v \<longrightarrow>
      aws_calls (snd (api_execute_actions app doc' a ids w)) = aws_calls w
      \<and> aws_calls (grace_executor_job app doc' w) = aws_calls w)
   \<and> (api_update_config fl ok (''action:'' @ ty) off doc = (Some True, doc') \<longrightarrow> \<not> json_truthy off \<longrightarrow>
      rec_join rid w = Some (r, x) \<longrightarrow> r_type r = ty \<longrightarrow>
      aws_calls (snd (api_approve app doc' rid w)) = aws_calls w)
   \<and> (api_update_config fl ok (''action:'' @ ty) off doc = (Some True, doc') \<longrightarrow> \<not> json_truthy off \<longrightarrow>
      t_wf r_id (recs w) \<longrightarrow>
      (\<exists>segments. aws_calls (grace_executor_job app doc' w) = aws_calls w @ concat segments
        \<and> list_all2 (\<lambda>(r, x) cs. (r_type r = ty \<longrightarrow> cs = []) \<and> (\<forall>c \<in> set cs. row_call app r x c))
             (due_recommendations (ap_env app) w) segments))"
proof (intro conjI impI)
  assume upd: "api_update_config fl ok ''dry_run'' v doc = (Some True, doc')" "json_truthy v"
  then have "set_dry_run v doc = Inr (Some doc')"
    using config_op_saved [of ok "set_dry_run v doc" doc doc'] set_dry_run_some
    by (auto simp: api_update_config_def http_eq)
  then have dry: "runs_dry doc'" using upd(2) set_dry_run_runs_dry by blast
  show "aws_calls (snd (api_execute_actions app doc' a ids w)) = aws_calls w"
    using api_action_dry [OF dry] by (induction ids arbitrary: w) (simp_all add: case_prod_unfold)
  show "aws_calls (grace_executor_job app doc' w) = aws_calls w"
    using dry by (auto simp: grace_executor_job_def runs_dry_def Let_def split: sum.splits)
next
  assume upd: "api_update_config fl ok (''action:'' @ ty) off doc = (Some True, doc')" "\<not> json_truthy off"
    and rec: "rec_join rid w = Some (r, x)" "r_type r = ty"
  have "config_op ok (set_action_enabled ty False doc) doc = (Inr True, doc')"
    using upd by (auto simp: api_update_config_def http_eq Let_def starts_with_def split: if_splits)
  then have "get_action_enabled doc' ty = Inr (JBool False)"
    using config_op_saved set_action_some set_action_disabled by metis
  then have "\<not> allows_execution doc' ty" by (simp add: allows_execution_def)
  then show "aws_calls (snd (api_approve app doc' rid w)) = aws_calls w"
    using approve_writes [OF surjective_pairing, of app doc' rid w] rec by force
next
  assume upd: "api_update_config fl ok (''action:'' @ ty) off doc = (Some True, doc')" "\<not> json_truthy off"
    and wf: "t_wf r_id (recs w)"
  have "config_op ok (set_action_enabled ty False doc) doc = (Inr True, doc')"
    using upd by (auto simp: api_update_config_def http_eq Let_def starts_with_def split: if_splits)
  then have "get_action_enabled doc' ty = Inr (JBool False)"
    using config_op_saved set_action_some set_action_disabled by metis
  then have refused: "\<not> allows_execution doc' ty" by (simp add: allows_execution_def)
  obtain segments where calls: "aws_calls (grace_executor_job app doc' w) = aws_calls w @ concat segments"
    and rows: "list_all2 (\<lambda>(r, x) cs. \<forall>c \<in> set cs. \<not> runs_dry doc' \<and> allows_execution doc' (r_type r) \<and> row_call app r x c)
        (due_recommendations (ap_env app) w) segments"
    using executor_calls [OF wf] by blast
  have "list_all2 (\<lambda>(r, x) cs. (r_type r = ty \<longrightarrow> cs = []) \<and> (\<forall>c \<in> set cs. row_call app r x c))
        (due_recommendations (ap_env app) w) segments"
  proof (rule list.rel_mono_strong [OF rows])
    fix row :: "rec_row \<times> waste_row" and cs
    obtain r x where rx: "row = (r, x)" by fastforce
    assume "(case row of (r, x) \<Rightarrow> \<lambda>cs. \<forall>c \<in> set cs. \<not> runs_dry doc' \<and> allows_execution doc' (r_type r) \<and> row_call app r x c) cs"
    then have row: "\<not> runs_dry doc' \<and> allows_execution doc' (r_type r) \<and> row_call app r x c" if "c \<in> set cs" for c
      using that by (simp add: rx)
    have "cs = []" if "r_type r = ty"
      using row [of "hd cs"] refused that by (cases cs) auto
    with row show "(case row of (r, x) \<Rightarrow> \<lambda>cs. (r_type r = ty \<longrightarrow> cs = []) \<and> (\<forall>c \<in> set cs. row_call app r x c)) cs"
      by (simp add: rx)
  qed
  with calls show "\<exists>segments. aws_calls (grace_executor_job app doc' w) = aws_calls w @ concat segments
        \<and> list_all2 (\<lambda>(r, x) cs. (r_type r = ty \<longrightarrow> cs = []) \<and> (\<forall>c \<in> set cs. row_call app r x c))
             (due_recommendations (ap_env app) w) segments" by blast
qed

definition stopping_off :: json where
  "stopping_off = snd (api_update_config (\<lambda>x. []) True (''action:'' @ ''stop_instance'') (JBool False) live_config)"

theorem switches_reach_aws_witness:
  "(\<forall>app. aws_calls (snd (api_execute_actions app
      (snd (api_update_config (\<lambda>x. []) True ''dry_run'' (JBool True) live_config)) Approve [7] sample_world)) = [])
   \<and> aws_calls (grace_executor_job running_app live_config due_world) = [StopInstances ''i-1'' ''eu-west-1'']
   \<and> aws_calls (grace_executor_job running_app stopping_off due_world) = []"
proof (intro conjI allI)
  fix app
  have run: "api_update_config (\<lambda>x. []) True ''dry_run'' (JBool True) live_config
      = (Some True, snd (api_update_config (\<lambda>x. []) True ''dry_run'' (JBool True) live_config))"
    by code_simp
  have "aws_calls sample_world = []" by (simp add: sample_world_def aws_calls_def map_filter_def)
  moreover have "json_truthy (JBool True)" by simp
  note switches_reach_aws [THEN conjunct1, THEN mp, THEN mp, OF run this, of app Approve "[7]" sample_world]
  ultimately show "aws_calls (snd (api_execute_actions app
      (snd (api_update_config (\<lambda>x. []) True ''dry_run'' (JBool True) live_config)) Approve [7] sample_world)) = []"
    by simp
next
  show "aws_calls (grace_executor_job running_app live_config due_world) = [StopInstances ''i-1'' ''eu-west-1'']"
    by (rule due_world_call)
next
  have off: "api_update_config (\<lambda>x. []) True (''action:'' @ ''stop_instance'') (JBool False) live_config = (Some True, stopping_off)"
    "\<not> json_truthy (JBool False)"
  proof -
    have "fst (api_update_config (\<lambda>x. []) True (''action:'' @ ''stop_instance'') (JBool False) live_config) = Some True"
      by code_simp
    then show "api_update_config (\<lambda>x. []) True (''action:'' @ ''stop_instance'') (JBool False) live_config = (Some True, stopping_off)"
      by (simp only: stopping_off_def prod_eq_iff fst_conv snd_conv)
  qed simp
  obtain r x where row: "due_recommendations sample_env due_world = [(r, x)]" "r_type r = ''stop_instance''"
    by (rule due_world_rows)
  have env: "ap_env running_app = sample_env" by (simp add: running_app_def)
  have wf: "t_wf r_id (recs due_world)" using due_world_wf by (simp add: world_wf_def)
  have none: "aws_calls due_world = []" by (simp add: due_world_def sample_world_def aws_calls_def map_filter_def)
  obtain segments where "aws_calls (grace_executor_job running_app stopping_off due_world) = aws_calls due_world @ concat segments"
    "list_all2 (\<lambda>(r, x) cs. (r_type r = ''stop_instance'' \<longrightarrow> cs = []) \<and> (\<forall>c \<in> set cs. row_call running_app r x c))
       [(r, x)] segments"
    using switches_reach_aws [THEN conjunct2, THEN conjunct2, THEN mp, THEN mp, THEN mp, OF off wf, of running_app]
    unfolding env row by blast
  then show "aws_calls (grace_executor_job running_app stopping_off due_world) = []"
    using row(2) by (auto simp: none list_all2_Cons1)
qed

text \<open>The list of ids after a successful addition.\<close>

lemma add_whitelist_listed:
  assumes "add_instance_to_whitelist s doc = Inr r"
  shows "\<exists>wl ids. json_get ''whitelist'' (JObj []) (case r of None \<Rightarrow> doc | Some d \<Rightarrow> d) = (Inr (JObj wl) :: json cfg)
    \<and> map_of wl ''instance_ids'' = Some ids \<and> json_in (strip s) ids = (Inr True :: bool cfg)"
proof -
  obtain c1 wl0 has wl1 ids listed where steps: "validate_instance_id s = Inr (strip s)"
      "ensure_section ''whitelist'' (JObj [(''instance_ids'', JList [])]) doc = Inr c1"
      "json_index ''whitelist'' c1 = (Inr wl0 :: json cfg)"
      "json_in ''instance_ids'' wl0 = (Inr has :: bool cfg)"
      "(if has then Inr wl0 else json_set ''instance_ids'' (JList []) wl0) = (Inr wl1 :: json cfg)"
      "json_index ''instance_ids'' wl1 = (Inr ids :: json cfg)" "json_in (strip s) ids = (Inr listed :: bool cfg)"
      "(if listed then Inr None
       else py_bind (json_append (JStr (strip s)) ids) (\<lambda>ids1.
         py_bind (json_set ''instance_ids'' ids1 wl1) (\<lambda>wl2.
         py_bind (json_set ''whitelist'' wl2 c1) (\<lambda>c2. Inr (Some c2))))) = (Inr r :: json option cfg)"
  proof -
    have "validate_instance_id s = Inr i \<Longrightarrow> i = strip s" for i
      by (auto simp: validate_instance_id_def Let_def split: if_splits)
    then show thesis
      using assms that unfolding add_instance_to_whitelist_def py_simps by blast
  qed
  obtain d where d: "doc = JObj d"
      "c1 = JObj (if map_of d ''whitelist'' = None
         then AList.update ''whitelist'' (JObj [(''instance_ids'', JList [])]) d else d)"
      "wl0 = (case map_of d ''whitelist'' of None \<Rightarrow> JObj [(''instance_ids'', JList [])] | Some y \<Rightarrow> y)"
    by (rule ensure_then_index [OF steps(2,3)])
  obtain wld where wld: "wl1 = JObj wld" "map_of wld ''instance_ids'' = Some ids"
    using steps(6) by (auto simp: json_index_eq)
  show ?thesis
  proof (cases listed)
    case True
    have "wl0 = wl1"
    proof (rule ccontr)
      assume "wl0 \<noteq> wl1"
      then have "ids = JList []"
        using steps(5,6) by (auto simp: json_set_eq update_conv' split: if_splits)
      with steps(7) True show False by simp
    qed
    moreover have "map_of d ''whitelist'' \<noteq> None"
    proof
      assume "map_of d ''whitelist'' = None"
      then have "ids = JList []" using d(3) wld calculation by (auto split: if_splits)
      with steps(7) True show False by simp
    qed
    ultimately show ?thesis
      using steps(7,8) True d wld by (auto simp: dict_get_def)
  next
    case False
    then obtain xs where xs: "ids = JList xs"
      using steps(8) by (cases ids) auto
    have "r = Some (JObj (AList.update ''whitelist'' (JObj (AList.update ''instance_ids''
        (JList (xs @ [JStr (strip s)])) wld)) (if map_of d ''whitelist'' = None
         then AList.update ''whitelist'' (JObj [(''instance_ids'', JList [])]) d else d)))"
      using steps(8) False xs wld(1) d(2) by simp
    then show ?thesis by (simp add: dict_get_def update_conv')
  qed
qed

text \<open>
  An instance that the user puts on the whitelist is protected: the safeguards see it there
  whatever its tags, so that no stop of the EC2 remediator on it does anything.
\<close>

theorem whitelisting_protects:
  assumes "api_whitelist ok s True doc = (Some True, doc')"
  shows "is_whitelisted doc' (strip s) tags = Inr True
    \<and> snd (stop_instance api doc' env dry (strip s) rid n w) = w
    \<and> \<not> rr_success (fst (stop_instance api doc' env dry (strip s) rid n w))"
proof -
  obtain r where r: "add_instance_to_whitelist s doc = Inr r" "doc' = (case r of None \<Rightarrow> doc | Some d \<Rightarrow> d)"
    using assms by (auto simp: api_whitelist_def http_eq config_op_def save_config_def split: sum.splits option.splits)
  obtain wl ids where wl: "json_get ''whitelist'' (JObj []) doc' = (Inr (JObj wl) :: json cfg)"
    "map_of wl ''instance_ids'' = Some ids" "json_in (strip s) ids = (Inr True :: bool cfg)"
    using add_whitelist_listed [OF r(1)] r(2) by auto
  have "json_get ''whitelist'' (JObj []) doc' = (Inr (JObj wl) :: json sg)"
    using wl(1) by (cases doc') auto
  moreover have "json_in (strip s) ids = (Inr True :: bool sg)"
    using wl(3) by (cases ids) auto
  ultimately have listed: "is_whitelisted doc' (strip s) tags = Inr True" for tags
    using wl(2) by (simp add: is_whitelisted_def)
  have "\<not> stop_gates api doc' env (strip s) rid n w"
    using stop_gates_policy listed by fastforce
  with listed stop_instance_refused show ?thesis by blast
qed

theorem whitelisting_protects_witness:
  "is_whitelisted (snd (api_whitelist True ''i-0123abcd '' True sample_policy)) ''i-0123abcd'' [] = Inr True"
proof -
  have run: "api_whitelist True ''i-0123abcd '' True sample_policy
      = (Some True, snd (api_whitelist True ''i-0123abcd '' True sample_policy))"
    by code_simp
  have "strip ''i-0123abcd '' = ''i-0123abcd''" by code_simp
  with whitelisting_protects [OF run] show ?thesis by metis
qed

section \<open>The times of the schedule\<close>

lemma digits_val_append: "digits_val (xs @ [c]) = 10 * digits_val xs + (of_char c - 48)"
  by (simp add: digits_val_def)

lemma of_digit_char [simp]: "d < 10 \<Longrightarrow> (of_char (digit_char d) :: nat) = 48 + d"
  by (simp add: digit_char_def)

lemma is_digit_char [simp]: "d < 10 \<Longrightarrow> is_digit (digit_char d)"
  by (simp add: is_digit_def)

lemma show_nat_digits: "list_all is_digit (show_nat n) \<and> digits_val (show_nat n) = n"
proof (induction n rule: show_nat.induct)
  case (1 n)
  show ?case
  proof (cases "n < 10")
    case True
    then show ?thesis
      by (subst (1 2) show_nat.simps) (simp add: digits_val_def)
  next
    case False
    then show ?thesis
      using 1 by (subst (1 2) show_nat.simps) (simp add: digits_val_append)
  qed
qed

lemma two_digits_value: "list_all is_digit (two_digits n) \<and> digits_val (two_digits n) = n \<and> two_digits n \<noteq> []"
proof -
  have "list_all is_digit (''0'' @ s) = list_all is_digit s" "digits_val (''0'' @ s) = digits_val s" for s
    by (simp_all add: is_digit_def digits_val_def)
  then show ?thesis using show_nat_digits [of n] by (auto simp: two_digits_def)
qed

lemma digit_no_space: "is_digit c \<Longrightarrow> \<not> is_space c"
  by (auto simp: is_digit_def is_space_def Let_def)

lemma strip_digits: "list_all is_digit s \<Longrightarrow> strip s = s"
proof -
  assume d: "list_all is_digit s"
  have keep: "dropWhile is_space xs = xs" if "list_all is_digit xs" for xs
    using that digit_no_space by (cases xs) auto
  show ?thesis using keep [OF d] keep [of "rev s"] d by (simp add: strip_def list_all_rev)
qed

lemma py_int_digits:
  assumes "list_all is_digit s" "s \<noteq> []"
  shows "py_int (JStr s) = Inr (int (digits_val s))"
proof -
  obtain c cs where s: "s = c # cs" using assms(2) by (cases s) auto
  have "c \<noteq> CHR ''-''" "c \<noteq> CHR ''+''" using assms(1) s by (auto simp: is_digit_def)
  then show ?thesis using assms s by (simp add: strip_digits parse_int_def parse_digits_def)
qed

lemma digits_no_colon: "list_all is_digit s \<Longrightarrow> CHR '':'' \<notin> set s"
  by (induction s) (auto simp: is_digit_def)

lemma hour_value: "hour_ok h \<Longrightarrow> digits_val h \<le> 23"
proof -
  have two: "a \<in> {CHR ''0'', CHR ''1'', CHR ''2'', CHR ''3'', CHR ''4'', CHR ''5''} \<Longrightarrow>
      digits_val [a, b] = 10 * (of_char a - 48) + (of_char b - 48)" for a b
    by (simp add: digits_val_def)
  show "hour_ok h \<Longrightarrow> digits_val h \<le> 23"
    by (auto simp: hour_ok_def is_digit_def Let_def digits_val_def split: list.splits)
qed

lemma minute_value: "minute_ok m \<Longrightarrow> list_all is_digit m \<and> m \<noteq> [] \<and> digits_val m \<le> 59"
  by (auto simp: minute_ok_def is_digit_def Let_def digits_val_def split: list.splits)

lemma split_colon_digits:
  assumes "list_all is_digit h"
  shows "split_colon (h @ CHR '':'' # m) = (h, m)"
proof -
  have "takeWhile (\<lambda>c. c \<noteq> CHR '':'') (h @ CHR '':'' # m) = h"
    "dropWhile (\<lambda>c. c \<noteq> CHR '':'') (h @ CHR '':'' # m) = CHR '':'' # m"
    using digits_no_colon [OF assms] by (simp_all add: takeWhile_append dropWhile_append)
  then show ?thesis by (simp add: split_colon_def)
qed

text \<open>A time that was accepted is stored so that the scheduler reads valid cron fields.\<close>

lemma time_value_cron:
  assumes "time_value s = Inr t"
  shows "\<exists>h m. cron_time (JStr t) = Inr (h, m) \<and> 0 \<le> h \<and> h \<le> 23 \<and> 0 \<le> m \<and> m \<le> 59"
proof -
  obtain h m where t: "hour_ok h" "minute_ok m" "t = two_digits (digits_val h) @ CHR '':'' # m"
    using assms by (auto simp: time_value_def Let_def case_prod_unfold split: if_splits)
  note hd = two_digits_value [of "digits_val h"] and md = minute_value [OF t(2)]
  have "count_list t (CHR '':'') = 1"
    using digits_no_colon hd md by (simp add: t(3) count_list_append count_list_0_iff)
  moreover have "split_colon t = (two_digits (digits_val h), m)"
    using hd by (simp add: t(3) split_colon_digits)
  ultimately have "cron_time (JStr t) = Inr (int (digits_val h), int (digits_val m))"
    using hd md by (simp add: py_int_digits del: py_int.simps)
  then show ?thesis using hour_value [OF t(1)] md by simp
qed

text \<open>
  A schedule saved with both times and its days gives cron jobs whose hours lie between 0 and
  23 and whose minutes between 0 and 59, or none when it is disabled: rebuilding the jobs after
  the save never raises.
\<close>

theorem saved_schedule_gives_cron_jobs:
  assumes "set_instance_schedule zone fl v doc = Inr (Some doc')"
    and "sv_stop v \<noteq> None" "sv_start v \<noteq> None" "sv_days_of v \<noteq> None"
  shows "reschedule_instance_jobs doc' = Inr None
    \<or> (\<exists>s b. reschedule_instance_jobs doc' = Inr (Some (s, b))
        \<and> (\<forall>c \<in> {s, b}. 0 \<le> cr_hour c \<and> cr_hour c \<le> 23 \<and> 0 \<le> cr_minute c \<and> cr_minute c \<le> 59))"
proof -
  obtain out stop start tz days d where steps: "instance_schedule doc = (Inr out :: (string, json) dict cfg)"
      "map_cfg time_value (sv_stop v) = Inr stop" "map_cfg time_value (sv_start v) = Inr start"
      "map_cfg (days_value fl) (sv_days_of v) = Inr days"
      and doc': "doc' = JObj (AList.update ''instance_schedule'' (JObj (schedule_fields v stop start tz days out)) d)"
    using assms(1) by (auto simp: set_instance_schedule_def py_simps json_set_eq)
  obtain ta a where "stop = Some ta" "time_value a = Inr ta"
    using steps(2) assms(2) by (auto simp: map_cfg_def py_simps)
  moreover obtain tb b where "start = Some tb" "time_value b = Inr tb"
    using steps(3) assms(3) by (auto simp: map_cfg_def py_simps)
  moreover obtain ds where "days = Some (JList (map JStr ds))" "ds \<noteq> []"
    using steps(4) assms(4) by (auto simp: map_cfg_def py_simps days_value_def Let_def split: if_splits)
  ultimately have vals: "stop = Some ta" "start = Some tb" "days = Some (JList (map JStr ds))" "ds \<noteq> []"
      and times: "\<exists>a. time_value a = Inr ta" "\<exists>b. time_value b = Inr tb" by blast+
  obtain sh sm where ta: "cron_time (JStr ta) = Inr (sh, sm)" "0 \<le> sh" "sh \<le> 23" "0 \<le> sm" "sm \<le> 59"
    using time_value_cron times(1) by blast
  obtain bh bm where tb: "cron_time (JStr tb) = Inr (bh, bm)" "0 \<le> bh" "bh \<le> 23" "0 \<le> bm" "bm \<le> 59"
    using time_value_cron times(2) by blast
  let ?f = "schedule_fields v stop start tz days out"
  have f: "map_of ?f ''stop_time'' = Some (JStr ta)" "map_of ?f ''start_time'' = Some (JStr tb)"
    "map_of ?f ''days'' = Some (JList (map JStr ds))"
    by (simp_all add: schedule_fields_def Let_def vals put_opt_def update_conv' split: option.split)
  have "?f \<noteq> []" using f(1) by auto
  then obtain s where s: "instance_schedule doc' = (Inr s :: (string, json) dict cfg)"
      "dict_get s ''stop_time'' JNull = JStr ta" "dict_get s ''start_time'' JNull = JStr tb"
      "dict_get s ''days'' JNull = JList (map JStr ds)"
    using f vals(4) by (simp add: instance_schedule_def doc' update_conv' json_or_empty_def dict_get_def Let_def)
  have "py_map str_of (map JStr ds) = Inr ds" by (induction ds) simp_all
  then have "reschedule_instance_jobs doc' =
      (if \<not> json_truthy (dict_get s ''enabled'' JNull) then Inr None
       else Inr (Some (\<lparr>cr_days = intercalate '','' ds, cr_hour = sh, cr_minute = sm, cr_tz = dict_get s ''timezone'' JNull\<rparr>,
              \<lparr>cr_days = intercalate '','' ds, cr_hour = bh, cr_minute = bm, cr_tz = dict_get s ''timezone'' JNull\<rparr>)))"
    using s ta(1) tb(1) by (simp add: reschedule_instance_jobs_def del: cron_time.simps)
  then show ?thesis using ta tb by auto
qed

theorem saved_schedule_gives_cron_jobs_witness:
  "\<exists>jobs. reschedule_instance_jobs (JObj [(''instance_schedule'',
      JObj [(''enabled'', JBool True), (''stop_time'', JStr ''07:30''), (''start_time'', JStr ''08:00''),
        (''days'', JList [JStr ''mon'']), (''timezone'', JStr ''Europe/Paris''),
        (''tag_key'', JStr ''wasteless:schedule''), (''tag_value'', JStr ''office-hours''),
        (''dry_run'', JBool True)])]) = Inr jobs"
proof -
  let ?v = "\<lparr>sv_enabled = Some True, sv_stop = Some ''7:30'', sv_start = Some '' 08:00'',
      sv_days_of = Some [JStr ''Monday''], sv_tz = None, sv_key = None, sv_value = None, sv_dry = None\<rparr>"
  have run: "set_instance_schedule (\<lambda>z. True) (\<lambda>x. []) ?v (JObj []) = Inr (Some (JObj [(''instance_schedule'',
      JObj [(''enabled'', JBool True), (''stop_time'', JStr ''07:30''), (''start_time'', JStr ''08:00''),
        (''days'', JList [JStr ''mon'']), (''timezone'', JStr ''Europe/Paris''),
        (''tag_key'', JStr ''wasteless:schedule''), (''tag_value'', JStr ''office-hours''),
        (''dry_run'', JBool True)])]))"
    by code_simp
  from saved_schedule_gives_cron_jobs [OF run] show ?thesis by auto
qed

end
