(* ===== verification/Policies.thy ===== *)
theory Policies
  imports Settings
begin

text \<open>
  Policy as code, \<open>ui/utils/policies.py\<close>: the strict validation of an imported policy document,
  and how what it accepts relates to what the settings and the safeguards read. Parsing the YAML
  text and writing it are library calls; the messages are abbreviated.
\<close>

section \<open>Validation of an imported document\<close>

datatype section_type = SectDict | SectBool

definition KNOWN_SECTIONS :: "(string \<times> section_type) list" where
  "KNOWN_SECTIONS =
     [(''auto_remediation'', SectDict), (''approval'', SectDict), (''protection'', SectDict),
      (''whitelist'', SectDict), (''schedule'', SectDict), (''notifications'', SectDict),
      (''rollback'', SectDict), (''logging'', SectDict), (''aws'', SectDict),
      (''terraform_pr'', SectDict), (''dry_run'', SectBool)]"

definition LIMITED_KEYS :: "(string \<times> string) list" where
  "LIMITED_KEYS =
     [(''auto_remediation'', ''dry_run_days''), (''approval'', ''grace_period_days''),
      (''protection'', ''min_instance_age_days''), (''protection'', ''min_idle_days''),
      (''protection'', ''min_confidence_score''), (''protection'', ''max_instances_per_run'')]"

text \<open>\<open>isinstance(v, bool)\<close>.\<close>

fun json_is_bool :: "json \<Rightarrow> bool" where
  "json_is_bool (JBool _) = True"
| "json_is_bool _ = False"

definition section_errors :: "(string, json) dict \<Rightarrow> string list" where
  "section_errors d =
     List.map_filter (\<lambda>(key, v).
       case map_of KNOWN_SECTIONS key of
         None \<Rightarrow> Some (''unknown section: '' @ key)
       | Some SectDict \<Rightarrow> if json_is_dict v then None else Some (''section '' @ key @ '' must be a dict'')
       | Some SectBool \<Rightarrow> if json_is_bool v then None else Some (''section '' @ key @ '' must be a bool'')) d"

text \<open>One limited key: the value is replaced by its validated form, or its error is noted.\<close>

definition limit_step ::
    "(string \<times> string) \<Rightarrow> (string, json) dict \<times> string list \<Rightarrow> (string, json) dict \<times> string list" where
  "limit_step sk st =
     (case (sk, st) of ((s, key), (d, errs)) \<Rightarrow>
       (case map_of d s of
          Some (JObj x) \<Rightarrow>
            (case map_of x key of
               None \<Rightarrow> (d, errs)
             | Some v \<Rightarrow>
                 (case validate_config_value key v of
                    Inl e \<Rightarrow> (d, errs @ [''Value for '' @ key])
                  | Inr v' \<Rightarrow> (AList.update s (JObj (AList.update key v' x)) d, errs)))
        | _ \<Rightarrow> (d, errs)))"

definition get_dict :: "string \<Rightarrow> (string, json) dict \<Rightarrow> (string, json) dict option" where
  "get_dict s d = (case map_of d s of Some (JObj x) \<Rightarrow> Some x | _ \<Rightarrow> None)"

definition remediation_errors :: "(string, json) dict \<Rightarrow> string list" where
  "remediation_errors d =
     (case get_dict ''auto_remediation'' d of
        None \<Rightarrow> []
      | Some x \<Rightarrow>
          (if json_is_bool (dict_get x ''enabled'' (JBool False)) then []
           else [''auto_remediation.enabled must be a boolean''])
          @ (case dict_get x ''actions'' (JObj []) of
               JObj acts \<Rightarrow> if list_all (\<lambda>(k, v). json_is_bool v) acts then []
                            else [''auto_remediation.actions must map action names to booleans'']
             | _ \<Rightarrow> [''auto_remediation.actions must map action names to booleans'']))"

text \<open>
  \<open>validate_instance_id\<close> of a value: it is converted by \<open>str\<close>, and no value but a string gives a
  text that begins with \<open>i-\<close>.
\<close>

definition id_accepted :: "json \<Rightarrow> bool" where
  "id_accepted v =
     (case v of JStr s \<Rightarrow> (case validate_instance_id s of Inl _ \<Rightarrow> False | Inr _ \<Rightarrow> True) | _ \<Rightarrow> False)"

definition whitelist_errors :: "(string, json) dict \<Rightarrow> string list" where
  "whitelist_errors d =
     (case get_dict ''whitelist'' d of
        None \<Rightarrow> []
      | Some x \<Rightarrow>
          (case dict_get x ''instance_ids'' (JList []) of
             JList ids \<Rightarrow> map (\<lambda>i. ''whitelist.instance_ids'') (filter (\<lambda>i. \<not> id_accepted i) ids)
           | _ \<Rightarrow> [''whitelist.instance_ids must be a list''])
          @ (case dict_get x ''tags'' (JList []) of
               JList _ \<Rightarrow> [] | _ \<Rightarrow> [''whitelist.tags must be a list'']))"

text \<open>\<open>isinstance(h, int) and 0 <= h <= 23\<close>: a boolean is an integer.\<close>

fun hour_accepted :: "json \<Rightarrow> bool" where
  "hour_accepted (JInt h) = (0 \<le> h \<and> h \<le> 23)"
| "hour_accepted (JBool _) = True"
| "hour_accepted _ = False"

definition schedule_errors :: "(string, json) dict \<Rightarrow> string list" where
  "schedule_errors d =
     (case get_dict ''schedule'' d of
        None \<Rightarrow> []
      | Some x \<Rightarrow>
          (case dict_get x ''allowed_hours'' (JList []) of
             JList hs \<Rightarrow> if list_all hour_accepted hs then [] else [''schedule.allowed_hours'']
           | _ \<Rightarrow> [''schedule.allowed_hours''])
          @ (case dict_get x ''allowed_days'' (JList []) of
               JList _ \<Rightarrow> [] | _ \<Rightarrow> [''schedule.allowed_days must be a list'']))"

definition validate_policy :: "json \<Rightarrow> json cfg" where
  "validate_policy data =
     (case data of
        JObj d \<Rightarrow>
          (case fold limit_step LIMITED_KEYS (d, section_errors d) of
             (config, errs) \<Rightarrow>
               let errors = errs @ remediation_errors config @ whitelist_errors config @ schedule_errors config
               in if errors \<noteq> [] then Inl (Raised (ConfigValidationError (intercalate ''; '' errors)))
                  else Inr (JObj config))
      | _ \<Rightarrow> Inl (Raised (ConfigValidationError ''policy must be a YAML mapping'')))"

text \<open>\<open>parse_policy_yaml\<close>, after the YAML parser: an error of the parser, or the document.\<close>

definition parse_policy_yaml :: "string + json \<Rightarrow> json cfg" where
  "parse_policy_yaml parsed =
     (case parsed of
        Inl e \<Rightarrow> Inl (Raised (ConfigValidationError (''invalid YAML: '' @ e)))
      | Inr data \<Rightarrow>
          if data = JNull then Inl (Raised (ConfigValidationError ''policy document is empty''))
          else validate_policy data)"

text \<open>\<open>POST /api/policies/import\<close>: \<open>None\<close> for the status 400, \<open>False\<close> for 500.\<close>

definition api_policies_import :: "bool \<Rightarrow> string + json \<Rightarrow> json \<Rightarrow> bool option \<times> json" where
  "api_policies_import ok parsed doc =
     (case parse_policy_yaml parsed of
        Inl _ \<Rightarrow> (None, doc)
      | Inr config \<Rightarrow> (case save_config ok config doc of (b, doc') \<Rightarrow> (Some b, doc')))"

section \<open>Accepted documents\<close>

text \<open>The values that the limited keys may have.\<close>

definition in_limits :: "(string, json) dict \<Rightarrow> string \<times> string \<Rightarrow> bool" where
  "in_limits d sk =
     (case get_dict (fst sk) d of
        None \<Rightarrow> True
      | Some x \<Rightarrow> (case map_of x (snd sk) of None \<Rightarrow> True | Some v \<Rightarrow> validate_config_value (snd sk) v = Inr v))"

lemma limit_step_errs: "\<exists>es. snd (limit_step sk (d, errs)) = errs @ es"
  by (cases sk) (auto simp: limit_step_def split: option.split json.split sum.split)

lemma limit_steps_errs: "\<exists>es. snd (fold limit_step sks st) = snd st @ es"
proof (induction sks arbitrary: st)
  case (Cons sk sks)
  obtain es where "snd (limit_step sk st) = snd st @ es" using limit_step_errs [of sk "fst st" "snd st"] by auto
  with Cons.IH [of "limit_step sk st"] show ?case by auto
qed simp

text \<open>A step that notes no error fixes its key and keeps the keys that were in order.\<close>

lemma limit_step_ok:
  assumes "limit_step (s, key) (d, errs) = (d', errs)"
  shows "in_limits d' (s, key)"
    and "in_limits d sk \<Longrightarrow> in_limits d' sk"
    and "map_of d' t = map_of d t \<or> (t = s \<and> (\<exists>x y. map_of d t = Some (JObj x) \<and> map_of d' t = Some (JObj y)
          \<and> (\<forall>k. k \<noteq> key \<longrightarrow> map_of y k = map_of x k)))"
proof -
  consider (same) "d' = d" "in_limits d (s, key)"
    | (set) x v v' where "map_of d s = Some (JObj x)" "map_of x key = Some v" "validate_config_value key v = Inr v'"
        "d' = AList.update s (JObj (AList.update key v' x)) d"
    using assms by (auto simp: limit_step_def in_limits_def get_dict_def split: option.splits json.splits sum.splits)
  note step = this
  show "in_limits d' (s, key)"
    using step
  proof cases
    case (set x v v')
    then show ?thesis using validate_idem by (simp add: in_limits_def get_dict_def update_conv')
  qed simp
  show "in_limits d sk \<Longrightarrow> in_limits d' sk"
    using step
  proof cases
    case (set x v v')
    assume "in_limits d sk"
    then show ?thesis
      using set validate_idem [OF set(3)]
      by (cases sk) (auto simp: in_limits_def get_dict_def update_conv' split: option.splits json.splits)
  qed simp
  show "map_of d' t = map_of d t \<or> (t = s \<and> (\<exists>x y. map_of d t = Some (JObj x) \<and> map_of d' t = Some (JObj y)
          \<and> (\<forall>k. k \<noteq> key \<longrightarrow> map_of y k = map_of x k)))"
    using step by cases (auto simp: update_conv')
qed




lemma limit_steps_split:
  assumes "fold limit_step (sk # sks) (d, errs) = (d', errs)"
  obtains d1 where "limit_step sk (d, errs) = (d1, errs)" "fold limit_step sks (d1, errs) = (d', errs)"
proof -
  obtain d1 es where one: "limit_step sk (d, errs) = (d1, errs @ es)"
    using limit_step_errs [of sk d errs] by (metis prod.collapse)
  obtain es' where "snd (fold limit_step sks (d1, errs @ es)) = (errs @ es) @ es'"
    using limit_steps_errs [of sks "(d1, errs @ es)"] by auto
  then have "es = []" using assms one by simp
  with one assms show thesis by (intro that) simp_all
qed

lemma limit_steps_limits:
  assumes "fold limit_step sks (d, errs) = (d', errs)"
  shows "(\<forall>sk \<in> set sks. in_limits d' sk) \<and> (in_limits d sk0 \<longrightarrow> in_limits d' sk0)"
  using assms
proof (induction sks arbitrary: d sk0)
  case (Cons sk sks)
  obtain d1 where d1: "limit_step sk (d, errs) = (d1, errs)" "fold limit_step sks (d1, errs) = (d', errs)"
    by (rule limit_steps_split [OF Cons.prems])
  obtain s key where sk: "sk = (s, key)" by fastforce
  have "in_limits d1 sk" using limit_step_ok(1) d1(1) sk by simp
  then show ?case
    using Cons.IH [OF d1(2)] limit_step_ok(2) [OF d1(1) [unfolded sk]] by auto
qed simp

definition sections_ok :: "(string, json) dict \<Rightarrow> bool" where
  "sections_ok d \<longleftrightarrow>
     (\<forall>(key, v) \<in> set d. (map_of KNOWN_SECTIONS key = Some SectDict \<and> json_is_dict v)
        \<or> (map_of KNOWN_SECTIONS key = Some SectBool \<and> json_is_bool v))"

lemma section_errors_none: "section_errors d = [] \<longleftrightarrow> sections_ok d"
  by (induction d) (auto simp: section_errors_def sections_ok_def map_filter_simps
      split: option.splits section_type.splits if_splits)

lemma set_update_subset: "set (AList.update k v d) \<subseteq> insert (k, v) (set d)"
  by (induction d) auto

lemma sections_ok_step:
  assumes "sections_ok d" "limit_step (s, key) (d, errs) = (d', es)"
  shows "sections_ok d'"
proof -
  consider "d' = d" | x y where "map_of d s = Some (JObj x)" "d' = AList.update s (JObj y) d"
    using assms(2) by (auto simp: limit_step_def split: option.splits json.splits sum.splits)
  then show ?thesis
  proof cases
    case (2 x y)
    then have "(s, JObj x) \<in> set d" by (simp add: map_of_SomeD)
    then have "map_of KNOWN_SECTIONS s = Some SectDict"
      using assms(1) by (auto simp: sections_ok_def)
    then show ?thesis
      using assms(1) set_update_subset [of s "JObj y" d] unfolding 2(2) sections_ok_def by fastforce
  qed (use assms(1) in simp)
qed

lemma sections_ok_steps:
  "sections_ok d \<Longrightarrow> fold limit_step sks (d, errs) = (d', es) \<Longrightarrow> sections_ok d'"
proof (induction sks arbitrary: d errs)
  case (Cons sk sks)
  obtain d1 e1 where one: "limit_step sk (d, errs) = (d1, e1)" by fastforce
  obtain s key where "sk = (s, key)" by fastforce
  then have "sections_ok d1" using sections_ok_step [OF Cons.prems(1)] one by simp
  with Cons one show ?case by simp
qed simp

text \<open>What an accepted document is: every check holds on the normalised document.\<close>

definition policy_ok :: "(string, json) dict \<Rightarrow> bool" where
  "policy_ok d \<longleftrightarrow> sections_ok d \<and> (\<forall>sk \<in> set LIMITED_KEYS. in_limits d sk)
     \<and> remediation_errors d = [] \<and> whitelist_errors d = [] \<and> schedule_errors d = []"

lemma validate_policy_ok:
  assumes "validate_policy data = Inr c"
  obtains d where "c = JObj d" "policy_ok d"
proof -
  obtain d0 where d0: "data = JObj d0"
    using assms by (cases data) (simp_all add: validate_policy_def)
  obtain d errs where run: "fold limit_step LIMITED_KEYS (d0, section_errors d0) = (d, errs)" by fastforce
  have facts: "errs = []" "remediation_errors d = []" "whitelist_errors d = []" "schedule_errors d = []" "c = JObj d"
    using assms by (auto simp: validate_policy_def d0 run Let_def split: if_splits)
  obtain es where "errs = section_errors d0 @ es"
    using limit_steps_errs [of LIMITED_KEYS "(d0, section_errors d0)"] run by auto
  then have sec: "section_errors d0 = []" using facts(1) by simp
  have "sections_ok d" using sections_ok_steps [OF _ run] sec section_errors_none by blast
  moreover have "\<forall>sk \<in> set LIMITED_KEYS. in_limits d sk"
    using limit_steps_limits [of LIMITED_KEYS d0 "[]" d] run sec facts(1) by simp
  ultimately show thesis using facts that [of d] by (simp add: policy_ok_def)
qed


lemma section_dict:
  assumes "policy_ok d" "map_of KNOWN_SECTIONS s = Some SectDict"
  shows "map_of d s = None \<or> (\<exists>x. map_of d s = Some (JObj x))"
proof (cases "map_of d s")
  case (Some v)
  then have "(s, v) \<in> set d" by (simp add: map_of_SomeD)
  then have "json_is_dict v" using assms by (auto simp: policy_ok_def sections_ok_def)
  with Some show ?thesis by (cases v) auto
qed simp

lemma limited_value:
  assumes "policy_ok d" "(s, key) \<in> set LIMITED_KEYS" "map_of d s = Some (JObj x)" "map_of x key = Some v"
  shows "validate_config_value key v = Inr v"
proof -
  have "in_limits d (s, key)" using assms(1,2) unfolding policy_ok_def by blast
  then show ?thesis using assms(3,4) by (simp add: in_limits_def get_dict_def)
qed

section \<open>Properties\<close>



definition safeguards_rules :: "(string, json) dict \<Rightarrow> bool" where
  "safeguards_rules d \<longleftrightarrow>
     (\<forall>x. get_dict ''whitelist'' d = Some x \<longrightarrow>
        (\<exists>rules. dict_get x ''tags'' (JList []) = JList rules \<and> list_all tag_rule_ok rules))
     \<and> (\<forall>x. get_dict ''schedule'' d = Some x \<longrightarrow>
        (\<exists>days hours. dict_get x ''allowed_days'' (JList []) = JList days \<and> all_weekdays days = Inr True
           \<and> dict_get x ''allowed_hours'' (JList []) = JList hours \<and> list_all is_hour hours))"

lemma safe_protection:
  assumes "policy_ok d"
  shows "validate_protection (JObj d) = Inr ()"
proof -
  consider "map_of d ''protection'' = None" | x where "map_of d ''protection'' = Some (JObj x)"
    using section_dict [OF assms, of "''protection''"] by (auto simp: KNOWN_SECTIONS_def)
  then show ?thesis
  proof cases
    case 1
    then show ?thesis by (simp add: validate_protection_def json_or_empty_def PROTECTION_BOUNDS_def)
  next
    case (2 x)
    have num: "map_of x key = None \<or> (\<exists>v y. map_of x key = Some v \<and> json_num v = Some y \<and> lo \<le> y \<and> y \<le> hi)"
      if "(key, lo, hi) \<in> set PROTECTION_BOUNDS" for key lo hi
    proof (cases "map_of x key")
      case (Some v)
      have "(''protection'', key) \<in> set LIMITED_KEYS"
        using that by (auto simp: PROTECTION_BOUNDS_def LIMITED_KEYS_def)
      then have "validate_config_value key v = Inr v" using limited_value [OF assms _ 2 Some] by blast
      with that Some show ?thesis
        by (auto simp: PROTECTION_BOUNDS_def validate_config_value_def CONFIG_LIMITS_def py_simps split: if_splits)
    qed simp
    have "check_bounds bs (JObj x) = Inr ()" if "set bs \<subseteq> set PROTECTION_BOUNDS" for bs
      using that
    proof (induction bs)
      case (Cons b bs)
      obtain key lo hi where b: "b = (key, lo, hi)" by (cases b) auto
      with Cons num [of key lo hi] show ?case by (auto simp: map_of_dom)
    qed simp
    moreover have "check_bounds PROTECTION_BOUNDS (JObj []) = Inr ()" by (simp add: PROTECTION_BOUNDS_def)
    ultimately show ?thesis using 2 by (cases "x = []") (simp_all add: validate_protection_def json_or_empty_def)
  qed
qed

lemma safe_whitelist:
  assumes "policy_ok d"
  shows "validate_whitelist (JObj d) = Inr () \<longleftrightarrow>
    (\<forall>x. get_dict ''whitelist'' d = Some x \<longrightarrow>
        (\<exists>rules. dict_get x ''tags'' (JList []) = JList rules \<and> list_all tag_rule_ok rules))"
proof -
  consider "map_of d ''whitelist'' = None" | x where "map_of d ''whitelist'' = Some (JObj x)"
    using section_dict [OF assms, of "''whitelist''"] by (auto simp: KNOWN_SECTIONS_def)
  then show ?thesis
  proof cases
    case 1
    then show ?thesis by (simp add: validate_whitelist_def json_or_empty_def get_dict_def)
  next
    case (2 x)
    have "whitelist_errors d = []" using assms by (simp add: policy_ok_def)
    then obtain ids tags where "dict_get x ''instance_ids'' (JList []) = JList ids"
      "dict_get x ''tags'' (JList []) = JList tags"
      using 2 by (auto simp: whitelist_errors_def get_dict_def split: json.splits)
    then show ?thesis
      using 2 by (cases "x = []") (auto simp: validate_whitelist_def json_or_empty_def get_dict_def)
  qed
qed

lemma safe_schedule:
  assumes "policy_ok d"
  shows "validate_schedule (JObj d) = Inr () \<longleftrightarrow>
    (\<forall>x. get_dict ''schedule'' d = Some x \<longrightarrow>
        (\<exists>days hours. dict_get x ''allowed_days'' (JList []) = JList days \<and> all_weekdays days = Inr True
           \<and> dict_get x ''allowed_hours'' (JList []) = JList hours \<and> list_all is_hour hours))"
proof -
  consider "map_of d ''schedule'' = None" | x where "map_of d ''schedule'' = Some (JObj x)"
    using section_dict [OF assms, of "''schedule''"] by (auto simp: KNOWN_SECTIONS_def)
  then show ?thesis
  proof cases
    case 1
    then show ?thesis by (simp add: validate_schedule_def json_or_empty_def get_dict_def)
  next
    case (2 x)
    have "schedule_errors d = []" using assms by (simp add: policy_ok_def)
    then obtain hours days where "dict_get x ''allowed_hours'' (JList []) = JList hours"
      "dict_get x ''allowed_days'' (JList []) = JList days"
      using 2 by (auto simp: schedule_errors_def get_dict_def split: json.splits)
    then show ?thesis
      using 2 by (cases "x = []"; cases "all_weekdays days")
        (auto simp: validate_schedule_def json_or_empty_def get_dict_def)
  qed
qed

text \<open>
  The import checks less than the safeguards do. An accepted policy can be loaded by the
  remediators exactly when, besides, its whitelist rules are pairs of key and value, its days are
  weekdays and no hour is a boolean; otherwise every remediation raises on loading it.
\<close>

theorem import_weaker_than_safeguards:
  assumes "validate_policy data = Inr (JObj d)"
  shows "(load_config (JObj d) = Inr (JObj d) \<longleftrightarrow> safeguards_rules d)
    \<and> (\<not> safeguards_rules d \<longrightarrow> (\<exists>e. load_config (JObj d) = Inl e))"
proof -
  have ok: "policy_ok d" using validate_policy_ok [OF assms] by blast
  have "validate_config (JObj d) = Inr () \<longleftrightarrow> safeguards_rules d"
    unfolding safeguards_rules_def safe_whitelist [OF ok, symmetric] safe_schedule [OF ok, symmetric]
    using safe_protection [OF ok]
    by (cases "validate_whitelist (JObj d)") (auto simp: validate_config_def)
  moreover have "json_or_empty (JObj d) = JObj d" by (simp add: json_or_empty_def)
  ultimately show ?thesis
    by (cases "validate_config (JObj d)") (auto simp: load_config_def)
qed

theorem import_weaker_than_safeguards_witness:
  "(\<exists>c. validate_policy (JObj [(''schedule'', JObj [(''allowed_days'', JList [JStr ''Mon''])])]) = Inr c)
   \<and> (\<exists>e. load_config (JObj [(''schedule'', JObj [(''allowed_days'', JList [JStr ''Mon''])])]) = Inl e)"
proof -
  let ?d = "[(''schedule'', JObj [(''allowed_days'', JList [JStr ''Mon''])])]"
  have run: "validate_policy (JObj ?d) = Inr (JObj ?d)" by code_simp
  have "\<not> safeguards_rules ?d"
    by (auto simp: safeguards_rules_def get_dict_def dict_get_def VALID_WEEKDAYS_def)
  with import_weaker_than_safeguards [OF run] run show ?thesis by blast
qed

end
