(* ===== verification/Upsert.thy ===== *)
theory Upsert
  imports Store
begin

text \<open>
  \<open>INSERT ... ON CONFLICT (k) DO UPDATE SET ... WHERE ... RETURNING id\<close>: one statement on a
  table with a unique constraint, its laws as a locale, and the two constraints of
  \<open>sql/init.sql\<close> that the detectors rely on (\<open>uq_waste_resource\<close>, \<open>uq_rec_waste\<close>).
\<close>

section \<open>The statement\<close>

text \<open>
  \<open>col\<close> reads the constrained columns, \<open>k\<close> is their value in the new row \<open>mk\<close>; the row in
  conflict becomes \<open>f\<close> of itself where the \<open>WHERE\<close> clause \<open>g\<close> holds. No id is returned
  when it does not.
\<close>

definition t_upsert ::
    "('r \<Rightarrow> nat) \<Rightarrow> ('r \<Rightarrow> 'k) \<Rightarrow> 'k \<Rightarrow> ('r \<Rightarrow> bool) \<Rightarrow> ('r \<Rightarrow> 'r) \<Rightarrow> (nat \<Rightarrow> 'r) \<Rightarrow> 'r table
     \<Rightarrow> nat option \<times> 'r table" where
  "t_upsert key col k g f mk t =
     (case find (\<lambda>r. col r = k) (t_rows t) of
        None \<Rightarrow> (case t_insert mk t of (i, t') \<Rightarrow> (Some i, t'))
      | Some r \<Rightarrow> if g r then (Some (key r), t_update (\<lambda>q. key q = key r) f t) else (None, t))"

definition t_find :: "('r \<Rightarrow> 'k) \<Rightarrow> 'k \<Rightarrow> 'r table \<Rightarrow> 'r option" where
  "t_find col k t = find (\<lambda>r. col r = k) (t_rows t)"

text \<open>The primary key and the unique constraint hold.\<close>

definition t_unique :: "('r \<Rightarrow> nat) \<Rightarrow> ('r \<Rightarrow> 'k) \<Rightarrow> 'r table \<Rightarrow> bool" where
  "t_unique key col t \<longleftrightarrow> t_wf key t \<and> distinct (map col (t_rows t))"

section \<open>Its contract\<close>

text \<open>
  \<open>fits k f mk\<close> is the side condition of a statement: the new row carries \<open>k\<close>, and an update
  leaves both keys alone.
\<close>

definition fits :: "('r \<Rightarrow> nat) \<Rightarrow> ('r \<Rightarrow> 'k) \<Rightarrow> 'k \<Rightarrow> ('r \<Rightarrow> 'r) \<Rightarrow> (nat \<Rightarrow> 'r) \<Rightarrow> bool" where
  "fits key col k f mk \<longleftrightarrow>
     (\<forall>i. key (mk i) = i \<and> col (mk i) = k) \<and> (\<forall>r. key (f r) = key r \<and> col (f r) = col r)"

locale conflict_table =
  fixes key :: "'r \<Rightarrow> nat"
    and col :: "'r \<Rightarrow> 'k"
    and look :: "'k \<Rightarrow> 't \<Rightarrow> 'r option"
    and put :: "'k \<Rightarrow> ('r \<Rightarrow> bool) \<Rightarrow> ('r \<Rightarrow> 'r) \<Rightarrow> (nat \<Rightarrow> 'r) \<Rightarrow> 't \<Rightarrow> nat option \<times> 't"
    and wf :: "'t \<Rightarrow> bool"
  assumes look_col: "look k t = Some r \<Longrightarrow> col r = k"
    and put_wf: "wf t \<Longrightarrow> fits key col k f mk \<Longrightarrow> wf (snd (put k g f mk t))"
    and put_other: "wf t \<Longrightarrow> fits key col k f mk \<Longrightarrow> j \<noteq> k \<Longrightarrow>
      look j (snd (put k g f mk t)) = look j t"
    and put_known: "wf t \<Longrightarrow> fits key col k f mk \<Longrightarrow> look k t = Some r \<Longrightarrow>
      look k (snd (put k g f mk t)) = Some (if g r then f r else r)
      \<and> fst (put k g f mk t) = (if g r then Some (key r) else None)"
    and put_new: "wf t \<Longrightarrow> fits key col k f mk \<Longrightarrow> look k t = None \<Longrightarrow>
      \<exists>i. look k (snd (put k g f mk t)) = Some (mk i) \<and> fst (put k g f mk t) = Some i"
begin

text \<open>A statement without a \<open>WHERE\<close> clause returns the id of the row it leaves under \<open>k\<close>.\<close>

lemma put_always:
  assumes "wf t" "fits key col k f mk"
  obtains r where "look k (snd (put k (\<lambda>_. True) f mk t)) = Some r"
    "fst (put k (\<lambda>_. True) f mk t) = Some (key r)"
    "look k t = None \<and> (\<exists>i. r = mk i) \<or> (\<exists>q. look k t = Some q \<and> r = f q)"
proof (cases "look k t")
  case None
  from put_new [OF assms None, of "\<lambda>_. True"] obtain i where
    "look k (snd (put k (\<lambda>_. True) f mk t)) = Some (mk i)"
    "fst (put k (\<lambda>_. True) f mk t) = Some i" by auto
  moreover have "key (mk i) = i" using assms(2) by (simp add: fits_def)
  ultimately show ?thesis using that [of "mk i"] None by auto
next
  case (Some q)
  from put_known [OF assms Some, of "\<lambda>_. True"] assms(2) show ?thesis
    using that [of "f q"] Some by (auto simp: fits_def)
qed

text \<open>Rows that the \<open>WHERE\<close> clause rejects survive any statement unchanged.\<close>

lemma put_keeps:
  assumes "wf t" "fits key col k f mk" "look j t = Some r" "\<not> g r"
  shows "look j (snd (put k g f mk t)) = Some r"
proof (cases "j = k")
  case True
  with put_known [OF assms(1,2), of r g] assms(3,4) show ?thesis by simp
next
  case False
  with put_other [OF assms(1,2) False] assms(3) show ?thesis by simp
qed

lemma put_dom:
  assumes "wf t" "fits key col k f mk"
  shows "look j (snd (put k g f mk t)) = None \<longleftrightarrow> look j t = None \<and> j \<noteq> k"
proof (cases "j = k")
  case True
  with put_known [OF assms] put_new [OF assms, of g] show ?thesis by (cases "look k t") auto
next
  case False
  with put_other [OF assms False, of g] show ?thesis by simp
qed

end

section \<open>The statement meets the contract\<close>

lemma find_update_key:
  assumes "distinct (map key xs)" "\<forall>q. key (f q) = key q \<and> col (f q) = col q"
  shows "find (\<lambda>q. col q = j) (map (\<lambda>q. if key q = i then f q else q) xs)
    = map_option (\<lambda>q. if key q = i then f q else q) (find (\<lambda>q. col q = j) xs)"
  using assms by (induction xs) auto

lemma unique_find:
  assumes "distinct (map col xs)" "q \<in> set xs"
  shows "find (\<lambda>p. col p = col q) xs = Some q"
  using assms by (induction xs) (auto simp: image_iff)

lemma conflict_table_list:
  "conflict_table key col (t_find col) (t_upsert key col) (t_unique key col)"
proof
  fix k and t :: "'a table" and r
  show "t_find col k t = Some r \<Longrightarrow> col r = k"
    by (auto simp: t_find_def find_Some_iff)
next
  fix t :: "'a table" and k f mk g
  assume t: "t_unique key col t" and fit: "fits key col k f mk"
  have keys: "map key (map (\<lambda>q. if key q = i then f q else q) (t_rows t)) = map key (t_rows t)"
    and cols: "map col (map (\<lambda>q. if key q = i then f q else q) (t_rows t)) = map col (t_rows t)" for i
    using fit by (auto simp: fits_def)
  show "t_unique key col (snd (t_upsert key col k g f mk t))"
  proof (cases "find (\<lambda>r. col r = k) (t_rows t)")
    case None
    then have "k \<notin> col ` set (t_rows t)" by (auto simp: find_None_iff)
    with None t fit show ?thesis
      by (fastforce simp: t_upsert_def t_insert_def t_unique_def t_wf_def fits_def)
  next
    case (Some r)
    have "t_wf key (t_update (\<lambda>q. key q = key r) f t)"
      using t fit by (auto simp: t_unique_def fits_def intro: sql_table.wf_upd [OF sql_table_list])
    moreover have "distinct (map col (t_rows (t_update (\<lambda>q. key q = key r) f t)))"
      using t by (simp add: t_unique_def t_update_def cols del: map_map)
    ultimately show ?thesis using Some t by (simp add: t_upsert_def t_unique_def)
  qed
next
  fix t :: "'a table" and k f mk j g
  assume t: "t_unique key col t" and fit: "fits key col k f mk" and jk: "j \<noteq> k"
  show "t_find col j (snd (t_upsert key col k g f mk t)) = t_find col j t"
  proof (cases "find (\<lambda>r. col r = k) (t_rows t)")
    case None
    with jk fit show ?thesis
      by (auto simp: t_find_def t_upsert_def t_insert_def find_append fits_def split: option.splits)
  next
    case (Some r)
    have r: "col r = k" "r \<in> set (t_rows t)" using Some by (auto simp: find_Some_iff)
    have "(if key q = key r then f q else q) = q" if "find (\<lambda>q. col q = j) (t_rows t) = Some q" for q
    proof -
      from that have "col q = j" "q \<in> set (t_rows t)" by (auto simp: find_Some_iff)
      with r jk t show ?thesis
        by (auto simp: t_unique_def t_wf_def distinct_map inj_on_def)
    qed
    then have "map_option (\<lambda>q. if key q = key r then f q else q) (find (\<lambda>q. col q = j) (t_rows t))
        = find (\<lambda>q. col q = j) (t_rows t)"
      by (cases "find (\<lambda>q. col q = j) (t_rows t)") auto
    moreover have "find (\<lambda>q. col q = j) (map (\<lambda>q. if key q = key r then f q else q) (t_rows t))
        = map_option (\<lambda>q. if key q = key r then f q else q) (find (\<lambda>q. col q = j) (t_rows t))"
      using t fit by (intro find_update_key) (auto simp: t_unique_def t_wf_def fits_def)
    ultimately show ?thesis using Some by (simp add: t_find_def t_upsert_def t_update_def)
  qed
next
  fix t :: "'a table" and k f mk r g
  assume t: "t_unique key col t" and fit: "fits key col k f mk" and r: "t_find col k t = Some r"
  have upd: "find (\<lambda>q. col q = k) (map (\<lambda>q. if key q = key r then f q else q) (t_rows t)) = Some (f r)"
    using r t fit find_update_key [of key "t_rows t" f col k "key r"]
    by (simp add: t_find_def t_unique_def t_wf_def fits_def)
  show "t_find col k (snd (t_upsert key col k g f mk t)) = Some (if g r then f r else r)
      \<and> fst (t_upsert key col k g f mk t) = (if g r then Some (key r) else None)"
    using r upd by (simp add: t_find_def t_upsert_def t_update_def)
next
  fix t :: "'a table" and k f mk g
  assume t: "t_unique key col t" and fit: "fits key col k f mk" and no: "t_find col k t = None"
  show "\<exists>i. t_find col k (snd (t_upsert key col k g f mk t)) = Some (mk i)
      \<and> fst (t_upsert key col k g f mk t) = Some i"
    using no fit by (auto simp: t_find_def t_upsert_def t_insert_def find_append fits_def)
qed

section \<open>The constraints of the schema\<close>

definition resource_of :: "waste_row \<Rightarrow> string \<times> string" where
  "resource_of x = (w_resource_id x, w_resource_type x)"

text \<open>The constraints \<open>uq_waste_resource\<close> and \<open>uq_rec_waste\<close>.\<close>

definition schema_ok :: "world \<Rightarrow> bool" where
  "schema_ok w \<longleftrightarrow> t_unique w_id resource_of (wastes w) \<and> t_unique r_id r_waste (recs w)"

interpretation waste_conflict: conflict_table w_id resource_of "t_find resource_of"
    "t_upsert w_id resource_of" "t_unique w_id resource_of"
  by (rule conflict_table_list)

interpretation rec_conflict: conflict_table r_id r_waste "t_find r_waste" "t_upsert r_id r_waste"
    "t_unique r_id r_waste"
  by (rule conflict_table_list)

end
