(* ===== verification/Insights.thy ===== *)
theory Insights
  imports Upsert
begin

text \<open>
  The AI insights of \<open>src/core/llm.py\<close>: what of a recommendation reaches the language model, and
  which rows the answers are written to. The provider is a function from the prompt to its text;
  \<open>None\<close> is a failed call or an empty answer, and no provider at all means that insights are off.
  The prompt is the tuple of values that the template is filled with.
\<close>

section \<open>Sanitising\<close>

definition is_control :: "char \<Rightarrow> bool" where
  "is_control c \<longleftrightarrow> of_char c \<in> {9, 10, 13 :: nat}"

text \<open>\<open>re.sub("[\r\n\t]+", " ", s)\<close>: a run of control characters becomes one blank.\<close>

fun sub_controls :: "string \<Rightarrow> string" where
  "sub_controls [] = []"
| "sub_controls [c] = (if is_control c then '' '' else [c])"
| "sub_controls (c # d # s) =
     (if is_control c then (if is_control d then sub_controls (d # s) else CHR '' '' # sub_controls (d # s))
      else c # sub_controls (d # s))"

text \<open>\<open>re.sub(" {2,}", " ", s)\<close>.\<close>

fun sub_spaces :: "string \<Rightarrow> string" where
  "sub_spaces [] = []"
| "sub_spaces [c] = [c]"
| "sub_spaces (c # d # s) =
     (if c = CHR '' '' \<and> d = CHR '' '' then sub_spaces (d # s) else c # sub_spaces (d # s))"

definition MAX_METADATA_FIELD_LEN :: nat where
  "MAX_METADATA_FIELD_LEN = 300"

definition sanitize_text :: "string \<Rightarrow> string" where
  "sanitize_text s = take MAX_METADATA_FIELD_LEN (strip (sub_spaces (sub_controls s)))"

fun sanitize_value :: "json \<Rightarrow> json" where
  "sanitize_value (JStr s) = JStr (sanitize_text s)"
| "sanitize_value (JObj d) = JObj (map (\<lambda>(k, v). (k, sanitize_value v)) d)"
| "sanitize_value (JList vs) = JList (map sanitize_value vs)"
| "sanitize_value v = v"

definition sanitize_metadata :: "(string, json) dict \<Rightarrow> json" where
  "sanitize_metadata metadata = sanitize_value (JObj metadata)"

section \<open>One insight\<close>

record prompt =
  p_action :: string
  p_resource_type :: string
  p_savings :: rat
  p_confidence :: rat
  p_metadata :: json

definition build_prompt :: "string \<Rightarrow> string \<Rightarrow> rat \<Rightarrow> rat \<Rightarrow> (string, json) dict \<Rightarrow> prompt" where
  "build_prompt action resource_type savings confidence metadata =
     \<lparr>p_action = action, p_resource_type = resource_type, p_savings = savings,
      p_confidence = confidence, p_metadata = sanitize_metadata metadata\<rparr>"

definition generate_insight ::
    "(prompt \<Rightarrow> string option) option \<Rightarrow> string \<Rightarrow> string \<Rightarrow> rat \<Rightarrow> rat \<Rightarrow> (string, json) dict
     \<Rightarrow> string option" where
  "generate_insight llm action resource_type savings confidence metadata =
     (case llm of
        None \<Rightarrow> None
      | Some ask \<Rightarrow>
          (case ask (build_prompt action resource_type savings confidence metadata) of
             None \<Rightarrow> None
           | Some answer \<Rightarrow> if answer = [] then None else Some (strip answer)))"

section \<open>The rows that get one\<close>

definition MAX_INSIGHTS_PER_RUN :: nat where
  "MAX_INSIGHTS_PER_RUN = 25"

text \<open>The largest savings first; rows of equal savings in table order.\<close>

definition insight_candidates :: "nat \<Rightarrow> world \<Rightarrow> (rec_row \<times> waste_row) list" where
  "insight_candidates limit w =
     take limit (sort_key (\<lambda>(r, x). - r_savings r)
       (filter (\<lambda>(r, x). r_status r = Pending \<and> r_insight r = None) (joined w)))"

definition set_insight :: "nat \<Rightarrow> string \<Rightarrow> world \<Rightarrow> world" where
  "set_insight rid text w =
     w\<lparr>recs := t_update (\<lambda>r. r_id r = rid) (\<lambda>r. r\<lparr>r_insight := Some text\<rparr>) (recs w)\<rparr>"

fun enrich_rows ::
    "(prompt \<Rightarrow> string option) option \<Rightarrow> (rec_row \<times> waste_row) list \<Rightarrow> world \<Rightarrow> nat \<times> world" where
  "enrich_rows llm [] w = (0, w)"
| "enrich_rows llm ((r, x) # rows) w =
     (case generate_insight llm (r_action r) (w_resource_type x) (r_savings r) (w_confidence x)
             (w_metadata x) of
        None \<Rightarrow> enrich_rows llm rows w
      | Some text \<Rightarrow>
          if text = [] then enrich_rows llm rows w
          else (case enrich_rows llm rows (set_insight (r_id r) text w) of (n, w') \<Rightarrow> (n + 1, w')))"

definition enrich_recommendations ::
    "(prompt \<Rightarrow> string option) option \<Rightarrow> nat \<Rightarrow> world \<Rightarrow> nat \<times> world" where
  "enrich_recommendations llm limit w =
     (if llm = None then (0, w) else enrich_rows llm (insight_candidates limit w) w)"

section \<open>What the model may read\<close>

text \<open>Every string in a document satisfies \<open>P\<close>; the keys of mappings are not counted.\<close>

fun all_text :: "(string \<Rightarrow> bool) \<Rightarrow> json \<Rightarrow> bool" where
  "all_text P (JStr s) = P s"
| "all_text P (JObj d) = (\<forall>(k, v) \<in> set d. all_text P v)"
| "all_text P (JList vs) = (\<forall>v \<in> set vs. all_text P v)"
| "all_text P _ = True"

definition clean :: "string \<Rightarrow> bool" where
  "clean s \<longleftrightarrow> length s \<le> MAX_METADATA_FIELD_LEN \<and> (\<forall>c \<in> set s. \<not> is_control c)
     \<and> \<not> sublist ''  '' s"

lemma sub_controls_clean: "c \<in> set (sub_controls s) \<Longrightarrow> \<not> is_control c"
  by (induction s rule: sub_controls.induct) (auto simp: is_control_def split: if_splits)

lemma set_sub_spaces: "set (sub_spaces s) \<subseteq> set s"
  by (induction s rule: sub_spaces.induct) auto

lemma sub_spaces_hd: "sub_spaces (c # s) \<noteq> [] \<and> hd (sub_spaces (c # s)) = c"
  by (induction "c # s" arbitrary: c s rule: sub_spaces.induct) auto

lemma two_blanks_Cons: "sublist ''  '' (c # s) \<longleftrightarrow> c = CHR '' '' \<and> s \<noteq> [] \<and> hd s = CHR '' '' \<or> sublist ''  '' s"
  by (cases s) (auto simp: sublist_Cons_right)

lemma sub_spaces_single: "\<not> sublist ''  '' (sub_spaces s)"
proof (induction s rule: sub_spaces.induct)
  case (3 c d s)
  then show ?case using sub_spaces_hd [of d s] by (auto simp: two_blanks_Cons)
qed (auto simp: sublist_Cons_right)

lemma sublist_strip: "sublist (strip s) s"
proof -
  have "suffix (dropWhile is_space s) s" by (rule suffix_dropWhile)
  moreover have "prefix (rev (dropWhile is_space (rev (dropWhile is_space s)))) (dropWhile is_space s)"
    using suffix_dropWhile [of is_space "rev (dropWhile is_space s)"] by (simp add: suffix_to_prefix)
  ultimately show ?thesis
    unfolding strip_def
    using prefix_imp_sublist suffix_imp_sublist sublist_order.order_trans by blast
qed

lemma clean_sanitize_text: "clean (sanitize_text s)"
proof -
  have sub: "sublist (sanitize_text s) (sub_spaces (sub_controls s))"
    unfolding sanitize_text_def
    using sublist_strip sublist_order.order_trans prefix_imp_sublist take_is_prefix by blast
  have "c \<in> set (sanitize_text s) \<Longrightarrow> \<not> is_control c" for c
    using set_mono_sublist [OF sub] set_sub_spaces sub_controls_clean by blast
  moreover have "\<not> sublist ''  '' (sanitize_text s)"
    using sub sub_spaces_single sublist_order.order_trans by blast
  ultimately show ?thesis
    by (auto simp: clean_def sanitize_text_def MAX_METADATA_FIELD_LEN_def)
qed

lemma clean_sanitize_value: "all_text clean (sanitize_value v)"
  by (induction v rule: sanitize_value.induct) (auto simp: clean_sanitize_text)

text \<open>The columns that an insight leaves alone: all but itself.\<close>

definition insight_of :: "rec_row \<Rightarrow> string option" where
  "insight_of r = r_insight r"

lemma enrich_rows_frame:
  "wastes (snd (enrich_rows llm rows w)) = wastes w \<and> alog (snd (enrich_rows llm rows w)) = alog w
   \<and> snaps (snd (enrich_rows llm rows w)) = snaps w \<and> svgs (snd (enrich_rows llm rows w)) = svgs w
   \<and> events (snd (enrich_rows llm rows w)) = events w"
  by (induction llm rows w rule: enrich_rows.induct)
     (auto simp: set_insight_def case_prod_unfold split: option.splits)

end
