(* ===== verification/Detection.thy ===== *)
theory Detection
  imports Insights
begin

text \<open>
  What every detector shares: the provenance of prices (\<open>src/core/pricing.py\<close>), the scan of the
  regions (\<open>src/core/region_scan.py\<close>), the daily photograph of the waste
  (\<open>src/core/snapshots.py\<close>), and \<open>save\<close>, \<open>recommend\<close> and \<open>run\<close> of
  \<open>src/detectors/steampipe_base.py\<close>. A failed statement rolls back and is outside the model.
\<close>

section \<open>Provenance of prices\<close>

definition PRICING_SOURCE :: string where
  "PRICING_SOURCE = ''aws_on_demand_static''"

definition PRICING_AS_OF :: string where
  "PRICING_AS_OF = ''2026-07-18''"

definition PRICING_CURRENCY :: string where
  "PRICING_CURRENCY = ''USD''"

definition stamp_pricing :: "(string, json) dict \<Rightarrow> (string, json) dict" where
  "stamp_pricing metadata =
     dict_merge [(''pricing_source'', JStr PRICING_SOURCE), (''pricing_as_of'', JStr PRICING_AS_OF),
                 (''pricing_currency'', JStr PRICING_CURRENCY)] metadata"

section \<open>Regions that answered\<close>

datatype det_error = NotScanned string | QueryFailed string

text \<open>\<open>zip\<close> stops at the shorter list; the callers pass one result per region.\<close>

definition scanned_results :: "'a option list \<Rightarrow> string list \<Rightarrow> string \<Rightarrow> det_error + 'a list" where
  "scanned_results results regions what =
     (let failed = map fst (filter (\<lambda>(region, res). res = None) (zip regions results))
      in if failed \<noteq> [] \<and> length failed = length regions then Inl (NotScanned what)
         else Inr (List.map_filter id results))"

section \<open>Waste rows\<close>

text \<open>
  The upsert of a waste row. The Steampipe detectors refresh \<open>waste_type\<close> on a conflict, the boto3
  detectors do not.
\<close>

definition upsert_waste ::
    "bool \<Rightarrow> env \<Rightarrow> string \<Rightarrow> string \<Rightarrow> string \<Rightarrow> rat \<Rightarrow> rat \<Rightarrow> (string, json) dict \<Rightarrow> world
     \<Rightarrow> nat \<times> world" where
  "upsert_waste refresh env rid rtype wtype cost conf meta w =
     (case t_upsert w_id resource_of (rid, rtype) (\<lambda>_. True)
             (\<lambda>x. x\<lparr>w_date := e_today env, w_waste_type := (if refresh then wtype else w_waste_type x),
                    w_monthly := cost, w_confidence := conf, w_metadata := meta\<rparr>)
             (\<lambda>i. \<lparr>w_id = i, w_date = e_today env, w_resource_id = rid, w_resource_type = rtype,
                   w_waste_type = wtype, w_monthly = cost, w_confidence = conf, w_metadata = meta\<rparr>)
             (wastes w) of
        (oid, ws) \<Rightarrow> (the oid, w\<lparr>wastes := ws\<rparr>))"

text \<open>The loop of every \<open>save\<close>: one statement per item, the ids in the order of the items.\<close>

fun save_all :: "('a \<Rightarrow> world \<Rightarrow> nat \<times> world) \<Rightarrow> 'a list \<Rightarrow> world \<Rightarrow> nat list \<times> world" where
  "save_all save_one [] w = ([], w)"
| "save_all save_one (v # vs) w =
     (case save_one v w of
        (i, w1) \<Rightarrow> (case save_all save_one vs w1 of (ids, w2) \<Rightarrow> (i # ids, w2)))"

section \<open>Recommendation rows\<close>

text \<open>The savings moved by more than 10 percent of the old figure, and by more than 0.50.\<close>

definition savings_drift :: "rat \<Rightarrow> rat \<Rightarrow> bool" where
  "savings_drift old new \<longleftrightarrow> \<bar>old - new\<bar> > max (old * (1 / 10)) (1 / 2)"

definition refresh_savings :: "rat \<Rightarrow> rec_row \<Rightarrow> rec_row" where
  "refresh_savings saving r =
     r\<lparr>r_savings := saving,
       r_insight := (if savings_drift (r_savings r) saving then None else r_insight r)\<rparr>"

definition new_rec :: "nat \<Rightarrow> string \<Rightarrow> string \<Rightarrow> rat \<Rightarrow> nat \<Rightarrow> rec_row" where
  "new_rec wid rtype action saving i =
     \<lparr>r_id = i, r_waste = wid, r_type = rtype, r_action = action, r_savings = saving,
      r_status = Pending, r_applied_at = None, r_execute_after = None, r_pr_url = None,
      r_insight = None\<rparr>"

definition upsert_rec :: "nat \<Rightarrow> string \<Rightarrow> string \<Rightarrow> rat \<Rightarrow> world \<Rightarrow> world" where
  "upsert_rec wid rtype action saving w =
     w\<lparr>recs := snd (t_upsert r_id r_waste wid (\<lambda>r. r_status r = Pending) (refresh_savings saving)
                      (new_rec wid rtype action saving) (recs w))\<rparr>"

section \<open>The Steampipe base class\<close>

record item =
  it_resource :: string
  it_cost :: rat
  it_confidence :: rat
  it_action :: string
  it_metadata :: "(string, json) dict"

record 'row detector =
  d_resource_type :: string
  d_waste_type :: string
  d_rec_type :: string
  d_map_rows :: "env \<Rightarrow> 'row list \<Rightarrow> item list"

definition save_items :: "env \<Rightarrow> 'row detector \<Rightarrow> item list \<Rightarrow> world \<Rightarrow> nat list \<times> world" where
  "save_items env d =
     save_all (\<lambda>it. upsert_waste True env (it_resource it) (d_resource_type d) (d_waste_type d) (it_cost it)
                      (it_confidence it) (stamp_pricing (it_metadata it)))"

fun recommend_items :: "'row detector \<Rightarrow> (nat \<times> item) list \<Rightarrow> world \<Rightarrow> nat \<times> world" where
  "recommend_items d [] w = (0, w)"
| "recommend_items d ((i, it) # rest) w =
     (case recommend_items d rest (upsert_rec i (d_rec_type d) (it_action it) (it_cost it) w) of
        (n, w') \<Rightarrow> (n + 1, w'))"

section \<open>The daily photograph\<close>

text \<open>
  The table \<open>waste_snapshots\<close>, keyed by date and resource type, with the total and the number of
  resources. It is outside \<open>world\<close>: only the detectors write it.
\<close>

type_synonym shots = "(int \<times> string, rat \<times> nat) dict"

record lake =
  lk_world :: world
  lk_shots :: shots

definition waste_types :: "world \<Rightarrow> string list" where
  "waste_types w = remdups (map w_resource_type (t_rows (wastes w)))"

definition active_of :: "string \<Rightarrow> world \<Rightarrow> waste_row list" where
  "active_of rt w = filter (\<lambda>x. w_resource_type x = rt) (active_waste w)"

definition photograph :: "env \<Rightarrow> world \<Rightarrow> shots \<Rightarrow> shots" where
  "photograph env w shots =
     fold (\<lambda>rt. AList.update (e_today env, rt)
                  (sum_list (map w_monthly (active_of rt w)), length (active_of rt w)))
       (waste_types w) shots"

definition MIN_HISTORY_DAYS :: nat where
  "MIN_HISTORY_DAYS = 7"

definition BACKFILL_DAYS :: nat where
  "BACKFILL_DAYS = 180"

text \<open>
  \<open>(metadata->>'age_days')::int\<close>: a missing key and a JSON null are NULL; an integer is read; the
  cast of anything else fails and ends the statement (texts of digits are not written by any
  detector).
\<close>

fun age_column :: "json option \<Rightarrow> unit + int option" where
  "age_column None = Inr None"
| "age_column (Some JNull) = Inr None"
| "age_column (Some (JInt n)) = Inr (Some n)"
| "age_column (Some _) = Inl ()"

definition created_on :: "env \<Rightarrow> waste_row \<Rightarrow> unit + int" where
  "created_on env x =
     py_bind (age_column (map_of (w_metadata x) ''age_days'')) (\<lambda>age.
       Inr (case age of None \<Rightarrow> w_date x | Some n \<Rightarrow> e_today env - n))"

text \<open>The rows that the reconstruction offers: one for each past day and type with waste.\<close>

definition aged_rows :: "env \<Rightarrow> world \<Rightarrow> unit + (waste_row \<times> int) list" where
  "aged_rows env w = py_map (\<lambda>x. py_bind (created_on env x) (\<lambda>c. Inr (x, c))) (active_waste w)"

definition past_row :: "(waste_row \<times> int) list \<Rightarrow> int \<Rightarrow> string \<Rightarrow> (rat \<times> nat) option" where
  "past_row aged day rt =
     (let here = filter (\<lambda>(x, c). w_resource_type x = rt \<and> c \<le> day) aged
      in if here = [] then None else Some (sum_list (map (w_monthly \<circ> fst) here), length here))"

definition insert_shot :: "(int \<times> string) \<Rightarrow> (rat \<times> nat) option \<Rightarrow> shots \<Rightarrow> shots" where
  "insert_shot k v shots =
     (case v of None \<Rightarrow> shots
      | Some y \<Rightarrow> if map_of shots k = None then shots @ [(k, y)] else shots)"

definition backfill_waste_history :: "env \<Rightarrow> nat \<Rightarrow> world \<Rightarrow> shots \<Rightarrow> shots" where
  "backfill_waste_history env days w shots =
     (case aged_rows env w of
        Inl _ \<Rightarrow> shots
      | Inr aged \<Rightarrow>
          fold (\<lambda>(day, rt). insert_shot (day, rt) (past_row aged day rt))
            (List.product [e_today env - int days .. e_today env - 1]
               (remdups (map (w_resource_type \<circ> fst) aged)))
            shots)"

definition history_days :: "shots \<Rightarrow> nat" where
  "history_days shots = length (remdups (map (fst \<circ> fst) shots))"

definition snapshot_active_waste :: "env \<Rightarrow> lake \<Rightarrow> lake" where
  "snapshot_active_waste env l =
     (let shots = photograph env (lk_world l) (lk_shots l)
      in l\<lparr>lk_shots := (if history_days shots < MIN_HISTORY_DAYS
                        then backfill_waste_history env BACKFILL_DAYS (lk_world l) shots
                        else shots)\<rparr>)"

section \<open>A run of a detector\<close>

definition run_detector ::
    "env \<Rightarrow> (prompt \<Rightarrow> string option) option \<Rightarrow> 'row detector \<Rightarrow> det_error + 'row list \<Rightarrow> lake
     \<Rightarrow> det_error option \<times> lake" where
  "run_detector env llm d answer l =
     (case answer of
        Inl e \<Rightarrow> (Some e, l)
      | Inr rows \<Rightarrow>
          let items = d_map_rows d env rows
          in if items = [] then (None, snapshot_active_waste env l)
             else
               let (ids, w1) = save_items env d items (lk_world l);
                   (_, w2) = recommend_items d (zip ids items) w1;
                   l' = snapshot_active_waste env (l\<lparr>lk_world := w2\<rparr>)
               in (None, l'\<lparr>lk_world := snd (enrich_recommendations llm MAX_INSIGHTS_PER_RUN (lk_world l'))\<rparr>))"

end
