(* ===== verification/DetectionFacts.thy ===== *)
theory DetectionFacts
  imports Detection
begin

text \<open>
  What a run of any detector does to the tables: decisions already taken on a recommendation are
  never touched, every item ends up in one waste row with one recommendation, and the photograph
  of the day adds up.
\<close>

section \<open>How recommendations may evolve\<close>

text \<open>
  Between \<open>w\<close> and \<open>w'\<close> every recommendation evolves as \<open>R\<close> allows, new ones have a status of \<open>N\<close>, and
  nothing but waste rows and recommendations changes.
\<close>

definition evolves :: "rec_status set \<Rightarrow> (rec_row \<Rightarrow> rec_row \<Rightarrow> bool) \<Rightarrow> world \<Rightarrow> world \<Rightarrow> bool" where
  "evolves N R w w' \<longleftrightarrow>
     schema_ok w' \<and> alog w' = alog w \<and> snaps w' = snaps w \<and> svgs w' = svgs w \<and> events w' = events w
     \<and> (\<forall>wid. case t_find r_waste wid (recs w) of
          None \<Rightarrow> (\<forall>r'. t_find r_waste wid (recs w') = Some r' \<longrightarrow> r_status r' \<in> N)
        | Some r \<Rightarrow> \<exists>r'. t_find r_waste wid (recs w') = Some r' \<and> R r r')"

locale evolution =
  fixes N :: "rec_status set" and R :: "rec_row \<Rightarrow> rec_row \<Rightarrow> bool"
  assumes fresh: "Pending \<in> N"
    and refl: "R r r"
    and trans: "R r q \<Longrightarrow> R q p \<Longrightarrow> R r p"
    and closed: "R r q \<Longrightarrow> r_status r \<in> N \<Longrightarrow> r_status q \<in> N"
begin

lemma evolves_same:
  "schema_ok w \<Longrightarrow> t_unique w_id resource_of ws \<Longrightarrow> evolves N R w (w\<lparr>wastes := ws\<rparr>)"
  by (auto simp: evolves_def schema_ok_def refl split: option.splits)

lemma evolves_refl: "schema_ok w \<Longrightarrow> evolves N R w w"
  by (auto simp: evolves_def refl split: option.splits)

lemma evolves_trans:
  assumes "evolves N R w v" "evolves N R v u"
  shows "evolves N R w u"
proof -
  have "case t_find r_waste wid (recs w) of
          None \<Rightarrow> (\<forall>r'. t_find r_waste wid (recs u) = Some r' \<longrightarrow> r_status r' \<in> N)
        | Some r \<Rightarrow> \<exists>r'. t_find r_waste wid (recs u) = Some r' \<and> R r r'" for wid
  proof -
    note one = assms(1) [unfolded evolves_def, THEN conjunct2, THEN conjunct2, THEN conjunct2,
        THEN conjunct2, THEN conjunct2, rule_format, of wid]
    note two = assms(2) [unfolded evolves_def, THEN conjunct2, THEN conjunct2, THEN conjunct2,
        THEN conjunct2, THEN conjunct2, rule_format, of wid]
    show ?thesis
    proof (cases "t_find r_waste wid (recs w)")
      case None
      with one two show ?thesis
        by (cases "t_find r_waste wid (recs v)") (auto dest: closed)
    next
      case (Some r)
      with one obtain q where "t_find r_waste wid (recs v) = Some q" "R r q" by auto
      with two Some show ?thesis by (auto intro: trans)
    qed
  qed
  with assms show ?thesis by (simp add: evolves_def)
qed

text \<open>One statement on the recommendations.\<close>

lemma evolves_upsert:
  assumes "schema_ok w" "fits r_id r_waste wid f mk" "\<And>i. r_status (mk i) = Pending"
    and "\<And>r. g r \<Longrightarrow> R r (f r)"
  shows "evolves N R w (w\<lparr>recs := snd (t_upsert r_id r_waste wid g f mk (recs w))\<rparr>)"
proof -
  have t: "t_unique r_id r_waste (recs w)" using assms(1) by (simp add: schema_ok_def)
  note wf = rec_conflict.put_wf [OF t assms(2), of g]
  have "case t_find r_waste j (recs w) of
          None \<Rightarrow> (\<forall>r'. t_find r_waste j (snd (t_upsert r_id r_waste wid g f mk (recs w))) = Some r'
                     \<longrightarrow> r_status r' \<in> N)
        | Some r \<Rightarrow> \<exists>r'. t_find r_waste j (snd (t_upsert r_id r_waste wid g f mk (recs w))) = Some r'
                     \<and> R r r'" for j
  proof (cases "j = wid")
    case True
    then show ?thesis
      using rec_conflict.put_known [OF t assms(2), where g = g]
        rec_conflict.put_new [OF t assms(2), where g = g] assms(3,4) refl fresh
      by (cases "t_find r_waste wid (recs w)") auto
  next
    case False
    then show ?thesis
      using rec_conflict.put_other [OF t assms(2) False, of g] refl
      by (auto split: option.splits)
  qed
  with wf assms(1) show ?thesis by (simp add: evolves_def schema_ok_def cong: option.case_cong)
qed

end

text \<open>
  The evolution under the base class: only a pending row changes, and only its savings and its
  insight.
\<close>

definition savings_only :: "rec_row \<Rightarrow> rec_row \<Rightarrow> bool" where
  "savings_only r r' \<longleftrightarrow>
     r' = r \<or> r_status r = Pending \<and> r' = r\<lparr>r_savings := r_savings r', r_insight := r_insight r'\<rparr>"

lemma savings_only_fields:
  "savings_only r r' \<longleftrightarrow>
     r' = r \<or> r_status r = Pending \<and> r_id r' = r_id r \<and> r_waste r' = r_waste r \<and> r_type r' = r_type r
       \<and> r_action r' = r_action r \<and> r_status r' = r_status r \<and> r_applied_at r' = r_applied_at r
       \<and> r_execute_after r' = r_execute_after r \<and> r_pr_url r' = r_pr_url r"
  by (cases r; cases r') (auto simp: savings_only_def)

interpretation savings_evolution: evolution "{Pending}" savings_only
  by unfold_locales (auto simp: savings_only_fields)

section \<open>The steps of a run\<close>

lemma schema_wastes: "schema_ok w \<Longrightarrow> t_unique w_id resource_of (wastes w)"
  by (simp add: schema_ok_def)

lemma upsert_waste_fits:
  "fits w_id resource_of (rid, rtype)
     (\<lambda>x. x\<lparr>w_date := d, w_waste_type := (if refresh then wtype else w_waste_type x),
            w_monthly := cost, w_confidence := conf, w_metadata := meta\<rparr>)
     (\<lambda>i. \<lparr>w_id = i, w_date = d, w_resource_id = rid, w_resource_type = rtype,
           w_waste_type = wtype, w_monthly = cost, w_confidence = conf, w_metadata = meta\<rparr>)"
  by (simp add: fits_def resource_of_def)

lemma upsert_waste_recs [simp]:
  "recs (snd (upsert_waste refresh env rid rtype wtype cost conf meta w)) = recs w"
  by (simp add: upsert_waste_def case_prod_unfold)

lemma upsert_waste_schema:
  "schema_ok w \<Longrightarrow> schema_ok (snd (upsert_waste refresh env rid rtype wtype cost conf meta w))"
  using waste_conflict.put_wf [OF schema_wastes upsert_waste_fits]
  by (simp add: upsert_waste_def case_prod_unfold schema_ok_def)

text \<open>The row under the key carries the values of the item; all other rows are as before.\<close>

lemma upsert_waste_row:
  assumes "schema_ok w"
  shows "\<exists>x. t_find resource_of (rid, rtype)
        (wastes (snd (upsert_waste refresh env rid rtype wtype cost conf meta w))) = Some x
      \<and> fst (upsert_waste refresh env rid rtype wtype cost conf meta w) = w_id x
      \<and> w_date x = e_today env \<and> w_monthly x = cost \<and> w_confidence x = conf \<and> w_metadata x = meta
      \<and> (case t_find resource_of (rid, rtype) (wastes w) of
           None \<Rightarrow> w_waste_type x = wtype
         | Some q \<Rightarrow> w_id x = w_id q \<and> w_waste_type x = (if refresh then wtype else w_waste_type q))"
  by (rule waste_conflict.put_always [OF schema_wastes [OF assms] upsert_waste_fits
        [where rid = rid and rtype = rtype and d = "e_today env" and refresh = refresh
           and wtype = wtype and cost = cost and conf = conf and meta = meta]])
     (auto simp: upsert_waste_def case_prod_unfold)

lemma upsert_waste_other:
  assumes "schema_ok w" "k \<noteq> (rid, rtype)"
  shows "t_find resource_of k (wastes (snd (upsert_waste refresh env rid rtype wtype cost conf meta w)))
    = t_find resource_of k (wastes w)"
  using waste_conflict.put_other [OF schema_wastes [OF assms(1)] upsert_waste_fits assms(2)]
  by (simp add: upsert_waste_def case_prod_unfold)

context evolution
begin

lemma evolves_upsert_waste:
  assumes "schema_ok w"
  shows "evolves N R w (snd (upsert_waste refresh env rid rtype wtype cost conf meta w))"
proof -
  have "t_unique w_id resource_of (wastes (snd (upsert_waste refresh env rid rtype wtype cost conf meta w)))"
    using upsert_waste_schema [OF assms] by (simp add: schema_ok_def)
  from evolves_same [OF assms this] show ?thesis
    by (simp add: upsert_waste_def case_prod_unfold)
qed

end

lemma upsert_rec_fits: "fits r_id r_waste wid (refresh_savings s) (new_rec wid rtype action s)"
  by (simp add: fits_def refresh_savings_def new_rec_def)

lemma upsert_rec_evolves: "schema_ok w \<Longrightarrow> evolves {Pending} savings_only w (upsert_rec wid rtype action s w)"
  unfolding upsert_rec_def
  by (rule savings_evolution.evolves_upsert [OF _ upsert_rec_fits])
     (auto simp: new_rec_def savings_only_fields refresh_savings_def)

lemma evolves_schema: "evolves N R w w' \<Longrightarrow> schema_ok w'"
  by (simp add: evolves_def)

context evolution
begin

lemma save_all_evolves:
  assumes "\<And>v w. schema_ok w \<Longrightarrow> evolves N R w (snd (save_one v w))" "schema_ok w"
  shows "evolves N R w (snd (save_all save_one vs w))"
  using assms(2)
proof (induction vs arbitrary: w)
  case (Cons v vs)
  from evolves_trans [OF assms(1) [OF Cons.prems] Cons.IH] show ?case
    using evolves_schema [OF assms(1) [OF Cons.prems]] by (simp add: case_prod_unfold)
qed (simp add: evolves_refl)

end

lemma save_items_evolves:
  "schema_ok w \<Longrightarrow> evolves {Pending} savings_only w (snd (save_items env d its w))"
  unfolding save_items_def
  by (rule savings_evolution.save_all_evolves [OF savings_evolution.evolves_upsert_waste])

lemma recommend_items_evolves:
  "schema_ok w \<Longrightarrow> evolves {Pending} savings_only w (snd (recommend_items d rows w))"
proof (induction rows arbitrary: w)
  case Nil
  then show ?case by (simp add: savings_evolution.evolves_refl)
next
  case (Cons row rows)
  obtain i it where row: "row = (i, it)" by fastforce
  let ?w1 = "upsert_rec i (d_rec_type d) (it_action it) (it_cost it) w"
  have "evolves {Pending} savings_only w ?w1" by (rule upsert_rec_evolves [OF Cons.prems])
  moreover from evolves_schema [OF this] have "evolves {Pending} savings_only ?w1 (snd (recommend_items d rows ?w1))"
    by (rule Cons.IH)
  ultimately show ?case
    by (simp add: row case_prod_unfold) (rule savings_evolution.evolves_trans)
qed

section \<open>Every item has its row\<close>

text \<open>
  The contract between \<open>save\<close> and what it saves: \<open>key\<close> is the unique key of an item, \<open>carry v x\<close>
  says that the row \<open>x\<close> carries the values of \<open>v\<close>.
\<close>

locale saver =
  fixes save_one :: "'v \<Rightarrow> world \<Rightarrow> nat \<times> world"
    and key :: "'v \<Rightarrow> string \<times> string"
    and carry :: "'v \<Rightarrow> waste_row \<Rightarrow> bool"
  assumes one_row: "schema_ok w \<Longrightarrow>
      \<exists>x. t_find resource_of (key v) (wastes (snd (save_one v w))) = Some x
          \<and> fst (save_one v w) = w_id x \<and> carry v x"
    and one_other: "schema_ok w \<Longrightarrow> k \<noteq> key v \<Longrightarrow>
      t_find resource_of k (wastes (snd (save_one v w))) = t_find resource_of k (wastes w)"
    and one_id: "schema_ok w \<Longrightarrow> t_find resource_of (key v) (wastes w) = Some x \<Longrightarrow>
      fst (save_one v w) = w_id x"
    and one_schema: "schema_ok w \<Longrightarrow> schema_ok (snd (save_one v w))"
    and one_recs: "recs (snd (save_one v w)) = recs w"
begin

lemma save_Cons:
  "save_all save_one (v # vs) w =
     (fst (save_one v w) # fst (save_all save_one vs (snd (save_one v w))),
      snd (save_all save_one vs (snd (save_one v w))))"
  by (simp add: case_prod_unfold)

lemma save_recs: "recs (snd (save_all save_one vs w)) = recs w"
  by (induction vs arbitrary: w) (simp_all add: case_prod_unfold one_recs)

lemma save_length: "length (fst (save_all save_one vs w)) = length vs"
  by (induction vs arbitrary: w) (simp_all add: case_prod_unfold)

lemma save_schema: "schema_ok w \<Longrightarrow> schema_ok (snd (save_all save_one vs w))"
  by (induction vs arbitrary: w) (simp_all add: case_prod_unfold one_schema)

lemma one_keeps_id:
  assumes "schema_ok w" "t_find resource_of k (wastes w) = Some x"
  shows "\<exists>y. t_find resource_of k (wastes (snd (save_one v w))) = Some y \<and> w_id y = w_id x"
proof (cases "k = key v")
  case True
  with one_row [OF assms(1), of v] one_id [OF assms(1), of v x] assms(2) show ?thesis by auto
next
  case False
  with one_other [OF assms(1) False] assms(2) show ?thesis by simp
qed

lemma save_keeps_id:
  assumes "schema_ok w" "t_find resource_of k (wastes w) = Some x"
  shows "\<exists>y. t_find resource_of k (wastes (snd (save_all save_one vs w))) = Some y \<and> w_id y = w_id x"
  using assms
proof (induction vs arbitrary: w x)
  case (Cons v vs)
  from one_keeps_id [OF Cons.prems] obtain y where
    y: "t_find resource_of k (wastes (snd (save_one v w))) = Some y" "w_id y = w_id x" by blast
  from Cons.IH [OF one_schema [OF Cons.prems(1)] y(1)] y(2) show ?case
    by (simp add: save_Cons del: save_all.simps(2))
qed simp

text \<open>The last item with a key decides the row; rows without an item are as before.\<close>

lemma save_rows:
  "schema_ok w \<Longrightarrow>
   (case find (\<lambda>v. key v = k) (rev vs) of
      None \<Rightarrow> t_find resource_of k (wastes (snd (save_all save_one vs w))) = t_find resource_of k (wastes w)
    | Some v \<Rightarrow> \<exists>x. t_find resource_of k (wastes (snd (save_all save_one vs w))) = Some x \<and> carry v x)"
proof (induction vs arbitrary: w)
  case (Cons v vs)
  note IH = Cons.IH [OF one_schema [OF Cons.prems], of v]
  show ?case
  proof (cases "find (\<lambda>v. key v = k) (rev vs)")
    case None
    show ?thesis
    proof (cases "key v = k")
      case True
      with one_row [OF Cons.prems, of v] None IH show ?thesis
        by (auto simp: save_Cons find_append simp del: save_all.simps(2))
    next
      case False
      with one_other [OF Cons.prems, of k v] None IH show ?thesis
        by (auto simp: save_Cons find_append simp del: save_all.simps(2))
    qed
  next
    case (Some v')
    with IH show ?thesis by (auto simp: save_Cons find_append simp del: save_all.simps(2))
  qed
qed simp

text \<open>The ids that \<open>save\<close> returns are the ids of the rows, also of those that existed.\<close>

lemma save_ids:
  assumes "schema_ok w" "(i, v) \<in> set (zip (fst (save_all save_one vs w)) vs)"
  shows "\<exists>x. t_find resource_of (key v) (wastes (snd (save_all save_one vs w))) = Some x \<and> w_id x = i"
  using assms
proof (induction vs arbitrary: w)
  case (Cons v' vs)
  let ?w1 = "snd (save_one v' w)"
  from Cons.prems(2) consider "i = fst (save_one v' w)" "v = v'"
    | "(i, v) \<in> set (zip (fst (save_all save_one vs ?w1)) vs)"
    by (auto simp: save_Cons simp del: save_all.simps(2))
  then show ?case
  proof cases
    case 1
    with one_row [OF Cons.prems(1), of v'] obtain x where
      "t_find resource_of (key v) (wastes ?w1) = Some x" "w_id x = i" by auto
    from save_keeps_id [OF one_schema [OF Cons.prems(1)] this(1)] this(2)
    show ?thesis by (simp add: save_Cons del: save_all.simps(2))
  next
    case 2
    from Cons.IH [OF one_schema [OF Cons.prems(1)] 2] show ?thesis
      by (simp add: save_Cons del: save_all.simps(2))
  qed
qed simp

lemma ids_distinct:
  assumes "schema_ok w" "distinct (map key vs)"
  shows "distinct (fst (save_all save_one vs w))"
proof -
  let ?ids = "fst (save_all save_one vs w)" and ?w' = "snd (save_all save_one vs w)"
  have row: "\<exists>x. t_find resource_of (key (vs ! n)) (wastes ?w') = Some x \<and> w_id x = ?ids ! n"
    if "n < length vs" for n
    using save_ids [OF assms(1), of "?ids ! n" "vs ! n" vs] that save_length [of vs w]
    by (metis in_set_zip fst_conv snd_conv)
  have keys: "inj_on w_id (set (t_rows (wastes ?w')))"
    using save_schema [OF assms(1), of vs] by (simp add: schema_ok_def t_unique_def t_wf_def distinct_map)
  have "m = n" if "m < length vs" "n < length vs" "?ids ! m = ?ids ! n" for m n
  proof -
    from row [OF that(1)] obtain x where
      x: "t_find resource_of (key (vs ! m)) (wastes ?w') = Some x" "w_id x = ?ids ! m" by blast
    from row [OF that(2)] obtain y where
      y: "t_find resource_of (key (vs ! n)) (wastes ?w') = Some y" "w_id y = ?ids ! n" by blast
    from x y have "x = y"
      using inj_onD [OF keys, of x y] that(3) by (auto simp: t_find_def find_Some_iff)
    with x(1) y(1) have "key (vs ! m) = key (vs ! n)" by (auto simp: t_find_def find_Some_iff)
    with assms(2) that(1,2) show ?thesis using nth_eq_iff_index_eq [OF assms(2), of m n] by simp
  qed
  then show ?thesis by (simp add: distinct_conv_nth save_length) blast
qed

text \<open>With distinct keys every item has its own row, and its id.\<close>

lemma save_item_row:
  assumes "schema_ok w" "distinct (map key vs)" "v \<in> set vs"
  shows "\<exists>x. t_find resource_of (key v) (wastes (snd (save_all save_one vs w))) = Some x \<and> carry v x
      \<and> (w_id x, v) \<in> set (zip (fst (save_all save_one vs w)) vs)"
proof -
  have "find (\<lambda>u. key u = key v) (rev vs) = Some v"
    using unique_find [of key "rev vs" v] assms(2,3) by (simp add: rev_map [symmetric])
  with save_rows [OF assms(1), of "key v" vs] obtain x where
    x: "t_find resource_of (key v) (wastes (snd (save_all save_one vs w))) = Some x" "carry v x" by auto
  from assms(3) obtain n where n: "n < length vs" "vs ! n = v" by (auto simp: in_set_conv_nth)
  then have z: "(fst (save_all save_one vs w) ! n, v) \<in> set (zip (fst (save_all save_one vs w)) vs)"
    using save_length [of vs w] by (force simp: in_set_zip)
  from save_ids [OF assms(1) z] x z show ?thesis by auto
qed

end

text \<open>Every detector saves through the one upsert of waste rows.\<close>

lemma upsert_saver:
  "saver (\<lambda>v. upsert_waste refresh env (rid v) rt wt (cost v) (conf v) (meta v)) (\<lambda>v. (rid v, rt))
     (\<lambda>v x. w_date x = e_today env \<and> w_monthly x = cost v \<and> w_confidence x = conf v \<and> w_metadata x = meta v
            \<and> (refresh \<longrightarrow> w_waste_type x = wt))"
proof
  fix w v
  assume ok: "schema_ok w"
  note row = upsert_waste_row [OF ok, of "rid v" rt refresh env wt "cost v" "conf v" "meta v"]
  show "\<exists>x. t_find resource_of (rid v, rt) (wastes (snd (upsert_waste refresh env (rid v) rt wt (cost v) (conf v) (meta v) w))) = Some x
      \<and> fst (upsert_waste refresh env (rid v) rt wt (cost v) (conf v) (meta v) w) = w_id x
      \<and> w_date x = e_today env \<and> w_monthly x = cost v \<and> w_confidence x = conf v \<and> w_metadata x = meta v
      \<and> (refresh \<longrightarrow> w_waste_type x = wt)"
    using row by (auto split: option.splits if_splits)
  show "t_find resource_of k (wastes (snd (upsert_waste refresh env (rid v) rt wt (cost v) (conf v) (meta v) w)))
      = t_find resource_of k (wastes w)" if "k \<noteq> (rid v, rt)" for k
    by (rule upsert_waste_other [OF ok that])
  show "fst (upsert_waste refresh env (rid v) rt wt (cost v) (conf v) (meta v) w) = w_id x"
    if "t_find resource_of (rid v, rt) (wastes w) = Some x" for x
    using row that by auto
  show "schema_ok (snd (upsert_waste refresh env (rid v) rt wt (cost v) (conf v) (meta v) w))"
    by (rule upsert_waste_schema [OF ok])
qed simp

definition carries :: "env \<Rightarrow> 'row detector \<Rightarrow> item \<Rightarrow> waste_row \<Rightarrow> bool" where
  "carries env d it x \<longleftrightarrow>
     w_date x = e_today env \<and> w_monthly x = it_cost it \<and> w_confidence x = it_confidence it
     \<and> w_metadata x = stamp_pricing (it_metadata it) \<and> (True \<longrightarrow> w_waste_type x = d_waste_type d)"

abbreviation item_key :: "'row detector \<Rightarrow> item \<Rightarrow> string \<times> string" where
  "item_key d it \<equiv> (it_resource it, d_resource_type d)"

interpretation steampipe: saver
    "\<lambda>it. upsert_waste True env (it_resource it) (d_resource_type d) (d_waste_type d) (it_cost it)
            (it_confidence it) (stamp_pricing (it_metadata it))"
    "item_key d" "carries env d"
  for env and d :: "'row detector"
  unfolding carries_def by (rule upsert_saver)

lemma save_items_rows:
  "schema_ok w \<Longrightarrow>
   (case find (\<lambda>it. item_key d it = k) (rev its) of
      None \<Rightarrow> t_find resource_of k (wastes (snd (save_items env d its w))) = t_find resource_of k (wastes w)
    | Some it \<Rightarrow> \<exists>x. t_find resource_of k (wastes (snd (save_items env d its w))) = Some x \<and> carries env d it x)"
  unfolding save_items_def by (rule steampipe.save_rows)

lemma save_items_item:
  "schema_ok w \<Longrightarrow> distinct (map (item_key d) its) \<Longrightarrow> it \<in> set its \<Longrightarrow>
   \<exists>x. t_find resource_of (item_key d it) (wastes (snd (save_items env d its w))) = Some x
     \<and> carries env d it x \<and> (w_id x, it) \<in> set (zip (fst (save_items env d its w)) its)"
  unfolding save_items_def by (rule steampipe.save_item_row)

lemma save_items_ids_distinct:
  "schema_ok w \<Longrightarrow> distinct (map (item_key d) its) \<Longrightarrow> distinct (fst (save_items env d its w))"
  unfolding save_items_def by (rule steampipe.ids_distinct)

lemma save_items_recs [simp]: "recs (snd (save_items env d its w)) = recs w"
  unfolding save_items_def by (rule steampipe.save_recs)

lemma save_items_length: "length (fst (save_items env d its w)) = length its"
  unfolding save_items_def by (rule steampipe.save_length)

section \<open>Every item has its recommendation\<close>

text \<open>What becomes of the row of a waste: \<open>q\<close> before, \<open>r\<close> after.\<close>

definition recommended :: "'row detector \<Rightarrow> item \<Rightarrow> rec_row option \<Rightarrow> rec_row \<Rightarrow> bool" where
  "recommended d it q r \<longleftrightarrow>
     (case q of
        None \<Rightarrow> r_status r = Pending \<and> r_type r = d_rec_type d \<and> r_action r = it_action it
                \<and> r_savings r = it_cost it
      | Some q \<Rightarrow> if r_status q = Pending then r = refresh_savings (it_cost it) q else r = q)"

lemma upsert_rec_row:
  assumes "schema_ok w"
  shows "\<exists>r. t_find r_waste wid (recs (upsert_rec wid (d_rec_type d) (it_action it) (it_cost it) w)) = Some r
      \<and> recommended d it (t_find r_waste wid (recs w)) r"
proof -
  have t: "t_unique r_id r_waste (recs w)" using assms by (simp add: schema_ok_def)
  show ?thesis
    using rec_conflict.put_known [OF t upsert_rec_fits, of wid _ "\<lambda>r. r_status r = Pending"]
      rec_conflict.put_new [OF t upsert_rec_fits, of wid "\<lambda>r. r_status r = Pending"]
    by (cases "t_find r_waste wid (recs w)")
       (force simp: upsert_rec_def recommended_def new_rec_def)+
qed

lemma upsert_rec_other:
  assumes "schema_ok w" "j \<noteq> wid"
  shows "t_find r_waste j (recs (upsert_rec wid ty a s w)) = t_find r_waste j (recs w)"
  using rec_conflict.put_other [OF _ upsert_rec_fits assms(2)] assms(1)
  by (simp add: upsert_rec_def schema_ok_def)

lemma upsert_rec_wastes [simp]: "wastes (upsert_rec wid ty a s w) = wastes w"
  by (simp add: upsert_rec_def)

lemma upsert_rec_schema: "schema_ok w \<Longrightarrow> schema_ok (upsert_rec wid ty a s w)"
  using upsert_rec_evolves evolves_schema by blast

lemma recommend_items_wastes [simp]: "wastes (snd (recommend_items d rows w)) = wastes w"
  by (induction rows arbitrary: w) (auto simp: case_prod_unfold)

lemma recommend_items_count [simp]: "fst (recommend_items d rows w) = length rows"
  by (induction rows arbitrary: w) (auto simp: case_prod_unfold)

lemma recommend_items_other:
  assumes "schema_ok w" "j \<notin> fst ` set rows"
  shows "t_find r_waste j (recs (snd (recommend_items d rows w))) = t_find r_waste j (recs w)"
  using assms
proof (induction rows arbitrary: w)
  case (Cons row rows)
  then show ?case
    using upsert_rec_schema upsert_rec_other
    by (cases row) (simp add: case_prod_unfold)
qed simp

lemma recommend_items_rows:
  assumes "schema_ok w" "distinct (map fst rows)" "(i, it) \<in> set rows"
  shows "\<exists>r. t_find r_waste i (recs (snd (recommend_items d rows w))) = Some r
      \<and> recommended d it (t_find r_waste i (recs w)) r"
  using assms
proof (induction rows arbitrary: w)
  case (Cons row rows)
  obtain j jt where row: "row = (j, jt)" by fastforce
  let ?w1 = "upsert_rec j (d_rec_type d) (it_action jt) (it_cost jt) w"
  note s1 = upsert_rec_schema [OF Cons.prems(1), of j "d_rec_type d" "it_action jt" "it_cost jt"]
  show ?case
  proof (cases "(i, it) = row")
    case True
    with Cons.prems(2) row have "i \<notin> fst ` set rows" by auto
    from recommend_items_other [OF s1 this, of d] upsert_rec_row [OF Cons.prems(1), of i d it] True row
    show ?thesis by (simp add: case_prod_unfold)
  next
    case False
    with Cons.prems(2,3) row have "i \<noteq> j" "(i, it) \<in> set rows" by force+
    with Cons.IH [OF s1] Cons.prems(2) upsert_rec_other [OF Cons.prems(1), of i j] row
    show ?thesis by (simp add: case_prod_unfold)
  qed
qed simp

section \<open>Insights change nothing else\<close>

definition insight_only :: "rec_row \<Rightarrow> rec_row \<Rightarrow> bool" where
  "insight_only r r' \<longleftrightarrow>
     r' = r \<or> r_status r = Pending \<and> r' = r\<lparr>r_insight := r_insight r'\<rparr>"

lemma insight_only_fields:
  "insight_only r r' \<longleftrightarrow>
     r' = r \<or> r_status r = Pending \<and> r_id r' = r_id r \<and> r_waste r' = r_waste r \<and> r_type r' = r_type r
       \<and> r_action r' = r_action r \<and> r_savings r' = r_savings r \<and> r_status r' = r_status r
       \<and> r_applied_at r' = r_applied_at r \<and> r_execute_after r' = r_execute_after r
       \<and> r_pr_url r' = r_pr_url r"
  by (cases r; cases r') (auto simp: insight_only_def)

interpretation insight_evolution: evolution "{Pending}" insight_only
  by unfold_locales (auto simp: insight_only_fields)

lemma evolves_mono:
  assumes "evolves N R w w'" "\<And>r r'. R r r' \<Longrightarrow> S r r'"
  shows "evolves N S w w'"
proof -
  have "case t_find r_waste wid (recs w) of
          None \<Rightarrow> (\<forall>r'. t_find r_waste wid (recs w') = Some r' \<longrightarrow> r_status r' \<in> N)
        | Some r \<Rightarrow> \<exists>r'. t_find r_waste wid (recs w') = Some r' \<and> S r r'" for wid
    using assms(1) [unfolded evolves_def, THEN conjunct2, THEN conjunct2, THEN conjunct2,
        THEN conjunct2, THEN conjunct2, rule_format, of wid] assms(2)
    by (cases "t_find r_waste wid (recs w)") auto
  with assms(1) show ?thesis by (simp add: evolves_def)
qed

definition pending_ids :: "nat set \<Rightarrow> world \<Rightarrow> bool" where
  "pending_ids A w \<longleftrightarrow> (\<forall>r \<in> set (t_rows (recs w)). r_id r \<in> A \<longrightarrow> r_status r = Pending)"

lemma set_insight_evolves:
  assumes "schema_ok w" "pending_ids {rid} w"
  shows "evolves {Pending} insight_only w (set_insight rid text w)"
proof -
  let ?f = "\<lambda>r. r\<lparr>r_insight := Some text\<rparr>"
  have keys: "map r_id (map (\<lambda>r. if r_id r = rid then ?f r else r) xs) = map r_id xs"
    and cols: "map r_waste (map (\<lambda>r. if r_id r = rid then ?f r else r) xs) = map r_waste xs" for xs
    by auto
  have wf: "t_wf r_id (recs w)" "distinct (map r_waste (t_rows (recs w)))"
    using assms(1) by (auto simp: schema_ok_def t_unique_def)
  have "t_wf r_id (t_update (\<lambda>r. r_id r = rid) ?f (recs w))"
    by (rule rec_table.wf_upd [OF wf(1)]) simp
  then have "schema_ok (set_insight rid text w)"
    using assms(1) wf(2) by (simp add: schema_ok_def t_unique_def set_insight_def t_update_def cols del: map_map)
  moreover have "find (\<lambda>r. r_waste r = k) (t_rows (recs (set_insight rid text w)))
      = map_option (\<lambda>r. if r_id r = rid then ?f r else r) (find (\<lambda>r. r_waste r = k) (t_rows (recs w)))" for k
    using find_update_key [of r_id "t_rows (recs w)" ?f r_waste k rid] wf(1)
    by (simp add: set_insight_def t_update_def t_wf_def)
  moreover have "r_id r = rid \<Longrightarrow> find (\<lambda>r. r_waste r = k) (t_rows (recs w)) = Some r \<Longrightarrow> r_status r = Pending" for k r
    using assms(2) by (auto simp: pending_ids_def find_Some_iff)
  ultimately show ?thesis
    by (auto simp: evolves_def t_find_def insight_only_fields set_insight_def split: option.splits)
qed

lemma pending_ids_set_insight: "pending_ids A w \<Longrightarrow> pending_ids A (set_insight rid text w)"
  by (auto simp: pending_ids_def set_insight_def t_update_def)

lemma enrich_rows_evolves:
  "schema_ok w \<Longrightarrow> pending_ids ((r_id \<circ> fst) ` set rows) w \<Longrightarrow> evolves {Pending} insight_only w (snd (enrich_rows llm rows w))"
proof (induction llm rows w rule: enrich_rows.induct)
  case (1 llm w)
  then show ?case by (simp add: insight_evolution.evolves_refl)
next
  case (2 llm r x rows w)
  have rest: "pending_ids ((r_id \<circ> fst) ` set rows) v" "pending_ids {r_id r} v"
    if "pending_ids ((r_id \<circ> fst) ` set ((r, x) # rows)) v" for v
    using that by (auto simp: pending_ids_def)
  have step: "evolves {Pending} insight_only w (set_insight (r_id r) s w)" for s
    by (rule set_insight_evolves [OF 2(4) rest(2) [OF 2(5)]])
  show ?case
    using 2(1) 2(2) 2(3)[OF _ _ evolves_schema [OF step] rest(1) [OF pending_ids_set_insight [OF 2(5)]]]
      2(4) rest(1) [OF 2(5)] insight_evolution.evolves_trans [OF step]
    by (auto simp: case_prod_unfold split: option.splits)
qed

lemma enrich_evolves:
  assumes "schema_ok w"
  shows "evolves {Pending} insight_only w (snd (enrich_recommendations llm limit w))"
proof (cases "llm = None")
  case True
  then show ?thesis by (simp add: enrich_recommendations_def insight_evolution.evolves_refl assms)
next
  case False
  have keys: "distinct (map r_id (t_rows (recs w)))"
    using assms by (simp add: schema_ok_def t_unique_def t_wf_def)
  have "pending_ids ((r_id \<circ> fst) ` set (insight_candidates limit w)) w"
  proof -
    { fix q r x assume q: "q \<in> set (t_rows (recs w))" and "(r, x) \<in> set (insight_candidates limit w)"
        and "r_id q = r_id r"
      then have "r \<in> set (t_rows (recs w))" "r_status r = Pending"
        by (auto simp: insight_candidates_def dest!: in_set_takeD dest: joined_mem)
      with q \<open>r_id q = r_id r\<close> keys have "r_status q = Pending"
        by (auto simp: distinct_map inj_on_def) }
    then show ?thesis by (force simp: pending_ids_def)
  qed
  from enrich_rows_evolves [OF assms this, of llm] False show ?thesis by (simp only: enrich_recommendations_def if_False)
qed

section \<open>A run\<close>

lemma snapshot_world [simp]: "lk_world (snapshot_active_waste env l) = lk_world l"
  by (simp add: snapshot_active_waste_def Let_def)

definition scanned :: "env \<Rightarrow> 'row detector \<Rightarrow> item list \<Rightarrow> world \<Rightarrow> world" where
  "scanned env d items w =
     (let w1 = snd (save_items env d items w)
      in snd (recommend_items d (zip (fst (save_items env d items w)) items) w1))"

lemma run_detector_world:
  assumes "run_detector env llm d answer l = (e, l')"
  shows "(case answer of
            Inl x \<Rightarrow> e = Some x \<and> l' = l
          | Inr rows \<Rightarrow> e = None
              \<and> lk_world l' = (if d_map_rows d env rows = [] then lk_world l
                  else snd (enrich_recommendations llm MAX_INSIGHTS_PER_RUN
                         (scanned env d (d_map_rows d env rows) (lk_world l)))))"
  using assms by (auto simp: run_detector_def scanned_def Let_def case_prod_unfold split: sum.splits if_splits)

lemma scanned_evolves: "schema_ok w \<Longrightarrow> evolves {Pending} savings_only w (scanned env d items w)"
  unfolding scanned_def Let_def
  using savings_evolution.evolves_trans save_items_evolves recommend_items_evolves evolves_schema by blast

lemma run_detector_evolves:
  assumes "schema_ok (lk_world l)" "run_detector env llm d answer l = (e, l')"
  shows "evolves {Pending} savings_only (lk_world l) (lk_world l')"
proof (cases answer)
  case (Inl x)
  with run_detector_world [OF assms(2)] assms(1) show ?thesis
    by (simp add: savings_evolution.evolves_refl)
next
  case (Inr rows)
  let ?v = "scanned env d (d_map_rows d env rows) (lk_world l)"
  note v = scanned_evolves [OF assms(1), of env d "d_map_rows d env rows"]
  have "evolves {Pending} savings_only ?v (snd (enrich_recommendations llm MAX_INSIGHTS_PER_RUN ?v))"
    by (rule evolves_mono [OF enrich_evolves [OF evolves_schema [OF v]]])
       (auto simp: insight_only_fields savings_only_fields)
  from savings_evolution.evolves_trans [OF v this] run_detector_world [OF assms(2)] Inr assms(1)
  show ?thesis by (auto simp: savings_evolution.evolves_refl)
qed

text \<open>The same, row by row.\<close>

lemma unique_rec: "schema_ok w \<Longrightarrow> r \<in> set (t_rows (recs w)) \<Longrightarrow> t_find r_waste (r_waste r) (recs w) = Some r"
  by (simp add: schema_ok_def t_unique_def t_find_def unique_find)

lemma t_find_mem: "t_find col k t = Some r \<Longrightarrow> r \<in> set (t_rows t) \<and> col r = k"
  by (auto simp: t_find_def find_Some_iff)

lemma evolves_rows:
  assumes "evolves N R w w'" "schema_ok w"
  shows "r \<in> set (t_rows (recs w)) \<Longrightarrow> \<exists>r' \<in> set (t_rows (recs w')). R r r'"
    and "r' \<in> set (t_rows (recs w')) \<Longrightarrow> r_waste r' \<notin> r_waste ` set (t_rows (recs w)) \<Longrightarrow> r_status r' \<in> N"
proof -
  note ev = assms(1) [unfolded evolves_def, THEN conjunct2, THEN conjunct2, THEN conjunct2,
      THEN conjunct2, THEN conjunct2, rule_format]
  { assume "r \<in> set (t_rows (recs w))"
    from ev [of "r_waste r"] unique_rec [OF assms(2) this]
    obtain r' where "t_find r_waste (r_waste r) (recs w') = Some r'" "R r r'" by auto
    then show "\<exists>r' \<in> set (t_rows (recs w')). R r r'" by (auto dest: t_find_mem) }
  { assume r': "r' \<in> set (t_rows (recs w'))" and no: "r_waste r' \<notin> r_waste ` set (t_rows (recs w))"
    from no have "t_find r_waste (r_waste r') (recs w) = None"
      unfolding t_find_def find_None_iff by (metis image_eqI)
    with ev [of "r_waste r'"] unique_rec [OF evolves_schema [OF assms(1)] r'] show "r_status r' \<in> N"
      by auto }
qed

lemma enrich_wastes [simp]: "wastes (snd (enrich_recommendations llm limit w)) = wastes w"
  by (simp add: enrich_recommendations_def enrich_rows_frame)

lemma scanned_wastes [simp]: "wastes (scanned env d items w) = wastes (snd (save_items env d items w))"
  by (simp add: scanned_def Let_def)

lemma item_keys_distinct: "distinct (map it_resource items) \<Longrightarrow> distinct (map (item_key d) items)"
  by (simp add: distinct_map inj_on_def)

lemma scanned_item:
  assumes ok: "schema_ok w" and dist: "distinct (map it_resource items)" and it: "it \<in> set items"
  shows "\<exists>x r. t_find resource_of (item_key d it) (wastes (scanned env d items w)) = Some x
      \<and> carries env d it x
      \<and> t_find r_waste (w_id x) (recs (scanned env d items w)) = Some r
      \<and> recommended d it (t_find r_waste (w_id x) (recs w)) r"
proof -
  let ?ids = "fst (save_items env d items w)" and ?w1 = "snd (save_items env d items w)"
  have s1: "schema_ok ?w1" using save_items_evolves [OF ok] evolves_schema by blast
  from save_items_item [OF ok item_keys_distinct [OF dist] it, of d env] obtain x where
    x: "t_find resource_of (item_key d it) (wastes ?w1) = Some x" "carries env d it x"
      "(w_id x, it) \<in> set (zip ?ids items)" by blast
  have "distinct (map fst (zip ?ids items))"
    using save_items_ids_distinct [OF ok item_keys_distinct [OF dist], where env = env]
      save_items_length [where env = env and d = d and its = items and w = w] by simp
  from recommend_items_rows [OF s1 this x(3), of d] x(1,2) show ?thesis
    by (auto simp: scanned_def Let_def)
qed

lemma evolves_find:
  assumes "evolves N R w w'" "t_find r_waste k (recs w) = Some r"
  shows "\<exists>r'. t_find r_waste k (recs w') = Some r' \<and> R r r'"
  using assms(1) [unfolded evolves_def, THEN conjunct2, THEN conjunct2, THEN conjunct2,
      THEN conjunct2, THEN conjunct2, rule_format, of k] assms(2) by simp

lemma recommended_then_insight:
  assumes "recommended d it q p" "insight_only p r"
  shows "case q of
      None \<Rightarrow> r_status r = Pending \<and> r_type r = d_rec_type d \<and> r_action r = it_action it
              \<and> r_savings r = it_cost it
    | Some q \<Rightarrow> if r_status q = Pending
                then r_status r = Pending \<and> r_savings r = it_cost it \<and> r_type r = r_type q
                     \<and> r_action r = r_action q
                else r = q"
proof (cases q)
  case None
  with assms show ?thesis by (auto simp: recommended_def insight_only_fields)
next
  case (Some a)
  show ?thesis
  proof (cases "r_status a = Pending")
    case True
    with Some assms show ?thesis by (auto simp: recommended_def insight_only_fields refresh_savings_def)
  next
    case False
    with Some assms have "p = a" "r = p" by (auto simp: recommended_def insight_only_def)
    with Some False show ?thesis by simp
  qed
qed

section \<open>A sample state for concrete instances\<close>

definition sample_lake :: lake where
  "sample_lake = \<lparr>lk_world = sample_world, lk_shots = []\<rparr>"

lemma sample_schema: "schema_ok sample_world"
  by (simp add: schema_ok_def t_unique_def sample_world_def t_wf_def resource_of_def)

lemma sample_lake_schema: "schema_ok (lk_world sample_lake)"
  by (simp add: sample_lake_def sample_schema)

end
