(* ===== verification/WasteHistory.thy ===== *)
theory WasteHistory
  imports DetectionFacts
begin

text \<open>
  The history of the waste (\<open>src/core/snapshots.py\<close>): the photograph of the day adds up to the
  active waste, the reconstruction of the past overwrites nothing and is a floor that never
  decreases; and the scan of the regions (\<open>src/core/region_scan.py\<close>).
\<close>

section \<open>The photograph\<close>

lemma fold_update_map:
  "map_of (fold (\<lambda>k. AList.update (g k) (f k)) ks s) j
   = (case find (\<lambda>k. g k = j) (rev ks) of Some k \<Rightarrow> Some (f k) | None \<Rightarrow> map_of s j)"
  by (induction ks arbitrary: s) (auto simp: find_append update_conv' split: option.splits)

lemma photograph_map:
  "map_of (photograph env w shots) (day, rt) =
     (if day = e_today env \<and> rt \<in> set (waste_types w)
      then Some (sum_list (map w_monthly (active_of rt w)), length (active_of rt w))
      else map_of shots (day, rt))"
proof -
  have hit: "find (\<lambda>k. (d, k) = (day, rt)) ks = (if day = d \<and> rt \<in> set ks then Some rt else None)" for d ks
    by (induction ks) auto
  show ?thesis
    using fold_update_map [of "Pair (e_today env)"
        "\<lambda>rt. (sum_list (map w_monthly (active_of rt w)), length (active_of rt w))" "waste_types w" shots "(day, rt)"]
    unfolding photograph_def hit set_rev by (simp split: if_splits)
qed

lemma sum_by_class:
  assumes "distinct ts" "\<forall>x \<in> set xs. f x \<in> set ts"
  shows "(\<Sum>t \<leftarrow> ts. sum_list (map v (filter (\<lambda>x. f x = t) xs))) = (sum_list (map v xs) :: rat)"
  using assms(2)
proof (induction xs)
  case (Cons x xs)
  have "(\<Sum>t \<leftarrow> ts. sum_list (map v (filter (\<lambda>y. f y = t) (x # xs))))
      = (\<Sum>t \<leftarrow> ts. (if f x = t then v x else 0) + sum_list (map v (filter (\<lambda>y. f y = t) xs)))"
    by (intro arg_cong [where f = sum_list] map_cong) auto
  also have "\<dots> = (\<Sum>t \<leftarrow> ts. if f x = t then v x else 0) + sum_list (map v xs)"
    using Cons by (simp add: sum_list_addf)
  also have "(\<Sum>t \<leftarrow> ts. if f x = t then v x else 0) = v x"
    using assms(1) Cons.prems by (simp add: sum_list_distinct_conv_sum_set)
  finally show ?case by simp
qed simp

lemma active_types: "x \<in> set (active_waste w) \<Longrightarrow> w_resource_type x \<in> set (waste_types w)"
  by (auto simp: active_waste_def waste_types_def)

lemma photograph_total:
  "(\<Sum>rt \<leftarrow> waste_types w. fst (the (map_of (photograph env w shots) (e_today env, rt))))
   = sum_list (map w_monthly (active_waste w))"
proof -
  have "(\<Sum>rt \<leftarrow> waste_types w. fst (the (map_of (photograph env w shots) (e_today env, rt))))
      = (\<Sum>rt \<leftarrow> waste_types w. sum_list (map w_monthly (active_of rt w)))"
    by (intro arg_cong [where f = sum_list] map_cong) (auto simp: photograph_map)
  also have "\<dots> = sum_list (map w_monthly (active_waste w))"
    unfolding active_of_def
    by (rule sum_by_class) (auto simp: active_types, simp add: waste_types_def)
  finally show ?thesis .
qed

section \<open>The reconstruction\<close>

lemma insert_shot_map:
  "map_of (insert_shot k v s) j = (if j = k \<and> map_of s k = None then v else map_of s j)"
  by (cases v; cases "map_of s k") (auto simp: insert_shot_def map_add_def split: option.splits)

lemma fold_insert_map:
  "map_of (fold (\<lambda>(day, rt). insert_shot (day, rt) (f day rt)) ks s) (day, rt)
   = (case map_of s (day, rt) of
        Some v \<Rightarrow> Some v
      | None \<Rightarrow> if (day, rt) \<in> set ks then f day rt else None)"
proof (induction ks arbitrary: s)
  case (Cons k ks)
  obtain a b where k: "k = (a, b)" by fastforce
  show ?case
    using Cons [of "insert_shot k (f a b) s"]
    by (cases "map_of s (day, rt)"; cases "f day rt") (auto simp: k insert_shot_map)
qed (simp split: option.splits)

lemma py_map_fst: "py_map (\<lambda>x. py_bind (f x) (\<lambda>c. Inr (x, c))) xs = Inr ys \<Longrightarrow> map fst ys = xs"
  by (induction xs arbitrary: ys) (auto simp: py_simps)

lemma aged_rows_fst: "aged_rows env w = Inr aged \<Longrightarrow> map fst aged = active_waste w"
  by (simp add: aged_rows_def py_map_fst)

lemma past_row_bounds:
  assumes "\<forall>(x, c) \<in> set aged. 0 \<le> w_monthly x" "d1 \<le> d2"
  shows "case past_row aged d1 rt of
      None \<Rightarrow> True
    | Some (t1, n) \<Rightarrow> \<exists>t2 n'. past_row aged d2 rt = Some (t2, n') \<and> t1 \<le> t2 \<and> n \<le> n'"
proof -
  let ?at = "\<lambda>d. filter (\<lambda>(x, c). w_resource_type x = rt \<and> c \<le> d) aged"
  have "sum_list (map (w_monthly \<circ> fst) (?at d1)) \<le> sum_list (map (w_monthly \<circ> fst) (?at d2))"
    and "length (?at d1) \<le> length (?at d2)"
    using assms by (induction aged) auto
  moreover have "?at d2 = [] \<Longrightarrow> ?at d1 = []" using assms(2) by (auto simp: filter_empty_conv)
  ultimately show ?thesis by (auto simp: past_row_def Let_def)
qed

lemma past_row_today:
  assumes "\<forall>(x, c) \<in> set aged. 0 \<le> w_monthly x" "past_row aged d rt = Some (t1, n)"
  shows "t1 \<le> sum_list (map w_monthly (filter (\<lambda>x. w_resource_type x = rt) (map fst aged)))
    \<and> n \<le> length (filter (\<lambda>x. w_resource_type x = rt) (map fst aged))"
proof -
  have "sum_list (map (w_monthly \<circ> fst) (filter (\<lambda>(x, c). w_resource_type x = rt \<and> c \<le> d) aged))
      \<le> sum_list (map w_monthly (filter (\<lambda>x. w_resource_type x = rt) (map fst aged)))"
    and "length (filter (\<lambda>(x, c). w_resource_type x = rt \<and> c \<le> d) aged)
      \<le> length (filter (\<lambda>x. w_resource_type x = rt) (map fst aged))"
    using assms(1) by (induction aged) auto
  with assms(2) show ?thesis by (auto simp: past_row_def Let_def split: if_splits)
qed

section \<open>Regions that answered\<close>

lemma failed_regions:
  "length results = length regions \<Longrightarrow>
   length (filter (\<lambda>(region, res). res = None) (zip regions results)) = length (filter (\<lambda>r. r = None) results)"
  by (induction results regions rule: list_induct2) auto

lemma all_failed: "length (filter P xs) = length xs \<longleftrightarrow> (\<forall>x \<in> set xs. P x)"
  by (metis filter_True length_filter_less less_irrefl_nat)

text \<open>An error exactly when there is a region and none answered; else the answers in order.\<close>

lemma scanned_results_eq:
  assumes "length results = length regions"
  shows "scanned_results results regions what =
    (if results \<noteq> [] \<and> (\<forall>r \<in> set results. r = None) then Inl (NotScanned what)
     else Inr (List.map_filter id results))"
proof -
  have "length (filter (\<lambda>(region, res). res = None) (zip regions results)) = length regions
      \<longleftrightarrow> (\<forall>r \<in> set results. r = None)"
    using failed_regions [OF assms] all_failed [of "\<lambda>r. r = None" results] assms by simp
  moreover have "filter (\<lambda>(region, res). res = None) (zip regions results) \<noteq> []
      \<longleftrightarrow> (\<exists>r \<in> set results. r = None)"
    using failed_regions [OF assms] by (metis (mono_tags, lifting) filter_empty_conv length_0_conv)
  ultimately show ?thesis
    by (cases results) (auto simp: scanned_results_def Let_def)
qed

section \<open>Properties\<close>

lemma backfill_map:
  assumes "aged_rows env w = Inr aged"
  shows "map_of (backfill_waste_history env days w s) (d, rt) =
     (case map_of s (d, rt) of
        Some v \<Rightarrow> Some v
      | None \<Rightarrow> if e_today env - int days \<le> d \<and> d < e_today env \<and> rt \<in> set (map (w_resource_type \<circ> fst) aged)
                then past_row aged d rt else None)"
  using fold_insert_map [of "past_row aged"]
  by (auto simp: backfill_waste_history_def assms split: option.splits)

lemma past_row_type: "past_row aged d rt = Some v \<Longrightarrow> rt \<in> set (map (w_resource_type \<circ> fst) aged)"
  by (force simp: past_row_def Let_def filter_empty_conv split: if_splits)

text \<open>What the backfill adds for one key, and that it is a floor of what comes later.\<close>

lemma backfill_floor:
  assumes nonneg: "\<forall>x \<in> set (active_waste w). 0 \<le> w_monthly x"
    and none: "map_of s (d, rt) = None"
    and added: "map_of (backfill_waste_history env days w s) (d, rt) = Some (t, n)"
  shows "e_today env - int days \<le> d \<and> d < e_today env
    \<and> t \<le> sum_list (map w_monthly (active_of rt w)) \<and> n \<le> length (active_of rt w)
    \<and> (\<forall>d'. d \<le> d' \<and> d' < e_today env \<and> map_of s (d', rt) = None \<longrightarrow>
         (\<exists>t' n'. map_of (backfill_waste_history env days w s) (d', rt) = Some (t', n') \<and> t \<le> t' \<and> n \<le> n'))"
proof (cases "aged_rows env w")
  case (Inl e)
  with none added show ?thesis by (simp add: backfill_waste_history_def)
next
  case (Inr aged)
  note aged = aged_rows_fst [OF Inr]
  have pos: "\<forall>(x, c) \<in> set aged. 0 \<le> w_monthly x"
    using nonneg aged by (metis (no_types, lifting) case_prod_beta image_eqI set_map)
  from added none have d: "e_today env - int days \<le> d" "d < e_today env" "past_row aged d rt = Some (t, n)"
    by (auto simp: backfill_map [OF Inr] split: if_splits)
  have today: "t \<le> sum_list (map w_monthly (active_of rt w)) \<and> n \<le> length (active_of rt w)"
    using past_row_today [OF pos d(3)] by (simp add: aged active_of_def)
  have "\<exists>t' n'. map_of (backfill_waste_history env days w s) (d', rt) = Some (t', n') \<and> t \<le> t' \<and> n \<le> n'"
    if d': "d \<le> d'" "d' < e_today env" "map_of s (d', rt) = None" for d'
  proof -
    from past_row_bounds [OF pos d'(1), of rt] d(3) obtain t' n' where
      p: "past_row aged d' rt = Some (t', n')" "t \<le> t'" "n \<le> n'" by auto
    from d d' past_row_type [OF p(1)] p show ?thesis by (auto simp: backfill_map [OF Inr])
  qed
  with d today show ?thesis by blast
qed

text \<open>
  A snapshot records today's active waste exactly, type by type, so that the totals add up to
  the active waste; no entry of another day is overwritten; and the days that it reconstructs lie
  in the last 180, never exceed today's figure and never decrease from one reconstructed day to
  the next.
\<close>

theorem snapshot_history:
  fixes l :: lake and env :: env
  defines "w \<equiv> lk_world l" and "s \<equiv> lk_shots l" and "s' \<equiv> lk_shots (snapshot_active_waste env l)"
  assumes nonneg: "\<forall>x \<in> set (active_waste w). 0 \<le> w_monthly x"
  shows "(\<forall>rt \<in> set (waste_types w).
            map_of s' (e_today env, rt) = Some (sum_list (map w_monthly (active_of rt w)), length (active_of rt w)))
    \<and> (\<Sum>rt \<leftarrow> waste_types w. fst (the (map_of s' (e_today env, rt)))) = sum_list (map w_monthly (active_waste w))
    \<and> (\<forall>d rt v. d \<noteq> e_today env \<and> map_of s (d, rt) = Some v \<longrightarrow> map_of s' (d, rt) = Some v)
    \<and> (\<forall>d rt t n. d \<noteq> e_today env \<and> map_of s (d, rt) = None \<and> map_of s' (d, rt) = Some (t, n) \<longrightarrow>
         e_today env - int BACKFILL_DAYS \<le> d \<and> d < e_today env
         \<and> t \<le> sum_list (map w_monthly (active_of rt w)) \<and> n \<le> length (active_of rt w)
         \<and> (\<forall>d'. d \<le> d' \<and> d' < e_today env \<and> map_of s (d', rt) = None \<longrightarrow>
              (\<exists>t' n'. map_of s' (d', rt) = Some (t', n') \<and> t \<le> t' \<and> n \<le> n')))"
proof -
  define p where "p = photograph env w s"
  have s': "s' = (if history_days p < MIN_HISTORY_DAYS then backfill_waste_history env BACKFILL_DAYS w p else p)"
    by (simp add: s'_def p_def w_def s_def snapshot_active_waste_def Let_def)
  have known: "map_of p k = Some v \<Longrightarrow> map_of s' k = Some v" for k v
    using backfill_map [of env w _ BACKFILL_DAYS p "fst k" "snd k"]
    by (cases "aged_rows env w") (auto simp: s' backfill_waste_history_def [of env BACKFILL_DAYS w p])
  have today: "map_of s' (e_today env, rt) = Some (sum_list (map w_monthly (active_of rt w)), length (active_of rt w))"
    if "rt \<in> set (waste_types w)" for rt
    by (rule known) (simp add: p_def photograph_map that)
  have old: "map_of p (d, rt) = map_of s (d, rt)" if "d \<noteq> e_today env" for d rt
    using that by (simp add: p_def photograph_map)
  have "(\<Sum>rt \<leftarrow> waste_types w. fst (the (map_of s' (e_today env, rt))))
      = (\<Sum>rt \<leftarrow> waste_types w. fst (the (map_of p (e_today env, rt))))"
    by (intro arg_cong [where f = sum_list] map_cong) (auto simp: today, simp add: p_def photograph_map)
  also have "\<dots> = sum_list (map w_monthly (active_waste w))"
    by (simp add: p_def photograph_total)
  finally have total: "(\<Sum>rt \<leftarrow> waste_types w. fst (the (map_of s' (e_today env, rt))))
      = sum_list (map w_monthly (active_waste w))" .
  have floor: "e_today env - int BACKFILL_DAYS \<le> d \<and> d < e_today env
         \<and> t \<le> sum_list (map w_monthly (active_of rt w)) \<and> n \<le> length (active_of rt w)
         \<and> (\<forall>d'. d \<le> d' \<and> d' < e_today env \<and> map_of s (d', rt) = None \<longrightarrow>
              (\<exists>t' n'. map_of s' (d', rt) = Some (t', n') \<and> t \<le> t' \<and> n \<le> n'))"
    if d: "d \<noteq> e_today env" "map_of s (d, rt) = None" "map_of s' (d, rt) = Some (t, n)" for d rt t n
  proof -
    from d old have none: "map_of p (d, rt) = None" by simp
    with d(3) have s'': "s' = backfill_waste_history env BACKFILL_DAYS w p" by (auto simp: s' split: if_splits)
    from backfill_floor [OF nonneg none d(3) [unfolded s'']] old show ?thesis
      by (fold s'') force
  qed
  have kept: "map_of s' (d, rt) = Some v" if "d \<noteq> e_today env \<and> map_of s (d, rt) = Some v" for d rt v
    by (rule known) (use that old in simp)
  show ?thesis
    by (intro conjI [OF _ conjI [OF total conjI]] ballI allI impI) (erule today kept | rule floor; simp)+
qed

theorem snapshot_history_witness:
  "map_of (lk_shots (snapshot_active_waste sample_env sample_lake)) (100, ''ec2_instance'') = Some (30, 1)"
proof -
  have "active_waste (lk_world sample_lake) = t_rows (wastes sample_world)"
    by (simp add: sample_lake_def sample_world_def active_waste_def)
  then have w: "\<forall>x \<in> set (active_waste (lk_world sample_lake)). 0 \<le> w_monthly x"
    and "waste_types (lk_world sample_lake) = [''ec2_instance'']"
      "active_of ''ec2_instance'' (lk_world sample_lake) = t_rows (wastes sample_world)"
    by (auto simp: sample_lake_def sample_world_def active_of_def waste_types_def)
  with snapshot_history [OF w, of sample_env] show ?thesis
    by (simp add: sample_env_def sample_world_def)
qed

end
