(* ===== verification/SteampipeDetectors.thy ===== *)
theory SteampipeDetectors
  imports WasteHistory
begin

text \<open>
  The detectors that read a Steampipe query: \<open>map_rows\<close> of \<open>src/detectors/\<close>
  \<open>ebs_gp2_migration.py\<close>, \<open>elb_unused.py\<close>, \<open>nat_gateway_unused.py\<close>, \<open>ami_orphan.py\<close>,
  \<open>vpc_unused.py\<close>, \<open>rds_stopped.py\<close>, \<open>rds_idle.py\<close>, \<open>rds_snapshot_orphan.py\<close> and the price map
  \<open>rds_pricing.py\<close>. A row is a record of the columns its query of \<open>sql/steampipe/\<close> selects: the
  identifying column is a text, the others may be null. Dashes and arrows of the texts are ASCII.
\<close>

section \<open>Formatting\<close>

text \<open>An f-string shows a null column as \<open>None\<close>.\<close>

definition opt_text :: "string option \<Rightarrow> string" where
  "opt_text v = (case v of None \<Rightarrow> ''None'' | Some s \<Rightarrow> s)"

definition opt_int :: "int option \<Rightarrow> string" where
  "opt_int v = (case v of None \<Rightarrow> ''None'' | Some n \<Rightarrow> show_int n)"

definition json_int_opt :: "int option \<Rightarrow> json" where
  "json_int_opt v = (case v of None \<Rightarrow> JNull | Some n \<Rightarrow> JInt n)"

text \<open>\<open>row.get(c) or ""\<close> and \<open>float(row.get(c) or 0)\<close>.\<close>

abbreviation or_empty :: "string option \<Rightarrow> string" where
  "or_empty v \<equiv> or_default v []"

definition or_zero :: "'a::zero option \<Rightarrow> 'a" where
  "or_zero v = (case v of None \<Rightarrow> 0 | Some x \<Rightarrow> x)"

text \<open>
  The format \<open>:g\<close>: six significant digits, trailing zeros dropped, an exponent below \<open>1e-04\<close> and
  from \<open>1e+06\<close> on. \<open>exp10\<close> is the decimal exponent of a positive number.
\<close>

definition exp10 :: "rat \<Rightarrow> int" where
  "exp10 x = (if 1 \<le> x then int (length (show_nat (nat \<lfloor>x\<rfloor>))) - 1
              else - int (length (show_nat (nat (\<lceil>1 / x\<rceil> - 1)))))"

definition pow10 :: "int \<Rightarrow> rat" where
  "pow10 e = (if 0 \<le> e then 10 ^ nat e else 1 / 10 ^ nat (- e))"

definition drop_zeros :: "string \<Rightarrow> string" where
  "drop_zeros s = (if CHR ''.'' \<in> set s
     then (let t = rev (dropWhile (\<lambda>c. c = CHR ''0'') (rev s))
           in if t \<noteq> [] \<and> last t = CHR ''.'' then butlast t else t)
     else s)"

definition fmt_g :: "rat \<Rightarrow> string" where
  "fmt_g x =
     (if x = 0 then ''0''
      else
        let m = \<bar>x\<bar>;
            e0 = exp10 m;
            e = (if 10 ^ 6 \<le> round_half_even (m * pow10 (5 - e0)) then e0 + 1 else e0);
            body = (if - 4 \<le> e \<and> e < 6 then drop_zeros (fmt_fixed (nat (5 - e)) m)
                    else drop_zeros (fmt_fixed 5 (m / pow10 e)) @ ''e'' @
                         (if e < 0 then ''-'' else ''+'') @ show_frac (max 2 (length (show_nat (nat \<bar>e\<bar>)))) (nat \<bar>e\<bar>))
        in (if x < 0 then ''-'' else []) @ body)"

text \<open>
  \<open>age_days_from\<close>: \<open>parse_iso\<close> is \<open>datetime.fromisoformat\<close> after the \<open>Z\<close> of the text is replaced, as
  an instant in seconds; a time without a zone is read as UTC.
\<close>

definition age_days_from :: "(string \<Rightarrow> int option) \<Rightarrow> env \<Rightarrow> string option \<Rightarrow> int option" where
  "age_days_from parse_iso env value =
     (case value of
        None \<Rightarrow> None
      | Some s \<Rightarrow>
          if s = [] then None
          else (case parse_iso s of None \<Rightarrow> None | Some t \<Rightarrow> Some (max ((e_now env - t) div 86400) 0)))"

section \<open>RDS prices\<close>

definition HOURS_PER_MONTH_RDS :: rat where
  "HOURS_PER_MONTH_RDS = 730"

definition RDS_STORAGE_USD_PER_GB :: "(string, rat) dict" where
  "RDS_STORAGE_USD_PER_GB =
     [(''gp2'', 116 / 1000), (''gp3'', 128 / 1000), (''io1'', 125 / 1000), (''io2'', 125 / 1000),
      (''standard'', 1 / 10), (''magnetic'', 1 / 10)]"

definition RDS_STORAGE_DEFAULT_USD :: rat where
  "RDS_STORAGE_DEFAULT_USD = 116 / 1000"

definition RDS_SNAPSHOT_USD_PER_GB :: rat where
  "RDS_SNAPSHOT_USD_PER_GB = 95 / 1000"

definition RDS_INSTANCE_USD_PER_HOUR :: "(string, rat) dict" where
  "RDS_INSTANCE_USD_PER_HOUR =
     [(''db.t3.micro'', 18 / 1000), (''db.t3.small'', 36 / 1000), (''db.t3.medium'', 72 / 1000),
      (''db.t3.large'', 145 / 1000), (''db.t4g.micro'', 16 / 1000), (''db.t4g.small'', 32 / 1000),
      (''db.t4g.medium'', 65 / 1000), (''db.t4g.large'', 130 / 1000), (''db.m5.large'', 178 / 1000),
      (''db.m5.xlarge'', 356 / 1000), (''db.m5.2xlarge'', 712 / 1000), (''db.m6g.large'', 159 / 1000),
      (''db.m6g.xlarge'', 318 / 1000), (''db.m6g.2xlarge'', 636 / 1000), (''db.r5.large'', 240 / 1000),
      (''db.r5.xlarge'', 480 / 1000), (''db.r6g.large'', 214 / 1000), (''db.r6g.xlarge'', 428 / 1000)]"

definition RDS_INSTANCE_DEFAULT_USD_PER_HOUR :: rat where
  "RDS_INSTANCE_DEFAULT_USD_PER_HOUR = 145 / 1000"

definition storage_is_priced :: "string \<Rightarrow> bool" where
  "storage_is_priced storage_type \<longleftrightarrow> storage_type \<in> set (map fst RDS_STORAGE_USD_PER_GB)"

definition instance_is_priced :: "string \<Rightarrow> bool" where
  "instance_is_priced instance_class \<longleftrightarrow> instance_class \<in> set (map fst RDS_INSTANCE_USD_PER_HOUR)"

definition storage_usd :: "rat \<Rightarrow> string \<Rightarrow> rat" where
  "storage_usd gb storage_type =
     py_round 2 (gb * dict_get RDS_STORAGE_USD_PER_GB storage_type RDS_STORAGE_DEFAULT_USD)"

definition snapshot_usd :: "rat \<Rightarrow> rat" where
  "snapshot_usd gb = py_round 2 (gb * RDS_SNAPSHOT_USD_PER_GB)"

definition instance_usd :: "string \<Rightarrow> bool \<Rightarrow> rat \<Rightarrow> string \<Rightarrow> rat" where
  "instance_usd instance_class multi_az storage_gb storage_type =
     (let hourly = dict_get RDS_INSTANCE_USD_PER_HOUR instance_class RDS_INSTANCE_DEFAULT_USD_PER_HOUR;
          compute_usd = hourly * HOURS_PER_MONTH_RDS * (if multi_az then 2 else 1)
      in py_round 2 (compute_usd + storage_usd storage_gb storage_type))"

definition pricing_fallback :: "bool \<Rightarrow> (string, json) dict" where
  "pricing_fallback priced =
     (if priced then []
      else [(''pricing_source'', JStr ''static_default_unknown_type''), (''pricing_fallback'', JBool True)])"

section \<open>Volumes of type gp2\<close>

definition EBS_PRICING_USD_PER_GIB :: "(string, rat) dict" where
  "EBS_PRICING_USD_PER_GIB =
     [(''gp3'', 8 / 100), (''gp2'', 10 / 100), (''io1'', 125 / 1000), (''io2'', 125 / 1000),
      (''st1'', 5 / 100), (''sc1'', 25 / 1000), (''standard'', 6 / 100)]"

definition GP2_TO_GP3_SAVINGS_USD_PER_GIB :: rat where
  "GP2_TO_GP3_SAVINGS_USD_PER_GIB =
     py_round 4 (dict_get EBS_PRICING_USD_PER_GIB ''gp2'' 0 - dict_get EBS_PRICING_USD_PER_GIB ''gp3'' 0)"

record gp2_row =
  gp_volume_id :: string
  gp_name :: "string option"
  gp_size_gb :: "int option"
  gp_az :: "string option"
  gp_region :: "string option"

definition named :: "string option \<Rightarrow> string \<Rightarrow> string" where
  "named name i = (let n = or_empty name in if n \<noteq> [] then n @ '' ('' @ i @ '')'' else i)"

definition gp2_item :: "gp2_row \<Rightarrow> item" where
  "gp2_item row =
     (let size_gb = or_zero (gp_size_gb row);
          savings = py_round 2 (of_int size_gb * GP2_TO_GP3_SAVINGS_USD_PER_GIB)
      in \<lparr>it_resource = gp_volume_id row, it_cost = savings, it_confidence = 95 / 100,
          it_action = ''MIGRATE volume '' @ named (gp_name row) (gp_volume_id row) @
            '' from gp2 to gp3 - '' @ show_int size_gb @ '' GiB in '' @ opt_text (gp_region row) @
            '', ~20% cheaper, no downtime'',
          it_metadata =
            [(''name'', JStr (or_empty (gp_name row))), (''size_gb'', JInt size_gb),
             (''az'', JStr (or_empty (gp_az row))), (''region'', JStr (or_empty (gp_region row))),
             (''savings_eur_per_gib'', JFloat GP2_TO_GP3_SAVINGS_USD_PER_GIB),
             (''monthly_cost_eur'', JFloat savings)]\<rparr>)"

definition gp2_detector :: "gp2_row detector" where
  "gp2_detector =
     \<lparr>d_resource_type = ''ebs_volume'', d_waste_type = ''gp2_volume'',
      d_rec_type = ''migrate_gp2_to_gp3'', d_map_rows = (\<lambda>_. map gp2_item)\<rparr>"

section \<open>Load balancers\<close>

definition ELB_MONTHLY_COST_USD :: "(string, rat) dict" where
  "ELB_MONTHLY_COST_USD =
     [(''application'', 1840 / 100), (''network'', 1840 / 100), (''gateway'', 913 / 100),
      (''classic'', 2044 / 100)]"

definition DEFAULT_ELB_COST_USD :: rat where
  "DEFAULT_ELB_COST_USD = 1840 / 100"

record elb_row =
  el_lb_type :: "string option"
  el_name :: string
  el_arn :: "string option"
  el_region :: "string option"
  el_created_time :: "string option"
  el_registered_targets :: "int option"
  el_reason :: "string option"

definition elb_item :: "(string \<Rightarrow> int option) \<Rightarrow> env \<Rightarrow> elb_row \<Rightarrow> item" where
  "elb_item parse_iso env row =
     (let lb_type = or_default (el_lb_type row) ''application'';
          cost = dict_get ELB_MONTHLY_COST_USD lb_type DEFAULT_ELB_COST_USD;
          reason = or_default (el_reason row)
                     (if lb_type = ''classic'' then ''no_instances'' else ''no_targets'');
          registered = or_zero (el_registered_targets row);
          (why, confidence) =
            (if reason = ''no_traffic''
             then (''no traffic in 30 days ('' @ show_int registered @ '' target(s) registered)'', 85 / 100)
             else if reason = ''no_instances'' then (''no instances attached'', 90 / 100)
             else (''no registered targets'', 90 / 100))
      in \<lparr>it_resource = or_default (el_arn row) (el_name row), it_cost = cost,
          it_confidence = confidence,
          it_action = ''DELETE unused '' @ lb_type @ '' load balancer '' @ el_name row @ '' in '' @
            opt_text (el_region row) @ '' - '' @ why,
          it_metadata =
            [(''name'', JStr (el_name row)), (''lb_type'', JStr lb_type),
             (''arn'', JStr (or_empty (el_arn row))), (''region'', JStr (or_empty (el_region row))),
             (''reason'', JStr reason), (''registered_targets'', JInt registered),
             (''age_days'', json_int_opt (age_days_from parse_iso env (el_created_time row))),
             (''monthly_cost_eur'', JFloat cost)]\<rparr>)"

definition elb_detector :: "(string \<Rightarrow> int option) \<Rightarrow> elb_row detector" where
  "elb_detector parse_iso =
     \<lparr>d_resource_type = ''load_balancer'', d_waste_type = ''unused_load_balancer'',
      d_rec_type = ''delete_load_balancer'', d_map_rows = (\<lambda>env. map (elb_item parse_iso env))\<rparr>"

section \<open>NAT gateways\<close>

definition NAT_GATEWAY_MONTHLY_COST_USD :: rat where
  "NAT_GATEWAY_MONTHLY_COST_USD = 3504 / 100"

record nat_row =
  ng_nat_gateway_id :: string
  ng_vpc_id :: "string option"
  ng_state :: "string option"
  ng_region :: "string option"
  ng_create_time :: "string option"
  ng_bytes_out_30d :: "int option"

definition nat_item :: "(string \<Rightarrow> int option) \<Rightarrow> env \<Rightarrow> nat_row \<Rightarrow> item" where
  "nat_item parse_iso env row =
     (let state = or_empty (ng_state row);
          reason = (if state \<noteq> ''available'' then ''in '' @ [CHR 0x27] @ state @ [CHR 0x27] @ '' state''
                    else ''no outbound traffic in 30 days'')
      in \<lparr>it_resource = ng_nat_gateway_id row, it_cost = NAT_GATEWAY_MONTHLY_COST_USD,
          it_confidence = 90 / 100,
          it_action = ''DELETE unused NAT gateway '' @ ng_nat_gateway_id row @ '' in '' @
            opt_text (ng_region row) @ '' - '' @ reason,
          it_metadata =
            [(''vpc_id'', JStr (or_empty (ng_vpc_id row))), (''state'', JStr state),
             (''region'', JStr (or_empty (ng_region row))),
             (''bytes_out_30d'', JInt (or_zero (ng_bytes_out_30d row))),
             (''age_days'', json_int_opt (age_days_from parse_iso env (ng_create_time row))),
             (''monthly_cost_eur'', JFloat NAT_GATEWAY_MONTHLY_COST_USD)]\<rparr>)"

definition nat_detector :: "(string \<Rightarrow> int option) \<Rightarrow> nat_row detector" where
  "nat_detector parse_iso =
     \<lparr>d_resource_type = ''nat_gateway'', d_waste_type = ''unused_nat_gateway'',
      d_rec_type = ''delete_nat_gateway'', d_map_rows = (\<lambda>env. map (nat_item parse_iso env))\<rparr>"

section \<open>Machine images\<close>

definition SNAPSHOT_USD_PER_GIB :: rat where
  "SNAPSHOT_USD_PER_GIB = 5 / 100"

record ami_row =
  am_image_id :: string
  am_name :: "string option"
  am_region :: "string option"
  am_platform_details :: "string option"
  am_backing_gb :: "rat option"
  am_snapshot_count :: "int option"
  am_age_days :: "int option"

definition ami_item :: "ami_row \<Rightarrow> item" where
  "ami_item row =
     (let backing_gb = or_zero (am_backing_gb row);
          snapshot_count = or_zero (am_snapshot_count row);
          cost = py_round 2 (backing_gb * SNAPSHOT_USD_PER_GIB)
      in \<lparr>it_resource = am_image_id row, it_cost = cost, it_confidence = 80 / 100,
          it_action = ''DEREGISTER unused AMI '' @ named (am_name row) (am_image_id row) @ '' in '' @
            opt_text (am_region row) @ '' - '' @ opt_int (am_age_days row) @
            ''d old, backs no running instance; frees '' @ show_int snapshot_count @ '' snapshot(s) (~'' @
            fmt_g backing_gb @ '' GiB). Verify no launch template references it first.'',
          it_metadata =
            [(''name'', JStr (or_empty (am_name row))), (''backing_gb'', JFloat backing_gb),
             (''snapshot_count'', JInt snapshot_count), (''age_days'', json_int_opt (am_age_days row)),
             (''region'', JStr (or_empty (am_region row))),
             (''platform_details'', JStr (or_empty (am_platform_details row))),
             (''snapshot_eur_per_gib'', JFloat SNAPSHOT_USD_PER_GIB), (''monthly_cost_eur'', JFloat cost)]\<rparr>)"

definition ami_detector :: "ami_row detector" where
  "ami_detector =
     \<lparr>d_resource_type = ''ami'', d_waste_type = ''orphaned_ami'', d_rec_type = ''deregister_ami'',
      d_map_rows = (\<lambda>_. map ami_item)\<rparr>"

section \<open>Empty networks\<close>

record vpc_row =
  vp_vpc_id :: string
  vp_region :: "string option"
  vp_cidr_block :: "string option"
  vp_is_default :: "bool option"
  vp_name :: "string option"

definition vpc_item :: "vpc_row \<Rightarrow> item" where
  "vpc_item row =
     (let is_default = (vp_is_default row = Some True);
          label = named (vp_name row) (vp_vpc_id row)
      in \<lparr>it_resource = vp_vpc_id row, it_cost = 0,
          it_confidence = (if is_default then 60 / 100 else 85 / 100),
          it_action =
            (if is_default
             then ''REVIEW default VPC '' @ label @ '' in '' @ opt_text (vp_region row) @
               '' - no network interfaces (nothing runs there); AWS only recreates a deleted default VPC on request''
             else ''DELETE unused VPC '' @ label @ '' in '' @ opt_text (vp_region row) @
               '' - no network interfaces (nothing runs there)''),
          it_metadata =
            [(''name'', JStr (or_empty (vp_name row))), (''region'', JStr (or_empty (vp_region row))),
             (''cidr_block'', JStr (or_empty (vp_cidr_block row))), (''is_default'', JBool is_default),
             (''monthly_cost_eur'', JFloat 0), (''hygiene'', JBool True)]\<rparr>)"

definition vpc_detector :: "vpc_row detector" where
  "vpc_detector =
     \<lparr>d_resource_type = ''vpc'', d_waste_type = ''unused_vpc'', d_rec_type = ''delete_vpc'',
      d_map_rows = (\<lambda>_. map vpc_item)\<rparr>"

section \<open>Databases\<close>

record rds_row =
  rd_id :: string
  rd_class :: "string option"
  rd_engine :: "string option"
  rd_engine_version :: "string option"
  rd_allocated_storage :: "rat option"
  rd_storage_type :: "string option"
  rd_multi_az :: "bool option"
  rd_region :: "string option"
  rd_arn :: "string option"
  rd_age_days :: "int option"
  rd_max_conn_14d :: json
  rd_avg_conn_14d :: json

definition rds_stopped_item :: "rds_row \<Rightarrow> item" where
  "rds_stopped_item row =
     (let storage_gb = or_zero (rd_allocated_storage row);
          storage_type = or_default (rd_storage_type row) ''gp2'';
          cost = storage_usd storage_gb storage_type
      in \<lparr>it_resource = rd_id row, it_cost = cost, it_confidence = 75 / 100,
          it_action = ''REVIEW stopped RDS '' @ rd_id row @ '' ('' @ opt_text (rd_class row) @ '', '' @
            opt_text (rd_engine row) @ '') in '' @ opt_text (rd_region row) @ '' - still billing '' @
            fmt_g storage_gb @ '' GiB storage; AWS auto-restarts after 7 days, so delete it or it resumes full billing.'',
          it_metadata =
            [(''class'', JStr (or_empty (rd_class row))), (''engine'', JStr (or_empty (rd_engine row))),
             (''engine_version'', JStr (or_empty (rd_engine_version row))),
             (''allocated_storage'', JFloat storage_gb), (''storage_type'', JStr storage_type),
             (''multi_az'', JBool (rd_multi_az row = Some True)),
             (''age_days'', json_int_opt (rd_age_days row)), (''region'', JStr (or_empty (rd_region row))),
             (''arn'', JStr (or_empty (rd_arn row))), (''monthly_cost_eur'', JFloat cost)]
            @ pricing_fallback (storage_is_priced storage_type)\<rparr>)"

definition rds_stopped_detector :: "rds_row detector" where
  "rds_stopped_detector =
     \<lparr>d_resource_type = ''rds_instance'', d_waste_type = ''stopped_rds'',
      d_rec_type = ''delete_rds_instance'', d_map_rows = (\<lambda>_. map rds_stopped_item)\<rparr>"

definition rds_idle_item :: "rds_row \<Rightarrow> item" where
  "rds_idle_item row =
     (let storage_gb = or_zero (rd_allocated_storage row);
          storage_type = or_default (rd_storage_type row) ''gp2'';
          db_class = or_empty (rd_class row);
          multi_az = (rd_multi_az row = Some True);
          cost = instance_usd db_class multi_az storage_gb storage_type
      in \<lparr>it_resource = rd_id row, it_cost = cost, it_confidence = 80 / 100,
          it_action = ''REVIEW idle RDS '' @ rd_id row @ '' ('' @ db_class @ '', '' @
            opt_text (rd_engine row) @ '') in '' @ opt_text (rd_region row) @
            '' - 0 connections in 14 days; downsize or delete.'',
          it_metadata =
            [(''class'', JStr db_class), (''engine'', JStr (or_empty (rd_engine row))),
             (''engine_version'', JStr (or_empty (rd_engine_version row))),
             (''allocated_storage'', JFloat storage_gb), (''storage_type'', JStr storage_type),
             (''multi_az'', JBool multi_az), (''max_conn_14d'', rd_max_conn_14d row),
             (''avg_conn_14d'', rd_avg_conn_14d row), (''region'', JStr (or_empty (rd_region row))),
             (''arn'', JStr (or_empty (rd_arn row))), (''monthly_cost_eur'', JFloat cost)]
            @ pricing_fallback (instance_is_priced db_class \<and> storage_is_priced storage_type)\<rparr>)"

definition rds_idle_detector :: "rds_row detector" where
  "rds_idle_detector =
     \<lparr>d_resource_type = ''rds_instance'', d_waste_type = ''idle_rds'',
      d_rec_type = ''downsize_rds_instance'', d_map_rows = (\<lambda>_. map rds_idle_item)\<rparr>"

record rds_snap_row =
  rs_id :: string
  rs_instance :: "string option"
  rs_engine :: "string option"
  rs_engine_version :: "string option"
  rs_allocated_storage :: "rat option"
  rs_storage_type :: "string option"
  rs_region :: "string option"
  rs_arn :: "string option"
  rs_age_days :: "int option"

definition rds_snapshot_item :: "rds_snap_row \<Rightarrow> item" where
  "rds_snapshot_item row =
     (let storage_gb = or_zero (rs_allocated_storage row);
          cost = snapshot_usd storage_gb;
          src = or_default (rs_instance row) ''?''
      in \<lparr>it_resource = rs_id row, it_cost = cost, it_confidence = 80 / 100,
          it_action = ''DELETE old manual RDS snapshot '' @ rs_id row @ '' of '' @ src @ '' in '' @
            opt_text (rs_region row) @ '' - '' @ opt_int (rs_age_days row) @ ''d old, '' @
            fmt_g storage_gb @ '' GiB backup storage.'',
          it_metadata =
            [(''db_instance_identifier'', JStr src), (''engine'', JStr (or_empty (rs_engine row))),
             (''engine_version'', JStr (or_empty (rs_engine_version row))),
             (''allocated_storage'', JFloat storage_gb),
             (''storage_type'', JStr (or_empty (rs_storage_type row))),
             (''age_days'', json_int_opt (rs_age_days row)), (''region'', JStr (or_empty (rs_region row))),
             (''arn'', JStr (or_empty (rs_arn row))), (''monthly_cost_eur'', JFloat cost)]\<rparr>)"

definition rds_snapshot_detector :: "rds_snap_row detector" where
  "rds_snapshot_detector =
     \<lparr>d_resource_type = ''rds_snapshot'', d_waste_type = ''old_rds_snapshot'',
      d_rec_type = ''delete_rds_snapshot'', d_map_rows = (\<lambda>_. map rds_snapshot_item)\<rparr>"

section \<open>What all of them promise\<close>

lemma map_of_stamp:
  assumes "distinct (map fst m)"
  shows "map_of (stamp_pricing m) k =
    (case map_of m k of
       Some v \<Rightarrow> Some v
     | None \<Rightarrow> map_of [(''pricing_source'', JStr PRICING_SOURCE), (''pricing_as_of'', JStr PRICING_AS_OF),
                       (''pricing_currency'', JStr PRICING_CURRENCY)] k)"
  using assms by (auto simp: stamp_pricing_def map_of_dict_merge map_add_def split: option.splits)

text \<open>
  A waste row that can be defended: no negative amount, a confidence the safeguards understand, an
  amount equal to the one of its metadata, and the provenance of the price.
\<close>

definition traceable :: "waste_row \<Rightarrow> bool" where
  "traceable x \<longleftrightarrow>
     0 \<le> w_monthly x \<and> 0 \<le> w_confidence x \<and> w_confidence x \<le> 1
     \<and> map_of (w_metadata x) ''monthly_cost_eur'' = Some (JFloat (w_monthly x))
     \<and> map_of (w_metadata x) ''pricing_currency'' = Some (JStr PRICING_CURRENCY)
     \<and> map_of (w_metadata x) ''pricing_as_of'' = Some (JStr PRICING_AS_OF)
     \<and> map_of (w_metadata x) ''pricing_source'' =
         (if map_of (w_metadata x) ''pricing_fallback'' = Some (JBool True)
          then Some (JStr ''static_default_unknown_type'') else Some (JStr PRICING_SOURCE))"

text \<open>What an item must have for its row to be traceable, and for executors to find its region.\<close>

definition item_ok :: "item \<Rightarrow> bool" where
  "item_ok it \<longleftrightarrow>
     0 \<le> it_cost it \<and> 0 \<le> it_confidence it \<and> it_confidence it \<le> 1
     \<and> distinct (map fst (it_metadata it))
     \<and> map_of (it_metadata it) ''monthly_cost_eur'' = Some (JFloat (it_cost it))
     \<and> (\<exists>s. map_of (it_metadata it) ''region'' = Some (JStr s))
     \<and> map_of (it_metadata it) ''pricing_currency'' = None \<and> map_of (it_metadata it) ''pricing_as_of'' = None
     \<and> map_of (it_metadata it) ''pricing_source'' =
         (if map_of (it_metadata it) ''pricing_fallback'' = Some (JBool True)
          then Some (JStr ''static_default_unknown_type'') else None)"

text \<open>
  What is said of a row of a query: the id, the region the query reports, the price its detector lists
  for it, and whether that is a default price because the type is not listed.
\<close>

record 'row reading =
  rg_key :: "'row \<Rightarrow> string"
  rg_region :: "'row \<Rightarrow> string option"
  rg_price :: "'row \<Rightarrow> rat"
  rg_default :: "'row \<Rightarrow> bool"

definition saved_traceably ::
    "env \<Rightarrow> (prompt \<Rightarrow> string option) option \<Rightarrow> lake \<Rightarrow> 'row detector \<Rightarrow> 'row reading \<Rightarrow> 'row list \<Rightarrow> bool" where
  "saved_traceably env llm l d reading rs \<longleftrightarrow>
     (let w = lk_world (snd (run_detector env llm d (Inr rs) l)) in
      \<forall>row \<in> set rs. \<exists>x. t_find resource_of (rg_key reading row, d_resource_type d) (wastes w) = Some x
        \<and> traceable x \<and> w_waste_type x = d_waste_type d \<and> w_date x = e_today env
        \<and> w_monthly x = rg_price reading row
        \<and> (map_of (w_metadata x) ''pricing_fallback'' = Some (JBool True) \<longleftrightarrow> rg_default reading row)
        \<and> map_of (w_metadata x) ''region'' = Some (JStr (or_empty (rg_region reading row)))
        \<and> t_find r_waste (w_id x) (recs w) \<noteq> None)"

locale row_detector =
  fixes d :: "'row detector"
    and item :: "env \<Rightarrow> 'row \<Rightarrow> item"
    and reading :: "'row reading"
    and ok :: "'row \<Rightarrow> bool"
  assumes rows: "d_map_rows d env rs = map (item env) rs"
    and resource: "it_resource (item env row) = rg_key reading row"
    and price: "it_cost (item env row) = rg_price reading row"
    and default_price: "map_of (it_metadata (item env row)) ''pricing_fallback'' = Some (JBool True)
      \<longleftrightarrow> rg_default reading row"
    and region: "map_of (it_metadata (item env row)) ''region'' = Some (JStr (or_empty (rg_region reading row)))"
    and item_ok: "ok row \<Longrightarrow> item_ok (item env row)"
begin

lemma carried_row_traceable:
  assumes "ok row" "carries env d (item env row) x"
  shows "traceable x \<and> w_monthly x = rg_price reading row
    \<and> (map_of (w_metadata x) ''pricing_fallback'' = Some (JBool True) \<longleftrightarrow> rg_default reading row)
    \<and> map_of (w_metadata x) ''region'' = Some (JStr (or_empty (rg_region reading row)))"
proof -
  let ?m = "it_metadata (item env row)"
  have it: "item_ok (item env row)" using assms(1) by (rule item_ok)
  then have "distinct (map fst ?m)" by (simp add: item_ok_def)
  note stamp = map_of_stamp [OF this]
  from assms(2) have "w_metadata x = stamp_pricing ?m" "w_monthly x = it_cost (item env row)"
    "w_confidence x = it_confidence (item env row)"
    by (auto simp: carries_def)
  note row = this
  have "traceable x" using it row by (auto simp: traceable_def stamp item_ok_def split: if_splits option.splits)
  moreover have "map_of (w_metadata x) ''pricing_fallback'' = map_of ?m ''pricing_fallback''"
    "map_of (w_metadata x) ''region'' = map_of ?m ''region''"
    by (simp_all add: row(1) stamp split: option.splits)
  ultimately show ?thesis using row(2) price [of env row] default_price [of env row] region [of env row] by simp
qed

lemma run_rows_traceable:
  assumes "schema_ok (lk_world l)" "run_detector env llm d (Inr rs) l = (e, l')"
    and "distinct (map (rg_key reading) rs)" "row \<in> set rs" "ok row"
  shows "\<exists>x. t_find resource_of (rg_key reading row, d_resource_type d) (wastes (lk_world l')) = Some x
      \<and> traceable x \<and> w_waste_type x = d_waste_type d \<and> w_date x = e_today env
      \<and> w_monthly x = rg_price reading row
      \<and> (map_of (w_metadata x) ''pricing_fallback'' = Some (JBool True) \<longleftrightarrow> rg_default reading row)
      \<and> map_of (w_metadata x) ''region'' = Some (JStr (or_empty (rg_region reading row)))
      \<and> t_find r_waste (w_id x) (recs (lk_world l')) \<noteq> None"
proof -
  have dist: "distinct (map it_resource (d_map_rows d env rs))"
    using assms(3) by (simp add: rows comp_def resource)
  have it: "item env row \<in> set (d_map_rows d env rs)" using assms(4) by (simp add: rows)
  let ?v = "scanned env d (d_map_rows d env rs) (lk_world l)"
  from scanned_item [OF assms(1) dist it, of d env] obtain x p where
    x: "t_find resource_of (rg_key reading row, d_resource_type d) (wastes ?v) = Some x" "carries env d (item env row) x"
      "t_find r_waste (w_id x) (recs ?v) = Some p"
    by (auto simp: resource)
  have w': "lk_world l' = snd (enrich_recommendations llm MAX_INSIGHTS_PER_RUN ?v)"
    using run_detector_world [OF assms(2)] it by auto
  from evolves_find [OF enrich_evolves [OF evolves_schema [OF scanned_evolves [OF assms(1)]]] x(3), of llm MAX_INSIGHTS_PER_RUN]
  have "t_find r_waste (w_id x) (recs (lk_world l')) \<noteq> None" by (auto simp: w')
  moreover have "t_find resource_of (rg_key reading row, d_resource_type d) (wastes (lk_world l')) = Some x"
    using x(1) by (simp add: w')
  moreover have "w_waste_type x = d_waste_type d \<and> w_date x = e_today env" using x(2) by (simp add: carries_def)
  ultimately show ?thesis using carried_row_traceable [OF assms(5) x(2)] by blast
qed

lemma saved_all:
  assumes "schema_ok (lk_world l)" "distinct (map (rg_key reading) rs)" "\<And>row. row \<in> set rs \<Longrightarrow> ok row"
  shows "saved_traceably env llm l d reading rs"
  using run_rows_traceable [OF assms(1) prod.collapse [symmetric] assms(2) _ assms(3)]
  by (simp add: saved_traceably_def Let_def)

end

section \<open>Each of them keeps the promise\<close>

lemma map_fst_pricing_fallback [simp]:
  "map fst (pricing_fallback priced) = (if priced then [] else [''pricing_source'', ''pricing_fallback''])"
  by (simp add: pricing_fallback_def)

lemma dict_get_range:
  "(\<forall>v \<in> set (map snd d). 0 \<le> v) \<Longrightarrow> 0 \<le> dflt \<Longrightarrow> 0 \<le> dict_get d k (dflt :: rat)"
  by (induction d) (auto simp: dict_get_def)

lemma storage_usd_nonneg [simp]: "0 \<le> gb \<Longrightarrow> 0 \<le> storage_usd gb t"
  unfolding storage_usd_def
  by (intro py_round_nonneg mult_nonneg_nonneg dict_get_range)
     (auto simp: RDS_STORAGE_USD_PER_GB_def RDS_STORAGE_DEFAULT_USD_def)

lemma instance_usd_nonneg [simp]: "0 \<le> gb \<Longrightarrow> 0 \<le> instance_usd c m gb t"
  unfolding instance_usd_def Let_def
  by (intro py_round_nonneg add_nonneg_nonneg mult_nonneg_nonneg dict_get_range storage_usd_nonneg)
     (auto simp: RDS_INSTANCE_USD_PER_HOUR_def RDS_INSTANCE_DEFAULT_USD_PER_HOUR_def HOURS_PER_MONTH_RDS_def)

lemma elb_cost_nonneg [simp]: "0 \<le> dict_get ELB_MONTHLY_COST_USD t DEFAULT_ELB_COST_USD"
  by (intro dict_get_range) (auto simp: ELB_MONTHLY_COST_USD_def DEFAULT_ELB_COST_USD_def)

lemma gp2_delta: "GP2_TO_GP3_SAVINGS_USD_PER_GIB = 2 / 100"
  by code_simp

text \<open>The list prices of the eight detectors.\<close>

definition gp2_reading :: "gp2_row reading" where
  "gp2_reading = \<lparr>rg_key = gp_volume_id, rg_region = gp_region,
     rg_price = (\<lambda>r. py_round 2 (of_int (or_zero (gp_size_gb r)) * (2 / 100))), rg_default = (\<lambda>_. False)\<rparr>"

definition elb_reading :: "elb_row reading" where
  "elb_reading = \<lparr>rg_key = (\<lambda>r. or_default (el_arn r) (el_name r)), rg_region = el_region,
     rg_price = (\<lambda>r. dict_get ELB_MONTHLY_COST_USD (or_default (el_lb_type r) ''application'') DEFAULT_ELB_COST_USD),
     rg_default = (\<lambda>_. False)\<rparr>"

definition nat_reading :: "nat_row reading" where
  "nat_reading = \<lparr>rg_key = ng_nat_gateway_id, rg_region = ng_region, rg_price = (\<lambda>_. 3504 / 100),
     rg_default = (\<lambda>_. False)\<rparr>"

definition ami_reading :: "ami_row reading" where
  "ami_reading = \<lparr>rg_key = am_image_id, rg_region = am_region,
     rg_price = (\<lambda>r. py_round 2 (or_zero (am_backing_gb r) * (5 / 100))), rg_default = (\<lambda>_. False)\<rparr>"

definition vpc_reading :: "vpc_row reading" where
  "vpc_reading = \<lparr>rg_key = vp_vpc_id, rg_region = vp_region, rg_price = (\<lambda>_. 0), rg_default = (\<lambda>_. False)\<rparr>"

definition rds_storage_type :: "rds_row \<Rightarrow> string" where
  "rds_storage_type r = or_default (rd_storage_type r) ''gp2''"

definition rds_stopped_reading :: "rds_row reading" where
  "rds_stopped_reading = \<lparr>rg_key = rd_id, rg_region = rd_region,
     rg_price = (\<lambda>r. py_round 2 (or_zero (rd_allocated_storage r)
        * dict_get RDS_STORAGE_USD_PER_GB (rds_storage_type r) RDS_STORAGE_DEFAULT_USD)),
     rg_default = (\<lambda>r. rds_storage_type r \<notin> fst ` set RDS_STORAGE_USD_PER_GB)\<rparr>"

definition rds_idle_reading :: "rds_row reading" where
  "rds_idle_reading = \<lparr>rg_key = rd_id, rg_region = rd_region,
     rg_price = (\<lambda>r. py_round 2
        (dict_get RDS_INSTANCE_USD_PER_HOUR (or_empty (rd_class r)) RDS_INSTANCE_DEFAULT_USD_PER_HOUR * 730
           * (if rd_multi_az r = Some True then 2 else 1)
         + py_round 2 (or_zero (rd_allocated_storage r)
             * dict_get RDS_STORAGE_USD_PER_GB (rds_storage_type r) RDS_STORAGE_DEFAULT_USD))),
     rg_default = (\<lambda>r. or_empty (rd_class r) \<notin> fst ` set RDS_INSTANCE_USD_PER_HOUR
        \<or> rds_storage_type r \<notin> fst ` set RDS_STORAGE_USD_PER_GB)\<rparr>"

lemma rds_idle_price:
  "rg_price rds_idle_reading r = instance_usd (or_empty (rd_class r)) (rd_multi_az r = Some True)
     (or_zero (rd_allocated_storage r)) (or_default (rd_storage_type r) ''gp2'')"
  by (simp add: rds_idle_reading_def instance_usd_def storage_usd_def HOURS_PER_MONTH_RDS_def rds_storage_type_def Let_def)

lemma rds_idle_fields:
  "rg_key rds_idle_reading = rd_id" "rg_region rds_idle_reading = rd_region"
  "rg_default rds_idle_reading = (\<lambda>r. or_empty (rd_class r) \<notin> fst ` set RDS_INSTANCE_USD_PER_HOUR
     \<or> or_default (rd_storage_type r) ''gp2'' \<notin> fst ` set RDS_STORAGE_USD_PER_GB)"
  by (simp_all add: rds_idle_reading_def rds_storage_type_def)

definition rds_snapshot_reading :: "rds_snap_row reading" where
  "rds_snapshot_reading = \<lparr>rg_key = rs_id, rg_region = rs_region,
     rg_price = (\<lambda>r. py_round 2 (or_zero (rs_allocated_storage r) * (95 / 1000))), rg_default = (\<lambda>_. False)\<rparr>"

interpretation gp2: row_detector gp2_detector "\<lambda>_. gp2_item" gp2_reading "\<lambda>r. 0 \<le> or_zero (gp_size_gb r)"
  by unfold_locales
     (auto simp: gp2_detector_def gp2_item_def gp2_reading_def Let_def item_ok_def gp2_delta intro!: py_round_nonneg)

interpretation elb: row_detector "elb_detector parse" "elb_item parse" elb_reading "\<lambda>_. True"
  for parse
  by unfold_locales (simp_all add: elb_detector_def elb_item_def elb_reading_def Let_def item_ok_def case_prod_unfold)

interpretation nat_gw: row_detector "nat_detector parse" "nat_item parse" nat_reading "\<lambda>_. True"
  for parse
  by unfold_locales
     (auto simp: nat_detector_def nat_item_def nat_reading_def Let_def item_ok_def NAT_GATEWAY_MONTHLY_COST_USD_def)

interpretation ami: row_detector ami_detector "\<lambda>_. ami_item" ami_reading "\<lambda>r. 0 \<le> or_zero (am_backing_gb r)"
  by unfold_locales
     (auto simp: ami_detector_def ami_item_def ami_reading_def Let_def item_ok_def SNAPSHOT_USD_PER_GIB_def
        intro!: py_round_nonneg)

interpretation vpc: row_detector vpc_detector "\<lambda>_. vpc_item" vpc_reading "\<lambda>_. True"
  by unfold_locales (auto simp: vpc_detector_def vpc_item_def vpc_reading_def Let_def item_ok_def)

interpretation rds_stopped: row_detector rds_stopped_detector "\<lambda>_. rds_stopped_item" rds_stopped_reading
    "\<lambda>r. 0 \<le> or_zero (rd_allocated_storage r)"
  by unfold_locales
     (auto simp: rds_stopped_detector_def rds_stopped_item_def rds_stopped_reading_def rds_storage_type_def Let_def
        item_ok_def pricing_fallback_def storage_is_priced_def storage_usd_def [symmetric])

interpretation rds_idle: row_detector rds_idle_detector "\<lambda>_. rds_idle_item" rds_idle_reading
    "\<lambda>r. 0 \<le> or_zero (rd_allocated_storage r)"
  by unfold_locales
     (auto simp: rds_idle_detector_def rds_idle_item_def rds_idle_price rds_idle_fields Let_def
        item_ok_def pricing_fallback_def storage_is_priced_def instance_is_priced_def)

interpretation rds_snapshot: row_detector rds_snapshot_detector "\<lambda>_. rds_snapshot_item" rds_snapshot_reading
    "\<lambda>r. 0 \<le> or_zero (rs_allocated_storage r)"
  by unfold_locales
     (auto simp: rds_snapshot_detector_def rds_snapshot_item_def rds_snapshot_reading_def Let_def item_ok_def
        snapshot_usd_def RDS_SNAPSHOT_USD_PER_GB_def intro!: py_round_nonneg)

section \<open>Properties\<close>

definition sample_gp2 :: gp2_row where
  "sample_gp2 = \<lparr>gp_volume_id = ''vol-1'', gp_name = None, gp_size_gb = Some 100, gp_az = None,
     gp_region = Some ''eu-west-1''\<rparr>"

text \<open>
  A run of a detector, whatever Steampipe and the language model answer, never touches a
  recommendation on which a decision was taken: rows that are not pending stay as they are, a
  pending row changes in its savings and its insight only, new rows are pending. The audit trail
  and AWS are not written, and the unique constraints still hold.
\<close>

theorem detection_keeps_decisions:
  assumes "schema_ok (lk_world l)" "run_detector env llm d answer l = (e, l')"
  shows "(\<forall>r \<in> set (t_rows (recs (lk_world l))). \<exists>r' \<in> set (t_rows (recs (lk_world l'))).
            if r_status r = Pending then r' = r\<lparr>r_savings := r_savings r', r_insight := r_insight r'\<rparr>
            else r' = r)
    \<and> (\<forall>r' \<in> set (t_rows (recs (lk_world l'))).
         r_waste r' \<in> r_waste ` set (t_rows (recs (lk_world l))) \<or> r_status r' = Pending)
    \<and> alog (lk_world l') = alog (lk_world l) \<and> events (lk_world l') = events (lk_world l)
    \<and> schema_ok (lk_world l')"
proof -
  note ev = run_detector_evolves [OF assms]
  have "\<exists>r' \<in> set (t_rows (recs (lk_world l'))).
      if r_status r = Pending then r' = r\<lparr>r_savings := r_savings r', r_insight := r_insight r'\<rparr> else r' = r"
    if "r \<in> set (t_rows (recs (lk_world l)))" for r
  proof -
    from evolves_rows(1) [OF ev assms(1) that] obtain r' where
      r': "r' \<in> set (t_rows (recs (lk_world l')))" "savings_only r r'" by blast
    have "if r_status r = Pending then r' = r\<lparr>r_savings := r_savings r', r_insight := r_insight r'\<rparr> else r' = r"
      using r'(2) unfolding savings_only_def
    proof
      assume "r' = r"
      then show ?thesis by simp
    next
      assume *: "r_status r = Pending \<and> r' = r\<lparr>r_savings := r_savings r', r_insight := r_insight r'\<rparr>"
      show ?thesis unfolding if_P [OF conjunct1 [OF *]] by (rule conjunct2 [OF *])
    qed
    with r'(1) show ?thesis by (rule bexI [rotated])
  qed
  moreover have "r_waste r' \<in> r_waste ` set (t_rows (recs (lk_world l))) \<or> r_status r' = Pending"
    if "r' \<in> set (t_rows (recs (lk_world l')))" for r'
    using evolves_rows(2) [OF ev assms(1) that] by blast
  moreover have "alog (lk_world l') = alog (lk_world l) \<and> events (lk_world l') = events (lk_world l)
      \<and> schema_ok (lk_world l')"
    using ev by (simp add: evolves_def)
  ultimately show ?thesis by blast
qed

theorem detection_keeps_decisions_witness:
  "\<forall>llm. \<exists>r' \<in> set (t_rows (recs (lk_world (snd (run_detector sample_env llm gp2_detector (Inr [sample_gp2]) sample_lake))))).
     r_waste r' = 7 \<and> r_type r' = ''stop_instance'' \<and> r_status r' = Pending"
proof
  fix llm
  let ?run = "run_detector sample_env llm gp2_detector (Inr [sample_gp2]) sample_lake"
  obtain e l' where run: "?run = (e, l')" by fastforce
  have "hd (t_rows (recs sample_world)) \<in> set (t_rows (recs (lk_world sample_lake)))"
    by (simp add: sample_lake_def sample_world_def)
  from detection_keeps_decisions [OF sample_lake_schema run, THEN conjunct1, rule_format, OF this] obtain r' where
    r': "r' \<in> set (t_rows (recs (lk_world l')))"
      "r' = hd (t_rows (recs sample_world)) \<lparr>r_savings := r_savings r', r_insight := r_insight r'\<rparr>"
    by (auto simp: sample_world_def)
  have "r_waste r' = 7 \<and> r_type r' = ''stop_instance'' \<and> r_status r' = Pending"
    by (subst (1 2 3) r'(2)) (simp add: sample_world_def)
  with r'(1) run show "\<exists>r' \<in> set (t_rows (recs (lk_world (snd ?run)))).
      r_waste r' = 7 \<and> r_type r' = ''stop_instance'' \<and> r_status r' = Pending" by auto
qed

text \<open>
  C34: After a run over distinct resources every item has one waste row, with the values of the
  item and a traceable price, and one recommendation: a new one is pending with the text and the
  savings of the item, a pending one has its savings refreshed and keeps its type and text, any
  other one is as it was. Waste rows of other resources are unchanged.
\<close>

theorem detection_outcome:
  assumes ok: "schema_ok (lk_world l)" and run: "run_detector env llm d (Inr rows) l = (e, l')"
    and dist: "distinct (map it_resource (d_map_rows d env rows))"
  shows "e = None
    \<and> (\<forall>it \<in> set (d_map_rows d env rows). \<exists>x r.
         t_find resource_of (it_resource it, d_resource_type d) (wastes (lk_world l')) = Some x
         \<and> w_monthly x = it_cost it \<and> w_confidence x = it_confidence it \<and> w_waste_type x = d_waste_type d
         \<and> w_metadata x = stamp_pricing (it_metadata it) \<and> w_date x = e_today env
         \<and> t_find r_waste (w_id x) (recs (lk_world l')) = Some r
         \<and> (case t_find r_waste (w_id x) (recs (lk_world l)) of
              None \<Rightarrow> r_status r = Pending \<and> r_type r = d_rec_type d \<and> r_action r = it_action it
                      \<and> r_savings r = it_cost it
            | Some q \<Rightarrow> if r_status q = Pending
                        then r_status r = Pending \<and> r_savings r = it_cost it \<and> r_type r = r_type q
                             \<and> r_action r = r_action q
                        else r = q))
    \<and> (\<forall>k. k \<notin> (\<lambda>it. (it_resource it, d_resource_type d)) ` set (d_map_rows d env rows) \<longrightarrow>
         t_find resource_of k (wastes (lk_world l')) = t_find resource_of k (wastes (lk_world l)))"
proof -
  let ?its = "d_map_rows d env rows" and ?w = "lk_world l"
  let ?v = "scanned env d ?its ?w"
  note w' = run_detector_world [OF run]
  have wastes: "wastes (lk_world l') = wastes (snd (save_items env d ?its ?w))"
    using w' by (auto simp: save_items_def)
  have ins: "evolves {Pending} insight_only ?v (lk_world l')" if "?its \<noteq> []"
    using w' that enrich_evolves [OF evolves_schema [OF scanned_evolves [OF ok]]] by simp
  have items: "\<exists>x r. t_find resource_of (it_resource it, d_resource_type d) (wastes (lk_world l')) = Some x
         \<and> w_monthly x = it_cost it \<and> w_confidence x = it_confidence it \<and> w_waste_type x = d_waste_type d
         \<and> w_metadata x = stamp_pricing (it_metadata it) \<and> w_date x = e_today env
         \<and> t_find r_waste (w_id x) (recs (lk_world l')) = Some r
         \<and> (case t_find r_waste (w_id x) (recs ?w) of
              None \<Rightarrow> r_status r = Pending \<and> r_type r = d_rec_type d \<and> r_action r = it_action it
                      \<and> r_savings r = it_cost it
            | Some q \<Rightarrow> if r_status q = Pending
                        then r_status r = Pending \<and> r_savings r = it_cost it \<and> r_type r = r_type q
                             \<and> r_action r = r_action q
                        else r = q)"
    if it: "it \<in> set ?its" for it
  proof -
    from scanned_item [OF ok dist it, of d env] obtain x p where
      x: "t_find resource_of (item_key d it) (wastes ?v) = Some x" "carries env d it x"
        "t_find r_waste (w_id x) (recs ?v) = Some p" "recommended d it (t_find r_waste (w_id x) (recs ?w)) p"
      by blast
    from it have "?its \<noteq> []" by auto
    from evolves_find [OF ins [OF this] x(3)] obtain r where
      r: "t_find r_waste (w_id x) (recs (lk_world l')) = Some r" "insight_only p r" by blast
    from recommended_then_insight [OF x(4) r(2)] x(1,2) r(1) wastes show ?thesis
      unfolding carries_def by (intro exI [of _ x] exI [of _ r]) simp
  qed
  have "t_find resource_of k (wastes (lk_world l')) = t_find resource_of k (wastes ?w)"
    if "k \<notin> item_key d ` set ?its" for k
  proof -
    have "find (\<lambda>it. item_key d it = k) (rev ?its) = None" using that by (auto simp: find_None_iff)
    with save_items_rows [OF ok, where d = d and k = k and its = ?its and env = env] wastes show ?thesis by simp
  qed
  moreover have "e = None" using w' by simp
  ultimately show ?thesis by (intro conjI ballI allI impI items) auto
qed

theorem detection_outcome_witness:
  "\<forall>llm. \<exists>x. t_find resource_of (''vol-1'', ''ebs_volume'')
       (wastes (lk_world (snd (run_detector sample_env llm gp2_detector (Inr [sample_gp2]) sample_lake)))) = Some x
     \<and> w_monthly x = 2"
proof
  fix llm
  let ?run = "run_detector sample_env llm gp2_detector (Inr [sample_gp2]) sample_lake"
  obtain e l' where run: "?run = (e, l')" by fastforce
  have items: "d_map_rows gp2_detector sample_env [sample_gp2] = [gp2_item sample_gp2]"
    by (simp add: gp2_detector_def)
  have fields: "it_resource (gp2_item sample_gp2) = ''vol-1''" "it_cost (gp2_item sample_gp2) = 2"
      "d_resource_type gp2_detector = ''ebs_volume''"
    by code_simp+
  have "distinct (map it_resource (d_map_rows gp2_detector sample_env [sample_gp2]))"
    by (simp add: items)
  note out = detection_outcome [OF sample_lake_schema run this, THEN conjunct2, THEN conjunct1, THEN bspec,
      of "gp2_item sample_gp2", unfolded items fields]
  then show "\<exists>x. t_find resource_of (''vol-1'', ''ebs_volume'') (wastes (lk_world (snd ?run))) = Some x
      \<and> w_monthly x = 2" using run by auto
qed

text \<open>
  C36: Each Steampipe detector, given rows with distinct ids and no negative sizes, saves every one of them
  as one traceable waste row: its cost is the list price of the detector for that row (by size,
  type and class), the figure of its metadata is the one of its cost, the source of the price is
  stamped, as a default price exactly where an RDS class or storage type is not listed, its region
  is the one the query reported for the row, and it has a recommendation. A load
  balancer of an unknown type gets the default price without being marked.
\<close>

theorem steampipe_rows_traceable:
  assumes "schema_ok (lk_world l)"
  shows "(distinct (map gp_volume_id vols) \<and> (\<forall>r \<in> set vols. 0 \<le> or_zero (gp_size_gb r)) \<longrightarrow>
            saved_traceably env llm l gp2_detector gp2_reading vols)
    \<and> (distinct (map (\<lambda>r. or_default (el_arn r) (el_name r)) lbs) \<longrightarrow>
            saved_traceably env llm l (elb_detector parse) elb_reading lbs)
    \<and> (distinct (map ng_nat_gateway_id nats) \<longrightarrow>
            saved_traceably env llm l (nat_detector parse) nat_reading nats)
    \<and> (distinct (map am_image_id amis) \<and> (\<forall>r \<in> set amis. 0 \<le> or_zero (am_backing_gb r)) \<longrightarrow>
            saved_traceably env llm l ami_detector ami_reading amis)
    \<and> (distinct (map vp_vpc_id vpcs) \<longrightarrow> saved_traceably env llm l vpc_detector vpc_reading vpcs)
    \<and> (distinct (map rd_id dbs) \<and> (\<forall>r \<in> set dbs. 0 \<le> or_zero (rd_allocated_storage r)) \<longrightarrow>
            saved_traceably env llm l rds_stopped_detector rds_stopped_reading dbs
            \<and> saved_traceably env llm l rds_idle_detector rds_idle_reading dbs)
    \<and> (distinct (map rs_id dbsnaps) \<and> (\<forall>r \<in> set dbsnaps. 0 \<le> or_zero (rs_allocated_storage r)) \<longrightarrow>
            saved_traceably env llm l rds_snapshot_detector rds_snapshot_reading dbsnaps)"
  by (intro conjI impI gp2.saved_all elb.saved_all nat_gw.saved_all ami.saved_all vpc.saved_all
      rds_stopped.saved_all rds_idle.saved_all rds_snapshot.saved_all assms)
    (auto simp: gp2_reading_def elb_reading_def nat_reading_def ami_reading_def vpc_reading_def
      rds_stopped_reading_def rds_idle_reading_def rds_snapshot_reading_def)

theorem steampipe_rows_traceable_witness:
  "saved_traceably sample_env None sample_lake gp2_detector gp2_reading [sample_gp2]
   \<and> saved_traceably sample_env None sample_lake vpc_detector vpc_reading []
   \<and> rg_price gp2_reading sample_gp2 = 2 \<and> rg_region gp2_reading sample_gp2 = Some ''eu-west-1''"
proof -
  have "rg_price gp2_reading sample_gp2 = 2" "rg_region gp2_reading sample_gp2 = Some ''eu-west-1''" by code_simp+
  then show ?thesis
    using steampipe_rows_traceable [OF sample_lake_schema, where vols = "[sample_gp2]" and vpcs = "[]"
      and lbs = "[]" and nats = "[]" and amis = "[]" and dbs = "[]" and dbsnaps = "[]"
      and env = sample_env and llm = None]
    by (simp add: sample_gp2_def or_zero_def)
qed

end
