(* ===== verification/AwsDetectors.thy ===== *)
theory AwsDetectors
  imports SteampipeDetectors "HOL-Library.List_Lexorder"
begin

text \<open>
  The detectors that ask AWS themselves, region by region: \<open>src/detectors/ebs_orphan.py\<close>,
  \<open>eip_orphan.py\<close>, \<open>snapshot_orphan.py\<close> and \<open>ec2_stopped.py\<close>. A response is a record of the
  fields the code reads; a missing key is \<open>None\<close>. An exception in a region is \<open>None\<close> for that
  region. Instants are seconds.
\<close>

section \<open>Shared by the four\<close>

definition name_tag :: "(string \<times> string) list option \<Rightarrow> string" where
  "name_tag tags =
     (case find (\<lambda>(k, v). k = ''Name'') (case tags of None \<Rightarrow> [] | Some ts \<Rightarrow> ts) of
        None \<Rightarrow> [] | Some (k, v) \<Rightarrow> v)"

definition whole_days :: "env \<Rightarrow> int \<Rightarrow> int" where
  "whole_days env t = (e_now env - t) div 86400"

text \<open>What an f-string makes of a stored value; none of them is a float.\<close>

fun meta_text :: "json \<Rightarrow> string" where
  "meta_text JNull = ''None''"
| "meta_text (JBool b) = (if b then ''True'' else ''False'')"
| "meta_text (JInt n) = show_int n"
| "meta_text (JFloat x) = fmt_g x"
| "meta_text (JStr s) = s"
| "meta_text (JList _) = ''[...]''"
| "meta_text (JObj _) = ''{...}''"

definition meta_get :: "waste_row \<Rightarrow> string \<Rightarrow> json \<Rightarrow> json" where
  "meta_get x k dflt = dict_get (w_metadata x) k dflt"

text \<open>
  \<open>recommend(waste_ids)\<close>: one statement for each row that \<open>WHERE id = ANY(...)\<close> finds, in table
  order; the text is built from the stored metadata.
\<close>

fun recommend_rows :: "string \<Rightarrow> (waste_row \<Rightarrow> string) \<Rightarrow> waste_row list \<Rightarrow> world \<Rightarrow> nat \<times> world" where
  "recommend_rows rtype action [] w = (0, w)"
| "recommend_rows rtype action (x # xs) w =
     (case recommend_rows rtype action xs (upsert_rec (w_id x) rtype (action x) (w_monthly x) w) of
        (n, w') \<Rightarrow> (n + 1, w'))"

definition rows_of_ids :: "nat list \<Rightarrow> world \<Rightarrow> waste_row list" where
  "rows_of_ids ids w = filter (\<lambda>x. w_id x \<in> set ids) (t_rows (wastes w))"

text \<open>
  The end of every \<open>run\<close>: with nothing found only the photograph is taken. \<open>llm\<close> is
  \<open>None\<close> for the detector of stopped instances, which asks for no insights.
\<close>

definition finish_run ::
    "env \<Rightarrow> (prompt \<Rightarrow> string option) option \<Rightarrow> ('a list \<Rightarrow> world \<Rightarrow> nat list \<times> world)
     \<Rightarrow> (nat list \<Rightarrow> world \<Rightarrow> nat \<times> world) \<Rightarrow> 'a list \<Rightarrow> lake \<Rightarrow> lake" where
  "finish_run env llm save recommend found l =
     (if found = [] then snapshot_active_waste env l
      else
        let (ids, w1) = save found (lk_world l);
            (_, w2) = recommend ids w1;
            l' = snapshot_active_waste env (l\<lparr>lk_world := w2\<rparr>)
        in l'\<lparr>lk_world := snd (enrich_recommendations llm MAX_INSIGHTS_PER_RUN (lk_world l'))\<rparr>)"

section \<open>Orphaned volumes\<close>

definition DEFAULT_EBS_PRICE :: rat where
  "DEFAULT_EBS_PRICE = 10 / 100"

definition volume_monthly_cost :: "int \<Rightarrow> string \<Rightarrow> rat" where
  "volume_monthly_cost size_gb vol_type =
     py_round 2 (of_int size_gb * dict_get EBS_PRICING_USD_PER_GIB vol_type DEFAULT_EBS_PRICE)"

record volume_desc =
  vd_id :: string
  vd_tags :: "(string \<times> string) list option"
  vd_type :: "string option"
  vd_size :: "int option"
  vd_create :: "int option"
  vd_az :: "string option"
  vd_encrypted :: "bool option"

record orphan_volume =
  ov_id :: string
  ov_name :: string
  ov_size :: int
  ov_type :: string
  ov_az :: string
  ov_region :: string
  ov_encrypted :: bool
  ov_cost :: rat
  ov_age :: "int option"
  ov_fallback :: bool

definition orphan_of :: "env \<Rightarrow> string \<Rightarrow> volume_desc \<Rightarrow> orphan_volume" where
  "orphan_of env region vol =
     (let vol_type = (case vd_type vol of None \<Rightarrow> ''gp2'' | Some t \<Rightarrow> t); size_gb = or_zero (vd_size vol)
      in \<lparr>ov_id = vd_id vol, ov_name = name_tag (vd_tags vol), ov_size = size_gb, ov_type = vol_type,
          ov_az = (case vd_az vol of None \<Rightarrow> region | Some z \<Rightarrow> z), ov_region = region,
          ov_encrypted = (vd_encrypted vol = Some True),
          ov_cost = volume_monthly_cost size_gb vol_type,
          ov_age = map_option (whole_days env) (vd_create vol),
          ov_fallback = (vol_type \<notin> set (map fst EBS_PRICING_USD_PER_GIB))\<rparr>)"

definition fetch_orphaned_volumes ::
    "(string \<Rightarrow> aws_exc + volume_desc list) \<Rightarrow> env \<Rightarrow> string \<Rightarrow> orphan_volume list option" where
  "fetch_orphaned_volumes describe env region =
     (case describe region of Inl _ \<Rightarrow> None | Inr vols \<Rightarrow> Some (map (orphan_of env region) vols))"

definition ebs_detect ::
    "(string \<Rightarrow> aws_exc + volume_desc list) \<Rightarrow> env \<Rightarrow> string list \<Rightarrow> det_error + orphan_volume list" where
  "ebs_detect describe env regions =
     py_bind (scanned_results (map (fetch_orphaned_volumes describe env) regions) regions
                ''orphaned EBS volumes'')
       (\<lambda>scanned. Inr (concat scanned))"

definition ebs_metadata :: "orphan_volume \<Rightarrow> (string, json) dict" where
  "ebs_metadata vol =
     stamp_pricing
       ([(''name'', JStr (ov_name vol)), (''size_gb'', JInt (ov_size vol)), (''vol_type'', JStr (ov_type vol)),
         (''az'', JStr (ov_az vol)), (''region'', JStr (ov_region vol)),
         (''encrypted'', JBool (ov_encrypted vol)), (''monthly_cost_eur'', JFloat (ov_cost vol)),
         (''age_days'', json_int_opt (ov_age vol))]
        @ pricing_fallback (\<not> ov_fallback vol))"

definition ebs_save :: "env \<Rightarrow> orphan_volume list \<Rightarrow> world \<Rightarrow> nat list \<times> world" where
  "ebs_save env =
     save_all (\<lambda>vol. upsert_waste False env (ov_id vol) ''ebs_volume'' ''orphaned_volume'' (ov_cost vol)
                       (95 / 100) (ebs_metadata vol))"

definition labelled :: "string \<Rightarrow> string \<Rightarrow> string" where
  "labelled name i = (if name \<noteq> [] then name @ '' ('' @ i @ '')'' else i)"

definition ebs_action :: "waste_row \<Rightarrow> string" where
  "ebs_action x =
     ''DELETE orphaned EBS volume '' @ labelled (meta_text (meta_get x ''name'' (JStr []))) (w_resource_id x) @
     '' - '' @ meta_text (meta_get x ''size_gb'' (JStr ''?'')) @ '' GiB '' @
     meta_text (meta_get x ''vol_type'' (JStr [])) @ '' in '' @ meta_text (meta_get x ''region'' (JStr [])) @
     '', not attached to any instance''"

definition ebs_recommend :: "nat list \<Rightarrow> world \<Rightarrow> nat \<times> world" where
  "ebs_recommend ids w = recommend_rows ''delete_volume'' ebs_action (rows_of_ids ids w) w"

definition ebs_run ::
    "(string \<Rightarrow> aws_exc + volume_desc list) \<Rightarrow> env \<Rightarrow> (prompt \<Rightarrow> string option) option \<Rightarrow> string list
     \<Rightarrow> lake \<Rightarrow> det_error option \<times> lake" where
  "ebs_run describe env llm regions l =
     (case ebs_detect describe env regions of
        Inl e \<Rightarrow> (Some e, l)
      | Inr vols \<Rightarrow> (None, finish_run env llm (ebs_save env) ebs_recommend vols l))"

section \<open>Unassociated addresses\<close>

definition EIP_MONTHLY_COST_USD :: rat where
  "EIP_MONTHLY_COST_USD = 365 / 100"

record address_desc =
  ad_allocation :: "string option"
  ad_public_ip :: string
  ad_domain :: "string option"
  ad_instance :: "string option"
  ad_interface :: "string option"

record orphan_eip =
  oe_allocation :: string
  oe_public_ip :: string
  oe_domain :: string
  oe_region :: string
  oe_cost :: rat

definition fetch_unassociated_eips ::
    "(string \<Rightarrow> aws_exc + address_desc list) \<Rightarrow> string \<Rightarrow> orphan_eip list option" where
  "fetch_unassociated_eips describe region =
     (case describe region of
        Inl _ \<Rightarrow> None
      | Inr addrs \<Rightarrow>
          Some (map (\<lambda>a. \<lparr>oe_allocation = (case ad_allocation a of None \<Rightarrow> ad_public_ip a | Some i \<Rightarrow> i),
                          oe_public_ip = ad_public_ip a,
                          oe_domain = (case ad_domain a of None \<Rightarrow> ''vpc'' | Some s \<Rightarrow> s),
                          oe_region = region, oe_cost = EIP_MONTHLY_COST_USD\<rparr>)
                 (filter (\<lambda>a. \<not> (truthy (ad_instance a) \<or> truthy (ad_interface a))) addrs)))"

definition eip_detect ::
    "(string \<Rightarrow> aws_exc + address_desc list) \<Rightarrow> string list \<Rightarrow> det_error + orphan_eip list" where
  "eip_detect describe regions =
     py_bind (scanned_results (map (fetch_unassociated_eips describe) regions) regions
                ''unassociated Elastic IPs'')
       (\<lambda>scanned. Inr (concat scanned))"

definition eip_metadata :: "orphan_eip \<Rightarrow> (string, json) dict" where
  "eip_metadata eip =
     stamp_pricing
       [(''public_ip'', JStr (oe_public_ip eip)), (''allocation_id'', JStr (oe_allocation eip)),
        (''domain'', JStr (oe_domain eip)), (''region'', JStr (oe_region eip)),
        (''monthly_cost_eur'', JFloat (oe_cost eip))]"

definition eip_save :: "env \<Rightarrow> orphan_eip list \<Rightarrow> world \<Rightarrow> nat list \<times> world" where
  "eip_save env =
     save_all (\<lambda>eip. upsert_waste False env (oe_allocation eip) ''elastic_ip'' ''unassociated_ip'' (oe_cost eip)
                       (99 / 100) (eip_metadata eip))"

definition eip_action :: "waste_row \<Rightarrow> string" where
  "eip_action x =
     ''RELEASE unassociated Elastic IP '' @ meta_text (meta_get x ''public_ip'' (JStr (w_resource_id x))) @
     '' ('' @ w_resource_id x @ '') in '' @ meta_text (meta_get x ''region'' (JStr [])) @
     '' - not attached to any instance or interface''"

definition eip_recommend :: "nat list \<Rightarrow> world \<Rightarrow> nat \<times> world" where
  "eip_recommend ids w = recommend_rows ''release_ip'' eip_action (rows_of_ids ids w) w"

definition eip_run ::
    "(string \<Rightarrow> aws_exc + address_desc list) \<Rightarrow> env \<Rightarrow> (prompt \<Rightarrow> string option) option \<Rightarrow> string list
     \<Rightarrow> lake \<Rightarrow> det_error option \<times> lake" where
  "eip_run describe env llm regions l =
     (case eip_detect describe regions of
        Inl e \<Rightarrow> (Some e, l)
      | Inr eips \<Rightarrow> (None, finish_run env llm (eip_save env) eip_recommend eips l))"

section \<open>Old snapshots\<close>

definition SNAPSHOT_PRICE_USD_PER_GIB :: rat where
  "SNAPSHOT_PRICE_USD_PER_GIB = 5 / 100"

definition SNAPSHOT_AGE_DAYS :: int where
  "SNAPSHOT_AGE_DAYS = 90"

definition snapshot_monthly_cost :: "int \<Rightarrow> rat" where
  "snapshot_monthly_cost size_gb = py_round 2 (of_int size_gb * SNAPSHOT_PRICE_USD_PER_GIB)"

record snap_desc =
  sd_id :: string
  sd_tags :: "(string \<times> string) list option"
  sd_start :: "(int \<times> string) option"
  sd_size :: "int option"
  sd_description :: "string option"
  sd_volume :: "string option"
  sd_state :: "string option"
  sd_encrypted :: "bool option"

record old_snapshot =
  os_id :: string
  os_description :: string
  os_volume :: string
  os_size :: int
  os_state :: string
  os_start :: string
  os_age :: int
  os_encrypted :: bool
  os_region :: string
  os_cost :: rat

text \<open>An image is the list of snapshot ids of its mappings, \<open>None\<close> for a mapping without one.\<close>

definition fetch_ami_snapshot_ids :: "string option list list \<Rightarrow> string list" where
  "fetch_ami_snapshot_ids images = filter (\<lambda>s. s \<noteq> []) (List.map_filter id (concat images))"

definition MANAGED_TAGS :: "string list" where
  "MANAGED_TAGS = [''aws:backup:source-resource'', ''aws:dlm:lifecycle-policy-id'']"

definition snapshot_is_old :: "env \<Rightarrow> string list \<Rightarrow> snap_desc \<Rightarrow> bool" where
  "snapshot_is_old env ami_snap_ids snap \<longleftrightarrow>
     sd_id snap \<notin> set ami_snap_ids
     \<and> set (map fst (case sd_tags snap of None \<Rightarrow> [] | Some ts \<Rightarrow> ts)) \<inter> set MANAGED_TAGS = {}
     \<and> (case sd_start snap of None \<Rightarrow> False | Some (t, _) \<Rightarrow> \<not> whole_days env t < SNAPSHOT_AGE_DAYS)"

definition old_of :: "env \<Rightarrow> string \<Rightarrow> snap_desc \<Rightarrow> old_snapshot" where
  "old_of env region snap =
     (let (t, text) = (case sd_start snap of None \<Rightarrow> (0, []) | Some p \<Rightarrow> p); size_gb = or_zero (sd_size snap)
      in \<lparr>os_id = sd_id snap, os_description = or_empty (sd_description snap),
          os_volume = or_empty (sd_volume snap), os_size = size_gb,
          os_state = (case sd_state snap of None \<Rightarrow> [] | Some s \<Rightarrow> s), os_start = text,
          os_age = whole_days env t, os_encrypted = (sd_encrypted snap = Some True), os_region = region,
          os_cost = snapshot_monthly_cost size_gb\<rparr>)"

record snapshot_api =
  sa_images :: "string \<Rightarrow> aws_exc + string option list list"
  sa_snapshots :: "string \<Rightarrow> aws_exc + snap_desc list"

definition fetch_old_snapshots ::
    "snapshot_api \<Rightarrow> env \<Rightarrow> string \<Rightarrow> (old_snapshot list \<times> string list) option" where
  "fetch_old_snapshots api env region =
     (case sa_images api region of
        Inl _ \<Rightarrow> None
      | Inr images \<Rightarrow>
          let ami_snap_ids = fetch_ami_snapshot_ids images
          in (case sa_snapshots api region of
                Inl _ \<Rightarrow> None
              | Inr found \<Rightarrow>
                  Some (map (old_of env region) (filter (snapshot_is_old env ami_snap_ids) found), ami_snap_ids)))"

definition snapshot_detect ::
    "snapshot_api \<Rightarrow> env \<Rightarrow> string list \<Rightarrow> det_error + old_snapshot list \<times> string list" where
  "snapshot_detect api env regions =
     py_bind (scanned_results (map (fetch_old_snapshots api env) regions) regions ''old EBS snapshots'')
       (\<lambda>scanned. Inr (concat (map fst scanned), concat (map snd scanned)))"

definition snapshot_confidence :: "int \<Rightarrow> rat" where
  "snapshot_confidence age = py_round 2 (min (90 / 100) (60 / 100 + of_int (age - SNAPSHOT_AGE_DAYS) / 1000))"

definition snapshot_metadata :: "old_snapshot \<Rightarrow> (string, json) dict" where
  "snapshot_metadata snap =
     stamp_pricing
       [(''description'', JStr (os_description snap)), (''volume_id'', JStr (os_volume snap)),
        (''size_gb'', JInt (os_size snap)), (''state'', JStr (os_state snap)),
        (''start_time'', JStr (os_start snap)), (''age_days'', JInt (os_age snap)),
        (''encrypted'', JBool (os_encrypted snap)), (''region'', JStr (os_region snap)),
        (''monthly_cost_eur'', JFloat (os_cost snap))]"

definition snapshot_save :: "env \<Rightarrow> old_snapshot list \<Rightarrow> world \<Rightarrow> nat list \<times> world" where
  "snapshot_save env =
     save_all (\<lambda>snap. upsert_waste False env (os_id snap) ''ebs_snapshot'' ''old_snapshot'' (os_cost snap)
                        (snapshot_confidence (os_age snap)) (snapshot_metadata snap))"

definition snapshot_action :: "waste_row \<Rightarrow> string" where
  "snapshot_action x =
     (let desc = meta_text (meta_get x ''description'' (JStr []))
      in ''DELETE old snapshot '' @ w_resource_id x @
         (if desc \<noteq> [] then '' ('' @ take 40 desc @ '')'' else []) @ '' - '' @
         meta_text (meta_get x ''size_gb'' (JStr ''?'')) @ '' GiB, '' @
         meta_text (meta_get x ''age_days'' (JStr ''?'')) @ '' days old, in '' @
         meta_text (meta_get x ''region'' (JStr [])))"

definition snapshot_recommend :: "nat list \<Rightarrow> world \<Rightarrow> nat \<times> world" where
  "snapshot_recommend ids w = recommend_rows ''delete_snapshot'' snapshot_action (rows_of_ids ids w) w"

text \<open>The pending recommendations of snapshots that back an image become obsolete.\<close>

definition mark_ami_backed_obsolete :: "string list \<Rightarrow> world \<Rightarrow> nat \<times> world" where
  "mark_ami_backed_obsolete ami_snap_ids w =
     (if ami_snap_ids = [] then (0, w)
      else
        let hit = (\<lambda>r. r_status r = Pending
              \<and> (case t_get w_id (r_waste r) (wastes w) of
                   None \<Rightarrow> False
                 | Some x \<Rightarrow> w_resource_type x = ''ebs_snapshot'' \<and> w_resource_id x \<in> set ami_snap_ids))
        in (t_count hit (recs w), w\<lparr>recs := t_update hit (\<lambda>r. r\<lparr>r_status := Obsolete\<rparr>) (recs w)\<rparr>))"

definition snapshot_run ::
    "snapshot_api \<Rightarrow> env \<Rightarrow> (prompt \<Rightarrow> string option) option \<Rightarrow> string list \<Rightarrow> lake
     \<Rightarrow> det_error option \<times> lake" where
  "snapshot_run api env llm regions l =
     (case snapshot_detect api env regions of
        Inl e \<Rightarrow> (Some e, l)
      | Inr (snapshots, ami_snap_ids) \<Rightarrow>
          (None, finish_run env llm (snapshot_save env) snapshot_recommend snapshots
                   (l\<lparr>lk_world := snd (mark_ami_backed_obsolete ami_snap_ids (lk_world l))\<rparr>)))"

section \<open>Stopped instances\<close>

definition STOPPED_DAYS :: int where
  "STOPPED_DAYS = 7"

text \<open>A row of \<open>ec2_metrics\<close>, with the columns the detectors read.\<close>

record metric_row =
  mt_instance :: string
  mt_type :: "string option"
  mt_state :: "string option"
  mt_date :: int
  mt_cpu_avg :: "rat option"
  mt_cpu_max :: "rat option"
  mt_region :: "string option"

text \<open>
  \<open>GROUP BY instance_id, instance_type\<close> over the window, groups whose every row is stopped,
  by instance. The order of two types of one instance is the one of the table.
\<close>

definition stopped_groups :: "env \<Rightarrow> metric_row list \<Rightarrow> (string \<times> string option \<times> int) list" where
  "stopped_groups env metrics =
     (let window = filter (\<lambda>m. e_today env - STOPPED_DAYS \<le> mt_date m) metrics;
          group = (\<lambda>k. filter (\<lambda>m. (mt_instance m, mt_type m) = k) window);
          keys = remdups (map (\<lambda>m. (mt_instance m, mt_type m)) window)
      in map (\<lambda>k. (fst k, snd k, int (length (group k))))
           (sort_key (\<lambda>k. map (\<lambda>c. of_char c :: nat) (fst k))
             (filter (\<lambda>k. \<forall>m \<in> set (group k). mt_state m = Some ''stopped'') keys)))"

record stopped_desc =
  st_launch :: "int option"
  st_volumes :: "string list"

record stopped_api =
  so_instance :: "string \<Rightarrow> string \<Rightarrow> aws_exc + stopped_desc option"
  so_volumes :: "string \<Rightarrow> string list \<Rightarrow> aws_exc + (string \<times> int \<times> string) list"

record stopped_info =
  si_region :: string
  si_cost :: rat
  si_volumes :: "(string \<times> int \<times> string \<times> rat) list"
  si_age :: "int option"
  si_fallback :: bool

definition ebs_cost :: "int \<Rightarrow> string \<Rightarrow> rat" where
  "ebs_cost size_gb vol_type =
     py_round 2 (of_int size_gb * dict_get EBS_PRICING_USD_PER_GIB vol_type DEFAULT_EBS_PRICE)"

text \<open>\<open>None\<close> is \<open>{"found": False}\<close>.\<close>

definition fetch_ebs_cost_for_instance ::
    "stopped_api \<Rightarrow> env \<Rightarrow> string \<Rightarrow> string \<Rightarrow> stopped_info option" where
  "fetch_ebs_cost_for_instance api env instance_id region =
     (case so_instance api region instance_id of
        Inl _ \<Rightarrow> None
      | Inr None \<Rightarrow> None
      | Inr (Some inst) \<Rightarrow>
          let age_days = map_option (whole_days env) (st_launch inst)
          in if st_volumes inst = []
             then Some \<lparr>si_region = region, si_cost = 0, si_volumes = [], si_age = age_days, si_fallback = False\<rparr>
             else (case so_volumes api region (st_volumes inst) of
                     Inl _ \<Rightarrow> None
                   | Inr vols \<Rightarrow>
                       Some \<lparr>si_region = region,
                             si_cost = py_round 2 (sum_list (map (\<lambda>(i, size, ty). ebs_cost size ty) vols)),
                             si_volumes = map (\<lambda>(i, size, ty). (i, size, ty, ebs_cost size ty)) vols,
                             si_age = age_days,
                             si_fallback = (\<exists>(i, size, ty) \<in> set vols. ty \<notin> set (map fst EBS_PRICING_USD_PER_GIB))\<rparr>))"

record stopped_inst =
  sp_id :: string
  sp_type :: "string option"
  sp_datapoints :: int
  sp_region :: string
  sp_cost :: rat
  sp_volumes :: "(string \<times> int \<times> string \<times> rat) list"
  sp_age :: "int option"

text \<open>
  \<open>_resolve\<close>: the first region that knows the instance. The flag of the default price is not
  copied into the result, so \<open>save\<close> never finds it.
\<close>

fun resolve_stopped ::
    "stopped_api \<Rightarrow> env \<Rightarrow> (string \<times> string option \<times> int) \<Rightarrow> string list \<Rightarrow> stopped_inst option" where
  "resolve_stopped api env row [] = None"
| "resolve_stopped api env (i, ty, n) (region # regions) =
     (case fetch_ebs_cost_for_instance api env i region of
        None \<Rightarrow> resolve_stopped api env (i, ty, n) regions
      | Some info \<Rightarrow>
          Some \<lparr>sp_id = i, sp_type = ty, sp_datapoints = n, sp_region = si_region info,
                sp_cost = si_cost info, sp_volumes = si_volumes info, sp_age = si_age info\<rparr>)"

definition stopped_detect ::
    "stopped_api \<Rightarrow> env \<Rightarrow> string list \<Rightarrow> metric_row list \<Rightarrow> stopped_inst list" where
  "stopped_detect api env regions metrics =
     filter (\<lambda>s. 0 < sp_cost s)
       (List.map_filter (\<lambda>row. resolve_stopped api env row regions) (stopped_groups env metrics))"

definition stopped_metadata :: "stopped_inst \<Rightarrow> (string, json) dict" where
  "stopped_metadata inst =
     stamp_pricing
       [(''instance_type'', case sp_type inst of None \<Rightarrow> JNull | Some t \<Rightarrow> JStr t),
        (''instance_state'', JStr ''stopped''), (''region'', JStr (sp_region inst)),
        (''ebs_cost'', JFloat (sp_cost inst)), (''monthly_cost_eur'', JFloat (sp_cost inst)),
        (''volumes'', JList (map (\<lambda>(i, size, ty, cost).
            JObj [(''volume_id'', JStr i), (''size_gb'', JInt size), (''vol_type'', JStr ty), (''cost'', JFloat cost)])
          (sp_volumes inst))),
        (''days_stopped'', JInt (sp_datapoints inst)), (''age_days'', json_int_opt (sp_age inst))]"

definition stopped_save :: "env \<Rightarrow> stopped_inst list \<Rightarrow> world \<Rightarrow> nat list \<times> world" where
  "stopped_save env =
     save_all (\<lambda>inst. upsert_waste False env (sp_id inst) ''ec2_instance'' ''stopped_instance'' (sp_cost inst)
                        (95 / 100) (stopped_metadata inst))"

definition stopped_action :: "waste_row \<Rightarrow> string" where
  "stopped_action x =
     ''TERMINATE stopped instance '' @ w_resource_id x @ '' ('' @ meta_text (meta_get x ''instance_type'' (JStr [])) @
     '') in '' @ meta_text (meta_get x ''region'' (JStr [])) @ '' - stopped for >= '' @
     meta_text (meta_get x ''days_stopped'' (JInt STOPPED_DAYS)) @ '' days, still billing '' @
     show_nat (case meta_get x ''volumes'' (JList []) of JList vs \<Rightarrow> length vs | _ \<Rightarrow> 0) @ '' EBS volume(s) at '' @
     fmt_fixed 2 (w_monthly x) @ '' USD/mo; snapshot the volumes first''"

definition stopped_recommend :: "nat list \<Rightarrow> world \<Rightarrow> nat \<times> world" where
  "stopped_recommend ids w = recommend_rows ''terminate_instance'' stopped_action (rows_of_ids ids w) w"

definition stopped_run ::
    "stopped_api \<Rightarrow> env \<Rightarrow> string list \<Rightarrow> metric_row list \<Rightarrow> lake \<Rightarrow> lake" where
  "stopped_run api env regions metrics l =
     finish_run env None (stopped_save env) stopped_recommend (stopped_detect api env regions metrics) l"

end
