(* ===== verification/Ec2Idle.thy ===== *)
theory Ec2Idle
  imports AwsDetectors
begin

text \<open>
  The detector of idle instances, \<open>src/detectors/ec2_idle.py\<close>: the query over \<open>ec2_metrics\<close>, the
  confidence and the waste of each group, and the upsert of its recommendations, the only one that
  revives an obsolete row. Thresholds are Python values, so that their validation can be stated.
\<close>

section \<open>Prices\<close>

definition EC2_PRICING :: "(string, rat) dict" where
  "EC2_PRICING =
     [(''t2.nano'', 517 / 100), (''t2.micro'', 1033 / 100), (''t2.small'', 2065 / 100),
      (''t2.medium'', 4130 / 100), (''t3.nano'', 387 / 100), (''t3.micro'', 773 / 100),
      (''t3.small'', 1546 / 100), (''t3.medium'', 3091 / 100), (''t3.large'', 6183 / 100),
      (''t3.xlarge'', 12365 / 100), (''t3.2xlarge'', 24730 / 100), (''t3a.nano'', 372 / 100),
      (''t3a.micro'', 745 / 100), (''t3a.small'', 1489 / 100), (''t3a.medium'', 2978 / 100),
      (''t3a.large'', 5957 / 100), (''t4g.nano'', 336 / 100), (''t4g.micro'', 672 / 100),
      (''t4g.small'', 1343 / 100), (''t4g.medium'', 2686 / 100), (''t4g.large'', 5373 / 100),
      (''t4g.xlarge'', 10746 / 100), (''t4g.2xlarge'', 21491 / 100),
      (''m5.large'', 10435 / 100), (''m5.xlarge'', 20870 / 100),
      (''m5.2xlarge'', 41739 / 100), (''m5.4xlarge'', 83478 / 100),
      (''c5.large'', 9239 / 100), (''c5.xlarge'', 18478 / 100),
      (''c5.2xlarge'', 36957 / 100), (''r5.large'', 13696 / 100),
      (''r5.xlarge'', 27391 / 100), (''r5.2xlarge'', 54783 / 100)]"

definition DEFAULT_INSTANCE_COST_USD :: rat where
  "DEFAULT_INSTANCE_COST_USD = 5435 / 100"

definition get_instance_monthly_cost :: "string option \<Rightarrow> rat" where
  "get_instance_monthly_cost instance_type =
     (if \<not> truthy instance_type then DEFAULT_INSTANCE_COST_USD
      else (case map_of EC2_PRICING (the instance_type) of
              None \<Rightarrow> DEFAULT_INSTANCE_COST_USD | Some cost \<Rightarrow> cost))"

section \<open>Parameters\<close>

text \<open>The validators return the number that they read, for the use of the caller.\<close>

datatype idle_error = ValidationError string

type_synonym 'a idle = "idle_error pyexc + 'a"

definition validate_cpu_threshold :: "json \<Rightarrow> rat idle" where
  "validate_cpu_threshold v =
     (case (json_cmp v :: rat idle) of
        Inl _ \<Rightarrow> Inl (Raised (ValidationError ''cpu_threshold must be a number''))
      | Inr x \<Rightarrow>
          if x \<le> 0 \<or> x > 100
          then Inl (Raised (ValidationError ''cpu_threshold must be between 0 and 100 (exclusive)''))
          else Inr x)"

fun json_int :: "json \<Rightarrow> int option" where
  "json_int (JInt n) = Some n"
| "json_int (JBool b) = Some (if b then 1 else 0)"
| "json_int _ = None"

definition validate_days :: "json \<Rightarrow> int idle" where
  "validate_days v =
     (case json_int v of
        None \<Rightarrow> Inl (Raised (ValidationError ''days must be an integer''))
      | Some n \<Rightarrow>
          if n \<le> 0 then Inl (Raised (ValidationError ''days must be a positive integer''))
          else if n > 365 then Inl (Raised (ValidationError ''days cannot exceed 365''))
          else Inr n)"

section \<open>Detection\<close>

record idle_group =
  ig_instance :: string
  ig_type :: "string option"
  ig_state :: "string option"
  ig_avg :: rat
  ig_max :: "rat option"
  ig_min :: rat
  ig_datapoints :: nat
  ig_region :: "string option"

definition codes :: "string \<Rightarrow> nat list" where
  "codes s = map of_char s"

definition greatest_text :: "string list \<Rightarrow> string option" where
  "greatest_text xs = (if xs = [] then None else Some (last (sort_key codes xs)))"

definition mean :: "rat list \<Rightarrow> rat" where
  "mean xs = sum_list xs / of_nat (length xs)"

definition group_of :: "metric_row list \<Rightarrow> string \<times> string option \<times> string option \<Rightarrow> idle_group" where
  "group_of rows k =
     (let g = filter (\<lambda>m. (mt_instance m, mt_type m, mt_state m) = k) rows;
          avgs = List.map_filter mt_cpu_avg g; maxs = List.map_filter mt_cpu_max g
      in \<lparr>ig_instance = fst k, ig_type = fst (snd k), ig_state = snd (snd k), ig_avg = mean avgs,
          ig_max = (if maxs = [] then None else Some (fold max maxs (hd maxs))),
          ig_min = fold min avgs (hd avgs), ig_datapoints = length g,
          ig_region = greatest_text (List.map_filter mt_region g)\<rparr>)"

text \<open>The query: groups of the window with a CPU figure, idle ones, least busy first.\<close>

definition idle_groups :: "env \<Rightarrow> metric_row list \<Rightarrow> rat \<Rightarrow> int \<Rightarrow> idle_group list" where
  "idle_groups env metrics cpu_threshold days =
     (let rows = filter (\<lambda>m. e_today env - days \<le> mt_date m \<and> mt_cpu_avg m \<noteq> None) metrics;
          keys = remdups (map (\<lambda>m. (mt_instance m, mt_type m, mt_state m)) rows)
      in sort_key ig_avg (filter (\<lambda>g. ig_avg g < cpu_threshold) (map (group_of rows) keys)))"

definition idle_confidence :: "rat \<Rightarrow> rat \<Rightarrow> nat \<Rightarrow> int \<Rightarrow> rat" where
  "idle_confidence cpu_avg cpu_threshold datapoints days =
     (let confidence = max 0 (min 1 (py_round 2 (1 - cpu_avg / cpu_threshold)))
      in if datapoints < 3 then min confidence (70 / 100)
         else if int datapoints < days then min confidence (85 / 100)
         else confidence)"

record idle_waste =
  iw_resource :: string
  iw_monthly :: rat
  iw_confidence :: rat
  iw_metadata :: "(string, json) dict"

definition json_text_opt :: "string option \<Rightarrow> json" where
  "json_text_opt v = (case v of None \<Rightarrow> JNull | Some s \<Rightarrow> JStr s)"

text \<open>\<open>float(None)\<close> raises: a group whose every \<open>cpu_max\<close> is null.\<close>

definition idle_waste_of :: "string option \<Rightarrow> rat \<Rightarrow> int \<Rightarrow> idle_group \<Rightarrow> idle_waste idle" where
  "idle_waste_of aws_region cpu_threshold days g =
     (case ig_max g of
        None \<Rightarrow> Inl TypeError
      | Some cpu_max \<Rightarrow>
          let monthly_cost = get_instance_monthly_cost (ig_type g);
              priced = (truthy (ig_type g) \<and> the (ig_type g) \<in> set (map fst EC2_PRICING));
              waste_ratio = 1 - ig_avg g / 100
          in Inr \<lparr>iw_resource = ig_instance g, iw_monthly = py_round 2 (monthly_cost * waste_ratio),
                  iw_confidence = idle_confidence (ig_avg g) cpu_threshold (ig_datapoints g) days,
                  iw_metadata = stamp_pricing
                    ([(''cpu_avg_7d'', JFloat (ig_avg g)), (''cpu_max_7d'', JFloat cpu_max),
                      (''cpu_min_7d'', JFloat (ig_min g)), (''instance_type'', json_text_opt (ig_type g)),
                      (''instance_state'', json_text_opt (ig_state g)),
                      (''region'', json_text_opt (if truthy (ig_region g) then ig_region g else aws_region)),
                      (''monthly_cost_eur'', JFloat monthly_cost), (''waste_ratio'', JFloat waste_ratio),
                      (''datapoints'', JInt (int (ig_datapoints g))), (''observation_days'', JInt days),
                      (''detection_method'', JStr ''cloudwatch_cpu_avg''),
                      (''threshold_used'', JFloat cpu_threshold)]
                     @ pricing_fallback priced)\<rparr>)"

definition detect_idle_instances ::
    "env \<Rightarrow> string option \<Rightarrow> metric_row list \<Rightarrow> json \<Rightarrow> json \<Rightarrow> idle_waste list idle" where
  "detect_idle_instances env aws_region metrics cpu_threshold days =
     py_bind (validate_cpu_threshold cpu_threshold) (\<lambda>thr.
     py_bind (validate_days days) (\<lambda>n.
     py_map (idle_waste_of aws_region thr n) (idle_groups env metrics thr n)))"

section \<open>Recommendations\<close>

definition save_waste_detected :: "env \<Rightarrow> idle_waste list \<Rightarrow> world \<Rightarrow> nat list \<times> world" where
  "save_waste_detected env =
     save_all (\<lambda>waste. upsert_waste False env (iw_resource waste) ''ec2_instance'' ''idle_compute''
                         (iw_monthly waste) (iw_confidence waste) (iw_metadata waste))"

definition idle_rec_type :: "rat \<Rightarrow> string" where
  "idle_rec_type confidence =
     (if confidence \<ge> 90 / 100 then ''stop_instance''
      else if confidence \<ge> 60 / 100 then ''stop_instance'' else ''downsize_instance'')"

definition idle_action :: "waste_row \<Rightarrow> string" where
  "idle_action x =
     (let cpu = fmt_fixed 1 (or_zero (json_num (meta_get x ''cpu_avg_7d'' (JInt 0)))) @ ''%)'';
          confidence = w_confidence x
      in if confidence \<ge> 90 / 100
         then ''STOP instance '' @ w_resource_id x @ '' (avg CPU: '' @ cpu @
              '' - terminate manually once it has stayed stopped without impact''
         else if confidence \<ge> 60 / 100
         then ''STOP instance '' @ w_resource_id x @ '' during off-hours (avg CPU: '' @ cpu
         else ''DOWNSIZE instance '' @ w_resource_id x @ '' to smaller type (avg CPU: '' @ cpu)"

definition revive_rec :: "string \<Rightarrow> string \<Rightarrow> rat \<Rightarrow> rec_row \<Rightarrow> rec_row" where
  "revive_rec rtype action saving r =
     r\<lparr>r_savings := saving, r_type := rtype, r_action := action, r_status := Pending,
       r_applied_at := None,
       r_insight := (if r_status r = Obsolete \<or> r_type r \<noteq> rtype \<or> savings_drift (r_savings r) saving
                     then None else r_insight r)\<rparr>"

definition upsert_idle_rec :: "nat \<Rightarrow> string \<Rightarrow> string \<Rightarrow> rat \<Rightarrow> world \<Rightarrow> world" where
  "upsert_idle_rec wid rtype action saving w =
     w\<lparr>recs := snd (t_upsert r_id r_waste wid (\<lambda>r. r_status r = Pending \<or> r_status r = Obsolete)
                      (revive_rec rtype action saving) (new_rec wid rtype action saving) (recs w))\<rparr>"

fun generate_recommendations :: "nat list \<Rightarrow> world \<Rightarrow> nat \<times> world" where
  "generate_recommendations [] w = (0, w)"
| "generate_recommendations (i # ids) w =
     (case t_get w_id i (wastes w) of
        None \<Rightarrow> generate_recommendations ids w
      | Some x \<Rightarrow>
          (case generate_recommendations ids
                  (upsert_idle_rec i (idle_rec_type (w_confidence x)) (idle_action x) (w_monthly x) w) of
             (n, w') \<Rightarrow> (n + 1, w')))"

definition idle_run ::
    "env \<Rightarrow> string option \<Rightarrow> (prompt \<Rightarrow> string option) option \<Rightarrow> metric_row list \<Rightarrow> json \<Rightarrow> json \<Rightarrow> lake
     \<Rightarrow> idle_error pyexc option \<times> lake" where
  "idle_run env aws_region llm metrics cpu_threshold days l =
     (case detect_idle_instances env aws_region metrics cpu_threshold days of
        Inl e \<Rightarrow> (Some e, l)
      | Inr found \<Rightarrow>
          (None, finish_run env llm (save_waste_detected env) generate_recommendations found l))"

end
