(* ===== verification/Collection.thy ===== *)
theory Collection
  imports Ec2Idle
begin

text \<open>
  A collection, \<open>src/run_collection.py\<close>: the detectors in their order, each in a process of its
  own whose failure does not stop the others, and the row of \<open>collection_runs\<close> that says which
  steps were skipped and which failed. The record \<open>answers\<close> is what AWS, Steampipe and the
  language model say during the run. The collector of metrics, the first step, is
  modelled in \<open>Metrics\<close>: it leaves the table \<open>an_metrics\<close> and an exit code.
\<close>

record answers =
  an_env :: env
  an_region :: "string option"
  an_regions :: "string list"
  an_llm :: "(prompt \<Rightarrow> string option) option"
  an_parse :: "string \<Rightarrow> int option"
  an_cloudwatch :: bool
  an_metrics :: "metric_row list"
  an_volumes :: "string \<Rightarrow> aws_exc + volume_desc list"
  an_addresses :: "string \<Rightarrow> aws_exc + address_desc list"
  an_snapshots :: snapshot_api
  an_stopped :: stopped_api
  an_elb :: "det_error + elb_row list"
  an_nat :: "det_error + nat_row list"
  an_vpc :: "det_error + vpc_row list"
  an_gp2 :: "det_error + gp2_row list"
  an_ami :: "det_error + ami_row list"
  an_rds_stopped :: "det_error + rds_row list"
  an_rds_idle :: "det_error + rds_row list"
  an_rds_snapshot :: "det_error + rds_snap_row list"

definition BOTO3_STEPS :: "string list" where
  "BOTO3_STEPS =
     [''aws_cloudwatch'', ''ec2_idle'', ''ec2_stopped'', ''ebs_orphan'', ''eip_orphan'', ''snapshot_orphan'']"

definition STEAMPIPE_STEPS :: "string list" where
  "STEAMPIPE_STEPS =
     [''elb_unused'', ''nat_gateway_unused'', ''vpc_unused'', ''ebs_gp2_migration'', ''ami_orphan'',
      ''rds_stopped'', ''rds_idle'', ''rds_snapshot_orphan'']"

text \<open>The exit code of a script: an exception of its \<open>run\<close> ends in \<open>sys.exit(1)\<close>.\<close>

definition exit_ok :: "'e option \<times> lake \<Rightarrow> bool \<times> lake" where
  "exit_ok res = (fst res = None, snd res)"

definition run_step :: "answers \<Rightarrow> string \<Rightarrow> lake \<Rightarrow> bool \<times> lake" where
  "run_step a script l =
     (let env = an_env a; llm = an_llm a; regions = an_regions a in
      if script = ''aws_cloudwatch'' then (an_cloudwatch a, l)
      else if script = ''ec2_idle''
      then exit_ok (idle_run env (an_region a) llm (an_metrics a) (JFloat 5) (JInt 7) l)
      else if script = ''ec2_stopped'' then (True, stopped_run (an_stopped a) env regions (an_metrics a) l)
      else if script = ''ebs_orphan'' then exit_ok (ebs_run (an_volumes a) env llm regions l)
      else if script = ''eip_orphan'' then exit_ok (eip_run (an_addresses a) env llm regions l)
      else if script = ''snapshot_orphan'' then exit_ok (snapshot_run (an_snapshots a) env llm regions l)
      else if script = ''elb_unused'' then exit_ok (run_detector env llm (elb_detector (an_parse a)) (an_elb a) l)
      else if script = ''nat_gateway_unused''
      then exit_ok (run_detector env llm (nat_detector (an_parse a)) (an_nat a) l)
      else if script = ''vpc_unused'' then exit_ok (run_detector env llm vpc_detector (an_vpc a) l)
      else if script = ''ebs_gp2_migration'' then exit_ok (run_detector env llm gp2_detector (an_gp2 a) l)
      else if script = ''ami_orphan'' then exit_ok (run_detector env llm ami_detector (an_ami a) l)
      else if script = ''rds_stopped''
      then exit_ok (run_detector env llm rds_stopped_detector (an_rds_stopped a) l)
      else if script = ''rds_idle'' then exit_ok (run_detector env llm rds_idle_detector (an_rds_idle a) l)
      else if script = ''rds_snapshot_orphan''
      then exit_ok (run_detector env llm rds_snapshot_detector (an_rds_snapshot a) l)
      else (False, l))"

fun run_steps :: "answers \<Rightarrow> string list \<Rightarrow> lake \<Rightarrow> string list \<times> lake" where
  "run_steps a [] l = ([], l)"
| "run_steps a (script # scripts) l =
     (case run_step a script l of
        (ok, l1) \<Rightarrow>
          (case run_steps a scripts l1 of
             (failed, l2) \<Rightarrow> (if ok then failed else script # failed, l2)))"

record collection_run =
  cr_full :: bool
  cr_skipped :: "string list"
  cr_failed :: "string list"

definition record_run :: "string list \<Rightarrow> string list \<Rightarrow> collection_run" where
  "record_run skipped failed = \<lparr>cr_full = (skipped = []), cr_skipped = skipped, cr_failed = failed\<rparr>"

definition run_pipeline :: "answers \<Rightarrow> bool \<Rightarrow> lake \<Rightarrow> collection_run \<times> lake" where
  "run_pipeline a has_steampipe l =
     (let steps = BOTO3_STEPS @ (if has_steampipe then STEAMPIPE_STEPS else []);
          (failed, l') = run_steps a steps l
      in (record_run (if has_steampipe then [] else STEAMPIPE_STEPS) failed, l'))"

section \<open>What a collection may change\<close>

text \<open>
  Over a whole collection the open rows are those pending or obsolete: they may be refreshed,
  revived or closed, but keep their identity; every other row stays as it is.
\<close>

definition OPEN :: "rec_status set" where
  "OPEN = {Pending, Obsolete}"

definition open_only :: "rec_row \<Rightarrow> rec_row \<Rightarrow> bool" where
  "open_only r r' \<longleftrightarrow>
     r' = r \<or> r_status r \<in> OPEN \<and> r_status r' \<in> OPEN \<and> r_id r' = r_id r \<and> r_waste r' = r_waste r
       \<and> r_execute_after r' = r_execute_after r \<and> r_pr_url r' = r_pr_url r"

interpretation open_evolution: evolution OPEN open_only
  by unfold_locales (auto simp: open_only_def OPEN_def)

lemma evolves_weaken:
  assumes "evolves N R w w'" "N \<subseteq> M" "\<And>r r'. R r r' \<Longrightarrow> S r r'"
  shows "evolves M S w w'"
proof -
  have "case t_find r_waste wid (recs w) of
          None \<Rightarrow> (\<forall>r'. t_find r_waste wid (recs w') = Some r' \<longrightarrow> r_status r' \<in> M)
        | Some r \<Rightarrow> \<exists>r'. t_find r_waste wid (recs w') = Some r' \<and> S r r'" for wid
    using assms(1) [unfolded evolves_def, THEN conjunct2, THEN conjunct2, THEN conjunct2,
        THEN conjunct2, THEN conjunct2, rule_format, of wid] assms(2,3)
    by (cases "t_find r_waste wid (recs w)") auto
  with assms(1) show ?thesis by (simp add: evolves_def)
qed

context evolution
begin

lemma finish_run_evolves:
  assumes "schema_ok (lk_world l)"
    and "\<And>vs w. schema_ok w \<Longrightarrow> evolves N R w (snd (save vs w))"
    and "\<And>ids w. schema_ok w \<Longrightarrow> evolves N R w (snd (recommend ids w))"
    and "\<And>w w'. evolves {Pending} insight_only w w' \<Longrightarrow> evolves N R w w'"
  shows "evolves N R (lk_world l) (lk_world (finish_run env llm save recommend found l))"
proof (cases "found = []")
  case True
  then show ?thesis by (simp add: finish_run_def evolves_refl assms(1))
next
  case False
  note one = assms(2) [OF assms(1), of found]
  note two = assms(3) [OF evolves_schema [OF one], of "fst (save found (lk_world l))"]
  note three = assms(4) [OF enrich_evolves [OF evolves_schema [OF two]]]
  show ?thesis
    using evolves_trans [OF evolves_trans [OF one two] three] False
    by (simp add: finish_run_def case_prod_unfold Let_def)
qed

end

lemma savings_open: "evolves {Pending} savings_only w w' \<Longrightarrow> evolves OPEN open_only w w'"
  by (rule evolves_weaken, assumption) (auto simp: OPEN_def open_only_def savings_only_fields)

lemma insight_open: "evolves {Pending} insight_only w w' \<Longrightarrow> evolves OPEN open_only w w'"
  by (rule evolves_weaken, assumption) (auto simp: OPEN_def open_only_def insight_only_fields)

lemma recommend_rows_evolves:
  "schema_ok w \<Longrightarrow> evolves {Pending} savings_only w (snd (recommend_rows ty action xs w))"
proof (induction xs arbitrary: w)
  case (Cons x xs)
  note one = upsert_rec_evolves [OF Cons.prems, of "w_id x" ty "action x" "w_monthly x"]
  from savings_evolution.evolves_trans [OF one Cons.IH [OF evolves_schema [OF one]]] show ?case
    by (simp add: case_prod_unfold)
qed (simp add: savings_evolution.evolves_refl)

lemma mark_ami_backed_evolves:
  assumes "schema_ok w"
  shows "evolves OPEN open_only w (snd (mark_ami_backed_obsolete ids w))"
proof (cases "ids = []")
  case True
  then show ?thesis by (simp add: mark_ami_backed_obsolete_def open_evolution.evolves_refl assms)
next
  case False
  define hit where "hit = (\<lambda>r :: rec_row. r_status r = Pending
      \<and> (case t_get w_id (r_waste r) (wastes w) of
           None \<Rightarrow> False
         | Some x \<Rightarrow> w_resource_type x = ''ebs_snapshot'' \<and> w_resource_id x \<in> set ids))"
  let ?f = "\<lambda>r. if hit r then r\<lparr>r_status := Obsolete\<rparr> else r"
  have w': "snd (mark_ami_backed_obsolete ids w) = w\<lparr>recs := t_update hit (\<lambda>r. r\<lparr>r_status := Obsolete\<rparr>) (recs w)\<rparr>"
    using False by (simp add: mark_ami_backed_obsolete_def hit_def Let_def)
  have wf: "t_wf r_id (recs w)" "distinct (map r_waste (t_rows (recs w)))"
    using assms by (auto simp: schema_ok_def t_unique_def)
  have "t_wf r_id (t_update hit (\<lambda>r. r\<lparr>r_status := Obsolete\<rparr>) (recs w))"
    by (rule rec_table.wf_upd [OF wf(1)]) simp
  moreover have "map r_waste (map ?f xs) = map r_waste xs" for xs by simp
  ultimately have "schema_ok (snd (mark_ami_backed_obsolete ids w))"
    using assms wf(2) by (simp add: w' schema_ok_def t_unique_def t_update_def del: map_map)
  moreover have "find (\<lambda>r. r_waste r = k) (map ?f xs) = map_option ?f (find (\<lambda>r. r_waste r = k) xs)" for k xs
    by (rule find_map_key) simp
  moreover have "open_only r (?f r)" for r
    by (simp add: open_only_def OPEN_def) (simp add: hit_def)
  ultimately show ?thesis
    by (auto simp: evolves_def w' t_find_def t_update_def split: option.splits)
qed

lemma idle_rec_fits: "fits r_id r_waste wid (revive_rec ty action s) (new_rec wid ty action s)"
  by (simp add: fits_def revive_rec_def new_rec_def)

lemma upsert_idle_evolves:
  "schema_ok w \<Longrightarrow> evolves OPEN open_only w (upsert_idle_rec wid ty action s w)"
  unfolding upsert_idle_rec_def
  by (rule open_evolution.evolves_upsert [OF _ idle_rec_fits])
     (auto simp: new_rec_def open_only_def OPEN_def revive_rec_def)

lemma generate_evolves:
  "schema_ok w \<Longrightarrow> evolves OPEN open_only w (snd (generate_recommendations ids w))"
proof (induction ids arbitrary: w)
  case (Cons i ids)
  show ?case
  proof (cases "t_get w_id i (wastes w)")
    case None
    with Cons show ?thesis by simp
  next
    case (Some x)
    note one = upsert_idle_evolves [OF Cons.prems, of i "idle_rec_type (w_confidence x)" "idle_action x" "w_monthly x"]
    from open_evolution.evolves_trans [OF one Cons.IH [OF evolves_schema [OF one]]] Some show ?thesis
      by (simp add: case_prod_unfold)
  qed
qed (simp add: open_evolution.evolves_refl)

lemma steampipe_step_evolves:
  assumes "schema_ok (lk_world l)"
  shows "evolves OPEN open_only (lk_world l) (lk_world (snd (run_detector env llm d answer l)))"
  using run_detector_evolves [OF assms, of env llm d answer] savings_open
  by (metis prod.collapse)

lemma boto3_step_evolves:
  assumes "schema_ok (lk_world l)"
    and "\<And>v w. schema_ok w \<Longrightarrow> evolves OPEN open_only w (snd (save_one v w))"
    and "\<And>ids w. schema_ok w \<Longrightarrow> evolves OPEN open_only w (snd (recommend ids w))"
  shows "evolves OPEN open_only (lk_world l) (lk_world (finish_run env llm (save_all save_one) recommend found l))"
  by (rule open_evolution.finish_run_evolves [OF assms(1)])
     (use assms(2,3) insight_open in \<open>auto intro: open_evolution.save_all_evolves\<close>)

lemmas recommend_open = recommend_rows_evolves [THEN savings_open]

lemma idle_run_evolves:
  assumes "schema_ok (lk_world l)"
  shows "evolves OPEN open_only (lk_world l) (lk_world (snd (idle_run env reg llm ms c n l)))"
  by (auto simp: idle_run_def save_waste_detected_def split: sum.splits
      intro!: open_evolution.evolves_refl [OF assms] boto3_step_evolves [OF assms]
        open_evolution.evolves_upsert_waste generate_evolves)

lemma run_step_evolves:
  assumes "schema_ok (lk_world l)"
  shows "evolves OPEN open_only (lk_world l) (lk_world (snd (run_step a script l)))"
proof -
  note save = open_evolution.evolves_upsert_waste
  note fin = boto3_step_evolves [OF assms]
  have refl: "evolves OPEN open_only (lk_world l) (lk_world l)"
    by (rule open_evolution.evolves_refl [OF assms])
  note idle = idle_run_evolves [OF assms]
  have stopped: "evolves OPEN open_only (lk_world l) (lk_world (stopped_run api env rs ms l))" for api env rs ms
    by (auto simp: stopped_run_def stopped_save_def stopped_recommend_def intro!: fin save recommend_open)
  have ebs: "evolves OPEN open_only (lk_world l) (lk_world (snd (ebs_run api env llm rs l)))" for api env llm rs
    by (auto simp: ebs_run_def ebs_save_def ebs_recommend_def split: sum.splits
        intro!: refl fin save recommend_open)
  have eip: "evolves OPEN open_only (lk_world l) (lk_world (snd (eip_run api env llm rs l)))" for api env llm rs
    by (auto simp: eip_run_def eip_save_def eip_recommend_def split: sum.splits
        intro!: refl fin save recommend_open)
  have snapshot: "evolves OPEN open_only (lk_world l) (lk_world (snd (snapshot_run api env llm rs l)))" for api env llm rs
  proof (cases "snapshot_detect api env rs")
    case (Inl e)
    with refl show ?thesis by (simp add: snapshot_run_def)
  next
    case (Inr p)
    let ?l = "l\<lparr>lk_world := snd (mark_ami_backed_obsolete (snd p) (lk_world l))\<rparr>"
    note mark = mark_ami_backed_evolves [OF assms, of "snd p"]
    have "schema_ok (lk_world ?l)" using evolves_schema [OF mark] by simp
    then have "evolves OPEN open_only (lk_world ?l)
        (lk_world (finish_run env llm (snapshot_save env) snapshot_recommend (fst p) ?l))"
      unfolding snapshot_save_def
      by (rule boto3_step_evolves) (simp_all add: snapshot_recommend_def save recommend_open)
    with open_evolution.evolves_trans [OF mark] Inr show ?thesis
      by (simp add: snapshot_run_def case_prod_unfold)
  qed
  show ?thesis
    unfolding run_step_def Let_def exit_ok_def
    by (simp add: refl idle stopped ebs eip snapshot steampipe_step_evolves [OF assms])
qed

lemma run_steps_evolves:
  "schema_ok (lk_world l) \<Longrightarrow> evolves OPEN open_only (lk_world l) (lk_world (snd (run_steps a scripts l)))"
proof (induction scripts arbitrary: l)
  case (Cons script scripts)
  note one = run_step_evolves [OF Cons.prems, of a script]
  from open_evolution.evolves_trans [OF one Cons.IH [OF evolves_schema [OF one]]] show ?case
    by (simp add: case_prod_unfold)
qed (simp add: open_evolution.evolves_refl)

end
