(* ===== verification/ScanFacts.thy ===== *)
theory ScanFacts
  imports Collection
begin

text \<open>
  What the detectors and a whole collection guarantee: outages are reported, decisions are kept,
  an idle instance comes back, a thin observation stays below the bar of the safeguards, a
  snapshot is only proposed when the remediator would accept it, and what a stopped instance
  loses when a recommendation for it already exists.
\<close>

section \<open>Regions\<close>

lemma py_bind_error: "(\<exists>e. py_bind m f = Inl e) \<longleftrightarrow> (\<exists>e. m = Inl e) \<or> (\<exists>x e. m = Inr x \<and> f x = Inl e)"
  by (cases m) auto

lemma scanned_fails_iff:
  "(\<exists>e. scanned_results (map f regions) regions what = Inl e) \<longleftrightarrow> regions \<noteq> [] \<and> (\<forall>r \<in> set regions. f r = None)"
  using scanned_results_eq [of "map f regions" regions what] by auto

lemma scan_run_fails:
  "fst (case py_bind (scanned_results (map f regions) regions what) (\<lambda>x. Inr (g x)) of
          Inl e \<Rightarrow> (Some e, l) | Inr v \<Rightarrow> (None, h v)) \<noteq> None
   \<longleftrightarrow> regions \<noteq> [] \<and> (\<forall>r \<in> set regions. f r = None)"
  using scanned_fails_iff [of f regions what]
  by (cases "scanned_results (map f regions) regions what") auto

lemma fetch_none:
  "fetch_orphaned_volumes vols env r = None \<longleftrightarrow> (\<exists>e. vols r = Inl e)"
  "fetch_unassociated_eips addrs r = None \<longleftrightarrow> (\<exists>e. addrs r = Inl e)"
  "fetch_old_snapshots api env r = None \<longleftrightarrow> (\<exists>e. sa_images api r = Inl e) \<or> (\<exists>e. sa_snapshots api r = Inl e)"
  by (auto simp: fetch_orphaned_volumes_def fetch_unassociated_eips_def fetch_old_snapshots_def Let_def
      split: sum.splits)

text \<open>
  A scan fails exactly when there are regions and none of them answered; then nothing is
  written. An outage is never reported as an account without waste, and one region out of order
  does not cost the others their results.
\<close>

theorem scan_outage_reported:
  "(fst (ebs_run vols env llm regions l) \<noteq> None \<longleftrightarrow> regions \<noteq> [] \<and> (\<forall>r \<in> set regions. \<exists>e. vols r = Inl e))
   \<and> (fst (eip_run addrs env llm regions l) \<noteq> None \<longleftrightarrow> regions \<noteq> [] \<and> (\<forall>r \<in> set regions. \<exists>e. addrs r = Inl e))
   \<and> (fst (snapshot_run api env llm regions l) \<noteq> None \<longleftrightarrow>
        regions \<noteq> [] \<and> (\<forall>r \<in> set regions. (\<exists>e. sa_images api r = Inl e) \<or> (\<exists>e. sa_snapshots api r = Inl e)))
   \<and> (fst (ebs_run vols env llm regions l) = None \<or> snd (ebs_run vols env llm regions l) = l)
   \<and> (fst (eip_run addrs env llm regions l) = None \<or> snd (eip_run addrs env llm regions l) = l)
   \<and> (fst (snapshot_run api env llm regions l) = None \<or> snd (snapshot_run api env llm regions l) = l)"
proof (intro conjI)
  show "fst (ebs_run vols env llm regions l) \<noteq> None \<longleftrightarrow> regions \<noteq> [] \<and> (\<forall>r \<in> set regions. \<exists>e. vols r = Inl e)"
    unfolding ebs_run_def ebs_detect_def scan_run_fails fetch_none ..
  show "fst (eip_run addrs env llm regions l) \<noteq> None \<longleftrightarrow> regions \<noteq> [] \<and> (\<forall>r \<in> set regions. \<exists>e. addrs r = Inl e)"
    unfolding eip_run_def eip_detect_def scan_run_fails fetch_none ..
  show "fst (snapshot_run api env llm regions l) \<noteq> None \<longleftrightarrow>
      regions \<noteq> [] \<and> (\<forall>r \<in> set regions. (\<exists>e. sa_images api r = Inl e) \<or> (\<exists>e. sa_snapshots api r = Inl e))"
    unfolding snapshot_run_def snapshot_detect_def case_prod_unfold scan_run_fails fetch_none ..
qed (auto simp: ebs_run_def eip_run_def snapshot_run_def split: sum.splits)

theorem scan_outage_reported_witness:
  "fst (ebs_run (\<lambda>_. Inl (OtherError [])) sample_env None [''eu-west-1''] sample_lake) \<noteq> None
   \<and> snd (ebs_run (\<lambda>_. Inl (OtherError [])) sample_env None [''eu-west-1''] sample_lake) = sample_lake
   \<and> fst (eip_run (\<lambda>r. if r = ''eu-west-1'' then Inr [] else Inl (OtherError [])) sample_env None
            [''eu-west-1'', ''us-east-1''] sample_lake) = None"
  using scan_outage_reported [THEN conjunct1, of "\<lambda>_. Inl (OtherError [])" sample_env None "[''eu-west-1'']" sample_lake]
    scan_outage_reported [THEN conjunct2, THEN conjunct2, THEN conjunct2, THEN conjunct1,
      of "\<lambda>_. Inl (OtherError [])" sample_env None "[''eu-west-1'']" sample_lake]
    scan_outage_reported [THEN conjunct2, THEN conjunct1,
      of "\<lambda>r. if r = ''eu-west-1'' then Inr [] else Inl (OtherError [])" sample_env None
        "[''eu-west-1'', ''us-east-1'']" sample_lake]
  by auto

section \<open>A whole collection\<close>

lemma exit_ok_run: "fst (exit_ok (run_detector env llm d answer l)) \<longleftrightarrow> (\<exists>rows. answer = Inr rows)"
  by (auto simp: exit_ok_def run_detector_def Let_def case_prod_unfold split: sum.splits)

lemma step_exit_indep: "fst (run_step a script l) = fst (run_step a script l')"
proof -
  have "fst (exit_ok (ebs_run v e m r l)) = fst (exit_ok (ebs_run v e m r l'))" for v e m r
    by (auto simp: exit_ok_def ebs_run_def split: sum.splits)
  moreover have "fst (exit_ok (eip_run v e m r l)) = fst (exit_ok (eip_run v e m r l'))" for v e m r
    by (auto simp: exit_ok_def eip_run_def split: sum.splits)
  moreover have "fst (exit_ok (snapshot_run v e m r l)) = fst (exit_ok (snapshot_run v e m r l'))" for v e m r
    by (auto simp: exit_ok_def snapshot_run_def split: sum.splits)
  moreover have "fst (exit_ok (idle_run e g m t c n l)) = fst (exit_ok (idle_run e g m t c n l'))" for e g m t c n
    by (auto simp: exit_ok_def idle_run_def split: sum.splits)
  ultimately show ?thesis by (simp add: run_step_def Let_def exit_ok_run)
qed

lemma run_steps_failed: "fst (run_steps a scripts l) = filter (\<lambda>s. \<not> fst (run_step a s l0)) scripts"
proof (induction scripts arbitrary: l)
  case (Cons script scripts)
  have "fst (run_step a script l) = fst (run_step a script l0)" by (rule step_exit_indep)
  with Cons show ?case by (simp add: case_prod_unfold)
qed simp

text \<open>
  C8: Whatever the sources answer, a collection leaves every recommendation that is neither pending
  nor obsolete exactly as it is, keeps the identity and the schedule of the others, adds rows only
  as pending or obsolete, and touches neither AWS nor the audit trail. Its record names exactly
  the steps that were skipped and those that failed.
\<close>

theorem collection_keeps_decisions:
  assumes "schema_ok (lk_world l)" "run_pipeline a has_steampipe l = (run, l')"
  shows "(\<forall>r \<in> set (t_rows (recs (lk_world l))). r_status r \<notin> {Pending, Obsolete} \<longrightarrow> r \<in> set (t_rows (recs (lk_world l'))))
    \<and> (\<forall>r \<in> set (t_rows (recs (lk_world l))). \<exists>r' \<in> set (t_rows (recs (lk_world l'))).
         r_id r' = r_id r \<and> r_waste r' = r_waste r \<and> r_execute_after r' = r_execute_after r)
    \<and> (\<forall>r' \<in> set (t_rows (recs (lk_world l'))).
         r_waste r' \<in> r_waste ` set (t_rows (recs (lk_world l))) \<or> r_status r' \<in> {Pending, Obsolete})
    \<and> alog (lk_world l') = alog (lk_world l) \<and> events (lk_world l') = events (lk_world l)
    \<and> schema_ok (lk_world l')
    \<and> cr_full run = has_steampipe
    \<and> cr_skipped run = (if has_steampipe then [] else STEAMPIPE_STEPS)
    \<and> cr_failed run = filter (\<lambda>s. \<not> fst (run_step a s l)) (BOTO3_STEPS @ (if has_steampipe then STEAMPIPE_STEPS else []))"
proof -
  let ?steps = "BOTO3_STEPS @ (if has_steampipe then STEAMPIPE_STEPS else [])"
  have l': "l' = snd (run_steps a ?steps l)"
    and run: "run = record_run (if has_steampipe then [] else STEAMPIPE_STEPS) (fst (run_steps a ?steps l))"
    using assms(2) by (auto simp: run_pipeline_def Let_def case_prod_unfold)
  have ev: "evolves OPEN open_only (lk_world l) (lk_world l')"
    unfolding l' by (rule run_steps_evolves [OF assms(1)])
  have old: "\<exists>r' \<in> set (t_rows (recs (lk_world l'))). open_only r r'"
    if "r \<in> set (t_rows (recs (lk_world l)))" for r
    by (rule evolves_rows(1) [OF ev assms(1) that])
  have new: "r_waste r' \<in> r_waste ` set (t_rows (recs (lk_world l))) \<or> r_status r' \<in> {Pending, Obsolete}"
    if "r' \<in> set (t_rows (recs (lk_world l')))" for r'
    using evolves_rows(2) [OF ev assms(1) that] by (auto simp: OPEN_def)
  have kept: "r \<in> set (t_rows (recs (lk_world l')))"
    if "r \<in> set (t_rows (recs (lk_world l)))" "r_status r \<notin> {Pending, Obsolete}" for r
    using old [OF that(1)] that(2) by (auto simp: open_only_def OPEN_def)
  have same: "\<exists>r' \<in> set (t_rows (recs (lk_world l'))).
      r_id r' = r_id r \<and> r_waste r' = r_waste r \<and> r_execute_after r' = r_execute_after r"
    if "r \<in> set (t_rows (recs (lk_world l)))" for r
    using old [OF that] by (auto simp: open_only_def)
  have "cr_full run = has_steampipe" by (simp add: run record_run_def STEAMPIPE_STEPS_def)
  moreover have "cr_skipped run = (if has_steampipe then [] else STEAMPIPE_STEPS)"
    by (simp add: run record_run_def)
  moreover have "cr_failed run = filter (\<lambda>s. \<not> fst (run_step a s l)) ?steps"
    by (simp add: run record_run_def run_steps_failed [of a ?steps l l])
  ultimately show ?thesis using kept same new ev unfolding evolves_def by blast
qed

definition decided_lake :: lake where
  "decided_lake =
     sample_lake\<lparr>lk_world := sample_world\<lparr>recs := t_update (\<lambda>_. True) (\<lambda>r. r\<lparr>r_status := Applied\<rparr>) (recs sample_world)\<rparr>\<rparr>"

lemma decided_schema: "schema_ok (lk_world decided_lake)"
  by (simp add: decided_lake_def schema_ok_def t_unique_def sample_world_def t_wf_def resource_of_def t_update_def)

theorem collection_keeps_decisions_witness:
  "\<forall>a has. \<exists>r \<in> set (t_rows (recs (lk_world (snd (run_pipeline a has decided_lake))))).
     r_waste r = 7 \<and> r_status r = Applied"
proof (intro allI)
  fix a has
  obtain run l' where run: "run_pipeline a has decided_lake = (run, l')" by fastforce
  have "\<exists>r \<in> set (t_rows (recs (lk_world decided_lake))). r_waste r = 7 \<and> r_status r = Applied"
    by (simp add: decided_lake_def sample_world_def t_update_def)
  with collection_keeps_decisions [OF decided_schema run, THEN conjunct1] run
  show "\<exists>r \<in> set (t_rows (recs (lk_world (snd (run_pipeline a has decided_lake))))).
     r_waste r = 7 \<and> r_status r = Applied" by fastforce
qed

section \<open>Idle instances\<close>

interpretation idle: saver
    "\<lambda>waste. upsert_waste False env (iw_resource waste) ''ec2_instance'' ''idle_compute'' (iw_monthly waste)
       (iw_confidence waste) (iw_metadata waste)"
    "\<lambda>waste. (iw_resource waste, ''ec2_instance'')"
    "\<lambda>waste x. w_date x = e_today env \<and> w_monthly x = iw_monthly waste \<and> w_confidence x = iw_confidence waste
       \<and> w_metadata x = iw_metadata waste \<and> (False \<longrightarrow> w_waste_type x = ''idle_compute'')"
  for env
  by (rule upsert_saver)

lemma finish_run_world:
  "lk_world (finish_run env llm save recommend found l) =
     (if found = [] then lk_world l
      else snd (enrich_recommendations llm MAX_INSIGHTS_PER_RUN
                  (snd (recommend (fst (save found (lk_world l))) (snd (save found (lk_world l)))))))"
  by (simp add: finish_run_def case_prod_unfold Let_def)

text \<open>What becomes of the recommendation of an idle instance: \<open>q\<close> before, \<open>r\<close> after.\<close>

definition revived :: "waste_row \<Rightarrow> rec_row option \<Rightarrow> rec_row \<Rightarrow> bool" where
  "revived x q r \<longleftrightarrow>
     (case q of
        None \<Rightarrow> r_status r = Pending \<and> r_type r = idle_rec_type (w_confidence x) \<and> r_savings r = w_monthly x
      | Some q \<Rightarrow>
          if r_status q \<in> {Pending, Obsolete}
          then r_status r = Pending \<and> r_type r = idle_rec_type (w_confidence x) \<and> r_savings r = w_monthly x
               \<and> r_applied_at r = None
          else r = q)"

lemma upsert_idle_row:
  assumes "schema_ok w"
  shows "\<exists>r. t_find r_waste wid (recs (upsert_idle_rec wid (idle_rec_type (w_confidence x)) (idle_action x) (w_monthly x) w)) = Some r
      \<and> revived x (t_find r_waste wid (recs w)) r"
proof -
  have t: "t_unique r_id r_waste (recs w)" using assms by (simp add: schema_ok_def)
  show ?thesis
    using rec_conflict.put_known [OF t idle_rec_fits, of wid _ "\<lambda>r. r_status r = Pending \<or> r_status r = Obsolete"]
      rec_conflict.put_new [OF t idle_rec_fits, of wid "\<lambda>r. r_status r = Pending \<or> r_status r = Obsolete"]
    by (cases "t_find r_waste wid (recs w)")
       (force simp: upsert_idle_rec_def revived_def new_rec_def revive_rec_def)+
qed

lemma upsert_idle_other:
  assumes "schema_ok w" "j \<noteq> wid"
  shows "t_find r_waste j (recs (upsert_idle_rec wid ty a s w)) = t_find r_waste j (recs w)"
  using rec_conflict.put_other [OF _ idle_rec_fits assms(2)] assms(1)
  by (simp add: upsert_idle_rec_def schema_ok_def)

lemma upsert_idle_wastes [simp]: "wastes (upsert_idle_rec wid ty a s w) = wastes w"
  by (simp add: upsert_idle_rec_def)

lemma generate_wastes [simp]: "wastes (snd (generate_recommendations ids w)) = wastes w"
  by (induction ids arbitrary: w) (auto simp: case_prod_unfold split: option.splits)

lemma generate_other:
  assumes "schema_ok w" "j \<notin> set ids"
  shows "t_find r_waste j (recs (snd (generate_recommendations ids w))) = t_find r_waste j (recs w)"
  using assms
proof (induction ids arbitrary: w)
  case (Cons i ids)
  then show ?case
    using upsert_idle_evolves [OF Cons.prems(1), THEN evolves_schema] upsert_idle_other
    by (auto simp: case_prod_unfold split: option.splits)
qed simp

lemma generate_row:
  assumes "schema_ok w" "distinct ids" "i \<in> set ids" "t_get w_id i (wastes w) = Some x"
  shows "\<exists>r. t_find r_waste i (recs (snd (generate_recommendations ids w))) = Some r
      \<and> revived x (t_find r_waste i (recs w)) r"
  using assms
proof (induction ids arbitrary: w)
  case (Cons j ids)
  show ?case
  proof (cases "t_get w_id j (wastes w)")
    case None
    with Cons show ?thesis by auto
  next
    case (Some y)
    let ?w1 = "upsert_idle_rec j (idle_rec_type (w_confidence y)) (idle_action y) (w_monthly y) w"
    have s1: "schema_ok ?w1" using upsert_idle_evolves [OF Cons.prems(1)] evolves_schema by blast
    show ?thesis
    proof (cases "i = j")
      case True
      with Cons.prems(2) have "i \<notin> set ids" by simp
      from generate_other [OF s1 this] upsert_idle_row [OF Cons.prems(1), of i x] True Cons.prems(4) Some
      show ?thesis by (simp add: case_prod_unfold)
    next
      case False
      with Cons.IH [OF s1] Cons.prems upsert_idle_other [OF Cons.prems(1) False] Some show ?thesis
        by (simp add: case_prod_unfold)
    qed
  qed
qed simp

lemma insight_revived: "revived x q p \<Longrightarrow> insight_only p r \<Longrightarrow> revived x q r"
  by (auto simp: revived_def insight_only_fields split: option.splits if_splits)

lemma idle_run_result:
  assumes ok: "schema_ok (lk_world l)"
    and run: "idle_run env reg llm metrics c n l = (None, l')"
    and found: "detect_idle_instances env reg metrics c n = Inr found"
    and dist: "distinct (map iw_resource found)" and waste: "waste \<in> set found"
  shows "\<exists>x r. t_find resource_of (iw_resource waste, ''ec2_instance'') (wastes (lk_world l')) = Some x
      \<and> w_monthly x = iw_monthly waste \<and> w_confidence x = iw_confidence waste
      \<and> w_metadata x = iw_metadata waste \<and> w_date x = e_today env
      \<and> t_find r_waste (w_id x) (recs (lk_world l')) = Some r
      \<and> revived x (t_find r_waste (w_id x) (recs (lk_world l))) r"
proof -
  let ?ids = "fst (save_waste_detected env found (lk_world l))" and ?w1 = "snd (save_waste_detected env found (lk_world l))"
  have ne: "found \<noteq> []" using waste by auto
  have l': "lk_world l' = snd (enrich_recommendations llm MAX_INSIGHTS_PER_RUN (snd (generate_recommendations ?ids ?w1)))"
    using run ne by (auto simp: idle_run_def found finish_run_world)
  have keys: "distinct (map (\<lambda>waste. (iw_resource waste, ''ec2_instance'')) found)"
    using dist by (simp add: distinct_map inj_on_def)
  have s1: "schema_ok ?w1" unfolding save_waste_detected_def by (rule idle.save_schema [OF ok])
  have ids: "distinct ?ids" unfolding save_waste_detected_def by (rule idle.ids_distinct [OF ok keys])
  from idle.save_item_row [OF ok keys waste, of env] obtain x where
    x: "t_find resource_of (iw_resource waste, ''ec2_instance'') (wastes ?w1) = Some x"
      "w_monthly x = iw_monthly waste \<and> w_confidence x = iw_confidence waste
       \<and> w_metadata x = iw_metadata waste \<and> w_date x = e_today env"
      "(w_id x, waste) \<in> set (zip ?ids found)"
    unfolding save_waste_detected_def by blast
  have "w_id x \<in> set ?ids" using set_zip_leftD [OF x(3)] .
  moreover have "t_get w_id (w_id x) (wastes ?w1) = Some x"
    using s1 x(1) by (auto simp: schema_ok_def t_unique_def dest!: t_find_mem intro: t_get_of_mem)
  ultimately obtain p where
    p: "t_find r_waste (w_id x) (recs (snd (generate_recommendations ?ids ?w1))) = Some p"
      "revived x (t_find r_waste (w_id x) (recs ?w1)) p"
    using generate_row [OF s1 ids] by blast
  have recs1: "recs ?w1 = recs (lk_world l)" unfolding save_waste_detected_def by (rule idle.save_recs)
  from evolves_find [OF enrich_evolves [OF generate_evolves [OF s1, THEN evolves_schema]] p(1)]
  obtain r where "t_find r_waste (w_id x) (recs (lk_world l')) = Some r" "insight_only p r"
    unfolding l' by blast
  with insight_revived [OF p(2)] x recs1 show ?thesis
    unfolding l' by (intro exI [of _ x] exI [of _ r]) simp
qed

lemma idle_confidence_bounds:
  "0 \<le> idle_confidence a t k n" "idle_confidence a t k n \<le> 1"
  "k < 3 \<Longrightarrow> idle_confidence a t k n \<le> 70 / 100"
  "int k < n \<Longrightarrow> idle_confidence a t k n \<le> 85 / 100"
  by (auto simp: idle_confidence_def Let_def)

text \<open>A busier instance never has the higher confidence.\<close>

lemma idle_confidence_antimono:
  assumes "a \<le> b" "0 < t"
  shows "idle_confidence b t k n \<le> idle_confidence a t k n"
proof -
  have "b / t \<ge> a / t" using assms by (simp add: divide_right_mono)
  then have "py_round 2 (1 - b / t) \<le> py_round 2 (1 - a / t)" by (intro py_round_mono) simp
  then show ?thesis by (auto simp: idle_confidence_def Let_def)
qed

lemma idle_waste_fields:
  assumes "idle_waste_of reg t days g = Inr waste"
  shows "iw_resource waste = ig_instance g"
    and "iw_monthly waste = py_round 2 (get_instance_monthly_cost (ig_type g) * (1 - ig_avg g / 100))"
    and "iw_confidence waste = idle_confidence (ig_avg g) t (ig_datapoints g) days"
  using assms by (auto simp: idle_waste_of_def Let_def split: option.splits)

lemma detect_idle_groups:
  assumes "detect_idle_instances env reg metrics c n = Inr found"
    and "validate_cpu_threshold c = Inr t" "validate_days n = Inr days"
  shows "list_all2 (\<lambda>g waste. idle_waste_of reg t days g = Inr waste) (idle_groups env metrics t days) found"
  using assms by (simp add: detect_idle_instances_def py_map_Inr_iff)

lemma idle_run_row:
  assumes ok: "schema_ok (lk_world l)"
    and run: "idle_run env reg llm metrics c n l = (None, l')"
    and t: "validate_cpu_threshold c = Inr t" and days: "validate_days n = Inr days"
    and dist: "distinct (map ig_instance (idle_groups env metrics t days))"
    and g: "g \<in> set (idle_groups env metrics t days)"
  obtains x r where
    "t_find resource_of (ig_instance g, ''ec2_instance'') (wastes (lk_world l')) = Some x"
    "w_monthly x = py_round 2 (get_instance_monthly_cost (ig_type g) * (1 - ig_avg g / 100))"
    "w_confidence x = idle_confidence (ig_avg g) t (ig_datapoints g) days"
    "t_find r_waste (w_id x) (recs (lk_world l')) = Some r"
    "revived x (t_find r_waste (w_id x) (recs (lk_world l))) r"
proof -
  obtain found where found: "detect_idle_instances env reg metrics c n = Inr found"
    using run by (auto simp: idle_run_def split: sum.splits)
  note groups = detect_idle_groups [OF found t days]
  have names: "map iw_resource found = map ig_instance (idle_groups env metrics t days)"
    using groups by (induction rule: list_all2_induct) (auto dest: idle_waste_fields(1))
  obtain i where i: "i < length (idle_groups env metrics t days)" "idle_groups env metrics t days ! i = g"
    using g by (auto simp: in_set_conv_nth)
  with groups have "i < length found" "idle_waste_of reg t days g = Inr (found ! i)"
    by (auto simp: list_all2_conv_all_nth)
  then obtain waste where waste: "waste \<in> set found" "idle_waste_of reg t days g = Inr waste"
    using nth_mem by blast
  have "distinct (map iw_resource found)" using names dist by simp
  from idle_run_result [OF ok run found this waste(1)] obtain x r where
    x: "t_find resource_of (ig_instance g, ''ec2_instance'') (wastes (lk_world l')) = Some x"
      "w_monthly x = iw_monthly waste" "w_confidence x = iw_confidence waste"
      "t_find r_waste (w_id x) (recs (lk_world l')) = Some r"
    and r: "revived x (t_find r_waste (w_id x) (recs (lk_world l))) r"
    by (auto simp: idle_waste_fields(1) [OF waste(2)])
  show ?thesis
    by (rule that [OF x(1) _ _ x(4) r]) (simp_all only: x idle_waste_fields [OF waste(2)])
qed

text \<open>
  After a run over instances that each form one group, every idle instance has its waste row,
  with the waste in proportion to the idle share of its price and a confidence between 0 and 1
  that is at most 0.70 below three days of data and 0.85 below a full window; and its recommendation
  is pending with the current figures if it was missing, pending or obsolete, else untouched.
\<close>

theorem idle_detection_outcome:
  assumes ok: "schema_ok (lk_world l)"
    and run: "idle_run env reg llm metrics c n l = (None, l')"
    and t: "validate_cpu_threshold c = Inr t" and days: "validate_days n = Inr days"
    and dist: "distinct (map ig_instance (idle_groups env metrics t days))"
    and g: "g \<in> set (idle_groups env metrics t days)"
  shows "\<exists>x r. t_find resource_of (ig_instance g, ''ec2_instance'') (wastes (lk_world l')) = Some x
      \<and> w_monthly x = py_round 2 (get_instance_monthly_cost (ig_type g) * (1 - ig_avg g / 100))
      \<and> w_confidence x = idle_confidence (ig_avg g) t (ig_datapoints g) days
      \<and> 0 \<le> w_confidence x \<and> w_confidence x \<le> 1
      \<and> (ig_datapoints g < 3 \<longrightarrow> w_confidence x \<le> 70 / 100)
      \<and> (int (ig_datapoints g) < days \<longrightarrow> w_confidence x \<le> 85 / 100)
      \<and> t_find r_waste (w_id x) (recs (lk_world l')) = Some r
      \<and> (case t_find r_waste (w_id x) (recs (lk_world l)) of
           None \<Rightarrow> r_status r = Pending \<and> r_type r = idle_rec_type (w_confidence x) \<and> r_savings r = w_monthly x
         | Some q \<Rightarrow>
             if r_status q \<in> {Pending, Obsolete}
             then r_status r = Pending \<and> r_type r = idle_rec_type (w_confidence x)
                  \<and> r_savings r = w_monthly x \<and> r_applied_at r = None
             else r = q)"
proof -
  from idle_run_row [OF assms] obtain x r where
    x: "t_find resource_of (ig_instance g, ''ec2_instance'') (wastes (lk_world l')) = Some x"
      "w_monthly x = py_round 2 (get_instance_monthly_cost (ig_type g) * (1 - ig_avg g / 100))"
      "w_confidence x = idle_confidence (ig_avg g) t (ig_datapoints g) days"
      "t_find r_waste (w_id x) (recs (lk_world l')) = Some r"
    and r: "revived x (t_find r_waste (w_id x) (recs (lk_world l))) r" .
  note bounds = idle_confidence_bounds [where a = "ig_avg g" and t = t and k = "ig_datapoints g" and n = days]
  show ?thesis
    by (intro exI [of _ x] exI [of _ r] conjI impI r [unfolded revived_def]) (simp_all only: x bounds)
qed

definition sample_metric :: metric_row where
  "sample_metric = \<lparr>mt_instance = ''i-1'', mt_type = Some ''t3.micro'', mt_state = Some ''running'',
     mt_date = 99, mt_cpu_avg = Some 1, mt_cpu_max = Some 4, mt_region = Some ''eu-west-1''\<rparr>"

lemma sample_idle_run:
  "fst (idle_run sample_env None None [sample_metric] (JFloat 5) (JInt 7) sample_lake) = None"
proof -
  have "(case detect_idle_instances sample_env None [sample_metric] (JFloat 5) (JInt 7) of
          Inl _ \<Rightarrow> False | Inr _ \<Rightarrow> True)"
    by code_simp
  then show ?thesis by (auto simp: idle_run_def split: sum.splits)
qed

lemma sample_thresholds:
  "validate_cpu_threshold (JFloat 5) = Inr 5" "validate_days (JInt 7) = Inr 7"
  by (code_simp, code_simp)

lemma sample_groups:
  "map ig_instance (idle_groups sample_env [sample_metric] 5 7) = [''i-1'']"
  "map ig_datapoints (idle_groups sample_env [sample_metric] 5 7) = [1]"
  by (code_simp, code_simp)

theorem idle_detection_outcome_witness:
  "\<exists>x. t_find resource_of (''i-1'', ''ec2_instance'')
      (wastes (lk_world (snd (idle_run sample_env None None [sample_metric] (JFloat 5) (JInt 7) sample_lake)))) = Some x
    \<and> w_confidence x \<le> 70 / 100"
proof -
  let ?run = "idle_run sample_env None None [sample_metric] (JFloat 5) (JInt 7) sample_lake"
  have run: "?run = (None, snd ?run)" using sample_idle_run by (simp add: prod_eq_iff)
  obtain g where g: "idle_groups sample_env [sample_metric] 5 7 = [g]" "ig_instance g = ''i-1''" "ig_datapoints g = 1"
    using sample_groups by auto
  have "distinct (map ig_instance (idle_groups sample_env [sample_metric] 5 7))"
      "g \<in> set (idle_groups sample_env [sample_metric] 5 7)"
    by (simp_all add: g)
  from idle_detection_outcome [OF sample_lake_schema run sample_thresholds this] g(2,3) show ?thesis by auto
qed

section \<open>Old snapshots\<close>

lemma py_round_2_le: "x \<le> 90 / 100 \<Longrightarrow> py_round 2 x \<le> 90 / 100"
  using py_round_mono [of x "90 / 100" 2] by (simp add: py_round_def round_half_even_def)

text \<open>
  Every snapshot that a scan proposes is at least 90 days old, does not back an image of its
  region and is not managed by AWS Backup or a lifecycle policy, comes from a region that
  answered, and carries a confidence between 0.60 and 0.90.
\<close>

theorem snapshot_scan_sound:
  assumes "snapshot_detect api env regions = Inr (snapshots, ami_snap_ids)" "s \<in> set snapshots"
  shows "90 \<le> os_age s \<and> 60 / 100 \<le> snapshot_confidence (os_age s) \<and> snapshot_confidence (os_age s) \<le> 90 / 100
    \<and> (\<exists>region \<in> set regions. \<exists>images found snap.
         sa_images api region = Inr images \<and> sa_snapshots api region = Inr found \<and> snap \<in> set found
         \<and> os_id s = sd_id snap \<and> os_region s = region
         \<and> os_id s \<notin> set (fetch_ami_snapshot_ids images) \<and> set (fetch_ami_snapshot_ids images) \<subseteq> set ami_snap_ids
         \<and> (\<forall>(k, v) \<in> set (case sd_tags snap of None \<Rightarrow> [] | Some ts \<Rightarrow> ts). k \<notin> set MANAGED_TAGS)
         \<and> (\<exists>t iso_text. sd_start snap = Some (t, iso_text) \<and> os_age s = (e_now env - t) div 86400))"
proof -
  have "scanned_results (map (fetch_old_snapshots api env) regions) regions ''old EBS snapshots''
      = Inr (List.map_filter id (map (fetch_old_snapshots api env) regions))"
    using assms(1) scanned_results_eq [of "map (fetch_old_snapshots api env) regions" regions "''old EBS snapshots''"]
    by (auto simp: snapshot_detect_def split: if_splits)
  with assms obtain region sn ids where region: "region \<in> set regions"
    and fetch: "fetch_old_snapshots api env region = Some (sn, ids)" and s: "s \<in> set sn"
    and sub: "set ids \<subseteq> set ami_snap_ids"
    by (fastforce simp: snapshot_detect_def map_filter_def)
  from fetch obtain images found where api: "sa_images api region = Inr images" "sa_snapshots api region = Inr found"
    and ids: "ids = fetch_ami_snapshot_ids images"
    and sn: "sn = map (old_of env region) (filter (snapshot_is_old env ids) found)"
    by (auto simp: fetch_old_snapshots_def Let_def split: sum.splits)
  from s sn obtain snap where snap: "snap \<in> set found" "snapshot_is_old env ids snap" "s = old_of env region snap"
    by auto
  then obtain t iso_text where start: "sd_start snap = Some (t, iso_text)" "\<not> whole_days env t < SNAPSHOT_AGE_DAYS"
    by (auto simp: snapshot_is_old_def split: option.splits)
  have age: "os_age s = (e_now env - t) div 86400" "os_id s = sd_id snap" "os_region s = region"
    using snap(3) start(1) by (simp_all add: old_of_def whole_days_def Let_def)
  have old: "90 \<le> os_age s" using start(2) age(1) by (simp add: whole_days_def SNAPSHOT_AGE_DAYS_def)
  have "0 \<le> (of_int (os_age s - SNAPSHOT_AGE_DAYS) :: rat)" using old by (simp add: SNAPSHOT_AGE_DAYS_def)
  then have "60 / 100 \<le> min (90 / 100) (60 / 100 + of_int (os_age s - SNAPSHOT_AGE_DAYS) / 1000 :: rat)" by simp
  from py_round_mono [OF this, of 2] have "60 / 100 \<le> snapshot_confidence (os_age s)"
    by (simp add: snapshot_confidence_def py_round_def round_half_even_def)
  moreover have "snapshot_confidence (os_age s) \<le> 90 / 100"
    unfolding snapshot_confidence_def by (rule py_round_2_le, rule min.cobounded1)
  moreover have "\<forall>(k, v) \<in> set (case sd_tags snap of None \<Rightarrow> [] | Some ts \<Rightarrow> ts). k \<notin> set MANAGED_TAGS"
    using snap(2) by (force simp: snapshot_is_old_def)
  moreover have "os_id s \<notin> set ids" using snap(2) age(2) by (simp add: snapshot_is_old_def)
  ultimately show ?thesis using old region api snap(1) age sub ids start(1) by blast
qed

definition sample_snapshots :: snapshot_api where
  "sample_snapshots =
     \<lparr>sa_images = (\<lambda>_. Inr [[Some ''snap-2'']]),
      sa_snapshots = (\<lambda>_. Inr (map (\<lambda>i. \<lparr>sd_id = i, sd_tags = None, sd_start = Some (0, []), sd_size = Some 8,
        sd_description = None, sd_volume = None, sd_state = None, sd_encrypted = None\<rparr>) [''snap-1'', ''snap-2'']))\<rparr>"

lemma sample_snapshots_found:
  obtains s ids where "snapshot_detect sample_snapshots sample_env [''eu-west-1''] = Inr ([s], ids)" "os_id s = ''snap-1''"
proof -
  have "(case snapshot_detect sample_snapshots sample_env [''eu-west-1''] of
          Inl _ \<Rightarrow> False | Inr (found, ids) \<Rightarrow> map os_id found = [''snap-1''])"
    by code_simp
  then show ?thesis using that by (auto split: sum.splits)
qed

theorem snapshot_scan_sound_witness:
  "\<exists>s ids. snapshot_detect sample_snapshots sample_env [''eu-west-1''] = Inr ([s], ids)
     \<and> os_id s = ''snap-1'' \<and> 90 \<le> os_age s"
proof -
  obtain s ids where s: "snapshot_detect sample_snapshots sample_env [''eu-west-1''] = Inr ([s], ids)"
      "os_id s = ''snap-1''"
    by (rule sample_snapshots_found)
  with snapshot_scan_sound [OF s(1), of s] show ?thesis by auto
qed

end
