(* ===== verification/Pipeline.thy ===== *)
theory Pipeline
  imports ScanFacts Ec2Remediator
begin

text \<open>
  From detection to execution: what the safeguards make of a thin observation, and what becomes of
  the waste of an instance that stopped after a first recommendation.
\<close>

section \<open>Stopped instances\<close>

interpretation stopped: saver
    "\<lambda>inst. upsert_waste False env (sp_id inst) ''ec2_instance'' ''stopped_instance'' (sp_cost inst)
       (95 / 100) (stopped_metadata inst)"
    "\<lambda>inst. (sp_id inst, ''ec2_instance'')"
    "\<lambda>inst x. w_date x = e_today env \<and> w_monthly x = sp_cost inst \<and> w_confidence x = 95 / 100
       \<and> w_metadata x = stopped_metadata inst \<and> (False \<longrightarrow> w_waste_type x = ''stopped_instance'')"
  for env
  by (rule upsert_saver)

lemma insight_savings: "evolves {Pending} insight_only w w' \<Longrightarrow> evolves {Pending} savings_only w w'"
  by (erule evolves_mono) (auto simp: insight_only_fields savings_only_fields)

lemma stopped_run_evolves:
  "schema_ok (lk_world l) \<Longrightarrow> evolves {Pending} savings_only (lk_world l) (lk_world (stopped_run api env regions metrics l))"
  unfolding stopped_run_def stopped_save_def
  by (rule savings_evolution.finish_run_evolves)
     (auto simp: stopped_recommend_def intro: insight_savings recommend_rows_evolves
        savings_evolution.save_all_evolves savings_evolution.evolves_upsert_waste)

lemma recommend_rows_wastes [simp]: "wastes (snd (recommend_rows ty action xs w)) = wastes w"
  by (induction xs arbitrary: w) (auto simp: case_prod_unfold)

lemma stopped_run_row:
  assumes "schema_ok (lk_world l)" "t_find resource_of (sp_id inst, ''ec2_instance'') (wastes (lk_world l)) = Some x"
    and "distinct (map sp_id (stopped_detect api env regions metrics))"
    and "inst \<in> set (stopped_detect api env regions metrics)"
  shows "\<exists>y. t_find resource_of (sp_id inst, ''ec2_instance'') (wastes (lk_world (stopped_run api env regions metrics l))) = Some y
    \<and> w_id y = w_id x \<and> w_monthly y = sp_cost inst \<and> w_metadata y = stopped_metadata inst"
proof -
  let ?found = "stopped_detect api env regions metrics"
  have keys: "distinct (map (\<lambda>inst. (sp_id inst, ''ec2_instance'')) ?found)"
    using assms(3) by (simp add: distinct_map inj_on_def)
  from stopped.save_keeps_id [OF assms(1,2), of env ?found]
    stopped.save_item_row [OF assms(1) keys assms(4), of env] assms(4)
  show ?thesis
    by (auto simp: stopped_run_def finish_run_world stopped_save_def stopped_recommend_def)
qed

text \<open>
  An instance that the detector of stopped instances finds is not recommended for termination
  when its waste row already carries a recommendation: the row takes the cost of the volumes, its
  only recommendation keeps its type and text, and if a decision was taken on it (an idle
  instance that was stopped by the program is \<open>applied\<close>, one stopped elsewhere \<open>obsolete\<close>) the
  volumes it still pays for do not count as active waste.
\<close>

theorem stopped_instance_shadowed:
  assumes ok: "schema_ok (lk_world l)"
    and x: "x \<in> set (t_rows (wastes (lk_world l)))" "w_resource_id x = sp_id inst" "w_resource_type x = ''ec2_instance''"
    and q: "q \<in> set (t_rows (recs (lk_world l)))" "r_waste q = w_id x"
    and found: "inst \<in> set (stopped_detect api env regions metrics)"
      "distinct (map sp_id (stopped_detect api env regions metrics))"
  shows "\<exists>y. t_find resource_of (sp_id inst, ''ec2_instance'') (wastes (lk_world (stopped_run api env regions metrics l))) = Some y
    \<and> w_monthly y = sp_cost inst
    \<and> (\<exists>r \<in> set (t_rows (recs (lk_world (stopped_run api env regions metrics l)))). r_waste r = w_id y)
    \<and> (\<forall>r \<in> set (t_rows (recs (lk_world (stopped_run api env regions metrics l)))). r_waste r = w_id y \<longrightarrow>
         r_type r = r_type q \<and> r_action r = r_action q \<and> r_status r = r_status q)
    \<and> (r_status q \<in> {Applied, Approved, Obsolete, Dismissed} \<longrightarrow>
         y \<notin> set (active_waste (lk_world (stopped_run api env regions metrics l))))"
proof -
  let ?w = "lk_world l" and ?w' = "lk_world (stopped_run api env regions metrics l)"
  have uw: "distinct (map resource_of (t_rows (wastes ?w)))" using ok by (simp add: schema_ok_def t_unique_def)
  have fx: "t_find resource_of (sp_id inst, ''ec2_instance'') (wastes ?w) = Some x"
    using unique_find [OF uw x(1)] x(2,3) by (simp add: t_find_def resource_of_def)
  from stopped_run_row [OF ok fx found(2,1)] obtain y where
    y: "t_find resource_of (sp_id inst, ''ec2_instance'') (wastes ?w') = Some y" "w_id y = w_id x"
      "w_monthly y = sp_cost inst" by blast
  have fq: "t_find r_waste (w_id y) (recs ?w) = Some q" using unique_rec [OF ok q(1)] q(2) y(2) by simp
  note ev = stopped_run_evolves [OF ok, of api env regions metrics]
  from evolves_find [OF ev fq] obtain r where
    r: "t_find r_waste (w_id y) (recs ?w') = Some r" "savings_only q r" by blast
  have only: "p = r" if "p \<in> set (t_rows (recs ?w'))" "r_waste p = w_id y" for p
    using unique_rec [OF evolves_schema [OF ev] that(1)] that(2) r(1) by simp
  have fields: "r_type r = r_type q \<and> r_action r = r_action q \<and> r_status r = r_status q"
    using r(2) by (auto simp: savings_only_fields)
  have "y \<notin> set (active_waste ?w')" if "r_status q \<in> {Applied, Approved, Obsolete, Dismissed}"
    using r(1) fields that by (auto simp: active_waste_def t_find_def)
  with y(1,3) t_find_mem [OF r(1)] only fields show ?thesis by blast
qed

definition sample_stopped :: stopped_api where
  "sample_stopped =
     \<lparr>so_instance = (\<lambda>_ _. Inr (Some \<lparr>st_launch = None, st_volumes = [''vol-1'']\<rparr>)),
      so_volumes = (\<lambda>_ _. Inr [(''vol-1'', 100, ''gp3'')])\<rparr>"

definition stopped_metrics :: "metric_row list" where
  "stopped_metrics = map (\<lambda>d. \<lparr>mt_instance = ''i-1'', mt_type = Some ''t3.micro'', mt_state = Some ''stopped'',
     mt_date = d, mt_cpu_avg = None, mt_cpu_max = None, mt_region = Some ''eu-west-1''\<rparr>) [94, 95, 96, 97, 98, 99, 100]"

theorem stopped_instance_shadowed_witness:
  "\<exists>y. t_find resource_of (''i-1'', ''ec2_instance'')
      (wastes (lk_world (stopped_run sample_stopped sample_env [''eu-west-1''] stopped_metrics decided_lake))) = Some y
    \<and> w_monthly y = 8
    \<and> y \<notin> set (active_waste (lk_world (stopped_run sample_stopped sample_env [''eu-west-1''] stopped_metrics decided_lake)))"
proof -
  let ?found = "stopped_detect sample_stopped sample_env [''eu-west-1''] stopped_metrics"
  have "map (\<lambda>s. (sp_id s, sp_cost s)) ?found = [(''i-1'', 8)]" by code_simp
  then obtain inst where inst: "?found = [inst]" "sp_id inst = ''i-1''" "sp_cost inst = 8" by auto
  let ?x = "hd (t_rows (wastes (lk_world decided_lake)))" and ?q = "hd (t_rows (recs (lk_world decided_lake)))"
  have x: "?x \<in> set (t_rows (wastes (lk_world decided_lake)))" "w_resource_id ?x = sp_id inst"
      "w_resource_type ?x = ''ec2_instance''"
    and q: "?q \<in> set (t_rows (recs (lk_world decided_lake)))" "r_waste ?q = w_id ?x" "r_status ?q = Applied"
    by (simp_all add: decided_lake_def sample_lake_def sample_world_def t_update_def inst)
  have found: "inst \<in> set ?found" "distinct (map sp_id ?found)" by (simp_all add: inst)
  from stopped_instance_shadowed [OF decided_schema x q(1,2) found] q(3) inst(2,3) show ?thesis by auto
qed

section \<open>Thin observations\<close>





end
