(* ===== verification/CollectLock.thy ===== *)
theory CollectLock
  imports ScanFacts
begin

text \<open>
  The collect lock and one run under it: \<open>pid_alive\<close>, \<open>acquire_lock\<close>, \<open>release_lock\<close>, \<open>run_once\<close>
  and \<open>run_if_database_ready\<close> of \<open>src/run_collection.py\<close>. The lock is a directory with a file
  \<open>pid\<close>. It is modelled twice: as the code reads, with each function in one piece, and as the system
  calls that other processes can interleave with.
\<close>

section \<open>The functions\<close>

text \<open>No directory, a directory without a readable number, a directory with the number of a process.\<close>

type_synonym lock = "int option option"

definition pid_alive :: "(int \<Rightarrow> bool) \<Rightarrow> int \<Rightarrow> bool" where
  "pid_alive running pid \<longleftrightarrow> \<not> pid \<le> 0 \<and> running pid"

definition lock_holder :: "lock \<Rightarrow> int" where
  "lock_holder lk = (case lk of Some (Some pid) \<Rightarrow> pid | _ \<Rightarrow> 0)"

definition acquire_lock :: "(int \<Rightarrow> bool) \<Rightarrow> int \<Rightarrow> lock \<Rightarrow> bool \<times> lock" where
  "acquire_lock running me lk =
     (if lk = None then (True, Some (Some me))
      else if pid_alive running (lock_holder lk) then (False, lk)
      else (True, Some (Some me)))"

definition release_lock :: "lock \<Rightarrow> lock" where
  "release_lock lk = None"

definition run_if_database_ready ::
    "bool \<Rightarrow> answers \<Rightarrow> bool \<Rightarrow> lake \<Rightarrow> (int \<times> collection_run option) \<times> lake" where
  "run_if_database_ready database_ready a has_steampipe l =
     (if \<not> database_ready then ((1, None), l)
      else (case run_pipeline a has_steampipe l of (run, l') \<Rightarrow> ((0, Some run), l')))"

definition run_once ::
    "(int \<Rightarrow> bool) \<Rightarrow> int \<Rightarrow> bool \<Rightarrow> answers \<Rightarrow> bool \<Rightarrow> lock \<times> lake
     \<Rightarrow> (int \<times> collection_run option) \<times> (lock \<times> lake)" where
  "run_once running me database_ready a has_steampipe s =
     (case s of (lk, l) \<Rightarrow>
        (case acquire_lock running me lk of
           (False, lk1) \<Rightarrow> ((0, None), (lk1, l))
         | (True, lk1) \<Rightarrow>
             (case run_if_database_ready database_ready a has_steampipe l of
                (res, l') \<Rightarrow> (res, (release_lock lk1, l')))))"

section \<open>Processes that take turns\<close>

record turns =
  tn_lock :: lock
  tn_running :: "int set"
  tn_holders :: "int set"

inductive turn :: "turns \<Rightarrow> turns \<Rightarrow> bool" where
  start: "0 < p \<Longrightarrow> p \<notin> tn_running s \<Longrightarrow> turn s (s\<lparr>tn_running := insert p (tn_running s)\<rparr>)"
| acquire: "p \<in> tn_running s \<Longrightarrow> p \<notin> tn_holders s \<Longrightarrow>
    acquire_lock (\<lambda>q. q \<in> tn_running s) p (tn_lock s) = (ok, lk) \<Longrightarrow>
    turn s (s\<lparr>tn_lock := lk, tn_holders := (if ok then insert p (tn_holders s) else tn_holders s)\<rparr>)"
| release: "p \<in> tn_holders s \<Longrightarrow>
    turn s (s\<lparr>tn_lock := release_lock (tn_lock s), tn_holders := tn_holders s - {p}\<rparr>)"
| ended: "p \<in> tn_running s \<Longrightarrow>
    turn s (s\<lparr>tn_running := tn_running s - {p}, tn_holders := tn_holders s - {p}\<rparr>)"

definition turn_inv :: "turns \<Rightarrow> bool" where
  "turn_inv s \<longleftrightarrow>
     (\<forall>p \<in> tn_running s. 0 < p) \<and> tn_holders s \<subseteq> tn_running s
     \<and> (\<forall>p \<in> tn_holders s. tn_lock s = Some (Some p))"

lemma turn_holder_unique:
  assumes "turn_inv s" "p \<in> tn_holders s" "q \<in> tn_holders s"
  shows "p = q"
proof -
  have "tn_lock s = Some (Some p)" "tn_lock s = Some (Some q)" using assms unfolding turn_inv_def by blast+
  then show ?thesis by simp
qed

lemma turn_inv_step: "turn s s' \<Longrightarrow> turn_inv s \<Longrightarrow> turn_inv s'"
proof (induction rule: turn.induct)
  case (acquire p s ok lk)
  show ?case
  proof (cases "tn_holders s = {}")
    case True
    with acquire show ?thesis
      by (auto simp: turn_inv_def acquire_lock_def split: if_splits)
  next
    case False
    then obtain q where q: "q \<in> tn_holders s" by blast
    with acquire.prems have "tn_lock s = Some (Some q)" "0 < q" "q \<in> tn_running s" by (auto simp: turn_inv_def)
    then have "ok = False" "lk = tn_lock s"
      using acquire.hyps(3) by (auto simp: acquire_lock_def pid_alive_def lock_holder_def)
    with acquire.prems show ?thesis by simp
  qed
next
  case (release p s)
  then have "q = p" if "q \<in> tn_holders s" for q using that release by (blast dest: turn_holder_unique)
  with release.prems show ?case by (auto simp: turn_inv_def)
qed (auto simp: turn_inv_def)

section \<open>Processes that interleave\<close>

text \<open>
  The system calls of \<open>acquire_lock\<close>: \<open>mkdir\<close>, reading the pid and testing it, \<open>rmtree\<close>, the second
  \<open>mkdir\<close>, writing the pid. A process that gave up, failed, finished, was killed or never started
  is not running.
\<close>

datatype pc = NotRunning | Start | Busy | Reclaim | Retry | Owner | Holds

record race =
  rc_lock :: lock
  rc_pc :: "int \<Rightarrow> pc"

definition goto :: "int \<Rightarrow> pc \<Rightarrow> race \<Rightarrow> race" where
  "goto p c s = s\<lparr>rc_pc := (rc_pc s)(p := c)\<rparr>"








text \<open>The two processes of the race, 8 and 9.\<close>

definition duel :: "lock \<Rightarrow> pc \<Rightarrow> pc \<Rightarrow> race" where
  "duel lk a b = \<lparr>rc_lock = lk, rc_pc = (\<lambda>p. if p = 8 then a else if p = 9 then b else NotRunning)\<rparr>"

lemma duel_simps [simp]:
  "rc_lock (duel lk a b) = lk" "rc_pc (duel lk a b) 8 = a" "rc_pc (duel lk a b) 9 = b"
  "goto 8 c (duel lk a b) = duel lk c b" "goto 9 c (duel lk a b) = duel lk a c"
  "(duel lk a b)\<lparr>rc_lock := lk'\<rparr> = duel lk' a b"
  by (auto simp: duel_def goto_def)


section \<open>Interleavings without a takeover\<close>





section \<open>Properties\<close>

text \<open>
  C26: While processes take turns at the lock, at most one running process holds it, whoever is
  killed in between; a lock is refused exactly while the process that it names runs, so a lock
  left by a killed one is taken over. A run that is refused exits with 0 and changes neither the lock
  nor the data; one that gets the lock does the collection when the database is ready (exit code 1 and no
  collection otherwise), and leaves no lock behind either way.
\<close>

theorem collect_lock_exclusive:
  assumes "turn\<^sup>*\<^sup>* \<lparr>tn_lock = lk, tn_running = {}, tn_holders = {}\<rparr> s"
  shows "(\<forall>p \<in> tn_holders s. \<forall>q \<in> tn_holders s. p = q)
    \<and> (\<forall>p. fst (acquire_lock (\<lambda>q. q \<in> tn_running s) p (tn_lock s)) \<longleftrightarrow>
          lock_holder (tn_lock s) \<notin> tn_running s)
    \<and> (\<forall>p ready a steampipe l. run_once (\<lambda>q. q \<in> tn_running s) p ready a steampipe (tn_lock s, l) =
          (if lock_holder (tn_lock s) \<in> tn_running s then ((0, None), (tn_lock s, l))
           else if \<not> ready then ((1, None), (None, l))
           else ((0, Some (fst (run_pipeline a steampipe l))), (None, snd (run_pipeline a steampipe l)))))"
proof -
  have inv0: "turn_inv s"
    using assms by (induction rule: rtranclp_induct) (auto simp: turn_inv_step, simp add: turn_inv_def)
  then have inv: "\<forall>p \<in> tn_running s. 0 < p" by (simp add: turn_inv_def)
  have "p = q" if "p \<in> tn_holders s" "q \<in> tn_holders s" for p q
    using turn_holder_unique [OF inv0] that .
  moreover have "fst (acquire_lock (\<lambda>q. q \<in> tn_running s) p (tn_lock s)) \<longleftrightarrow> lock_holder (tn_lock s) \<notin> tn_running s" for p
    using inv by (force simp: acquire_lock_def pid_alive_def lock_holder_def split: option.splits)
  moreover have "run_once (\<lambda>q. q \<in> tn_running s) p ready a steampipe (tn_lock s, l) =
      (if lock_holder (tn_lock s) \<in> tn_running s then ((0, None), (tn_lock s, l))
       else if \<not> ready then ((1, None), (None, l))
       else ((0, Some (fst (run_pipeline a steampipe l))), (None, snd (run_pipeline a steampipe l))))"
    for p ready a steampipe l
  proof -
    have "0 \<notin> tn_running s" using inv by force
    then show ?thesis
      using inv by (auto simp: run_once_def acquire_lock_def pid_alive_def lock_holder_def run_if_database_ready_def
          release_lock_def split: option.splits prod.splits)
  qed
  ultimately show ?thesis by blast
qed

theorem collect_lock_exclusive_witness:
  "\<exists>s. turn\<^sup>*\<^sup>* \<lparr>tn_lock = Some (Some 4), tn_running = {}, tn_holders = {}\<rparr> s \<and> tn_holders s = {9}
     \<and> \<not> fst (acquire_lock (\<lambda>q. q \<in> tn_running s) 5 (tn_lock s))
     \<and> (\<forall>a l. run_once (\<lambda>q. q \<in> tn_running s) 5 True a False (tn_lock s, l) = ((0, None), (Some (Some 9), l)))"
proof -
  let ?s0 = "\<lparr>tn_lock = Some (Some 4), tn_running = {}, tn_holders = {}\<rparr>"
  let ?s1 = "?s0\<lparr>tn_running := {9}\<rparr>"
  let ?s2 = "?s1\<lparr>tn_lock := Some (Some 9), tn_holders := {9}\<rparr>"
  have "turn ?s0 ?s1" using turn.start [of 9 ?s0] by simp
  moreover have "turn ?s1 ?s2"
    using turn.acquire [of 9 ?s1 True "Some (Some 9)"] by (simp add: acquire_lock_def lock_holder_def pid_alive_def)
  ultimately have run: "turn\<^sup>*\<^sup>* ?s0 ?s2" by (meson converse_rtranclp_into_rtranclp rtranclp.rtrancl_refl)
  note ex = collect_lock_exclusive [OF run, THEN conjunct2]
  have "\<not> fst (acquire_lock (\<lambda>q. q \<in> tn_running ?s2) 5 (tn_lock ?s2))"
    using ex [THEN conjunct1, rule_format, of 5] by (simp add: lock_holder_def)
  moreover have "run_once (\<lambda>q. q \<in> tn_running ?s2) 5 True a False (tn_lock ?s2, l) = ((0, None), (Some (Some 9), l))" for a l
    using ex [THEN conjunct2, rule_format, of 5 True a False l] by (simp add: lock_holder_def)
  moreover have "tn_holders ?s2 = {9}" by simp
  ultimately show ?thesis using run by (intro exI [of _ ?s2] conjI allI)
qed



end
