(* ===== verification/Savings.thy ===== *)
theory Savings
  imports Store
begin

text \<open>
  The verification of savings, \<open>src/trackers/savings_tracker.py\<close> and \<open>savings_verifier_job\<close> of
  \<open>ui/jobs.py\<close>: the cost of an instance before and after it was stopped, read from Cost Explorer,
  becomes a row of \<open>savings_realized\<close>. Cost Explorer is a parameter: the daily amounts of an
  instance between two days, or an exception.

  Most columns are kept exact, as everywhere; \<open>savings_accuracy_percent\<close> is \<open>DECIMAL(5, 2)\<close>, whose
  overflow ends the statement, and that is part of the model: an accuracy far above 100 percent is
  an ordinary outcome when the estimate was small.
\<close>

type_synonym cost_explorer = "string \<Rightarrow> int \<Rightarrow> int \<Rightarrow> aws_exc + rat list"

datatype saving_error = NumericOverflow | DaysBackZero

definition day_of :: "int \<Rightarrow> int" where
  "day_of t = t div 86400"

definition get_instance_cost_for_period ::
    "cost_explorer \<Rightarrow> string \<Rightarrow> int \<Rightarrow> int \<Rightarrow> rat option" where
  "get_instance_cost_for_period ce instance_id start_date end_date =
     (case ce instance_id (day_of start_date) (day_of end_date) of
        Inl _ \<Rightarrow> None
      | Inr amounts \<Rightarrow> Some (sum_list amounts))"

definition calculate_average_daily_cost ::
    "cost_explorer \<Rightarrow> env \<Rightarrow> string \<Rightarrow> int \<Rightarrow> saving_error + rat option" where
  "calculate_average_daily_cost ce env instance_id days_back =
     (case get_instance_cost_for_period ce instance_id (e_now env - days_back * 86400) (e_now env) of
        None \<Rightarrow> Inr None
      | Some total_cost \<Rightarrow>
          if days_back = 0 then Inl DaysBackZero else Inr (Some (total_cost / of_int days_back)))"

text \<open>
  A float written to a \<open>DECIMAL(p, s)\<close> column is rounded to \<open>s\<close> places, half away from zero, and must
  then have at most \<open>p - s\<close> digits before the point.
\<close>

definition decimal_fits :: "nat \<Rightarrow> nat \<Rightarrow> rat \<Rightarrow> bool" where
  "decimal_fits p s x \<longleftrightarrow> \<bar>x\<bar> < 10 ^ (p - s) - 1 / (2 * 10 ^ s)"

section \<open>One action\<close>

text \<open>The row that the query returns: a real, successful stop, its recommendation and its waste.\<close>

definition stop_action :: "nat \<Rightarrow> world \<Rightarrow> (log_row \<times> rec_row \<times> waste_row) option" where
  "stop_action action_log_id w =
     (case t_get l_id action_log_id (alog w) of
        None \<Rightarrow> None
      | Some a \<Rightarrow>
          if l_status a = LogSuccess \<and> \<not> l_dry a \<and> l_action a = ''stop''
          then (case l_rec a of
                  None \<Rightarrow> None
                | Some rid \<Rightarrow> map_option (\<lambda>(r, x). (a, r, x)) (rec_join rid w))
          else None)"

definition days_since :: "env \<Rightarrow> log_row \<Rightarrow> int" where
  "days_since env a = (e_now env - l_date a) div 86400"

definition measurement_days :: "env \<Rightarrow> log_row \<Rightarrow> int" where
  "measurement_days env a = min (days_since env a) 30"

definition savings_accuracy :: "rat \<Rightarrow> rat \<Rightarrow> rat" where
  "savings_accuracy actual estimated = (if estimated > 0 then actual / estimated * 100 else 0)"

definition saving_of :: "env \<Rightarrow> log_row \<Rightarrow> rec_row \<Rightarrow> rat \<Rightarrow> rat \<Rightarrow> nat \<Rightarrow> saving_row" where
  "saving_of env a r cost_before_period cost_after_period i =
     (let monthly_cost_before = cost_before_period / 30 * 30;
          monthly_cost_after = cost_after_period / of_int (measurement_days env a) * 30;
          actual = monthly_cost_before - monthly_cost_after
      in \<lparr>sv_id = i, sv_rec = r_id r, sv_log = l_id a, sv_resource = l_resource a,
          sv_before = monthly_cost_before, sv_after = monthly_cost_after, sv_actual = actual,
          sv_estimated = r_savings r, sv_accuracy = savings_accuracy actual (r_savings r),
          sv_days = measurement_days env a\<rparr>)"

definition verify_savings_for_action ::
    "cost_explorer \<Rightarrow> env \<Rightarrow> nat \<Rightarrow> world \<Rightarrow> (saving_error + saving_row option) \<times> world" where
  "verify_savings_for_action ce env action_log_id w =
     (case stop_action action_log_id w of
        None \<Rightarrow> (Inr None, w)
      | Some (a, r, x) \<Rightarrow>
          if days_since env a < 7 then (Inr None, w)
          else
            (case (get_instance_cost_for_period ce (l_resource a) (l_date a - 30 * 86400) (l_date a),
                   get_instance_cost_for_period ce (l_resource a)
                     (e_now env - measurement_days env a * 86400) (e_now env)) of
               (Some before, Some after) \<Rightarrow>
                 let row = saving_of env a r before after
                 in if decimal_fits 5 2 (sv_accuracy (row 0))
                    then (let (i, svgs') = t_insert row (svgs w)
                          in (Inr (Some (row i)), w\<lparr>svgs := svgs'\<rparr>))
                    else (Inl NumericOverflow, w)
             | _ \<Rightarrow> (Inr None, w)))"

section \<open>All actions\<close>

definition VERIFIED_TYPES :: "string list" where
  "VERIFIED_TYPES = [''stop'', ''terminate'', ''downsize'']"

definition unverified :: "env \<Rightarrow> int \<Rightarrow> world \<Rightarrow> log_row \<Rightarrow> bool" where
  "unverified env min_days_elapsed w a \<longleftrightarrow>
     l_status a = LogSuccess \<and> \<not> l_dry a \<and> l_action a \<in> set VERIFIED_TYPES
     \<and> (case l_rec a of None \<Rightarrow> True | Some rid \<Rightarrow> rid \<notin> set (map sv_rec (t_rows (svgs w))))
     \<and> l_date a < e_now env - min_days_elapsed * 86400"

definition unverified_actions :: "env \<Rightarrow> int \<Rightarrow> world \<Rightarrow> nat list" where
  "unverified_actions env min_days_elapsed w =
     map l_id (sort_key l_date (filter (unverified env min_days_elapsed w) (t_rows (alog w))))"

fun verify_actions ::
    "cost_explorer \<Rightarrow> env \<Rightarrow> nat list \<Rightarrow> world \<Rightarrow> (saving_error + saving_row list) \<times> world" where
  "verify_actions ce env [] w = (Inr [], w)"
| "verify_actions ce env (i # is) w =
     (case verify_savings_for_action ce env i w of
        (Inl e, w1) \<Rightarrow> (Inl e, w1)
      | (Inr res, w1) \<Rightarrow>
          (case verify_actions ce env is w1 of
             (Inl e, w2) \<Rightarrow> (Inl e, w2)
           | (Inr results, w2) \<Rightarrow>
               (Inr (case res of None \<Rightarrow> results | Some row \<Rightarrow> row # results), w2)))"

definition verify_all_unverified_actions ::
    "cost_explorer \<Rightarrow> env \<Rightarrow> int \<Rightarrow> world \<Rightarrow> (saving_error + saving_row list) \<times> world" where
  "verify_all_unverified_actions ce env min_days_elapsed w =
     verify_actions ce env (unverified_actions env min_days_elapsed w) w"

text \<open>The job: the tracker is only called when an action is eligible; its errors are printed.\<close>

definition savings_verifier_job :: "cost_explorer \<Rightarrow> env \<Rightarrow> world \<Rightarrow> world" where
  "savings_verifier_job ce env w =
     (if filter (unverified env 7 w) (t_rows (alog w)) = [] then w
      else snd (verify_all_unverified_actions ce env 7 w))"

section \<open>Totals\<close>

record saving_totals =
  st_actions :: nat
  st_savings :: rat
  st_accuracy :: rat
  st_before :: rat
  st_after :: rat

definition get_total_verified_savings :: "world \<Rightarrow> saving_totals" where
  "get_total_verified_savings w =
     (let rows = t_rows (svgs w) in
      if rows = [] then \<lparr>st_actions = 0, st_savings = 0, st_accuracy = 0, st_before = 0, st_after = 0\<rparr>
      else \<lparr>st_actions = length rows, st_savings = sum_list (map sv_actual rows),
            st_accuracy = sum_list (map sv_accuracy rows) / of_nat (length rows),
            st_before = sum_list (map sv_before rows), st_after = sum_list (map sv_after rows)\<rparr>)"

section \<open>What a run records\<close>

text \<open>
  What one action comes to, apart from the key of its row: nothing, or a row. It does not depend on
  the rows already recorded.
\<close>

definition verdict :: "cost_explorer \<Rightarrow> env \<Rightarrow> world \<Rightarrow> nat \<Rightarrow> (nat \<Rightarrow> saving_row) option" where
  "verdict ce env w i =
     (case stop_action i w of
        None \<Rightarrow> None
      | Some (a, r, x) \<Rightarrow>
          if days_since env a < 7 then None
          else
            (case (get_instance_cost_for_period ce (l_resource a) (l_date a - 30 * 86400) (l_date a),
                   get_instance_cost_for_period ce (l_resource a)
                     (e_now env - measurement_days env a * 86400) (e_now env)) of
               (Some before, Some after) \<Rightarrow> Some (saving_of env a r before after)
             | _ \<Rightarrow> None))"

definition overflows :: "cost_explorer \<Rightarrow> env \<Rightarrow> world \<Rightarrow> nat \<Rightarrow> bool" where
  "overflows ce env w i \<longleftrightarrow>
     (case verdict ce env w i of None \<Rightarrow> False | Some row \<Rightarrow> \<not> decimal_fits 5 2 (sv_accuracy (row 0)))"

definition numbered :: "nat \<Rightarrow> (nat \<Rightarrow> 'r) list \<Rightarrow> 'r list" where
  "numbered n rows = map (\<lambda>(i, row). row i) (enumerate n rows)"

lemma numbered_simps [simp]:
  "numbered n [] = []"
  "numbered n (row # rows) = row n # numbered (Suc n) rows"
  "length (numbered n rows) = length rows"
  by (simp_all add: numbered_def)

lemma numbered_mem: "v \<in> set (numbered n rows) \<Longrightarrow> \<exists>row \<in> set rows. \<exists>i. v = row i"
  by (induction rows arbitrary: n) auto

lemma stop_action_svgs [simp]: "stop_action i (w\<lparr>svgs := s\<rparr>) = stop_action i w"
  by (simp add: stop_action_def rec_join_def cong: option.case_cong if_cong)

lemma verdict_svgs [simp]: "verdict ce env (w\<lparr>svgs := s\<rparr>) = verdict ce env w"
  by (simp add: verdict_def fun_eq_iff)

lemma overflows_svgs [simp]: "overflows ce env (w\<lparr>svgs := s\<rparr>) = overflows ce env w"
  by (simp add: overflows_def fun_eq_iff)

lemma verify_one:
  "verify_savings_for_action ce env i w =
     (case verdict ce env w i of
        None \<Rightarrow> (Inr None, w)
      | Some row \<Rightarrow>
          if overflows ce env w i then (Inl NumericOverflow, w)
          else (Inr (Some (row (t_next (svgs w)))),
                w\<lparr>svgs := \<lparr>t_rows = t_rows (svgs w) @ [row (t_next (svgs w))], t_next = t_next (svgs w) + 1\<rparr>\<rparr>))"
  by (auto simp: verify_savings_for_action_def verdict_def overflows_def Let_def t_insert_def
      split: option.splits)

text \<open>The run takes the actions in order and ends at the first one that overflows.\<close>

definition recorded :: "cost_explorer \<Rightarrow> env \<Rightarrow> world \<Rightarrow> nat list \<Rightarrow> saving_row list" where
  "recorded ce env w is =
     numbered (t_next (svgs w))
       (List.map_filter (verdict ce env w) (takeWhile (\<lambda>i. \<not> overflows ce env w i) is))"

lemma verify_actions_spec:
  "verify_actions ce env is w =
     (if \<exists>i \<in> set is. overflows ce env w i then Inl NumericOverflow else Inr (recorded ce env w is),
      w\<lparr>svgs := \<lparr>t_rows = t_rows (svgs w) @ recorded ce env w is,
               t_next = t_next (svgs w) + length (recorded ce env w is)\<rparr>\<rparr>)"
proof (induction "is" arbitrary: w)
  case Nil
  then show ?case by (simp add: recorded_def map_filter_def)
next
  case (Cons i "is")
  show ?case
  proof (cases "verdict ce env w i")
    case None
    then have "\<not> overflows ce env w i" by (simp add: overflows_def)
    with None show ?thesis by (simp add: verify_one Cons.IH recorded_def map_filter_def)
  next
    case (Some row)
    show ?thesis
    proof (cases "overflows ce env w i")
      case True
      with Some show ?thesis by (simp add: verify_one recorded_def map_filter_def)
    next
      case False
      with Some show ?thesis by (simp add: verify_one Cons.IH recorded_def map_filter_def)
    qed
  qed
qed

lemma rec_join_id: "rec_join rid w = Some (r, x) \<Longrightarrow> r_id r = rid"
  by (auto simp: rec_join_def split: option.splits dest: t_get_mem)

lemma verdict_evidence:
  assumes "verdict ce env w i = Some row"
  obtains a r x before after where
    "a \<in> set (t_rows (alog w))" "l_id a = i" "l_status a = LogSuccess" "\<not> l_dry a" "l_action a = ''stop''"
    "l_rec a = Some (r_id r)" "rec_join (r_id r) w = Some (r, x)" "7 \<le> days_since env a"
    "get_instance_cost_for_period ce (l_resource a) (l_date a - 30 * 86400) (l_date a) = Some before"
    "get_instance_cost_for_period ce (l_resource a) (e_now env - measurement_days env a * 86400) (e_now env) = Some after"
    "row = saving_of env a r before after"
proof -
  from assms obtain a r x before after where
    s: "stop_action i w = Some (a, r, x)" "\<not> days_since env a < 7"
      "get_instance_cost_for_period ce (l_resource a) (l_date a - 30 * 86400) (l_date a) = Some before"
      "get_instance_cost_for_period ce (l_resource a) (e_now env - measurement_days env a * 86400) (e_now env) = Some after"
      "row = saving_of env a r before after"
    by (auto simp: verdict_def split: option.splits if_splits)
  from s(1) obtain rid where a: "t_get l_id i (alog w) = Some a" "l_status a = LogSuccess" "\<not> l_dry a"
      "l_action a = ''stop''" "l_rec a = Some rid" "rec_join rid w = Some (r, x)"
    by (auto simp: stop_action_def split: option.splits if_splits)
  from a(1) have "a \<in> set (t_rows (alog w))" "l_id a = i" by (auto dest: t_get_mem)
  moreover have "rid = r_id r" using rec_join_id [OF a(6)] by simp
  ultimately show ?thesis using that s a by simp
qed

section \<open>Properties\<close>

text \<open>
  C10: A run of the verification only adds rows to \<open>savings_realized\<close>, and each of them rests on
  evidence: a real, successful stop at least seven days old, of a recommendation without a row, with
  both costs answered by Cost Explorer; its figures are those costs by the month, their difference,
  and an accuracy that the column can hold. An unanswered question is never a saving.
\<close>

theorem savings_rest_on_evidence:
  assumes wf: "t_wf l_id (alog w)" and run: "verify_all_unverified_actions ce env n w = (res, w')"
  shows "\<exists>new. w' = w\<lparr>svgs := svgs w'\<rparr> \<and> t_rows (svgs w') = t_rows (svgs w) @ new
    \<and> (\<forall>v \<in> set new. \<exists>a r before after.
         a \<in> set (t_rows (alog w)) \<and> r \<in> set (t_rows (recs w))
         \<and> l_status a = LogSuccess \<and> \<not> l_dry a \<and> l_action a = ''stop'' \<and> l_rec a = Some (r_id r)
         \<and> 7 \<le> days_since env a \<and> l_date a < e_now env - n * 86400
         \<and> r_id r \<notin> set (map sv_rec (t_rows (svgs w)))
         \<and> get_instance_cost_for_period ce (l_resource a) (l_date a - 30 * 86400) (l_date a) = Some before
         \<and> get_instance_cost_for_period ce (l_resource a) (e_now env - measurement_days env a * 86400) (e_now env) = Some after
         \<and> sv_log v = l_id a \<and> sv_rec v = r_id r \<and> sv_resource v = l_resource a
         \<and> sv_before v = before \<and> sv_after v = after / of_int (measurement_days env a) * 30
         \<and> 7 \<le> sv_days v \<and> sv_days v \<le> 30
         \<and> sv_actual v = sv_before v - sv_after v
         \<and> (0 < sv_estimated v \<longrightarrow> sv_accuracy v * sv_estimated v = sv_actual v * 100)
         \<and> \<bar>sv_accuracy v\<bar> < 1000)"
proof -
  let ?is = "unverified_actions env n w"
  let ?new = "recorded ce env w ?is"
  have w': "w' = w\<lparr>svgs := \<lparr>t_rows = t_rows (svgs w) @ ?new, t_next = t_next (svgs w) + length ?new\<rparr>\<rparr>"
    using run by (simp add: verify_all_unverified_actions_def verify_actions_spec)
  have "\<exists>a r before after.
         a \<in> set (t_rows (alog w)) \<and> r \<in> set (t_rows (recs w))
         \<and> l_status a = LogSuccess \<and> \<not> l_dry a \<and> l_action a = ''stop'' \<and> l_rec a = Some (r_id r)
         \<and> 7 \<le> days_since env a \<and> l_date a < e_now env - n * 86400
         \<and> r_id r \<notin> set (map sv_rec (t_rows (svgs w)))
         \<and> get_instance_cost_for_period ce (l_resource a) (l_date a - 30 * 86400) (l_date a) = Some before
         \<and> get_instance_cost_for_period ce (l_resource a) (e_now env - measurement_days env a * 86400) (e_now env) = Some after
         \<and> sv_log v = l_id a \<and> sv_rec v = r_id r \<and> sv_resource v = l_resource a
         \<and> sv_before v = before \<and> sv_after v = after / of_int (measurement_days env a) * 30
         \<and> 7 \<le> sv_days v \<and> sv_days v \<le> 30
         \<and> sv_actual v = sv_before v - sv_after v
         \<and> (0 < sv_estimated v \<longrightarrow> sv_accuracy v * sv_estimated v = sv_actual v * 100)
         \<and> \<bar>sv_accuracy v\<bar> < 1000"
    if "v \<in> set ?new" for v
  proof -
    from that obtain row k where row: "v = row k"
      "row \<in> set (List.map_filter (verdict ce env w) (takeWhile (\<lambda>i. \<not> overflows ce env w i) ?is))"
      by (auto simp: recorded_def dest: numbered_mem)
    then obtain i where i: "i \<in> set (takeWhile (\<lambda>i. \<not> overflows ce env w i) ?is)" "verdict ce env w i = Some row"
      by (auto simp: map_filter_def)
    from i(1) have sel: "i \<in> set ?is" "\<not> overflows ce env w i" by (auto dest: set_takeWhileD)
    from verdict_evidence [OF i(2)] obtain a r x before after where
      a: "a \<in> set (t_rows (alog w))" "l_id a = i" "l_status a = LogSuccess" "\<not> l_dry a" "l_action a = ''stop''"
        "l_rec a = Some (r_id r)" "rec_join (r_id r) w = Some (r, x)" "7 \<le> days_since env a"
        "get_instance_cost_for_period ce (l_resource a) (l_date a - 30 * 86400) (l_date a) = Some before"
        "get_instance_cost_for_period ce (l_resource a) (e_now env - measurement_days env a * 86400) (e_now env) = Some after"
        "row = saving_of env a r before after" .
    have "a' = a" if "a' \<in> set (t_rows (alog w))" "l_id a' = i" for a'
      using wf that a(1,2) by (auto simp: t_wf_def distinct_map inj_on_def)
    then have "unverified env n w a" using sel(1) by (auto simp: unverified_actions_def)
    then have elig: "l_date a < e_now env - n * 86400" "r_id r \<notin> set (map sv_rec (t_rows (svgs w)))"
      using a(6) by (auto simp: unverified_def)
    have "r \<in> set (t_rows (recs w))" using a(7) by (auto simp: rec_join_def split: option.splits dest: t_get_mem)
    moreover have "sv_accuracy (row 0) = sv_accuracy v" by (simp add: row(1) a(11) saving_of_def Let_def)
    then have "decimal_fits 5 2 (sv_accuracy v)" using sel(2) i(2) by (simp add: overflows_def)
    then have "\<bar>sv_accuracy v\<bar> < 1000" by (simp add: decimal_fits_def)
    ultimately show ?thesis using a elig
      by (intro exI [of _ a] exI [of _ r] exI [of _ before] exI [of _ after])
         (simp add: row(1) saving_of_def Let_def measurement_days_def savings_accuracy_def)
  qed
  with w' show ?thesis by (intro exI [of _ ?new]) simp
qed

definition stopped_world :: "rat \<Rightarrow> world" where
  "stopped_world estimate =
     sample_world\<lparr>
       recs := t_update (\<lambda>_. True) (\<lambda>r. r\<lparr>r_status := Applied, r_savings := estimate\<rparr>) (recs sample_world),
       alog := \<lparr>t_rows = map (\<lambda>(i, day). \<lparr>l_id = i, l_rec = Some 7, l_resource = ''i-1'', l_rtype = ''ec2_instance'',
           l_action = ''stop'', l_status = LogSuccess, l_dry = False, l_by = None, l_date = day * 86400\<rparr>)
         [(5, 60), (6, 61)], t_next = 7\<rparr>\<rparr>"

definition sample_costs :: cost_explorer where
  "sample_costs instance_id start end = Inr (if end \<le> 61 then [20, 10] else [3])"

lemma stopped_world_eligible:
  "unverified_actions sample_env 7 (stopped_world e) = [5, 6]"
  by (simp add: unverified_actions_def stopped_world_def unverified_def sample_env_def sample_world_def
      VERIFIED_TYPES_def)

lemma stopped_world_verdict:
  "i \<in> {5, 6} \<Longrightarrow> \<exists>row. verdict sample_costs sample_env (stopped_world e) i = Some row
     \<and> sv_accuracy (row 0) = savings_accuracy 27 e \<and> sv_actual (row k) = 27"
  by (auto simp: verdict_def stop_action_def t_get_def stopped_world_def rec_join_def sample_world_def
      t_update_def days_since_def measurement_days_def sample_env_def get_instance_cost_for_period_def
      day_of_def sample_costs_def saving_of_def Let_def)

theorem savings_rest_on_evidence_witness:
  "\<exists>v \<in> set (t_rows (svgs (snd (verify_all_unverified_actions sample_costs sample_env 7 (stopped_world 30))))).
     sv_rec v = 7 \<and> 0 < sv_days v"
proof -
  let ?w = "stopped_world 30"
  have wf: "t_wf l_id (alog ?w)" by (simp add: stopped_world_def t_wf_def)
  obtain res w' where run: "verify_all_unverified_actions sample_costs sample_env 7 ?w = (res, w')" by fastforce
  from savings_rest_on_evidence [OF wf run] obtain new where
    new: "t_rows (svgs w') = t_rows (svgs ?w) @ new"
      "\<forall>v \<in> set new. 7 \<le> sv_days v \<and> (\<exists>r \<in> set (t_rows (recs ?w)). sv_rec v = r_id r)" by blast
  have "new \<noteq> []"
    using run new(1) stopped_world_verdict [of 5 30 0]
    by (auto simp: verify_all_unverified_actions_def verify_actions_spec stopped_world_eligible recorded_def
        overflows_def savings_accuracy_def decimal_fits_def map_filter_def)
  then have "hd new \<in> set (t_rows (svgs w'))" "hd new \<in> set new" by (auto simp: new(1))
  moreover have "sv_rec (hd new) = 7" "0 < sv_days (hd new)"
    using new(2) \<open>hd new \<in> set new\<close> by (auto simp: stopped_world_def t_update_def sample_world_def)
  ultimately show ?thesis by (auto simp: run)
qed

lemma recorded_log:
  "map sv_log (numbered n (List.map_filter (verdict ce env w) js)) = filter (\<lambda>i. verdict ce env w i \<noteq> None) js"
proof (induction js arbitrary: n)
  case (Cons j js)
  show ?case
  proof (cases "verdict ce env w j")
    case None
    with Cons.IH show ?thesis by (simp add: map_filter_def)
  next
    case (Some row)
    have "sv_log (row n) = j"
      by (rule verdict_evidence [OF Some]) (simp add: saving_of_def Let_def)
    with Cons.IH [of "Suc n"] Some show ?thesis by (simp add: map_filter_def)
  qed
qed (simp add: map_filter_def)

lemma takeWhile_before: "\<not> P x \<Longrightarrow> set (takeWhile P (xs @ x # ys)) \<subseteq> set xs"
proof (induction xs)
  case (Cons a xs)
  then show ?case by (cases "P a") auto
qed simp

text \<open>
  A run without an overflow records exactly one row for every eligible stop with cost data, in
  the order of the actions, so two successful stops of one recommendation count twice in the totals.
  An action whose accuracy does not fit its column ends the run: the rows before it are kept, and
  nothing is recorded for it or for any later action, so that an oldest action that overflows
  leaves the job without effect on every run.
\<close>

theorem savings_run_outcome:
  fixes w :: world and env :: env and ce :: cost_explorer
  defines "acts \<equiv> unverified_actions env 7 w" and "run \<equiv> verify_all_unverified_actions ce env 7 w"
  shows "(\<not> (\<exists>i \<in> set acts. overflows ce env w i) \<longrightarrow>
            (\<exists>rows. fst run = Inr rows \<and> map sv_log rows = filter (\<lambda>i. verdict ce env w i \<noteq> None) acts
               \<and> t_rows (svgs (snd run)) = t_rows (svgs w) @ rows))
    \<and> (\<forall>before i after. acts = before @ i # after \<and> overflows ce env w i \<longrightarrow>
         fst run = Inl NumericOverflow
         \<and> (\<exists>rows. t_rows (svgs (snd run)) = t_rows (svgs w) @ rows \<and> set (map sv_log rows) \<subseteq> set before))
    \<and> (\<forall>i after. acts = i # after \<and> overflows ce env w i \<longrightarrow> savings_verifier_job ce env w = w)"
proof -
  have run: "fst run = (if \<exists>i \<in> set acts. overflows ce env w i then Inl NumericOverflow else Inr (recorded ce env w acts))"
    "t_rows (svgs (snd run)) = t_rows (svgs w) @ recorded ce env w acts"
    by (simp_all add: run_def verify_all_unverified_actions_def verify_actions_spec acts_def)
  have all: "fst run = Inr (recorded ce env w acts)
      \<and> map sv_log (recorded ce env w acts) = filter (\<lambda>i. verdict ce env w i \<noteq> None) acts"
    if "\<not> (\<exists>i \<in> set acts. overflows ce env w i)"
  proof -
    have tw: "takeWhile (\<lambda>i. \<not> overflows ce env w i) acts = acts" using that by (simp add: takeWhile_eq_all_conv)
    from that show ?thesis unfolding recorded_def recorded_log tw run(1) by simp
  qed
  have stop: "fst run = Inl NumericOverflow \<and> set (map sv_log (recorded ce env w acts)) \<subseteq> set before"
    if "acts = before @ i # after" "overflows ce env w i" for before i after
  proof -
    have "set (takeWhile (\<lambda>i. \<not> overflows ce env w i) acts) \<subseteq> set before"
      unfolding that(1) by (rule takeWhile_before) (simp add: that(2))
    with that show ?thesis unfolding recorded_def recorded_log by (auto simp: run)
  qed
  have "savings_verifier_job ce env w = w" if "acts = i # after" "overflows ce env w i" for i after
  proof -
    have "recorded ce env w acts = []" using that by (simp add: recorded_def map_filter_def)
    then show ?thesis
      by (simp add: savings_verifier_job_def verify_all_unverified_actions_def verify_actions_spec acts_def)
  qed
  with all stop run(2) show ?thesis by blast
qed

theorem savings_run_outcome_witness:
  "savings_verifier_job sample_costs sample_env (stopped_world 1) = stopped_world 1
   \<and> (\<exists>rows. t_rows (svgs (savings_verifier_job sample_costs sample_env (stopped_world 30))) = rows \<and> map sv_log rows = [5, 6])"
proof -
  have over: "overflows sample_costs sample_env (stopped_world 1) 5"
    using stopped_world_verdict [of 5 1 0]
    by (auto simp: overflows_def savings_accuracy_def decimal_fits_def)
  have fits: "\<not> overflows sample_costs sample_env (stopped_world 30) i" "verdict sample_costs sample_env (stopped_world 30) i \<noteq> None"
    if "i \<in> {5, 6}" for i
    using stopped_world_verdict [OF that, of 30 0]
    by (auto simp: overflows_def savings_accuracy_def decimal_fits_def)
  have job: "savings_verifier_job sample_costs sample_env (stopped_world 30)
      = snd (verify_all_unverified_actions sample_costs sample_env 7 (stopped_world 30))"
    by (simp add: savings_verifier_job_def verify_all_unverified_actions_def unverified_actions_def)
  have "\<exists>rows. t_rows (svgs (savings_verifier_job sample_costs sample_env (stopped_world 30))) = rows \<and> map sv_log rows = [5, 6]"
    using savings_run_outcome [where env = sample_env and w = "stopped_world 30" and ce = sample_costs] fits
    by (auto simp: stopped_world_eligible job) (simp add: stopped_world_def sample_world_def)
  moreover have "savings_verifier_job sample_costs sample_env (stopped_world 1) = stopped_world 1"
    using savings_run_outcome [where env = sample_env and w = "stopped_world 1" and ce = sample_costs] over
    by (auto simp: stopped_world_eligible)
  ultimately show ?thesis by simp
qed

end
