(* ===== verification/RequestGuard.thy ===== *)
theory RequestGuard
  imports Prelude
begin

text \<open>
  The middleware of \<open>ui/utils/security.py\<close>, the barrier in front of every endpoint that executes
  AWS actions or rewrites the configuration: a request that writes must name a trusted host in its
  \<open>Host\<close> header and, when a browser sends one, in its \<open>Origin\<close>.
\<close>

section \<open>Host names\<close>

text \<open>
  \<open>urlsplit(url).netloc\<close> of the standard library, on ASCII. Leading control characters and blanks
  go, tabs and line breaks go everywhere, then a scheme if there is one; brackets that do not match
  raise. Which bracketed addresses are valid depends on the version of Python: \<open>bracketed\<close>.
\<close>

definition scheme_char :: "char \<Rightarrow> bool" where
  "scheme_char c \<longleftrightarrow> is_alpha c \<or> is_digit c \<or> c \<in> set ''+-.''"

definition urlsplit_netloc :: "(string \<Rightarrow> bool) \<Rightarrow> string \<Rightarrow> unit pyexc + string" where
  "urlsplit_netloc bracketed value =
     (let url = filter (\<lambda>c. of_char c \<notin> {9, 10, 13 :: nat}) (dropWhile (\<lambda>c. (of_char c :: nat) \<le> 32) value);
          scheme = takeWhile (\<lambda>c. c \<noteq> CHR '':'') url;
          url = (if scheme \<noteq> url \<and> scheme \<noteq> [] \<and> is_alpha (hd scheme) \<and> list_all scheme_char scheme
                 then drop (length scheme + 1) url else url)
      in if take 2 url \<noteq> ''//'' then Inr []
         else let netloc = takeWhile (\<lambda>c. c \<notin> set ''/?#'') (drop 2 url)
              in if (CHR ''['' \<in> set netloc) \<noteq> (CHR '']'' \<in> set netloc) then Inl ValueError
                 else if CHR ''['' \<in> set netloc \<and> \<not> bracketed netloc then Inl ValueError
                 else Inr netloc)"

definition hostname :: "(string \<Rightarrow> bool) \<Rightarrow> string \<Rightarrow> unit pyexc + string" where
  "hostname bracketed value =
     py_bind (if contains ''://'' value then urlsplit_netloc bracketed value else Inr value)
       (\<lambda>value. let value = lower (strip value)
          in if take 1 value = ''['' then
               Inr (if CHR '']'' \<in> set value then takeWhile (\<lambda>c. c \<noteq> CHR '']'') (tl value) else butlast (tl value))
             else if count_list value (CHR '':'') = 1 then Inr (takeWhile (\<lambda>c. c \<noteq> CHR '':'') value)
             else Inr value)"

section \<open>The trusted hosts\<close>

definition WRITE_METHODS :: "string list" where
  "WRITE_METHODS = [''POST'', ''PUT'', ''PATCH'', ''DELETE'']"

definition LOOPBACK_HOSTS :: "string list" where
  "LOOPBACK_HOSTS = [''localhost'', ''127.0.0.1'', ''::1'', ''testserver'']"

text \<open>The two environment variables, \<open>""\<close> when they are not set.\<close>

record guard_env =
  ge_host :: string
  ge_trusted_hosts :: string

definition trusted_write_hosts :: "(string \<Rightarrow> bool) \<Rightarrow> guard_env \<Rightarrow> unit pyexc + string list" where
  "trusted_write_hosts bracketed env =
     py_bind (hostname bracketed (ge_host env)) (\<lambda>bind.
       py_bind (py_map (hostname bracketed) (split_on (CHR '','') (ge_trusted_hosts env))) (\<lambda>extras.
         Inr (LOOPBACK_HOSTS @ (if bind \<noteq> [] \<and> bind \<noteq> ''0.0.0.0'' then [bind] else [])
              @ filter (\<lambda>extra. extra \<noteq> []) extras)))"

section \<open>The middleware\<close>

record request =
  rq_method :: string
  rq_host :: string
  rq_origin :: string

datatype verdict = Forbidden | Handled

definition block_cross_origin_writes ::
    "(string \<Rightarrow> bool) \<Rightarrow> guard_env \<Rightarrow> request \<Rightarrow> unit pyexc + verdict" where
  "block_cross_origin_writes bracketed env rq =
     (if rq_method rq \<in> set WRITE_METHODS then
        py_bind (trusted_write_hosts bracketed env) (\<lambda>trusted.
          py_bind (hostname bracketed (rq_host rq)) (\<lambda>host.
            py_bind (if rq_origin rq \<noteq> [] then hostname bracketed (rq_origin rq) else Inr host) (\<lambda>origin.
              let host_ok = (host \<in> set trusted);
                  origin_ok = (rq_origin rq \<noteq> [] \<longrightarrow> origin \<in> set trusted)
              in Inr (if \<not> host_ok \<or> \<not> origin_ok then Forbidden else Handled))))
      else Inr Handled)"

section \<open>What the two headers name\<close>

text \<open>
  The headers that clients send: a host, a name or an IPv4 address, with or without a port; an origin
  as a browser serialises it, \<open>null\<close> when it is opaque.
\<close>

definition plain_char :: "char \<Rightarrow> bool" where
  "plain_char c \<longleftrightarrow> is_alpha c \<or> is_digit c \<or> c = CHR ''.'' \<or> c = CHR ''-''"

definition plain_host :: "string \<Rightarrow> bool" where
  "plain_host h \<longleftrightarrow> h \<noteq> [] \<and> list_all plain_char h"

fun with_port :: "string \<Rightarrow> string option \<Rightarrow> string" where
  "with_port h None = h"
| "with_port h (Some port) = h @ CHR '':'' # port"

definition port_ok :: "string option \<Rightarrow> bool" where
  "port_ok p \<longleftrightarrow> (case p of None \<Rightarrow> True | Some port \<Rightarrow> list_all is_digit port)"

datatype origin = NoOrigin | Opaque | Site string string "string option"

fun origin_header :: "origin \<Rightarrow> string" where
  "origin_header NoOrigin = []"
| "origin_header Opaque = ''null''"
| "origin_header (Site scheme h p) = scheme @ ''://'' @ with_port h p"

fun origin_ok :: "origin \<Rightarrow> bool" where
  "origin_ok (Site scheme h p) \<longleftrightarrow> scheme \<noteq> [] \<and> list_all is_alpha scheme \<and> plain_host h \<and> port_ok p"
| "origin_ok _ \<longleftrightarrow> True"

fun origin_host :: "origin \<Rightarrow> string option" where
  "origin_host NoOrigin = None"
| "origin_host Opaque = Some ''null''"
| "origin_host (Site scheme h p) = Some (lower h)"

lemmas char_classes = plain_char_def is_alpha_def is_digit_def is_space_def lower_char_def Let_def

lemma plain_char_excludes:
  assumes "plain_char c"
  shows "c \<notin> set '':/?#[],'' \<and> \<not> is_space c \<and> 32 < (of_char c :: nat) \<and> of_char c \<notin> {9, 10, 13 :: nat}"
  using assms by (auto simp: char_classes)

lemma digit_plain: "is_digit c \<Longrightarrow> plain_char c"
  by (simp add: plain_char_def)

lemma alpha_plain: "is_alpha c \<Longrightarrow> plain_char c"
  by (simp add: plain_char_def)

lemma plain_lower: "plain_char c \<Longrightarrow> plain_char (lower_char c)"
  by (auto simp: char_classes)

lemma plain_hostD:
  assumes "plain_host h"
  shows "h \<noteq> []" "set h \<subseteq> Collect plain_char"
  using assms by (auto simp: plain_host_def list_all_iff)

lemma plain_lower_host: "plain_host h \<Longrightarrow> plain_host (lower h)"
  by (auto simp: plain_host_def list_all_iff lower_def plain_lower)

lemma with_port_chars:
  assumes "plain_host h" "port_ok p" "c \<in> set (with_port h p)"
  shows "plain_char c \<or> c = CHR '':''"
  using assms by (cases p) (auto simp: plain_host_def port_ok_def list_all_iff digit_plain)

lemma with_port_nonempty: "plain_host h \<Longrightarrow> with_port h p \<noteq> []"
  by (cases p) (auto simp: plain_host_def)

lemma strip_with_port:
  assumes "plain_host h" "port_ok p"
  shows "strip (with_port h p) = with_port h p"
proof (rule strip_id)
  have "\<not> is_space c" if "c \<in> set (with_port h p)" for c
    using with_port_chars [OF assms that] plain_char_excludes by (auto simp: is_space_def Let_def)
  with with_port_nonempty [OF assms(1)]
  show "with_port h p = [] \<or> \<not> is_space (hd (with_port h p)) \<and> \<not> is_space (last (with_port h p))"
    by simp
qed

lemma no_colon: "plain_host h \<Longrightarrow> CHR '':'' \<notin> set h"
  using plain_char_excludes by (force simp: plain_host_def list_all_iff)

lemma lower_with_port: "lower (with_port h p) = with_port (lower h) (map_option lower p)"
  by (cases p) (simp_all add: lower_def, simp add: lower_char_def Let_def)

lemma port_ok_lower: "port_ok p \<Longrightarrow> port_ok (map_option lower p)"
  by (cases p) (auto simp: port_ok_def list_all_iff lower_def lower_char_def is_digit_def Let_def)

text \<open>The name of a bare header: what stands before the port.\<close>

lemma name_of_with_port:
  assumes h: "plain_host h" and p: "port_ok p"
  shows "take (Suc 0) (with_port h p) \<noteq> ''[''"
    and "(if count_list (with_port h p) (CHR '':'') = Suc 0 then takeWhile (\<lambda>c. c \<noteq> CHR '':'') (with_port h p)
          else with_port h p) = h"
proof -
  show "take (Suc 0) (with_port h p) \<noteq> ''[''"
    using plain_hostD [OF h] plain_char_excludes by (cases h; cases p) force+
  have c0: "count_list h (CHR '':'') = 0" using no_colon [OF h] by (simp add: count_list_0_iff)
  show "(if count_list (with_port h p) (CHR '':'') = Suc 0 then takeWhile (\<lambda>c. c \<noteq> CHR '':'') (with_port h p)
         else with_port h p) = h"
  proof (cases p)
    case None
    with c0 show ?thesis by simp
  next
    case (Some port)
    have "CHR '':'' \<notin> set port"
      using p Some plain_char_excludes digit_plain by (force simp: port_ok_def list_all_iff)
    then have "count_list (with_port h p) (CHR '':'') = 1" using c0 Some by (simp add: count_list_0_iff)
    moreover have "takeWhile (\<lambda>c. c \<noteq> CHR '':'') (with_port h p) = h"
      unfolding Some with_port.simps
      by (subst takeWhile_append2) (use no_colon [OF h] in auto)
    ultimately show ?thesis by simp
  qed
qed

lemma lower_name:
  assumes "plain_host h" "port_ok p"
  shows "take (Suc 0) (lower (strip (with_port h p))) \<noteq> ''[''"
    and "(if count_list (lower (strip (with_port h p))) (CHR '':'') = Suc 0
          then takeWhile (\<lambda>c. c \<noteq> CHR '':'') (lower (strip (with_port h p)))
          else lower (strip (with_port h p))) = lower h"
  unfolding strip_with_port [OF assms] lower_with_port
  by (rule name_of_with_port [OF plain_lower_host [OF assms(1)] port_ok_lower [OF assms(2)]])+

lemma hostname_header:
  assumes "plain_host h" "port_ok p"
  shows "hostname bracketed (with_port h p) = Inr (lower h)"
proof -
  have "CHR ''/'' \<notin> set (with_port h p)"
    using with_port_chars [OF assms] plain_char_excludes by force
  then have "\<not> contains ''://'' (with_port h p)"
    by (auto simp: contains_def sublist_def)
  with lower_name [OF assms] show ?thesis
    by (simp add: hostname_def Let_def split: if_splits)
qed

lemma hostname_empty: "hostname bracketed [] = Inr []"
  by (simp add: hostname_def contains_def strip_def lower_def)

lemma urlsplit_site:
  assumes scheme: "scheme \<noteq> []" "list_all is_alpha scheme" and h: "plain_host h" and p: "port_ok p"
  shows "urlsplit_netloc bracketed (scheme @ ''://'' @ with_port h p) = Inr (with_port h p)"
proof -
  let ?url = "scheme @ ''://'' @ with_port h p"
  have plain: "c \<in> set ?url \<Longrightarrow> plain_char c \<or> c = CHR '':'' \<or> c = CHR ''/''" for c
    using scheme(2) with_port_chars [OF h p] by (auto simp: list_all_iff alpha_plain)
  have low: "\<not> (of_char c :: nat) \<le> 32 \<and> of_char c \<notin> {9, 10, 13 :: nat}" if "c \<in> set ?url" for c
    using plain [OF that] plain_char_excludes [of c] by auto
  have "dropWhile (\<lambda>c. (of_char c :: nat) \<le> 32) ?url = ?url"
    using low [of "hd ?url"] scheme(1) by (cases scheme) auto
  moreover have "filter (\<lambda>c. of_char c \<notin> {9, 10, 13 :: nat}) ?url = ?url"
    by (rule filter_True) (use low in blast)
  moreover have "takeWhile (\<lambda>c. c \<noteq> CHR '':'') ?url = scheme"
    by (subst takeWhile_append2) (use scheme(2) alpha_plain plain_char_excludes in \<open>force simp: list_all_iff\<close>, simp)
  moreover have "list_all scheme_char scheme" "is_alpha (hd scheme)"
    using scheme by (cases scheme; auto simp: list_all_iff scheme_char_def)+
  moreover have "takeWhile (\<lambda>c. c \<notin> set ''/?#'') (with_port h p) = with_port h p"
    using with_port_chars [OF h p] plain_char_excludes by (force simp: takeWhile_eq_all_conv)
  moreover have "CHR ''['' \<notin> set (with_port h p)" "CHR '']'' \<notin> set (with_port h p)"
    using with_port_chars [OF h p] plain_char_excludes by force+
  ultimately show ?thesis
    using scheme(1) by (simp add: urlsplit_netloc_def Let_def takeWhile_eq_all_conv [THEN iffD2])
qed

lemma hostname_site:
  assumes "scheme \<noteq> []" "list_all is_alpha scheme" "plain_host h" "port_ok p"
  shows "hostname bracketed (scheme @ ''://'' @ with_port h p) = Inr (lower h)"
proof -
  have "contains ''://'' (scheme @ ''://'' @ with_port h p)"
    unfolding contains_def sublist_def by blast
  with lower_name [OF assms(3,4)] urlsplit_site [OF assms] show ?thesis
    by (simp add: hostname_def Let_def split: if_splits)
qed

text \<open>The part before the colon is taken for the host, a user name included.\<close>

lemma hostname_userinfo:
  "hostname bracketed ''http://localhost:x@evil.example'' = Inr ''localhost''"
  by code_simp

lemma hostname_origin:
  assumes "origin_ok o'" "origin_host o' = Some h"
  shows "hostname bracketed (origin_header o') = Inr h"
proof (cases o')
  case Opaque
  have "plain_host ''null''" by (simp add: plain_host_def char_classes)
  then have "hostname bracketed ''null'' = Inr (lower ''null'')"
    using hostname_header [of "''null''" None] by (simp add: port_ok_def)
  moreover have "lower ''null'' = ''null''" by code_simp
  ultimately show ?thesis using Opaque assms by simp
next
  case (Site scheme h' p)
  with assms hostname_site show ?thesis by simp
qed (use assms in simp)

section \<open>Who may write\<close>

text \<open>What the operator declared: the address the server binds to and a list of names.\<close>

definition trusted_names :: "string \<Rightarrow> string list \<Rightarrow> string set" where
  "trusted_names bind names =
     set LOOPBACK_HOSTS \<union> ({lower bind} - {[], ''0.0.0.0''}) \<union> lower ` set names"

definition declared :: "guard_env \<Rightarrow> string \<Rightarrow> string list \<Rightarrow> bool" where
  "declared env bind names \<longleftrightarrow> ge_host env = bind \<and> (bind = [] \<or> plain_host bind)
     \<and> ge_trusted_hosts env = join_with '','' names \<and> list_all plain_host names"

lemma hostname_plain: "plain_host h \<Longrightarrow> hostname bracketed h = Inr (lower h)"
  using hostname_header [of h None] by (simp add: port_ok_def)

lemma py_map_Inr: "\<forall>x \<in> set xs. f x = Inr (g x) \<Longrightarrow> py_map f xs = Inr (map g xs)"
  by (induction xs) auto

lemma hostnames_plain: "list_all plain_host names \<Longrightarrow> py_map (hostname bracketed) names = Inr (map lower names)"
  by (rule py_map_Inr) (simp add: hostname_plain list_all_iff)

lemma split_declared:
  assumes "list_all plain_host names"
  shows "py_map (hostname bracketed) (split_on (CHR '','') (join_with '','' names)) =
    Inr (if names = [] then [[]] else map lower names)"
proof (cases "names = []")
  case False
  have "CHR '','' \<notin> set w" if "w \<in> set names" for w
    using assms that plain_char_excludes by (force simp: plain_host_def list_all_iff)
  with False have "split_on (CHR '','') (join_with '','' names) = names" by (intro split_join) auto
  with False assms show ?thesis by (simp add: hostnames_plain)
qed (simp add: hostname_empty)

lemma trusted_declared:
  assumes "declared env bind names"
  obtains ts where "trusted_write_hosts bracketed env = Inr ts" "set ts = trusted_names bind names"
proof -
  have bind: "hostname bracketed bind = Inr (lower bind)"
    using assms by (auto simp: declared_def hostname_plain hostname_empty lower_def)
  have nonempty: "w \<in> set names \<Longrightarrow> lower w \<noteq> []" for w
    using assms by (auto simp: declared_def list_all_iff plain_host_def lower_def)
  define ts where "ts = LOOPBACK_HOSTS @ (if lower bind \<noteq> [] \<and> lower bind \<noteq> ''0.0.0.0'' then [lower bind] else [])
      @ filter (\<lambda>extra. extra \<noteq> []) (if names = [] then [[]] else map lower names)"
  have "set ts = trusted_names bind names"
    using nonempty by (auto simp: ts_def trusted_names_def)
  moreover have "trusted_write_hosts bracketed env = Inr ts"
    using assms by (simp add: declared_def trusted_write_hosts_def bind split_declared ts_def)
  ultimately show thesis using that by blast
qed

text \<open>
  C12: for the hosts and origins that clients send, the middleware hands a write to the endpoint exactly
  when the named host is trusted and so is the origin, if there is one; the trusted names are the
  loopback names, the bind address unless it is the wildcard, and the declared names, whatever the
  case. Reads pass. So a page of another site and a name that was rebound to this machine are refused
  whatever port, scheme and spelling they use, as is a sandboxed page, unless it was declared.
\<close>

theorem write_guard_decides:
  assumes env: "declared env bind names"
    and host: "plain_host h" "port_ok p" "rq_host rq = with_port h p"
    and origin: "origin_ok o'" "rq_origin rq = origin_header o'"
  shows "block_cross_origin_writes bracketed env rq =
    Inr (if rq_method rq \<in> set WRITE_METHODS
            \<and> (lower h \<notin> trusted_names bind names
               \<or> (\<exists>site. origin_host o' = Some site \<and> site \<notin> trusted_names bind names))
         then Forbidden else Handled)"
proof (cases "rq_method rq \<in> set WRITE_METHODS")
  case True
  obtain ts where ts: "trusted_write_hosts bracketed env = Inr ts" "set ts = trusted_names bind names"
    using env by (rule trusted_declared)
  show ?thesis
  proof (cases "origin_host o'")
    case None
    then have "rq_origin rq = []" using origin(2) by (cases o') auto
    with True ts host None show ?thesis
      by (simp add: block_cross_origin_writes_def hostname_header)
  next
    case (Some site)
    then have "rq_origin rq \<noteq> []" using origin by (cases o') auto
    with True ts host Some hostname_origin [OF origin(1) Some] origin(2) show ?thesis
      by (auto simp: block_cross_origin_writes_def hostname_header Let_def)
  qed
qed (simp add: block_cross_origin_writes_def)

text \<open>A page of another site that posts to the local server, and the same page when its name is declared.\<close>

definition cross_site_post :: request where
  "cross_site_post = \<lparr>rq_method = ''POST'', rq_host = ''LocalHost:8888'', rq_origin = ''https://Evil.example:444''\<rparr>"

definition guard_with :: "string list \<Rightarrow> guard_env" where
  "guard_with names = \<lparr>ge_host = ''0.0.0.0'', ge_trusted_hosts = join_with '','' names\<rparr>"

lemma write_guard_decides_witness:
  "\<forall>bracketed. block_cross_origin_writes bracketed (guard_with [''proxy.example'']) cross_site_post = Inr Forbidden
   \<and> block_cross_origin_writes bracketed (guard_with [''proxy.example'', ''evil.example'']) cross_site_post = Inr Handled"
proof (rule allI)
  fix bracketed :: "string \<Rightarrow> bool"
  have plain: "list_all plain_host [''0.0.0.0'', ''LocalHost'', ''Evil.example'', ''proxy.example'', ''evil.example'']"
    by code_simp
  have chars: "port_ok (Some ''8888'')" "origin_ok (Site ''https'' ''Evil.example'' (Some ''444''))"
    "lower ''LocalHost'' = ''localhost''" "lower ''Evil.example'' = ''evil.example''"
    "lower ''0.0.0.0'' = ''0.0.0.0''" "lower ''proxy.example'' = ''proxy.example''" "lower ''evil.example'' = ''evil.example''"
    by code_simp+
  have decl: "declared (guard_with names) ''0.0.0.0'' names" if "list_all plain_host names" for names
    using that plain by (simp add: declared_def guard_with_def)
  note decides = write_guard_decides [where bind = "''0.0.0.0''" and h = "''LocalHost''" and p = "Some ''8888''"
      and o' = "Site ''https'' ''Evil.example'' (Some ''444'')" and rq = cross_site_post and bracketed = bracketed]
  show "block_cross_origin_writes bracketed (guard_with [''proxy.example'']) cross_site_post = Inr Forbidden
   \<and> block_cross_origin_writes bracketed (guard_with [''proxy.example'', ''evil.example'']) cross_site_post = Inr Handled"
    using decides [OF decl [of "[''proxy.example'']"]] decides [OF decl [of "[''proxy.example'', ''evil.example'']"]]
      plain chars
    by (simp add: cross_site_post_def WRITE_METHODS_def trusted_names_def LOOPBACK_HOSTS_def)
qed

end
