(* ===== verification/EnvFiles.thy ===== *)
theory EnvFiles
  imports Prelude
begin

text \<open>
  The environment files of \<open>ui/utils/env_files.py\<close>: the connection settings are kept as KEY=VALUE lines
  in two files and in the environment of the process. A file is its text, \<open>None\<close> when it does not
  exist; permissions are not modelled.
\<close>

section \<open>Lines\<close>

text \<open>
  \<open>str.splitlines()\<close> on the text as \<open>read_text\<close> returns it: a carriage return with a line feed is one
  break, and a break at the end opens no line.
\<close>

definition is_break :: "char \<Rightarrow> bool" where
  "is_break c \<longleftrightarrow> of_char c \<in> {10, 11, 12, 13, 28, 29, 30, 133 :: nat}"

fun splitlines :: "string \<Rightarrow> string list" where
  "splitlines [] = []"
| "splitlines [c] = (if is_break c then [[]] else [[c]])"
| "splitlines (c # d # s) =
     (if of_char c = (13 :: nat) \<and> of_char d = (10 :: nat) then [] # splitlines s
      else if is_break c then [] # splitlines (d # s)
      else (case splitlines (d # s) of [] \<Rightarrow> [[c]] | w # ws \<Rightarrow> (c # w) # ws))"

definition line_key :: "string \<Rightarrow> string option" where
  "line_key line = (if CHR ''='' \<in> set line then Some (takeWhile (\<lambda>c. c \<noteq> CHR ''='') line) else None)"

definition setting :: "string \<times> string \<Rightarrow> string" where
  "setting kv = fst kv @ CHR ''='' # snd kv"

section \<open>Writing\<close>

text \<open>The loop over the lines: what is written and what remains to be appended.\<close>

fun set_lines :: "(string, string) dict \<Rightarrow> string list \<Rightarrow> string list \<times> (string, string) dict" where
  "set_lines remaining [] = ([], remaining)"
| "set_lines remaining (line # lines) =
     (case line_key line of
        Some key \<Rightarrow>
          (case map_of remaining key of
             Some v \<Rightarrow> apfst (Cons (setting (key, v))) (set_lines (AList.delete key remaining) lines)
           | None \<Rightarrow> apfst (Cons line) (set_lines remaining lines))
      | None \<Rightarrow> apfst (Cons line) (set_lines remaining lines))"

definition write_env_text :: "(string, string) dict \<Rightarrow> string option \<Rightarrow> string" where
  "write_env_text values text =
     (let lines = (case text of None \<Rightarrow> [] | Some s \<Rightarrow> splitlines s);
          (out, remaining) = set_lines (filter (\<lambda>(k, v). v \<noteq> []) values) lines
      in join_with [CHR 0x0A] (out @ map setting remaining) @ [CHR 0x0A])"

definition write_env_files :: "(string, string) dict \<Rightarrow> string option list \<Rightarrow> string option list" where
  "write_env_files values files = map (\<lambda>text. Some (write_env_text values text)) files"

section \<open>The environment of the process\<close>

type_synonym environ = "string \<rightharpoonup> string"

text \<open>A value with a NUL character raises; the settings before it have been exported.\<close>

fun apply_to_env :: "(string, string) dict \<Rightarrow> environ \<Rightarrow> unit pyexc option \<times> environ" where
  "apply_to_env [] env = (None, env)"
| "apply_to_env ((key, v) # values) env =
     (if v = [] then apply_to_env values env
      else if CHR 0x00 \<in> set v then (Some ValueError, env)
      else apply_to_env values (env(key \<mapsto> v)))"

section \<open>Clearing\<close>

definition clear_env_text :: "string list \<Rightarrow> string \<Rightarrow> string" where
  "clear_env_text keys text =
     (let out = filter (\<lambda>line. line_key line \<notin> Some ` set keys) (splitlines text)
      in join_with [CHR 0x0A] out @ (if out \<noteq> [] then [CHR 0x0A] else []))"

definition clear_env_keys ::
    "string list \<Rightarrow> string option list \<Rightarrow> environ \<Rightarrow> string option list \<times> environ" where
  "clear_env_keys keys files env =
     (map (map_option (clear_env_text keys)) files, env |` (- set keys))"

section \<open>Splitting and joining lines\<close>

definition one_line :: "string \<Rightarrow> bool" where
  "one_line s \<longleftrightarrow> list_all (\<lambda>c. \<not> is_break c) s"

lemma splitlines_one_line: "line \<in> set (splitlines s) \<Longrightarrow> one_line line"
  by (induction s arbitrary: line rule: splitlines.induct)
    (auto simp: one_line_def split: if_splits list.splits)

lemma is_break_LF: "is_break (CHR 0x0A)"
  by (simp add: is_break_def)

lemma splitlines_LF: "splitlines (CHR 0x0A # s) = [] # splitlines s"
  by (cases s) (simp_all add: is_break_LF)

lemma splitlines_cons:
  "\<not> is_break c \<Longrightarrow> splitlines (c # s) = (case splitlines s of [] \<Rightarrow> [[c]] | w # ws \<Rightarrow> (c # w) # ws)"
  by (cases s) (auto simp: is_break_def)

lemma splitlines_append: "one_line w \<Longrightarrow> splitlines (w @ CHR 0x0A # s) = w # splitlines s"
  by (induction w) (simp_all add: splitlines_LF splitlines_cons one_line_def)

lemma splitlines_join:
  "list_all one_line ls \<Longrightarrow> ls \<noteq> [] \<Longrightarrow> splitlines (join_with [CHR 0x0A] ls @ [CHR 0x0A]) = ls"
  by (induction ls rule: induct_list012) (simp_all add: splitlines_append)

section \<open>What a file sets\<close>

text \<open>The values that the lines of a text give to a key, in order.\<close>

definition assigned_in :: "string list \<Rightarrow> string \<Rightarrow> string list" where
  "assigned_in lines k = map (drop (length k + 1)) (filter (\<lambda>l. line_key l = Some k) lines)"

definition assigned :: "string option \<Rightarrow> string \<Rightarrow> string list" where
  "assigned text k = (case text of None \<Rightarrow> [] | Some s \<Rightarrow> assigned_in (splitlines s) k)"

definition key_ok :: "string \<Rightarrow> bool" where
  "key_ok k \<longleftrightarrow> CHR ''='' \<notin> set k \<and> one_line k"

definition values_ok :: "(string, string) dict \<Rightarrow> bool" where
  "values_ok values \<longleftrightarrow> distinct (map fst values) \<and> list_all (\<lambda>(k, v). key_ok k \<and> one_line v) values"

lemma line_key_setting: "CHR ''='' \<notin> set k \<Longrightarrow> line_key (setting (k, v)) = Some k"
  by (induction k) (auto simp: line_key_def setting_def split: if_splits)

lemma line_key_plain: "line_key l = Some k \<Longrightarrow> CHR ''='' \<notin> set k"
  by (auto simp: line_key_def dest: set_takeWhileD split: if_splits)

lemma assigned_in_append: "assigned_in (xs @ ys) k = assigned_in xs k @ assigned_in ys k"
  by (simp add: assigned_in_def)

lemma assigned_in_simps [simp]:
  "assigned_in [] k = []"
  "assigned_in (l # ls) k =
     (if line_key l = Some k then drop (length k + 1) l # assigned_in ls k else assigned_in ls k)"
  by (simp_all add: assigned_in_def)

lemma setting_value [simp]: "drop (Suc (length k)) (setting (k, v)) = v"
  by (simp add: setting_def)

lemma assigned_in_settings:
  "distinct (map fst d) \<Longrightarrow> list_all (\<lambda>(k, v). CHR ''='' \<notin> set k) d \<Longrightarrow>
   assigned_in (map setting d) k = (case map_of d k of None \<Rightarrow> [] | Some v \<Rightarrow> [v])"
proof (induction d)
  case (Cons kv d)
  then show ?case
    by (cases kv) (auto simp: line_key_setting split: option.splits intro: rev_image_eqI)
qed simp

lemma set_lines_assigned:
  assumes "distinct (map fst remaining)" "list_all (\<lambda>(k, v). CHR ''='' \<notin> set k) remaining"
    and "set_lines remaining lines = (out, rest)"
  shows "assigned_in (out @ map setting rest) k =
    (case map_of remaining k of None \<Rightarrow> assigned_in lines k | Some v \<Rightarrow> v # tl (assigned_in lines k))"
  using assms
proof (induction lines arbitrary: remaining out rest)
  case Nil
  then show ?case by (auto simp: assigned_in_settings split: option.splits)
next
  case (Cons line lines)
  show ?case
  proof (cases "\<exists>key v. line_key line = Some key \<and> map_of remaining key = Some v")
    case True
    then obtain key v where key: "line_key line = Some key" "map_of remaining key = Some v" by blast
    obtain out' where out: "out = setting (key, v) # out'"
      and rec: "set_lines (AList.delete key remaining) lines = (out', rest)"
      using Cons.prems(3) key by (cases "set_lines (AList.delete key remaining) lines") auto
    have "distinct (map fst (AList.delete key remaining))" by (simp add: Cons.prems(1) distinct_delete)
    moreover have "list_all (\<lambda>(k, v). CHR ''='' \<notin> set k) (AList.delete key remaining)"
      using Cons.prems(2) by (auto simp: list_all_iff AList.delete_eq)
    ultimately have IH: "assigned_in (out' @ map setting rest) k =
        (case map_of (AList.delete key remaining) k of None \<Rightarrow> assigned_in lines k
         | Some v \<Rightarrow> v # tl (assigned_in lines k))"
      by (rule Cons.IH [OF _ _ rec])
    show ?thesis
      using IH key line_key_plain [OF key(1)] out
      by (auto simp: line_key_setting delete_conv' split: option.splits)
  next
    case False
    obtain out' where out: "out = line # out'" and rec: "set_lines remaining lines = (out', rest)"
      using Cons.prems(3) False by (cases "set_lines remaining lines") (auto split: option.splits)
    have "map_of remaining k = None" if "line_key line = Some k"
      using False that by (cases "map_of remaining k") auto
    with Cons.IH [OF Cons.prems(1,2) rec] out show ?thesis
      by (auto split: option.splits)
  qed
qed

section \<open>What writing and clearing leave\<close>

lemma set_lines_one_line:
  assumes "list_all one_line lines" "list_all (\<lambda>(k, v). key_ok k \<and> one_line v) remaining"
    and "set_lines remaining lines = (out, rest)"
  shows "list_all one_line (out @ map setting rest)"
  using assms
proof (induction lines arbitrary: remaining out rest)
  case Nil
  then show ?case
    by (auto simp: list_all_iff one_line_def key_ok_def setting_def is_break_def)
next
  case (Cons line lines)
  have step: "list_all one_line (l # out' @ map setting rest)"
    if "one_line l" "set_lines r lines = (out', rest)" "list_all (\<lambda>(k, v). key_ok k \<and> one_line v) r" for l r out'
    using that Cons.IH [OF _ that(3,2)] Cons.prems(1) by simp
  show ?case
  proof (cases "\<exists>key v. line_key line = Some key \<and> map_of remaining key = Some v")
    case True
    then obtain key v where key: "line_key line = Some key" "map_of remaining key = Some v" by blast
    then have "key_ok key \<and> one_line v"
      using Cons.prems(2) by (auto simp: list_all_iff dest: map_of_SomeD)
    then have "one_line (setting (key, v))"
      by (simp add: one_line_def key_ok_def setting_def is_break_def)
    moreover have "list_all (\<lambda>(k, v). key_ok k \<and> one_line v) (AList.delete key remaining)"
      using Cons.prems(2) by (auto simp: list_all_iff AList.delete_eq)
    moreover obtain out' where "out = setting (key, v) # out'" "set_lines (AList.delete key remaining) lines = (out', rest)"
      using Cons.prems(3) key by (cases "set_lines (AList.delete key remaining) lines") auto
    ultimately show ?thesis using step by simp
  next
    case False
    then obtain out' where "out = line # out'" "set_lines remaining lines = (out', rest)"
      using Cons.prems(3) by (cases "set_lines remaining lines") (auto split: option.splits)
    then show ?thesis using step [of line remaining out'] Cons.prems(1,2) by simp
  qed
qed

lemma map_of_nonempty:
  "distinct (map fst d) \<Longrightarrow> map_of (filter (\<lambda>(k, v). v \<noteq> []) d) k =
   (case map_of d k of Some v \<Rightarrow> if v = [] then None else Some v | None \<Rightarrow> None)"
proof (induction d)
  case (Cons kv d)
  then have "map_of d (fst kv) = None" by (simp add: map_of_eq_None_iff)
  with Cons show ?case by (cases kv) auto
qed simp

lemma assigned_written:
  assumes ok: "values_ok values"
  shows "assigned (Some (write_env_text values text)) k =
    (case map_of values k of
       None \<Rightarrow> assigned text k
     | Some v \<Rightarrow> if v = [] then assigned text k else v # tl (assigned text k))"
proof -
  define lines where "lines = (case text of None \<Rightarrow> [] | Some s \<Rightarrow> splitlines s)"
  define vs where "vs = filter (\<lambda>(k, v). v \<noteq> []) values"
  obtain out rest where set: "set_lines vs lines = (out, rest)" by fastforce
  have lines: "list_all one_line lines"
    by (auto simp: lines_def list_all_iff splitlines_one_line split: option.splits)
  have vs: "list_all (\<lambda>(k, v). key_ok k \<and> one_line v) vs" "distinct (map fst vs)"
    "list_all (\<lambda>(k, v). CHR ''='' \<notin> set k) vs"
    using ok by (auto simp: vs_def values_ok_def list_all_iff key_ok_def distinct_map_filter)
  have "assigned (Some (write_env_text values text)) k = assigned_in (out @ map setting rest) k"
    using splitlines_join [OF set_lines_one_line [OF lines vs(1) set]] set
    by (cases "out @ map setting rest = []")
      (auto simp: write_env_text_def assigned_def Let_def lines_def [symmetric] vs_def [symmetric] line_key_def
        splitlines_LF)
  also have "\<dots> = (case map_of vs k of None \<Rightarrow> assigned_in lines k | Some v \<Rightarrow> v # tl (assigned_in lines k))"
    by (rule set_lines_assigned [OF vs(2,3) set])
  also have "assigned_in lines k = assigned text k"
    by (auto simp: lines_def assigned_def split: option.splits)
  also have "map_of vs k = (case map_of values k of Some v \<Rightarrow> if v = [] then None else Some v | None \<Rightarrow> None)"
    using ok by (simp add: vs_def map_of_nonempty values_ok_def)
  finally show ?thesis by (auto split: option.splits)
qed

lemma assigned_in_filter:
  "assigned_in (filter (\<lambda>line. line_key line \<notin> Some ` K) lines) k = (if k \<in> K then [] else assigned_in lines k)"
  by (induction lines) auto

lemma assigned_cleared:
  "assigned (map_option (clear_env_text keys) text) k = (if k \<in> set keys then [] else assigned text k)"
proof (cases "text")
  case (Some s)
  let ?out = "filter (\<lambda>line. line_key line \<notin> Some ` set keys) (splitlines s)"
  have "list_all one_line ?out" by (auto simp: list_all_iff splitlines_one_line)
  then have "splitlines (clear_env_text keys s) = ?out"
    by (cases "?out = []") (simp_all add: clear_env_text_def splitlines_join)
  with Some show ?thesis by (simp add: assigned_def assigned_in_filter)
qed (simp add: assigned_def)

definition nul_free :: "(string, string) dict \<Rightarrow> bool" where
  "nul_free values \<longleftrightarrow> list_all (\<lambda>(k, v). CHR 0x00 \<notin> set v) values"

lemma apply_to_env_ok:
  "nul_free values \<Longrightarrow> distinct (map fst values) \<Longrightarrow>
   apply_to_env values env =
     (None, \<lambda>k. case map_of values k of None \<Rightarrow> env k | Some v \<Rightarrow> if v = [] then env k else Some v)"
proof (induction "values" env rule: apply_to_env.induct)
  case (2 key v vs env)
  have "map_of vs key = None" using 2(4) by (simp add: map_of_eq_None_iff)
  then have "(\<lambda>k. case map_of vs k of None \<Rightarrow> (env(key \<mapsto> v)) k
        | Some v' \<Rightarrow> if v' = [] then (env(key \<mapsto> v)) k else Some v') =
      (\<lambda>k. case map_of ((key, v) # vs) k of None \<Rightarrow> env k | Some v' \<Rightarrow> if v' = [] then env k else Some v')"
    if "v \<noteq> []"
    using that by (auto simp: fun_eq_iff split: option.splits)
  moreover have "(\<lambda>k. case map_of vs k of None \<Rightarrow> env k | Some v' \<Rightarrow> if v' = [] then env k else Some v') =
      (\<lambda>k. case map_of ((key, []) # vs) k of None \<Rightarrow> env k | Some v' \<Rightarrow> if v' = [] then env k else Some v')"
    using \<open>map_of vs key = None\<close> by (auto simp: fun_eq_iff)
  ultimately show ?case using 2 by (cases "v = []") (simp_all add: nul_free_def fun_upd_def)
qed (simp add: nul_free_def)

lemma apply_to_env_raises: "\<not> nul_free values \<Longrightarrow> fst (apply_to_env values env) = Some ValueError"
  by (induction "values" env rule: apply_to_env.induct) (auto simp: nul_free_def)

section \<open>The lines of a file, one by one\<close>

definition file_lines :: "string option \<Rightarrow> string list" where
  "file_lines text = (case text of None \<Rightarrow> [] | Some s \<Rightarrow> splitlines s)"

text \<open>
  What a save makes of the line at a position: the first line of a key that is saved is replaced, every
  other line (comments, blank lines, other keys, a later line of the same key) is kept as it is.
  The keys that no line sets follow at the end.
\<close>

definition saved_line :: "(string, string) dict \<Rightarrow> string list \<Rightarrow> nat \<Rightarrow> string" where
  "saved_line settings lines i =
     (case line_key (lines ! i) of
        None \<Rightarrow> lines ! i
      | Some k \<Rightarrow>
          (case map_of settings k of
             None \<Rightarrow> lines ! i
           | Some v \<Rightarrow> if Some k \<in> line_key ` set (take i lines) then lines ! i else setting (k, v)))"

definition saved_lines :: "(string, string) dict \<Rightarrow> string list \<Rightarrow> string list" where
  "saved_lines settings lines =
     map (saved_line settings lines) [0..<length lines]
     @ map setting (filter (\<lambda>(k, v). Some k \<notin> line_key ` set lines) settings)"

lemma set_lines_saved:
  "set_lines settings lines =
     (map (saved_line settings lines) [0..<length lines], filter (\<lambda>(k, v). Some k \<notin> line_key ` set lines) settings)"
proof (induction lines arbitrary: settings)
  case Nil
  then show ?case by simp
next
  case (Cons line lines)
  have shift: "map f [0..<length (line # lines)] = f 0 # map (\<lambda>i. f (Suc i)) [0..<length lines]" for f :: "nat \<Rightarrow> string"
    by (simp add: upt_conv_Cons map_Suc_upt [symmetric] comp_def del: upt_Suc)
  show ?case
  proof (cases "\<exists>key v. line_key line = Some key \<and> map_of settings key = Some v")
    case True
    then obtain key v where key: "line_key line = Some key" "map_of settings key = Some v" by blast
    have "saved_line (AList.delete key settings) lines i = saved_line settings (line # lines) (Suc i)" for i
      using key by (auto simp: saved_line_def delete_conv' split: option.splits)
    then have "saved_line (AList.delete key settings) lines = (\<lambda>i. saved_line settings (line # lines) (Suc i))" by blast
    moreover have "filter (\<lambda>(k, v). Some k \<notin> line_key ` set lines) (AList.delete key settings)
        = filter (\<lambda>(k, v). Some k \<notin> line_key ` set (line # lines)) settings"
      using key by (auto simp: AList.delete_eq filter_filter intro!: filter_cong)
    moreover have "saved_line settings (line # lines) 0 = setting (key, v)"
      using key by (simp add: saved_line_def)
    ultimately show ?thesis
      using key by (simp only: set_lines.simps option.case Cons.IH shift apfst_conv)
  next
    case False
    have "saved_line settings lines i = saved_line settings (line # lines) (Suc i)" for i
      using False by (auto simp: saved_line_def split: option.splits)
    then have "saved_line settings lines = (\<lambda>i. saved_line settings (line # lines) (Suc i))" by blast
    moreover have "filter (\<lambda>(k, v). Some k \<notin> line_key ` set lines) settings
        = filter (\<lambda>(k, v). Some k \<notin> line_key ` set (line # lines)) settings"
    proof (rule filter_cong [OF refl])
      fix kv assume "kv \<in> set settings"
      then have "map_of settings (fst kv) \<noteq> None" by (simp add: map_of_eq_None_iff)
      with False have "line_key line \<noteq> Some (fst kv)" by blast
      then show "(case kv of (k, v) \<Rightarrow> Some k \<notin> line_key ` set lines)
          = (case kv of (k, v) \<Rightarrow> Some k \<notin> line_key ` set (line # lines))" by (cases kv) auto
    qed
    moreover have "saved_line settings (line # lines) 0 = line"
      using False by (auto simp: saved_line_def split: option.splits)
    moreover have "set_lines settings (line # lines) = apfst (Cons line) (set_lines settings lines)"
      using False by (auto split: option.splits)
    ultimately show ?thesis by (simp only: Cons.IH shift apfst_conv)
  qed
qed

lemma written_lines:
  assumes "values_ok values"
  shows "file_lines (Some (write_env_text values text)) =
    (let ls = saved_lines (filter (\<lambda>(k, v). v \<noteq> []) values) (file_lines text) in if ls = [] then [[]] else ls)"
proof -
  let ?vs = "filter (\<lambda>(k, v). v \<noteq> []) values"
  have lines: "list_all one_line (file_lines text)"
    by (auto simp: file_lines_def list_all_iff splitlines_one_line split: option.splits)
  have vs: "list_all (\<lambda>(k, v). key_ok k \<and> one_line v) ?vs"
    using assms by (auto simp: values_ok_def list_all_iff)
  have ok: "list_all one_line (saved_lines ?vs (file_lines text))"
    using set_lines_one_line [OF lines vs set_lines_saved] by (simp add: saved_lines_def)
  have "write_env_text values text = join_with [CHR 0x0A] (saved_lines ?vs (file_lines text)) @ [CHR 0x0A]"
    by (simp add: write_env_text_def Let_def file_lines_def [symmetric] set_lines_saved saved_lines_def)
  then show ?thesis
    using splitlines_join [OF ok] by (cases "saved_lines ?vs (file_lines text) = []")
      (simp_all add: file_lines_def splitlines_LF is_break_LF)
qed

lemma cleared_lines:
  "file_lines (map_option (clear_env_text keys) text) = filter (\<lambda>line. line_key line \<notin> Some ` set keys) (file_lines text)"
proof (cases "text")
  case (Some s)
  let ?out = "filter (\<lambda>line. line_key line \<notin> Some ` set keys) (splitlines s)"
  have "list_all one_line ?out" by (auto simp: list_all_iff splitlines_one_line)
  then have "splitlines (clear_env_text keys s) = ?out"
    by (cases "?out = []") (simp_all add: clear_env_text_def splitlines_join)
  with Some show ?thesis by (simp add: file_lines_def)
qed (simp add: file_lines_def)

text \<open>
  C28: for settings of one line, a save rewrites every environment file line by line: the first line of
  each saved key gets the new value, every other line, comments and blank ones included, stays as it was
  and in its place, and the keys that no line set follow at the end. The key then reads as the new value
  (a later line of the same key keeps its old one, as the code replaces the first only), empty values
  change nothing, and the process has the same values. Clearing keys removes exactly the lines that
  set them, from every file, and the keys from the process. So a saved value is read back, and is
  gone after it was cleared.
\<close>

theorem env_settings_roundtrip:
  assumes "values_ok values" "nul_free values"
  shows "map file_lines (write_env_files values files) =
      map (\<lambda>text. let ls = saved_lines (filter (\<lambda>(k, v). v \<noteq> []) values) (file_lines text)
             in if ls = [] then [[]] else ls) files
    \<and> map (\<lambda>text. assigned text k) (write_env_files values files) =
      map (\<lambda>text. case map_of values k of
          None \<Rightarrow> assigned text k
        | Some v \<Rightarrow> if v = [] then assigned text k else v # tl (assigned text k)) files
    \<and> (\<exists>env'. apply_to_env values env = (None, env')
         \<and> env' k = (case map_of values k of None \<Rightarrow> env k | Some v \<Rightarrow> if v = [] then env k else Some v)
         \<and> (case clear_env_keys keys (write_env_files values files) env' of (files'', env'') \<Rightarrow>
              map file_lines files'' =
                map (\<lambda>text. filter (\<lambda>line. line_key line \<notin> Some ` set keys) (file_lines text)) (write_env_files values files)
              \<and> (if k \<in> set keys then env'' k = None \<and> list_all (\<lambda>text. assigned text k = []) files''
                 else env'' k = env' k
                   \<and> map (\<lambda>text. assigned text k) files'' = map (\<lambda>text. assigned text k) (write_env_files values files))))"
  using assms apply_to_env_ok [of "values" env]
  by (auto simp: write_env_files_def clear_env_keys_def assigned_written written_lines values_ok_def list_all_iff
      cleared_lines [of keys "Some s" for s, simplified]
      assigned_cleared [of keys "Some s" for s, simplified])

lemma env_settings_roundtrip_witness:
  "assigned (write_env_files [(''AWS_ROLE_ARN'', ''arn:b''), (''AWS_EXTERNAL_ID'', [])]
      [Some (''# account'' @ [CHR 0x0A] @ ''AWS_ROLE_ARN=arn:a''), None] ! 0) ''AWS_ROLE_ARN'' = [''arn:b'']
   \<and> file_lines (write_env_files [(''AWS_ROLE_ARN'', ''arn:b''), (''AWS_EXTERNAL_ID'', [])]
      [Some (''# account'' @ [CHR 0x0A] @ ''AWS_ROLE_ARN=arn:a''), None] ! 0) = [''# account'', ''AWS_ROLE_ARN=arn:b'']"
proof -
  let ?text = "Some (''# account'' @ [CHR 0x0A] @ ''AWS_ROLE_ARN=arn:a'')"
  let ?v = "[(''AWS_ROLE_ARN'', ''arn:b''), (''AWS_EXTERNAL_ID'', [])]"
  have ok: "values_ok ?v" "nul_free ?v" by code_simp+
  have before: "assigned ?text ''AWS_ROLE_ARN'' = [''arn:a'']" by code_simp
  have saved: "saved_lines (filter (\<lambda>(k, v). v \<noteq> []) ?v) (file_lines ?text) = [''# account'', ''AWS_ROLE_ARN=arn:b'']"
    by code_simp
  note trip = env_settings_roundtrip [OF ok, where files = "[?text, None]" and k = "''AWS_ROLE_ARN''"]
  have "assigned (write_env_files ?v [?text, None] ! 0) ''AWS_ROLE_ARN'' = [''arn:b'']"
    using trip [THEN conjunct2, THEN conjunct1] before by (simp add: write_env_files_def)
  moreover have "file_lines (write_env_files ?v [?text, None] ! 0) = [''# account'', ''AWS_ROLE_ARN=arn:b'']"
    using trip [THEN conjunct1] saved by (simp add: write_env_files_def Let_def)
  ultimately show ?thesis ..
qed

text \<open>A value with a line break sets other keys.\<close>

lemma line_break_injects:
  "assigned (Some (write_env_text [(''AWS_EXTERNAL_ID'', ''x'' @ [CHR 0x0A] @ ''AWS_ROLE_ARN=arn:evil'')] None))
     ''AWS_ROLE_ARN'' = [''arn:evil'']"
  by code_simp

end
