(* ===== verification/AwsClients.thy ===== *)
theory AwsClients
  imports EnvFiles
begin

text \<open>
  Which identity the program uses towards AWS: \<open>AWSConfig\<close> of \<open>src/core/config.py\<close> and the client
  factory of \<open>src/core/aws_clients.py\<close>, with its cache of sessions. A session stands for the
  credentials it was built with; the network is not involved.
\<close>

section \<open>Configuration\<close>

record aws_config =
  ac_region :: string
  ac_account_id :: string
  ac_access_key_id :: "string option"
  ac_secret_access_key :: "string option"
  ac_role_arn :: "string option"
  ac_write_role_arn :: "string option"
  ac_external_id :: "string option"
  ac_role_session_name :: string

definition getenv :: "environ \<Rightarrow> string \<Rightarrow> string \<Rightarrow> string" where
  "getenv env k dflt = (case env k of None \<Rightarrow> dflt | Some v \<Rightarrow> v)"

definition from_env :: "environ \<Rightarrow> aws_config" where
  "from_env env =
     \<lparr>ac_region = getenv env ''AWS_REGION'' ''eu-west-1'',
      ac_account_id = getenv env ''AWS_ACCOUNT_ID'' [],
      ac_access_key_id = env ''AWS_ACCESS_KEY_ID'',
      ac_secret_access_key = env ''AWS_SECRET_ACCESS_KEY'',
      ac_role_arn = env ''AWS_ROLE_ARN'',
      ac_write_role_arn = env ''AWS_WRITE_ROLE_ARN'',
      ac_external_id = env ''AWS_EXTERNAL_ID'',
      ac_role_session_name = getenv env ''AWS_ROLE_SESSION_NAME'' ''wasteless''\<rparr>"

section \<open>Sessions\<close>

text \<open>A role is assumed with an external id, if there is one, under a session name.\<close>

datatype session = DefaultChain | Assumed string "string option" string

datatype client_error = NoSourceCredentials | WriteRoleMissing | BotoError string

type_synonym sessions = "string \<rightharpoonup> session"

definition DEFAULT_KEY :: string where
  "DEFAULT_KEY = ''__default_chain__''"

text \<open>
  What botocore and boto3 answer, each with the text of the exception it may raise: whether the
  default chain finds credentials to assume a role with, the building of a session, and the creation
  of a client of a session in a region.
\<close>

record boto =
  bo_credentials :: "string + bool"
  bo_session :: "session \<Rightarrow> string option"
  bo_client :: "session \<Rightarrow> string \<Rightarrow> string option"

definition boto_session :: "boto \<Rightarrow> session \<Rightarrow> client_error + session" where
  "boto_session boto session =
     (case bo_session boto session of Some e \<Rightarrow> Inl (BotoError e) | None \<Rightarrow> Inr session)"

definition assumed_session ::
    "boto \<Rightarrow> string \<Rightarrow> string option \<Rightarrow> string \<Rightarrow> client_error + session" where
  "assumed_session boto role_arn external_id session_name =
     (case bo_credentials boto of
        Inl e \<Rightarrow> Inl (BotoError e)
      | Inr False \<Rightarrow> Inl NoSourceCredentials
      | Inr True \<Rightarrow>
          boto_session boto
            (Assumed role_arn (if truthy external_id then external_id else None) session_name))"

definition build_session ::
    "boto \<Rightarrow> string option \<Rightarrow> string option \<Rightarrow> string \<Rightarrow> client_error + session" where
  "build_session boto role_arn external_id session_name =
     (case role_arn of
        None \<Rightarrow> boto_session boto DefaultChain
      | Some role \<Rightarrow> assumed_session boto role external_id session_name)"

definition select_role_arn :: "aws_config \<Rightarrow> bool \<Rightarrow> client_error + string option" where
  "select_role_arn config write =
     (if write then
        if truthy (ac_write_role_arn config) then Inr (ac_write_role_arn config)
        else if truthy (ac_role_arn config) then Inl WriteRoleMissing
        else Inr None
      else Inr (if truthy (ac_role_arn config) then ac_role_arn config else None))"

text \<open>
  A client is a session and a region. A session that was built stays in the cache when the client
  cannot be created from it.
\<close>

definition boto_client :: "boto \<Rightarrow> session \<Rightarrow> string \<Rightarrow> client_error + session \<times> string" where
  "boto_client boto session region =
     (case bo_client boto session region of Some e \<Rightarrow> Inl (BotoError e) | None \<Rightarrow> Inr (session, region))"

definition get_client ::
    "boto \<Rightarrow> environ \<Rightarrow> string option \<Rightarrow> bool \<Rightarrow> sessions
     \<Rightarrow> (client_error + session \<times> string) \<times> sessions" where
  "get_client boto env region write sessions =
     (let config = from_env env
      in case select_role_arn config write of
           Inl e \<Rightarrow> (Inl e, sessions)
         | Inr role_arn \<Rightarrow>
             let resolved_region = or_default region (ac_region config);
                 key = or_default role_arn DEFAULT_KEY
             in case sessions key of
                  Some session \<Rightarrow> (boto_client boto session resolved_region, sessions)
                | None \<Rightarrow>
                    (case build_session boto role_arn (ac_external_id config) (ac_role_session_name config) of
                       Inl e \<Rightarrow> (Inl e, sessions)
                     | Inr session \<Rightarrow>
                         (boto_client boto session resolved_region, sessions(key \<mapsto> session))))"

definition reset_cache :: "sessions \<Rightarrow> sessions" where
  "reset_cache sessions = Map.empty"

section \<open>The cache never mixes identities\<close>

text \<open>
  The life of the cache in a process: clients are created while the environment changes, and the
  cache is dropped now and then. No configured role has the name of the key of the default chain.
\<close>

definition roles_named :: "environ \<Rightarrow> bool" where
  "roles_named env \<longleftrightarrow> env ''AWS_ROLE_ARN'' \<noteq> Some DEFAULT_KEY \<and> env ''AWS_WRITE_ROLE_ARN'' \<noteq> Some DEFAULT_KEY"

inductive cached :: "sessions \<Rightarrow> bool" where
  cached_empty: "cached Map.empty"
| cached_client: "cached ss \<Longrightarrow> roles_named env \<Longrightarrow> cached (snd (get_client boto env region write ss))"
| cached_reset: "cached ss \<Longrightarrow> cached (reset_cache ss)"

definition session_for :: "string \<Rightarrow> session \<Rightarrow> bool" where
  "session_for key s \<longleftrightarrow>
     (if key = DEFAULT_KEY then s = DefaultChain else \<exists>external_id name. s = Assumed key external_id name)"

lemma boto_answers [simp]:
  "boto_session boto s = Inr s' \<longleftrightarrow> s' = s \<and> bo_session boto s = None"
  "boto_client boto s region = Inr (s', r) \<longleftrightarrow> s' = s \<and> r = region \<and> bo_client boto s region = None"
  by (auto simp: boto_session_def boto_client_def split: option.splits)

lemma assumed_session_ok:
  "assumed_session boto role e n = Inr s
   \<Longrightarrow> s = Assumed role (if truthy e then e else None) n"
  by (auto simp: assumed_session_def split: sum.splits bool.splits)

lemma build_session_for:
  assumes "build_session boto role_arn e n = Inr s" "role_arn \<noteq> Some DEFAULT_KEY" "role_arn \<noteq> Some []"
  shows "session_for (or_default role_arn DEFAULT_KEY) s"
  using assms by (auto simp: build_session_def session_for_def or_default_def dest: assumed_session_ok
      split: option.splits if_splits)

lemma selected_role:
  assumes "select_role_arn (from_env env) write = Inr role_arn" "roles_named env"
  shows "role_arn \<noteq> Some DEFAULT_KEY" "role_arn \<noteq> Some []"
  using assms by (auto simp: select_role_arn_def from_env_def roles_named_def split: if_splits)

lemma cached_sessions: "cached ss \<Longrightarrow> ss key = Some s \<Longrightarrow> session_for key s"
proof (induction arbitrary: key s rule: cached.induct)
  case (cached_client ss env boto region wr)
  show ?case
  proof (cases "ss key = Some s")
    case True
    then show ?thesis by (rule cached_client.IH)
  next
    case False
    with cached_client.prems obtain role_arn where
      role: "select_role_arn (from_env env) wr = Inr role_arn" and key: "key = or_default role_arn DEFAULT_KEY"
      and build: "build_session boto role_arn (ac_external_id (from_env env)) (ac_role_session_name (from_env env)) = Inr s"
      by (auto simp: get_client_def Let_def split: sum.splits option.splits if_splits)
    show ?thesis
      unfolding key by (rule build_session_for [OF build selected_role [OF role cached_client.hyps(2)]])
  qed
qed (simp_all add: reset_cache_def)

text \<open>The session of a client is the cached one, or one that was just built.\<close>

lemma client_source:
  assumes "get_client boto env region write ss = (Inr (s, r), ss')"
  obtains role_arn where "select_role_arn (from_env env) write = Inr role_arn"
    "ss (or_default role_arn DEFAULT_KEY) = Some s
     \<or> ss (or_default role_arn DEFAULT_KEY) = None
       \<and> build_session boto role_arn (ac_external_id (from_env env)) (ac_role_session_name (from_env env)) = Inr s"
    "r = or_default region (ac_region (from_env env))"
proof -
  obtain role_arn where role: "select_role_arn (from_env env) write = Inr role_arn"
    using assms by (cases "select_role_arn (from_env env) write") (auto simp: get_client_def Let_def)
  show thesis
    by (rule that [OF role]) (use assms role in \<open>auto simp: get_client_def Let_def split: option.splits sum.splits\<close>)
qed

lemma client_session:
  assumes "cached ss" "roles_named env" "get_client boto env region write ss = (Inr (s, r), ss')"
  obtains role_arn where "select_role_arn (from_env env) write = Inr role_arn"
    "session_for (or_default role_arn DEFAULT_KEY) s"
proof -
  obtain role_arn where role: "select_role_arn (from_env env) write = Inr role_arn"
    and "ss (or_default role_arn DEFAULT_KEY) = Some s
     \<or> build_session boto role_arn (ac_external_id (from_env env)) (ac_role_session_name (from_env env)) = Inr s"
    using client_source [OF assms(3)] by metis
  then have "session_for (or_default role_arn DEFAULT_KEY) s"
    using cached_sessions [OF assms(1)] build_session_for [OF _ selected_role [OF role assms(2)]] by blast
  with role show thesis by (rule that)
qed

lemma client_pair:
  assumes "fst (get_client boto env region wr ss) = Inr (s, r)"
  obtains ss' where "get_client boto env region wr ss = (Inr (s, r), ss')"
  using assms by (cases "get_client boto env region wr ss") auto

lemma assumed_client:
  assumes "cached ss" "roles_named env" "fst (get_client boto env region wr ss) = Inr (s, r)"
    and role: "select_role_arn (from_env env) wr = Inr (Some role)"
  shows "\<exists>e n. s = Assumed role e n"
proof -
  obtain ss' where "get_client boto env region wr ss = (Inr (s, r), ss')"
    using assms(3) by (rule client_pair)
  then obtain role_arn where "select_role_arn (from_env env) wr = Inr role_arn"
    "session_for (or_default role_arn DEFAULT_KEY) s"
    using client_session [OF assms(1,2)] by blast
  with role selected_role [OF role assms(2)] show ?thesis
    by (simp add: or_default_def session_for_def)
qed

lemma default_client:
  assumes "cached ss" "roles_named env" "fst (get_client boto env region wr ss) = Inr (s, r)"
    and role: "select_role_arn (from_env env) wr = Inr None"
  shows "s = DefaultChain"
proof -
  obtain ss' where "get_client boto env region wr ss = (Inr (s, r), ss')"
    using assms(3) by (rule client_pair)
  then obtain role_arn where "select_role_arn (from_env env) wr = Inr role_arn"
    "session_for (or_default role_arn DEFAULT_KEY) s"
    using client_session [OF assms(1,2)] by blast
  with role show ?thesis by (simp add: or_default_def session_for_def)
qed

text \<open>The identity a session acts under, given the role that is configured.\<close>

definition acts_as :: "string option \<Rightarrow> session \<Rightarrow> bool" where
  "acts_as role s =
     (case s of DefaultChain \<Rightarrow> \<not> truthy role | Assumed arn e n \<Rightarrow> truthy role \<and> role = Some arn)"

lemma client_acts_as:
  assumes "cached ss" "roles_named env" "fst (get_client boto env region wr ss) = Inr (s, r)"
  shows "acts_as (if wr then env ''AWS_WRITE_ROLE_ARN'' else env ''AWS_ROLE_ARN'') s"
proof (cases "truthy (if wr then env ''AWS_WRITE_ROLE_ARN'' else env ''AWS_ROLE_ARN'')")
  case True
  then obtain role where role: "(if wr then env ''AWS_WRITE_ROLE_ARN'' else env ''AWS_ROLE_ARN'') = Some role"
    by (auto simp: truthy_def split: option.splits if_splits)
  with True have "select_role_arn (from_env env) wr = Inr (Some role)"
    by (auto simp: select_role_arn_def from_env_def split: if_splits)
  from assumed_client [OF assms this] True role show ?thesis by (auto simp: acts_as_def)
next
  case False
  with assms(3) have "select_role_arn (from_env env) wr = Inr None"
    by (auto simp: select_role_arn_def from_env_def get_client_def Let_def split: if_splits)
  from default_client [OF assms this] False show ?thesis by (simp add: acts_as_def)
qed

section \<open>Which role a client has\<close>

text \<open>
  C11: whatever clients were created before, under whatever settings, a client for writing has the
  writing role and nothing else, is refused when only the read role is configured, and falls back on
  the default credentials only when no role at all is configured; a client for reading has the read
  role, or the default credentials without one. On a fresh cache the external id is the current one.
  The only other outcome is an exception of boto3 or botocore; there is none where these raise none.
\<close>

theorem client_role_guarded:
  assumes life: "cached ss" and named: "roles_named env"
    and client: "get_client boto env region writing ss = (res, ss')"
  shows "(if writing then
       (case env ''AWS_WRITE_ROLE_ARN'' of
          Some (c # role) \<Rightarrow> \<forall>s r. res = Inr (s, r) \<longrightarrow> (\<exists>e n. s = Assumed (c # role) e n)
        | _ \<Rightarrow> if truthy (env ''AWS_ROLE_ARN'') then res = Inl WriteRoleMissing
              else (\<exists>r. res = Inr (DefaultChain, r)) \<or> (\<exists>e. res = Inl (BotoError e)))
     else
       (case env ''AWS_ROLE_ARN'' of
          Some (c # role) \<Rightarrow> \<forall>s r. res = Inr (s, r) \<longrightarrow> (\<exists>e n. s = Assumed (c # role) e n)
        | _ \<Rightarrow> (\<exists>r. res = Inr (DefaultChain, r)) \<or> (\<exists>e. res = Inl (BotoError e))))
    \<and> (\<forall>s r. res = Inr (s, r) \<longrightarrow> r = or_default region (getenv env ''AWS_REGION'' ''eu-west-1'')
         \<and> (\<forall>role e n. ss = Map.empty \<and> s = Assumed role e n \<longrightarrow> or_default e [] = getenv env ''AWS_EXTERNAL_ID'' []))
    \<and> (bo_credentials boto = Inr True \<longrightarrow> res \<noteq> Inl NoSourceCredentials)
    \<and> (bo_credentials boto \<in> range Inr \<and> (\<forall>s. bo_session boto s = None) \<and> (\<forall>s r. bo_client boto s r = None)
         \<longrightarrow> (\<forall>e. res \<noteq> Inl (BotoError e)))"
proof (intro conjI)
  let ?var = "if writing then ''AWS_WRITE_ROLE_ARN'' else ''AWS_ROLE_ARN''"
  have assumed: "\<exists>e n. s = Assumed role e n" if "env ?var = Some role" "role \<noteq> []" "res = Inr (s, r)" for role s r
    using assumed_client [OF life named, of boto region writing s r role] client that
    by (simp add: select_role_arn_def from_env_def split: if_splits)
  have default: "(\<exists>r. res = Inr (DefaultChain, r)) \<or> (\<exists>e. res = Inl (BotoError e))"
    if none: "select_role_arn (from_env env) writing = Inr None"
  proof (cases res)
    case (Inl e)
    with client none show ?thesis
      by (auto simp: get_client_def Let_def build_session_def boto_session_def boto_client_def
          split: option.splits sum.splits)
  next
    case (Inr x)
    with client default_client [OF life named _ none, of boto region "fst x" "snd x"] show ?thesis
      by (cases x) simp
  qed
  show "if writing then
       (case env ''AWS_WRITE_ROLE_ARN'' of
          Some (c # role) \<Rightarrow> \<forall>s r. res = Inr (s, r) \<longrightarrow> (\<exists>e n. s = Assumed (c # role) e n)
        | _ \<Rightarrow> if truthy (env ''AWS_ROLE_ARN'') then res = Inl WriteRoleMissing
              else (\<exists>r. res = Inr (DefaultChain, r)) \<or> (\<exists>e. res = Inl (BotoError e)))
     else
       (case env ''AWS_ROLE_ARN'' of
          Some (c # role) \<Rightarrow> \<forall>s r. res = Inr (s, r) \<longrightarrow> (\<exists>e n. s = Assumed (c # role) e n)
        | _ \<Rightarrow> (\<exists>r. res = Inr (DefaultChain, r)) \<or> (\<exists>e. res = Inl (BotoError e)))"
    using assumed default client
    by (auto simp: select_role_arn_def from_env_def get_client_def Let_def split: option.splits list.splits)
  show "\<forall>s r. res = Inr (s, r) \<longrightarrow> r = or_default region (getenv env ''AWS_REGION'' ''eu-west-1'')
         \<and> (\<forall>role e n. ss = Map.empty \<and> s = Assumed role e n \<longrightarrow> or_default e [] = getenv env ''AWS_EXTERNAL_ID'' [])"
  proof (intro allI impI conjI)
    fix s r
    assume res: "res = Inr (s, r)"
    with client obtain role_arn where
      built: "ss (or_default role_arn DEFAULT_KEY) = Some s
        \<or> build_session boto role_arn (ac_external_id (from_env env)) (ac_role_session_name (from_env env)) = Inr s"
      and r: "r = or_default region (ac_region (from_env env))"
      using client_source by metis
    show "r = or_default region (getenv env ''AWS_REGION'' ''eu-west-1'')"
      using r by (simp add: from_env_def)
    fix role e n
    assume "ss = Map.empty \<and> s = Assumed role e n"
    with built have "build_session boto role_arn (ac_external_id (from_env env))
        (ac_role_session_name (from_env env)) = Inr (Assumed role e n)" by auto
    then have "e = (if truthy (env ''AWS_EXTERNAL_ID'') then env ''AWS_EXTERNAL_ID'' else None)"
      by (auto simp: build_session_def from_env_def dest!: assumed_session_ok split: option.splits)
    then show "or_default e [] = getenv env ''AWS_EXTERNAL_ID'' []"
      by (auto simp: or_default_def getenv_def truthy_def split: option.splits)
  qed
  show "bo_credentials boto = Inr True \<longrightarrow> res \<noteq> Inl NoSourceCredentials"
    using client
    by (auto simp: get_client_def Let_def select_role_arn_def build_session_def assumed_session_def
        boto_session_def boto_client_def split: sum.splits option.splits if_splits)
  show "bo_credentials boto \<in> range Inr \<and> (\<forall>s. bo_session boto s = None) \<and> (\<forall>s r. bo_client boto s r = None)
         \<longrightarrow> (\<forall>e. res \<noteq> Inl (BotoError e))"
    using client
    by (auto simp: get_client_def Let_def select_role_arn_def build_session_def assumed_session_def
        boto_session_def boto_client_def split: sum.splits option.splits if_splits bool.splits)
qed

definition two_roles :: environ where
  "two_roles = [''AWS_ROLE_ARN'' \<mapsto> ''arn:read'', ''AWS_WRITE_ROLE_ARN'' \<mapsto> ''arn:write'']"

definition working_boto :: boto where
  "working_boto = \<lparr>bo_credentials = Inr True, bo_session = (\<lambda>_. None), bo_client = (\<lambda>_ _. None)\<rparr>"

lemma client_role_guarded_witness:
  "(\<exists>s r e n. fst (get_client working_boto two_roles None True Map.empty) = Inr (s, r) \<and> s = Assumed ''arn:write'' e n)
   \<and> fst (get_client working_boto (two_roles(''AWS_WRITE_ROLE_ARN'' := None)) None True Map.empty) = Inl WriteRoleMissing"
proof -
  have named: "roles_named two_roles" "roles_named (two_roles(''AWS_WRITE_ROLE_ARN'' := None))"
    by (simp_all add: roles_named_def two_roles_def DEFAULT_KEY_def)
  obtain s r where "fst (get_client working_boto two_roles None True Map.empty) = Inr (s, r)"
    by (cases "fst (get_client working_boto two_roles None True Map.empty)")
      (auto simp: get_client_def select_role_arn_def build_session_def assumed_session_def boto_session_def
        boto_client_def working_boto_def two_roles_def from_env_def Let_def)
  then show ?thesis
    using client_role_guarded [OF cached_empty named(1) prod.collapse [symmetric],
        where boto = working_boto and region = None and writing = True]
      client_role_guarded [OF cached_empty named(2) prod.collapse [symmetric],
        where boto = working_boto and region = None and writing = True]
    by (simp add: two_roles_def)
qed

end
