(* ===== verification/AwsSetup.thy ===== *)
theory AwsSetup
  imports AwsClients Store
begin

text \<open>
  Connecting and disconnecting an AWS account: \<open>ui/routes/setup.py\<close>, and the language-model
  connection of \<open>ui/routes/settings.py\<close>, which is saved the same way. The forms are validated, the
  connection is tested with the submitted values, and only then are both environment files and the
  process changed. STS, the reachability check and the language model are parameters.
\<close>

section \<open>Formats\<close>

definition is_lower :: "char \<Rightarrow> bool" where
  "is_lower c = (let n = (of_char c :: nat) in 97 \<le> n \<and> n \<le> 122)"

text \<open>\<open>$\<close> also matches before a line break at the very end.\<close>

definition chomp :: "string \<Rightarrow> string" where
  "chomp s = (if s \<noteq> [] \<and> last s = CHR 0x0A then butlast s else s)"

definition ROLE_ARN_RE :: "string \<Rightarrow> bool" where
  "ROLE_ARN_RE s =
     (let pre = ''arn:aws:iam::''; digits = take 12 (drop (length pre) s); rest = drop (length pre + 12) s
      in take (length pre) s = pre \<and> length digits = 12 \<and> list_all is_digit digits
         \<and> take 6 rest = '':role/'' \<and> chomp (drop 6 rest) \<noteq> [] \<and> CHR 0x0A \<notin> set (chomp (drop 6 rest)))"

definition REGION_RE :: "string \<Rightarrow> bool" where
  "REGION_RE s =
     (let parts = split_on (CHR ''-'') (chomp s)
      in length parts \<ge> 3 \<and> length (hd parts) = 2
         \<and> list_all (\<lambda>w. w \<noteq> [] \<and> list_all is_lower w) (butlast parts)
         \<and> length (last parts) = 1 \<and> list_all is_digit (last parts))"

definition ACCOUNT_ID_RE :: "string \<Rightarrow> bool" where
  "ACCOUNT_ID_RE s \<longleftrightarrow> length (chomp s) = 12 \<and> list_all is_digit (chomp s)"

text \<open>The account of the environment, or the last line of the root file that sets one.\<close>

definition account_id_of :: "environ \<Rightarrow> string option \<Rightarrow> string" where
  "account_id_of env root_env =
     (let acct = getenv env ''AWS_ACCOUNT_ID'' [];
          from_file = (case root_env of None \<Rightarrow> []
            | Some file \<Rightarrow> map (\<lambda>line. strip (drop 15 line))
                (filter (\<lambda>line. take 15 line = ''AWS_ACCOUNT_ID='') (splitlines file)));
          acct = (if acct = [] \<and> from_file \<noteq> [] then last from_file else acct)
      in if ACCOUNT_ID_RE acct then acct else [])"

section \<open>The form\<close>

record setup_payload =
  sp_region :: string
  sp_role_arn :: string
  sp_write_role_arn :: string
  sp_external_id :: string
  sp_access_key_id :: string
  sp_secret_access_key :: string

datatype refusal =
    InvalidRegion | InvalidReadRole | InvalidWriteRole | WriteWithoutRead | SecretRequired | NothingGiven

definition validation_error :: "setup_payload \<Rightarrow> refusal option" where
  "validation_error p =
     (if \<not> REGION_RE (sp_region p) then Some InvalidRegion
      else if sp_role_arn p \<noteq> [] \<and> \<not> ROLE_ARN_RE (sp_role_arn p) then Some InvalidReadRole
      else if sp_write_role_arn p \<noteq> [] \<and> \<not> ROLE_ARN_RE (sp_write_role_arn p) then Some InvalidWriteRole
      else if sp_write_role_arn p \<noteq> [] \<and> sp_role_arn p = [] then Some WriteWithoutRead
      else if sp_access_key_id p \<noteq> [] \<and> sp_secret_access_key p = [] then Some SecretRequired
      else if sp_role_arn p = [] \<and> sp_access_key_id p = [] then Some NothingGiven
      else None)"

datatype hint =
    NoCredentialsReached | BadAccessKey | CheckExternalId | CheckTrust | RoleAbsent | CredentialsExpired | Unreachable

definition repair_hint :: "string \<Rightarrow> setup_payload \<Rightarrow> hint option" where
  "repair_hint error_msg p =
     (let m = lower error_msg
      in if contains ''unable to locate credentials'' m \<or> contains ''you must specify a region'' m
         then Some NoCredentialsReached
         else if contains ''invalidclienttokenid'' m \<or> contains ''signaturedoesnotmatch'' m \<or> contains ''the security token'' m
         then Some BadAccessKey
         else if contains ''not authorized to perform: sts:assumerole'' m \<or> contains ''access denied'' m
         then Some (if sp_external_id p \<noteq> [] then CheckExternalId else CheckTrust)
         else if contains ''does not exist'' m \<or> contains ''nosuchentity'' m \<or> contains ''cannot be found'' m
         then Some RoleAbsent
         else if contains ''expired'' m then Some CredentialsExpired
         else if contains ''could not connect'' m \<or> contains ''timed out'' m \<or> contains ''connect timeout'' m
         then Some Unreachable
         else None)"

section \<open>The connection test\<close>

text \<open>An exception of botocore: its error code, empty when it has none, and its text.\<close>

type_synonym sts_exc = "string \<times> string"

type_synonym creds = "string option \<times> string option \<times> string"

record sts_api =
  sts_open :: "creds \<Rightarrow> string option"
  sts_identity :: "creds \<Rightarrow> sts_exc + string \<times> string"
  sts_assume :: "creds \<Rightarrow> string \<Rightarrow> string option \<Rightarrow> sts_exc option"

datatype setup_kind = NotReady | BadCreds | ConfigProblem

definition CRED_ERROR_CODES :: "string list" where
  "CRED_ERROR_CODES =
     [''InvalidClientTokenId'', ''SignatureDoesNotMatch'', ''AuthFailure'', ''UnrecognizedClientException'',
      ''ExpiredToken'', ''ExpiredTokenException'', ''TokenRefreshRequired'']"

record setup_result =
  su_identity :: string
  su_account :: string
  su_role_assumed :: "string option"
  su_write_role_assumed :: "string option"

definition opt :: "string \<Rightarrow> string option" where
  "opt s = (if s = [] then None else Some s)"

fun assume_roles :: "(string \<Rightarrow> sts_exc option) \<Rightarrow> string list \<Rightarrow> setup_kind \<times> string + unit" where
  "assume_roles assume [] = Inr ()"
| "assume_roles assume (arn # arns) =
     (if arn = [] then assume_roles assume arns
      else (case assume arn of
              None \<Rightarrow> assume_roles assume arns
            | Some (code, msg) \<Rightarrow>
                Inl (if code \<in> {''AccessDenied'', ''AccessDeniedException''} then NotReady else ConfigProblem, msg)))"

definition test_connection :: "sts_api \<Rightarrow> setup_payload \<Rightarrow> setup_kind \<times> string + setup_result" where
  "test_connection sts p =
     (let creds = (opt (sp_access_key_id p), opt (sp_secret_access_key p), sp_region p)
      in case sts_open sts creds of
           Some msg \<Rightarrow> Inl (ConfigProblem, msg)
         | None \<Rightarrow>
             (case sts_identity sts creds of
                Inl (code, msg) \<Rightarrow>
                  Inl (if code \<in> set CRED_ERROR_CODES \<or> contains ''Unable to locate credentials'' msg
                       then BadCreds else ConfigProblem, msg)
              | Inr (arn, account) \<Rightarrow>
                  py_bind (assume_roles (\<lambda>role. sts_assume sts creds role (opt (sp_external_id p)))
                             [sp_role_arn p, sp_write_role_arn p]) (\<lambda>_.
                    let parts = split_on (CHR '':'') (sp_role_arn p)
                    in if sp_role_arn p \<noteq> [] \<and> length parts \<le> 4 then Inl (ConfigProblem, ''list index out of range'')
                       else Inr \<lparr>su_identity = arn,
                                 su_account = (if sp_role_arn p \<noteq> [] then parts ! 4 else account),
                                 su_role_assumed = opt (sp_role_arn p),
                                 su_write_role_assumed = opt (sp_write_role_arn p)\<rparr>)))"

section \<open>Saving\<close>

record connection =
  cn_files :: "string option list"
  cn_env :: environ
  cn_sessions :: sessions
  cn_reachable :: bool

record setup_api =
  sa_sts :: sts_api
  sa_boto :: "environ \<Rightarrow> boto"
  sa_answers :: "session \<Rightarrow> string \<Rightarrow> bool"
  sa_starts :: bool

definition check_aws_reachable :: "setup_api \<Rightarrow> environ \<Rightarrow> sessions \<Rightarrow> bool \<times> sessions" where
  "check_aws_reachable api env ss =
     (case get_client (sa_boto api env) env None False ss of
        (Inl _, ss') \<Rightarrow> (False, ss')
      | (Inr (session, region), ss') \<Rightarrow> (sa_answers api session region, ss'))"

definition refresh_status :: "setup_api \<Rightarrow> connection \<Rightarrow> connection" where
  "refresh_status api st =
     (case check_aws_reachable api (cn_env st) (reset_cache (cn_sessions st)) of
        (reachable, ss) \<Rightarrow> st\<lparr>cn_sessions := ss, cn_reachable := reachable\<rparr>)"

definition apply_to_process ::
    "setup_api \<Rightarrow> (string, string) dict \<Rightarrow> connection \<Rightarrow> unit pyexc option \<times> connection" where
  "apply_to_process api values st =
     (case apply_to_env values (cn_env st) of
        (Some e, env) \<Rightarrow> (Some e, st\<lparr>cn_env := env\<rparr>)
      | (None, env) \<Rightarrow> (None, refresh_status api (st\<lparr>cn_env := env\<rparr>)))"

datatype setup_error = Invalid refusal | Failed setup_kind string "hint option"

definition checked_connection :: "sts_api \<Rightarrow> setup_payload \<Rightarrow> setup_error + setup_result" where
  "checked_connection sts p =
     (case validation_error p of
        Some r \<Rightarrow> Inl (Invalid r)
      | None \<Rightarrow>
          (case test_connection sts p of
             Inl (kind, msg) \<Rightarrow> Inl (Failed kind msg (repair_hint msg p))
           | Inr result \<Rightarrow> Inr result))"

definition api_aws_setup_test :: "setup_api \<Rightarrow> setup_payload \<Rightarrow> setup_error + setup_result" where
  "api_aws_setup_test api p = checked_connection (sa_sts api) p"

definition connection_values :: "setup_payload \<Rightarrow> setup_result \<Rightarrow> (string, string) dict" where
  "connection_values p result =
     [(''AWS_REGION'', sp_region p), (''AWS_ACCOUNT_ID'', su_account result), (''AWS_ROLE_ARN'', sp_role_arn p),
      (''AWS_WRITE_ROLE_ARN'', sp_write_role_arn p), (''AWS_EXTERNAL_ID'', sp_external_id p),
      (''AWS_ACCESS_KEY_ID'', sp_access_key_id p), (''AWS_SECRET_ACCESS_KEY'', sp_secret_access_key p)]"

definition api_aws_setup_save ::
    "setup_api \<Rightarrow> setup_payload \<Rightarrow> connection
     \<Rightarrow> (unit pyexc + (setup_error + setup_result \<times> bool)) \<times> connection" where
  "api_aws_setup_save api p st =
     (case checked_connection (sa_sts api) p of
        Inl e \<Rightarrow> (Inr (Inl e), st)
      | Inr result \<Rightarrow>
          let values = connection_values p result
          in case apply_to_process api values (st\<lparr>cn_files := write_env_files values (cn_files st)\<rparr>) of
               (Some e, st') \<Rightarrow> (Inl e, st')
             | (None, st') \<Rightarrow> (Inr (Inr (result, sa_starts api)), st'))"

section \<open>Disconnecting\<close>

definition AWS_CREDENTIAL_KEYS :: "string list" where
  "AWS_CREDENTIAL_KEYS =
     [''AWS_ACCOUNT_ID'', ''AWS_ROLE_ARN'', ''AWS_WRITE_ROLE_ARN'', ''AWS_EXTERNAL_ID'', ''AWS_ACCESS_KEY_ID'',
      ''AWS_SECRET_ACCESS_KEY'']"

text \<open>The tables of the model, and the number of rows of the others.\<close>

record account_data =
  ad_world :: world
  ad_rows :: "string \<Rightarrow> nat"

definition WIPED_TABLES :: "string list" where
  "WIPED_TABLES = [''ec2_metrics'', ''cloud_costs_raw'', ''waste_snapshots'', ''daily_briefings'', ''collection_runs'']"

definition empty_table :: "'r table" where
  "empty_table = \<lparr>t_rows = [], t_next = 1\<rparr>"

definition account_rows :: "account_data \<Rightarrow> nat" where
  "account_rows d =
     (let w = ad_world d
      in length (t_rows (wastes w)) + length (t_rows (recs w)) + length (t_rows (alog w))
         + length (t_rows (snaps w)) + length (t_rows (svgs w)) + sum_list (map (ad_rows d) WIPED_TABLES))"

definition wipe_account_data :: "account_data \<Rightarrow> nat \<times> account_data" where
  "wipe_account_data d =
     (account_rows d,
      d\<lparr>ad_world := (ad_world d)\<lparr>wastes := empty_table, recs := empty_table, alog := empty_table,
                                 snaps := empty_table, svgs := empty_table\<rparr>,
        ad_rows := (\<lambda>t. if t \<in> set WIPED_TABLES then 0 else ad_rows d t)\<rparr>)"

definition api_aws_setup_disconnect ::
    "setup_api \<Rightarrow> bool \<Rightarrow> connection \<Rightarrow> account_data \<Rightarrow> nat \<times> connection \<times> account_data" where
  "api_aws_setup_disconnect api wipe_data st d =
     (let (erased, d) = (if wipe_data then wipe_account_data d else (0, d));
          (files, env) = clear_env_keys AWS_CREDENTIAL_KEYS (cn_files st) (cn_env st)
      in (erased, refresh_status api (st\<lparr>cn_files := files, cn_env := env\<rparr>), d))"

section \<open>The language model\<close>

definition KEY_ENV_VARS :: "(string, string option) dict" where
  "KEY_ENV_VARS =
     [(''deepseek'', Some ''DEEPSEEK_API_KEY''), (''anthropic'', Some ''ANTHROPIC_API_KEY''),
      (''openai'', Some ''OPENAI_API_KEY''), (''mistral'', Some ''MISTRAL_API_KEY''),
      (''groq'', Some ''GROQ_API_KEY''), (''gemini'', Some ''GEMINI_API_KEY''), (''ollama'', None)]"

definition key_env_var :: "string \<Rightarrow> string option" where
  "key_env_var model =
     (let provider = (if CHR ''/'' \<in> set model then lower (strip (hd (split_on (CHR ''/'') model))) else [])
      in case map_of KEY_ENV_VARS provider of None \<Rightarrow> None | Some v \<Rightarrow> v)"

datatype llm_refusal = UnknownKeyVariable | ConnectionError string

definition api_llm_save ::
    "(string \<Rightarrow> string option \<Rightarrow> string option) \<Rightarrow> string \<Rightarrow> string \<Rightarrow> connection
     \<Rightarrow> (unit pyexc + (llm_refusal + string \<times> bool)) \<times> connection" where
  "api_llm_save check_connection model api_key st =
     (let model = strip model; key_var = key_env_var model
      in if api_key \<noteq> [] \<and> key_var = None then (Inr (Inl UnknownKeyVariable), st)
         else (case check_connection model (opt api_key) of
                 Some e \<Rightarrow> (Inr (Inl (ConnectionError e)), st)
               | None \<Rightarrow>
                   let values = (''WASTELESS_LLM_MODEL'', model) #
                         (case key_var of Some k \<Rightarrow> if api_key \<noteq> [] then [(k, api_key)] else [] | None \<Rightarrow> []);
                       files = write_env_files values (cn_files st)
                   in case apply_to_env values (cn_env st) of
                        (Some e, env) \<Rightarrow> (Inl e, st\<lparr>cn_files := files, cn_env := env\<rparr>)
                      | (None, env) \<Rightarrow>
                          (Inr (Inr (model, api_key \<noteq> [] \<and> key_var \<noteq> None)), st\<lparr>cn_files := files, cn_env := env\<rparr>)))"

section \<open>What a save and a disconnection leave\<close>

definition plain_value :: "string \<Rightarrow> bool" where
  "plain_value v \<longleftrightarrow> one_line v \<and> CHR 0x00 \<notin> set v"

definition plain_payload :: "setup_payload \<Rightarrow> bool" where
  "plain_payload p \<longleftrightarrow> list_all plain_value
     [sp_region p, sp_role_arn p, sp_write_role_arn p, sp_external_id p, sp_access_key_id p, sp_secret_access_key p]"

text \<open>A field that is left empty keeps the value of before.\<close>

definition entered :: "string \<Rightarrow> string option \<Rightarrow> string option" where
  "entered v old = (if v = [] then old else Some v)"

lemma connection_values_ok:
  assumes "plain_payload p" "plain_value (su_account result)"
  shows "values_ok (connection_values p result)" "nul_free (connection_values p result)"
    "distinct (map fst (connection_values p result))"
proof -
  have "list_all (\<lambda>k. key_ok k) (map fst (connection_values p result))"
    unfolding connection_values_def by (simp add: key_ok_def one_line_def is_break_def)
  then show "values_ok (connection_values p result)"
    using assms by (simp add: values_ok_def connection_values_def plain_payload_def plain_value_def)
  show "nul_free (connection_values p result)"
    using assms by (simp add: nul_free_def connection_values_def plain_payload_def plain_value_def)
  show "distinct (map fst (connection_values p result))" by (simp add: connection_values_def)
qed

lemma refresh_status_simps [simp]:
  "cn_files (refresh_status api st) = cn_files st" "cn_env (refresh_status api st) = cn_env st"
  by (simp_all add: refresh_status_def split: prod.splits)

lemma refresh_status_cached: "roles_named (cn_env st) \<Longrightarrow> cached (cn_sessions (refresh_status api st))"
  using cached_client [OF cached_empty, of "cn_env st" "sa_boto api (cn_env st)" None False]
  by (auto simp: refresh_status_def check_aws_reachable_def reset_cache_def split: prod.splits sum.splits)

lemma save_decides:
  "api_aws_setup_save api p st =
    (case checked_connection (sa_sts api) p of
       Inl e \<Rightarrow> (Inr (Inl e), st)
     | Inr result \<Rightarrow>
         let values = connection_values p result; files = write_env_files values (cn_files st)
         in case apply_to_env values (cn_env st) of
              (Some e, env) \<Rightarrow> (Inl e, st\<lparr>cn_files := files, cn_env := env\<rparr>)
            | (None, env) \<Rightarrow>
                (Inr (Inr (result, sa_starts api)), refresh_status api (st\<lparr>cn_files := files, cn_env := env\<rparr>)))"
  by (auto simp: api_aws_setup_save_def apply_to_process_def Let_def split: sum.splits prod.splits option.splits)

lemma checked_connectionD:
  assumes "checked_connection sts p = Inr result"
  shows "validation_error p = None" "test_connection sts p = Inr result"
  using assms by (auto simp: checked_connection_def split: option.splits sum.splits)

lemma assume_roles_ok:
  "assume_roles f arns = Inr u \<longleftrightarrow> (\<forall>arn \<in> set arns. arn = [] \<or> f arn = None)"
  by (induction arns) (auto split: option.splits)

lemma ROLE_ARN_not_default: "ROLE_ARN_RE r \<Longrightarrow> r \<noteq> DEFAULT_KEY"
proof
  assume "ROLE_ARN_RE r" "r = DEFAULT_KEY"
  moreover have "\<not> ROLE_ARN_RE DEFAULT_KEY" by code_simp
  ultimately show False by simp
qed

text \<open>The roles that a successful save leaves in the environment.\<close>

lemma saved_env:
  assumes save: "api_aws_setup_save api p st = (Inr (Inr (result, started)), st')"
    and plain: "plain_payload p" "plain_value (su_account result)"
  shows "checked_connection (sa_sts api) p = Inr result"
    and "cn_env st' k = (case map_of (connection_values p result) k of None \<Rightarrow> cn_env st k | Some v \<Rightarrow> entered v (cn_env st k))"
    and "cn_files st' = write_env_files (connection_values p result) (cn_files st)"
    and "roles_named (cn_env st) \<Longrightarrow> roles_named (cn_env st') \<and> cached (cn_sessions st')"
proof -
  show checked: "checked_connection (sa_sts api) p = Inr result"
    using save by (auto simp: save_decides Let_def split: sum.splits prod.splits option.splits)
  note env = apply_to_env_ok [OF connection_values_ok(2,3) [OF plain]]
  have st': "st' = refresh_status api (st\<lparr>cn_files := write_env_files (connection_values p result) (cn_files st),
      cn_env := snd (apply_to_env (connection_values p result) (cn_env st))\<rparr>)"
    using save checked by (simp add: save_decides Let_def env)
  show "cn_files st' = write_env_files (connection_values p result) (cn_files st)"
    by (simp add: st')
  show env': "cn_env st' k = (case map_of (connection_values p result) k of None \<Rightarrow> cn_env st k | Some v \<Rightarrow> entered v (cn_env st k))" for k
    by (auto simp: st' env entered_def split: option.splits)
  assume named: "roles_named (cn_env st)"
  have "roles_named (cn_env st')"
    using named checked_connectionD(1) [OF checked] ROLE_ARN_not_default
    by (auto simp: roles_named_def env' connection_values_def entered_def validation_error_def split: if_splits)
  then show "roles_named (cn_env st') \<and> cached (cn_sessions st')"
    using refresh_status_cached by (simp add: st')
qed

text \<open>AWS names accounts in one line.\<close>

definition sts_plain :: "sts_api \<Rightarrow> bool" where
  "sts_plain sts \<longleftrightarrow> (\<forall>creds arn account. sts_identity sts creds = Inr (arn, account) \<longrightarrow> plain_value account)"

lemma split_on_chars: "w \<in> set (split_on c s) \<Longrightarrow> set w \<subseteq> set s"
proof -
  have "\<Union> (set ` set (split_on c s)) \<subseteq> set s"
    by (induction s) (auto split: list.splits, blast+)
  then show "w \<in> set (split_on c s) \<Longrightarrow> set w \<subseteq> set s" by blast
qed

lemma plain_account:
  assumes "test_connection sts p = Inr result" "plain_payload p" "sts_plain sts"
  shows "plain_value (su_account result)"
proof (cases "sp_role_arn p = []")
  case True
  with assms show ?thesis
    by (auto simp: test_connection_def sts_plain_def Let_def py_simps split: option.splits sum.splits)
next
  case False
  let ?parts = "split_on (CHR '':'') (sp_role_arn p)"
  have "su_account result = ?parts ! 4" "4 < length ?parts"
    using assms(1) False
    by (auto simp: test_connection_def Let_def py_simps split: option.splits sum.splits if_splits)
  then have "set (su_account result) \<subseteq> set (sp_role_arn p)" using split_on_chars nth_mem by metis
  with assms(2) show ?thesis by (auto simp: plain_payload_def plain_value_def one_line_def list_all_iff)
qed

lemma test_connection_answers:
  assumes "test_connection sts p = Inr result"
  shows "\<exists>arn account. sts_identity sts (opt (sp_access_key_id p), opt (sp_secret_access_key p), sp_region p) = Inr (arn, account)"
    and "role \<in> {sp_role_arn p, sp_write_role_arn p} \<Longrightarrow> role \<noteq> [] \<Longrightarrow>
      sts_assume sts (opt (sp_access_key_id p), opt (sp_secret_access_key p), sp_region p) role (opt (sp_external_id p)) = None"
  using assms by (auto simp: test_connection_def Let_def py_simps assume_roles_ok split: option.splits sum.splits if_splits)

text \<open>
  C27: saving a connection changes nothing unless the form is valid and AWS answered with the
  submitted values, an identity and every role that was entered. Then every file and the process have
  exactly the entered fields, and keep what they had where a field was left empty; no other setting
  changes, and the sessions of before are gone.
\<close>

theorem setup_save_outcome:
  assumes plain: "plain_payload p" "sts_plain (sa_sts api)"
  shows "(\<exists>e. api_aws_setup_save api p st = (Inr (Inl e), st)
            \<and> (validation_error p \<noteq> None \<or> (\<exists>failure. test_connection (sa_sts api) p = Inl failure)))
    \<or> (\<exists>result st'. api_aws_setup_save api p st = (Inr (Inr (result, sa_starts api)), st')
         \<and> validation_error p = None
         \<and> (\<exists>arn account. sts_identity (sa_sts api) (opt (sp_access_key_id p), opt (sp_secret_access_key p), sp_region p)
              = Inr (arn, account))
         \<and> (\<forall>role \<in> {sp_role_arn p, sp_write_role_arn p}. role = []
              \<or> sts_assume (sa_sts api) (opt (sp_access_key_id p), opt (sp_secret_access_key p), sp_region p) role
                   (opt (sp_external_id p)) = None)
         \<and> (\<forall>k. cn_env st' k = (case map_of (connection_values p result) k of
                None \<Rightarrow> cn_env st k | Some v \<Rightarrow> entered v (cn_env st k)))
         \<and> (\<forall>k. map (\<lambda>text. assigned text k) (cn_files st') =
               map (\<lambda>text. case map_of (connection_values p result) k of
                   None \<Rightarrow> assigned text k
                 | Some v \<Rightarrow> if v = [] then assigned text k else v # tl (assigned text k)) (cn_files st))
         \<and> (roles_named (cn_env st) \<longrightarrow> cached (cn_sessions st')))"
proof (cases "checked_connection (sa_sts api) p")
  case (Inl e)
  then have "api_aws_setup_save api p st = (Inr (Inl e), st)" by (simp add: save_decides)
  moreover have "validation_error p \<noteq> None \<or> (\<exists>failure. test_connection (sa_sts api) p = Inl failure)"
    using Inl by (auto simp: checked_connection_def split: option.splits sum.splits)
  ultimately show ?thesis by blast
next
  case (Inr result)
  note answered = checked_connectionD [OF Inr]
  note account = plain_account [OF answered(2) plain]
  obtain st' where save: "api_aws_setup_save api p st = (Inr (Inr (result, sa_starts api)), st')"
    using Inr apply_to_env_ok [OF connection_values_ok(2,3) [OF plain(1) account]]
    by (simp add: save_decides Let_def)
  note saved = saved_env [OF save plain(1) account]
  have files: "map (\<lambda>text. assigned text k) (cn_files st') =
      map (\<lambda>text. case map_of (connection_values p result) k of
          None \<Rightarrow> assigned text k
        | Some v \<Rightarrow> if v = [] then assigned text k else v # tl (assigned text k)) (cn_files st)" for k
    by (simp add: saved(3) write_env_files_def assigned_written [OF connection_values_ok(1) [OF plain(1) account]])
  have roles: "\<forall>role \<in> {sp_role_arn p, sp_write_role_arn p}. role = []
      \<or> sts_assume (sa_sts api) (opt (sp_access_key_id p), opt (sp_secret_access_key p), sp_region p) role
           (opt (sp_external_id p)) = None"
  proof
    fix role
    assume "role \<in> {sp_role_arn p, sp_write_role_arn p}"
    from test_connection_answers(2) [OF answered(2) this]
    show "role = [] \<or> sts_assume (sa_sts api) (opt (sp_access_key_id p), opt (sp_secret_access_key p), sp_region p) role
           (opt (sp_external_id p)) = None" by (cases "role = []") simp_all
  qed
  show ?thesis
    by (rule disjI2, rule exI [of _ result], rule exI [of _ st'])
      (intro conjI, rule save, rule answered(1), rule test_connection_answers(1) [OF answered(2)], rule roles,
       rule allI, rule saved(2), rule allI, rule files, rule impI, rule saved(4) [THEN conjunct2], assumption)
qed

definition sample_sts :: sts_api where
  "sample_sts = \<lparr>sts_open = (\<lambda>_. None), sts_identity = (\<lambda>_. Inr (''arn:me'', ''999999999999'')),
     sts_assume = (\<lambda>_ role _. if role = ''arn:aws:iam::123456789012:role/a'' then None else Some (''AccessDenied'', ''denied''))\<rparr>"

definition sample_setup :: setup_api where
  "sample_setup = \<lparr>sa_sts = sample_sts, sa_boto = (\<lambda>_. working_boto), sa_answers = (\<lambda>_ _. True), sa_starts = True\<rparr>"

definition read_only_form :: setup_payload where
  "read_only_form = \<lparr>sp_region = ''eu-west-1'', sp_role_arn = ''arn:aws:iam::123456789012:role/a'',
     sp_write_role_arn = [], sp_external_id = [], sp_access_key_id = [], sp_secret_access_key = []\<rparr>"

lemma sample_plain: "plain_payload read_only_form" "sts_plain sample_sts"
proof -
  show "plain_payload read_only_form" by code_simp
  have "plain_value ''999999999999''" by code_simp
  then show "sts_plain sample_sts" by (simp add: sts_plain_def sample_sts_def)
qed

lemma sample_checked:
  "checked_connection sample_sts read_only_form =
    Inr \<lparr>su_identity = ''arn:me'', su_account = ''123456789012'',
         su_role_assumed = Some ''arn:aws:iam::123456789012:role/a'', su_write_role_assumed = None\<rparr>"
  by code_simp

lemma setup_save_outcome_witness:
  "\<forall>st. \<exists>result st'. api_aws_setup_save sample_setup read_only_form st = (Inr (Inr (result, True)), st')
     \<and> cn_env st' ''AWS_REGION'' = Some ''eu-west-1''"
proof (rule allI)
  fix st :: connection
  have "plain_payload read_only_form" "sts_plain (sa_sts sample_setup)"
    using sample_plain by (simp_all add: sample_setup_def)
  note outcome = setup_save_outcome [OF this, of st]
  have "sa_sts sample_setup = sample_sts" by (simp add: sample_setup_def)
  then have "\<not> (\<exists>e. api_aws_setup_save sample_setup read_only_form st = (Inr (Inl e), st))"
    by (simp add: save_decides sample_checked Let_def split: prod.splits option.splits)
  with outcome obtain result st' where
    "api_aws_setup_save sample_setup read_only_form st = (Inr (Inr (result, sa_starts sample_setup)), st')"
    "cn_env st' ''AWS_REGION'' = (case map_of (connection_values read_only_form result) ''AWS_REGION'' of
       None \<Rightarrow> cn_env st ''AWS_REGION'' | Some v \<Rightarrow> entered v (cn_env st ''AWS_REGION''))"
    by blast
  then show "\<exists>result st'. api_aws_setup_save sample_setup read_only_form st = (Inr (Inr (result, True)), st')
     \<and> cn_env st' ''AWS_REGION'' = Some ''eu-west-1''"
    by (auto simp: sample_setup_def connection_values_def read_only_form_def entered_def)
qed

lemma disconnected:
  assumes "api_aws_setup_disconnect api wipe_data st d = (erased, st', d')"
  shows "cn_env st' k = (if k \<in> set AWS_CREDENTIAL_KEYS then None else cn_env st k)"
    and "map (\<lambda>text. assigned text k) (cn_files st') =
      map (\<lambda>text. if k \<in> set AWS_CREDENTIAL_KEYS then [] else assigned text k) (cn_files st)"
    and "if wipe_data then erased = account_rows d \<and> account_rows d' = 0 else erased = 0 \<and> d' = d"
  using assms
  by (auto simp: api_aws_setup_disconnect_def clear_env_keys_def assigned_cleared wipe_account_data_def
      account_rows_def empty_table_def WIPED_TABLES_def Let_def restrict_map_def split: prod.splits if_splits)

text \<open>What a save makes of a setting of the process, and of the lines that set it in a file.\<close>

definition env_after :: "(string, string) dict \<Rightarrow> environ \<Rightarrow> string \<Rightarrow> string option" where
  "env_after settings env k = (case map_of settings k of None \<Rightarrow> env k | Some v \<Rightarrow> entered v (env k))"

definition lines_after :: "(string, string) dict \<Rightarrow> string list \<Rightarrow> string \<Rightarrow> string list" where
  "lines_after settings old k =
     (case map_of settings k of None \<Rightarrow> old | Some v \<Rightarrow> if v = [] then old else v # tl old)"

lemma saved_settings:
  assumes save: "api_aws_setup_save api p st = (Inr (Inr (result, started)), st')"
    and plain: "plain_payload p" "sts_plain (sa_sts api)"
  shows "cn_env st' k = env_after (connection_values p result) (cn_env st) k"
    and "map (\<lambda>text. assigned text k) (cn_files st') =
      map (\<lambda>text. lines_after (connection_values p result) (assigned text k) k) (cn_files st)"
    and "roles_named (cn_env st) \<Longrightarrow> roles_named (cn_env st') \<and> cached (cn_sessions st')"
proof -
  have "checked_connection (sa_sts api) p = Inr result"
    using save by (auto simp: save_decides Let_def split: sum.splits prod.splits option.splits)
  note account = plain_account [OF checked_connectionD(2) [OF this] plain]
  note saved = saved_env [OF save plain(1) account]
  show "cn_env st' k = env_after (connection_values p result) (cn_env st) k"
    by (simp add: saved(2) env_after_def)
  show "map (\<lambda>text. assigned text k) (cn_files st') =
      map (\<lambda>text. lines_after (connection_values p result) (assigned text k) k) (cn_files st)"
    by (simp add: saved(3) write_env_files_def lines_after_def
        assigned_written [OF connection_values_ok(1) [OF plain(1) account]])
  show "roles_named (cn_env st) \<Longrightarrow> roles_named (cn_env st') \<and> cached (cn_sessions st')"
    by (rule saved(4))
qed

lemma credential_values:
  "k \<in> set AWS_CREDENTIAL_KEYS \<Longrightarrow> \<exists>v. map_of (connection_values p result) k = Some v"
  by (auto simp: AWS_CREDENTIAL_KEYS_def connection_values_def)

lemma connection_roles:
  "env_after (connection_values p result) env ''AWS_ROLE_ARN'' = entered (sp_role_arn p) (env ''AWS_ROLE_ARN'')"
  "env_after (connection_values p result) env ''AWS_WRITE_ROLE_ARN''
    = entered (sp_write_role_arn p) (env ''AWS_WRITE_ROLE_ARN'')"
  by (simp_all add: env_after_def connection_values_def)

lemma entered_opt [simp]: "entered v None = opt v"
  by (simp add: entered_def opt_def)

text \<open>
  C13: a disconnection removes every credential from the files and from the process and nothing else,
  empties the account's tables exactly when that was asked, and leaves clients the default credentials
  only. Whatever valid connection is saved after it, each credential is what was entered, in the
  process and in every file, and nothing where the field was left empty; the other settings are those of
  before but for the region. Clients then read with the entered role and write with the entered
  remediation role, and without one they are refused to write. Saved without the disconnection, the
  same connection keeps whatever of the connection before was not entered again: an empty field does
  not remove the remediation role, and writes go on under it.
\<close>

theorem connection_switch:
  assumes form: "plain_payload p"
    and sts: "sts_plain (sa_sts api)" and named: "roles_named (cn_env st)"
    and left: "api_aws_setup_disconnect api wipe_data st d = (erased, st1, d')"
    and after: "api_aws_setup_save api p st1 = (Inr (Inr (result, started)), st2)"
    and direct: "api_aws_setup_save api p st = (Inr (Inr (result', started')), st3)"
  shows "(\<forall>k. cn_env st1 k = (if k \<in> set AWS_CREDENTIAL_KEYS then None else cn_env st k)
        \<and> map (\<lambda>text. assigned text k) (cn_files st1) =
            map (\<lambda>text. if k \<in> set AWS_CREDENTIAL_KEYS then [] else assigned text k) (cn_files st))
    \<and> (if wipe_data then erased = account_rows d \<and> account_rows d' = 0 else erased = 0 \<and> d' = d)
    \<and> (\<forall>boto region wr s r. fst (get_client boto (cn_env st1) region wr (cn_sessions st1)) = Inr (s, r) \<longrightarrow>
         s = DefaultChain)
    \<and> (\<forall>k \<in> set AWS_CREDENTIAL_KEYS. \<exists>v. map_of (connection_values p result) k = Some v
        \<and> cn_env st2 k = opt v
        \<and> map (\<lambda>text. assigned text k) (cn_files st2) =
            map (\<lambda>text. if v = [] then [] else [v]) (cn_files st))
    \<and> (\<forall>k. k \<notin> set AWS_CREDENTIAL_KEYS \<longrightarrow>
        cn_env st2 k = env_after (connection_values p result) (cn_env st) k
        \<and> map (\<lambda>text. assigned text k) (cn_files st2) =
            map (\<lambda>text. lines_after (connection_values p result) (assigned text k) k) (cn_files st))
    \<and> (\<forall>boto region wr s r. fst (get_client boto (cn_env st2) region wr (cn_sessions st2)) = Inr (s, r) \<longrightarrow>
         acts_as (opt (if wr then sp_write_role_arn p else sp_role_arn p)) s)
    \<and> (sp_role_arn p \<noteq> [] \<and> sp_write_role_arn p = [] \<longrightarrow>
         (\<forall>boto region. fst (get_client boto (cn_env st2) region True (cn_sessions st2)) = Inl WriteRoleMissing))
    \<and> (\<forall>k. cn_env st3 k = env_after (connection_values p result') (cn_env st) k
        \<and> map (\<lambda>text. assigned text k) (cn_files st3) =
            map (\<lambda>text. lines_after (connection_values p result') (assigned text k) k) (cn_files st))
    \<and> (\<forall>boto region wr s r. fst (get_client boto (cn_env st3) region wr (cn_sessions st3)) = Inr (s, r) \<longrightarrow>
         acts_as (if wr then entered (sp_write_role_arn p) (cn_env st ''AWS_WRITE_ROLE_ARN'')
                  else entered (sp_role_arn p) (cn_env st ''AWS_ROLE_ARN'')) s)"
proof (intro conjI allI impI ballI)
  note gone = disconnected [OF left]
  have creds: "''AWS_ROLE_ARN'' \<in> set AWS_CREDENTIAL_KEYS" "''AWS_WRITE_ROLE_ARN'' \<in> set AWS_CREDENTIAL_KEYS"
    by (simp_all add: AWS_CREDENTIAL_KEYS_def)
  have named1: "roles_named (cn_env st1)" using creds by (simp add: roles_named_def gone(1))
  have cached1: "cached (cn_sessions st1)"
    using left named1
    by (auto simp: api_aws_setup_disconnect_def Let_def intro!: refresh_status_cached split: prod.splits)
  note saved2 = saved_settings [OF after form sts] and saved3 = saved_settings [OF direct form sts]
  have lines1: "map g (map (\<lambda>text. assigned text k) (cn_files st1)) =
      map g (map (\<lambda>text. if k \<in> set AWS_CREDENTIAL_KEYS then [] else assigned text k) (cn_files st))"
    for g :: "string list \<Rightarrow> string list" and k by (simp only: gone(2))
  show "cn_env st1 k = (if k \<in> set AWS_CREDENTIAL_KEYS then None else cn_env st k)" for k by (rule gone(1))
  show "map (\<lambda>text. assigned text k) (cn_files st1) =
      map (\<lambda>text. if k \<in> set AWS_CREDENTIAL_KEYS then [] else assigned text k) (cn_files st)" for k by (rule gone(2))
  show "if wipe_data then erased = account_rows d \<and> account_rows d' = 0 else erased = 0 \<and> d' = d" by (rule gone(3))
  show "s = DefaultChain"
    if "fst (get_client boto (cn_env st1) region wr (cn_sessions st1)) = Inr (s, r)" for boto region wr s r
    using client_acts_as [OF cached1 named1 that] creds
    by (auto simp: gone(1) acts_as_def split: session.splits if_splits)
  show "\<exists>v. map_of (connection_values p result) k = Some v \<and> cn_env st2 k = opt v
      \<and> map (\<lambda>text. assigned text k) (cn_files st2) = map (\<lambda>text. if v = [] then [] else [v]) (cn_files st)"
    if k: "k \<in> set AWS_CREDENTIAL_KEYS" for k
  proof -
    obtain v where v: "map_of (connection_values p result) k = Some v" using credential_values [OF k] by blast
    have "cn_env st2 k = opt v" using v k by (simp add: saved2(1) env_after_def gone(1))
    moreover have "map (\<lambda>text. assigned text k) (cn_files st2) = map (\<lambda>text. if v = [] then [] else [v]) (cn_files st)"
      using lines1 [of "\<lambda>old. lines_after (connection_values p result) old k" k] k v
      by (simp add: saved2(2) comp_def lines_after_def)
    ultimately show ?thesis using v by blast
  qed
  show "cn_env st2 k = env_after (connection_values p result) (cn_env st) k"
    "map (\<lambda>text. assigned text k) (cn_files st2) =
      map (\<lambda>text. lines_after (connection_values p result) (assigned text k) k) (cn_files st)"
    if k: "k \<notin> set AWS_CREDENTIAL_KEYS" for k
    using lines1 [of "\<lambda>old. lines_after (connection_values p result) old k" k] k
    by (simp_all add: saved2(1,2) env_after_def gone(1) comp_def split: option.splits)
  have roles2: "cn_env st2 ''AWS_ROLE_ARN'' = opt (sp_role_arn p)"
    "cn_env st2 ''AWS_WRITE_ROLE_ARN'' = opt (sp_write_role_arn p)"
    using creds by (simp_all add: saved2(1) connection_roles gone(1))
  show "acts_as (opt (if wr then sp_write_role_arn p else sp_role_arn p)) s"
    if "fst (get_client boto (cn_env st2) region wr (cn_sessions st2)) = Inr (s, r)" for boto region wr s r
    using client_acts_as [OF saved2(3) [OF named1, THEN conjunct2] saved2(3) [OF named1, THEN conjunct1] that]
    by (cases wr) (simp_all add: roles2)
  show "fst (get_client boto (cn_env st2) region True (cn_sessions st2)) = Inl WriteRoleMissing"
    if "sp_role_arn p \<noteq> [] \<and> sp_write_role_arn p = []" for boto region
    using that roles2 by (simp add: get_client_def select_role_arn_def from_env_def opt_def)
  show "cn_env st3 k = env_after (connection_values p result') (cn_env st) k" for k by (rule saved3(1))
  show "map (\<lambda>text. assigned text k) (cn_files st3) =
      map (\<lambda>text. lines_after (connection_values p result') (assigned text k) k) (cn_files st)" for k by (rule saved3(2))
  show "acts_as (if wr then entered (sp_write_role_arn p) (cn_env st ''AWS_WRITE_ROLE_ARN'')
                 else entered (sp_role_arn p) (cn_env st ''AWS_ROLE_ARN'')) s"
    if "fst (get_client boto (cn_env st3) region wr (cn_sessions st3)) = Inr (s, r)" for boto region wr s r
    using client_acts_as [OF saved3(3) [OF named, THEN conjunct2] saved3(3) [OF named, THEN conjunct1] that]
    by (simp only: saved3(1) connection_roles)
qed

lemma sample_saved:
  "\<exists>result st'. api_aws_setup_save sample_setup read_only_form st = (Inr (Inr (result, True)), st')"
proof -
  let ?result = "\<lparr>su_identity = ''arn:me'', su_account = ''123456789012'',
      su_role_assumed = Some ''arn:aws:iam::123456789012:role/a'', su_write_role_assumed = None\<rparr>"
  have "plain_value (su_account ?result)" by code_simp
  note ok = connection_values_ok(2,3) [OF sample_plain(1) this]
  show ?thesis
    using apply_to_env_ok [OF ok] sample_checked
    by (simp add: save_decides sample_setup_def Let_def)
qed

text \<open>The account of before had a remediation role.\<close>

definition old_connection :: connection where
  "old_connection = \<lparr>cn_files = [None], cn_env = [''AWS_WRITE_ROLE_ARN'' \<mapsto> ''arn:aws:iam::111111111111:role/old''],
     cn_sessions = Map.empty, cn_reachable = True\<rparr>"

lemma connection_switch_witness:
  "\<exists>d erased st1 d' result st2 result' st3.
     api_aws_setup_disconnect sample_setup False old_connection d = (erased, st1, d')
     \<and> api_aws_setup_save sample_setup read_only_form st1 = (Inr (Inr (result, True)), st2)
     \<and> cn_env st1 ''AWS_WRITE_ROLE_ARN'' = None
     \<and> fst (get_client working_boto (cn_env st2) None True (cn_sessions st2)) = Inl WriteRoleMissing
     \<and> api_aws_setup_save sample_setup read_only_form old_connection = (Inr (Inr (result', True)), st3)
     \<and> cn_env st3 ''AWS_WRITE_ROLE_ARN'' = Some ''arn:aws:iam::111111111111:role/old''"
proof -
  define d :: account_data where "d = \<lparr>ad_world = \<lparr>wastes = empty_table, recs = empty_table, alog = empty_table,
      snaps = empty_table, svgs = empty_table, events = []\<rparr>, ad_rows = (\<lambda>_. 0)\<rparr>"
  obtain erased st1 d' where left: "api_aws_setup_disconnect sample_setup False old_connection d = (erased, st1, d')"
    by (cases "api_aws_setup_disconnect sample_setup False old_connection d") blast
  obtain result st2 where after: "api_aws_setup_save sample_setup read_only_form st1 = (Inr (Inr (result, True)), st2)"
    using sample_saved by blast
  obtain result' st3 where direct: "api_aws_setup_save sample_setup read_only_form old_connection = (Inr (Inr (result', True)), st3)"
    using sample_saved by blast
  have sts: "sts_plain (sa_sts sample_setup)" using sample_plain by (simp add: sample_setup_def)
  have named: "roles_named (cn_env old_connection)"
    by (simp add: roles_named_def old_connection_def DEFAULT_KEY_def)
  note switch = connection_switch [OF sample_plain(1) sts named left after direct]
  have "cn_env st1 ''AWS_WRITE_ROLE_ARN'' = None"
    using switch [THEN conjunct1, rule_format, of "''AWS_WRITE_ROLE_ARN''"] by (simp add: AWS_CREDENTIAL_KEYS_def)
  moreover have "fst (get_client working_boto (cn_env st2) None True (cn_sessions st2)) = Inl WriteRoleMissing"
  proof -
    have "sp_role_arn read_only_form \<noteq> [] \<and> sp_write_role_arn read_only_form = []"
      by (simp add: read_only_form_def)
    with switch show ?thesis by blast
  qed
  moreover have "cn_env st3 ''AWS_WRITE_ROLE_ARN'' = Some ''arn:aws:iam::111111111111:role/old''"
  proof -
    have "cn_env st3 ''AWS_WRITE_ROLE_ARN''
        = env_after (connection_values read_only_form result') (cn_env old_connection) ''AWS_WRITE_ROLE_ARN''"
      using switch by blast
    then show ?thesis by (simp add: connection_roles entered_def read_only_form_def old_connection_def)
  qed
  ultimately show ?thesis using left after direct by blast
qed

end
