(* ===== verification/Cleanup.thy ===== *)
theory Cleanup
  imports Lifecycle
begin

text \<open>
  The maintenance script \<open>src/utils/cleanup_orphaned_recommendations.py\<close>: recommendations whose
  instance is gone become obsolete. AWS answers for one region, with the instances page by page.
\<close>

section \<open>The script\<close>

text \<open>The pages of \<open>describe_instances\<close>, flattened: each instance with its state.\<close>

definition get_all_ec2_instance_ids :: "aws_exc + (string \<times> string) list \<Rightarrow> aws_exc + string set" where
  "get_all_ec2_instance_ids pages =
     py_bind pages (\<lambda>instances. Inr (fst ` set (filter (\<lambda>(i, state). state \<noteq> ''terminated'') instances)))"

definition get_active_recommendations :: "world \<Rightarrow> (rec_row \<times> waste_row) list" where
  "get_active_recommendations w =
     rev (sort_key (\<lambda>(r, x). w_date x)
       (filter (\<lambda>(r, x). w_resource_type x = ''ec2_instance'' \<and> r_status r \<notin> {Obsolete, Cancelled}) (joined w)))"

definition mark_as_obsolete :: "bool \<Rightarrow> nat list \<Rightarrow> world \<Rightarrow> nat \<times> world" where
  "mark_as_obsolete dry_run ids w =
     (if ids = [] then (0, w)
      else if dry_run then (length ids, w)
      else (t_count (\<lambda>r. r_id r \<in> set ids) (recs w),
            w\<lparr>recs := t_update (\<lambda>r. r_id r \<in> set ids) (\<lambda>r. r\<lparr>r_status := Obsolete\<rparr>) (recs w)\<rparr>))"

text \<open>The exit code of the process and what it leaves.\<close>

definition cleanup_run :: "aws_exc + (string \<times> string) list \<Rightarrow> bool \<Rightarrow> world \<Rightarrow> int \<times> world" where
  "cleanup_run pages dry_run w =
     (case get_all_ec2_instance_ids pages of
        Inl _ \<Rightarrow> (1, w)
      | Inr aws_instance_ids \<Rightarrow>
          let orphaned = filter (\<lambda>(r, x). w_resource_id x \<notin> aws_instance_ids) (get_active_recommendations w)
          in if orphaned = [] then (0, w)
             else (0, snd (mark_as_obsolete dry_run (map (\<lambda>(r, x). r_id r) orphaned) w)))"

section \<open>What it leaves\<close>

definition orphan :: "(string \<times> string) list \<Rightarrow> world \<Rightarrow> rec_row \<Rightarrow> bool" where
  "orphan instances w r \<longleftrightarrow> r_status r \<notin> {Obsolete, Cancelled}
     \<and> (\<exists>x. t_get w_id (r_waste r) (wastes w) = Some x \<and> w_resource_type x = ''ec2_instance''
          \<and> (\<forall>state. (w_resource_id x, state) \<in> set instances \<longrightarrow> state = ''terminated''))"

lemma joined_iff:
  "(r, x) \<in> set (joined w) \<longleftrightarrow> r \<in> set (t_rows (recs w)) \<and> t_get w_id (r_waste r) (wastes w) = Some x"
  by (auto simp: joined_def map_filter_def intro!: rev_image_eqI)

lemma orphaned_ids:
  assumes "t_wf r_id (recs w)" "r \<in> set (t_rows (recs w))"
  shows "r_id r \<in> (\<lambda>(r, x). r_id r) ` set (filter (\<lambda>(r, x). w_resource_id x \<notin> fst ` set (filter (\<lambda>(i, state). state \<noteq> ''terminated'') instances))
      (get_active_recommendations w)) \<longleftrightarrow> orphan instances w r"
proof -
  let ?alive = "fst ` set (filter (\<lambda>(i, state). state \<noteq> ''terminated'') instances)"
  have same: "r' = r" if "r' \<in> set (t_rows (recs w))" "r_id r' = r_id r" for r'
    using assms that by (auto simp: t_wf_def distinct_map inj_on_def)
  have "r_id r \<in> (\<lambda>(r, x). r_id r) ` set (filter (\<lambda>(r, x). w_resource_id x \<notin> ?alive) (get_active_recommendations w))
      \<longleftrightarrow> (\<exists>r' x. (r', x) \<in> set (joined w) \<and> r_id r' = r_id r \<and> w_resource_type x = ''ec2_instance''
            \<and> r_status r' \<notin> {Obsolete, Cancelled} \<and> w_resource_id x \<notin> ?alive)"
    by (auto simp: get_active_recommendations_def image_iff) metis+
  also have "\<dots> \<longleftrightarrow> (\<exists>x. (r, x) \<in> set (joined w) \<and> w_resource_type x = ''ec2_instance''
            \<and> r_status r \<notin> {Obsolete, Cancelled} \<and> w_resource_id x \<notin> ?alive)"
    using same assms(2) by (metis joined_iff)
  also have "\<dots> \<longleftrightarrow> orphan instances w r"
    using assms(2) by (auto simp: joined_iff orphan_def image_iff)
  finally show ?thesis .
qed

text \<open>
  C31: when AWS does not answer, and in a dry run, nothing changes. Otherwise the recommendations that
  become obsolete are exactly those of instances the region does not report, or reports as terminated,
  whatever their status was short of cancelled: a rejected recommendation is one of them, and so is an
  applied, approved or dismissed one, a move that the state machine of the application never makes. No other row
  and no other table changes, and nothing is written to AWS.
\<close>

theorem cleanup_outcome:
  assumes "t_wf r_id (recs w)"
  shows "(\<forall>e. cleanup_run (Inl e) dry w = (1, w)) \<and> cleanup_run (Inr instances) True w = (0, w)
    \<and> (\<exists>w'. cleanup_run (Inr instances) False w = (0, w')
         \<and> w' = w\<lparr>recs := recs w'\<rparr>
         \<and> (\<forall>j. t_get r_id j (recs w') =
              map_option (\<lambda>r. if orphan instances w r then r\<lparr>r_status := Obsolete\<rparr> else r) (t_get r_id j (recs w)))
         \<and> (\<forall>r \<in> set (t_rows (recs w)). orphan instances w r \<and> r_status r \<in> {Applied, Approved, Dismissed}
              \<longrightarrow> \<not> moves w w'))"
proof (intro conjI allI)
  show "cleanup_run (Inl e) dry w = (1, w)" for e
    by (simp add: cleanup_run_def get_all_ec2_instance_ids_def)
  show "cleanup_run (Inr instances) True w = (0, w)"
    by (simp add: cleanup_run_def get_all_ec2_instance_ids_def mark_as_obsolete_def Let_def)
  define ids where "ids = map (\<lambda>(r, x). r_id r) (filter (\<lambda>(r, x). w_resource_id x \<notin>
      fst ` set (filter (\<lambda>(i, state). state \<noteq> ''terminated'') instances)) (get_active_recommendations w))"
  define w' where "w' = w\<lparr>recs := t_update (\<lambda>r. r_id r \<in> set ids) (\<lambda>r. r\<lparr>r_status := Obsolete\<rparr>) (recs w)\<rparr>"
  have run: "cleanup_run (Inr instances) False w = (0, w')"
  proof (cases "ids = []")
    case True
    then have "w' = w" by (simp add: w'_def t_update_def)
    with True show ?thesis
      by (simp add: cleanup_run_def get_all_ec2_instance_ids_def ids_def)
  next
    case False
    then show ?thesis
      by (simp add: cleanup_run_def get_all_ec2_instance_ids_def mark_as_obsolete_def Let_def ids_def w'_def)
  qed
  have orphan: "r_id r \<in> set ids \<longleftrightarrow> orphan instances w r" if "r \<in> set (t_rows (recs w))" for r
    using orphaned_ids [OF assms that] by (simp add: ids_def)
  have rows: "t_get r_id j (recs w') =
      map_option (\<lambda>r. if orphan instances w r then r\<lparr>r_status := Obsolete\<rparr> else r) (t_get r_id j (recs w))" for j
    using orphan by (auto simp: w'_def rec_table.get_upd map_option_case dest!: t_get_mem split: option.splits)
  have "\<not> moves w w'"
    if r: "r \<in> set (t_rows (recs w))" "orphan instances w r" "r_status r \<in> {Applied, Approved, Dismissed}" for r
  proof
    assume "moves w w'"
    have old: "t_get r_id (r_id r) (recs w) = Some r" by (rule t_get_of_mem [OF assms r(1)])
    then have "transition\<^sup>*\<^sup>* (r_status r) Obsolete"
      using \<open>moves w w'\<close> r(2) by (auto simp: moves_def status_of_def rows dest: spec [of _ "r_id r"])
    then have "Obsolete = r_status r"
      by (rule final_absorbing) (use r(3) in \<open>auto simp: final_status_def\<close>)
    with r(3) show False by auto
  qed
  with run rows show "\<exists>w'. cleanup_run (Inr instances) False w = (0, w')
         \<and> w' = w\<lparr>recs := recs w'\<rparr>
         \<and> (\<forall>j. t_get r_id j (recs w') =
              map_option (\<lambda>r. if orphan instances w r then r\<lparr>r_status := Obsolete\<rparr> else r) (t_get r_id j (recs w)))
         \<and> (\<forall>r \<in> set (t_rows (recs w)). orphan instances w r \<and> r_status r \<in> {Applied, Approved, Dismissed}
              \<longrightarrow> \<not> moves w w')"
    by (intro exI [of _ w']) (auto simp: w'_def)
qed

text \<open>An applied recommendation of an instance of another region.\<close>

lemma cleanup_outcome_witness:
  "\<exists>w w'. cleanup_run (Inr [(''i-9'', ''running'')]) False w = (0, w') \<and> \<not> moves w w'"
proof -
  define r where "r = (hd (t_rows (recs sample_world)))\<lparr>r_status := Applied\<rparr>"
  define w where "w = sample_world\<lparr>recs := \<lparr>t_rows = [r], t_next = 8\<rparr>\<rparr>"
  have wf: "t_wf r_id (recs w)" by (simp add: t_wf_def w_def r_def sample_world_def)
  have r: "r \<in> set (t_rows (recs w))" by (simp add: w_def)
  have orphan: "orphan [(''i-9'', ''running'')] w r \<and> r_status r \<in> {Applied, Approved, Dismissed}"
    by (simp add: orphan_def w_def r_def sample_world_def t_get_def)
  obtain w' where run: "cleanup_run (Inr [(''i-9'', ''running'')]) False w = (0, w')"
    and unsafe: "\<forall>r \<in> set (t_rows (recs w)). orphan [(''i-9'', ''running'')] w r \<and> r_status r \<in> {Applied, Approved, Dismissed}
       \<longrightarrow> \<not> moves w w'"
    using cleanup_outcome [OF wf, where instances = "[(''i-9'', ''running'')]", THEN conjunct2, THEN conjunct2]
    by (elim exE conjE) (rule that)
  have "\<not> moves w w'" by (rule unsafe [THEN bspec, OF r, THEN mp, OF orphan])
  with run show ?thesis by blast
qed

end
