(* ===== verification/CloudCosts.thy ===== *)
theory CloudCosts
  imports Store
begin

text \<open>
  The costs of the account: \<open>cost_collector_job\<close> of \<open>ui/jobs.py\<close> and the script
  \<open>src/aws_collector.py\<close>, which read Cost Explorer page by page and upsert \<open>cloud_costs_raw\<close>. Cost
  Explorer is a parameter: the answer to the request for a window and a page token. The loop over
  the pages ends when a page carries no token, which nothing in the code enforces, so it is a
  partial function: \<open>None\<close> is a loop that never ends.
\<close>

section \<open>Pages\<close>

type_synonym cost_days = "(int \<times> (string \<times> rat) list) list"

text \<open>One answer: the days of the page, each with its services, and the token of the next page.\<close>

type_synonym cost_page = "cost_days \<times> string option"

type_synonym cost_api = "int \<Rightarrow> int \<Rightarrow> string option \<Rightarrow> aws_exc + cost_page"

partial_function (option) fetch_pages ::
    "(string option \<Rightarrow> aws_exc + cost_page) \<Rightarrow> string option \<Rightarrow> cost_days \<Rightarrow> (aws_exc + cost_days) option" where
  "fetch_pages ce next_token results =
     (case ce next_token of
        Inl e \<Rightarrow> Some (Inl e)
      | Inr (page, token) \<Rightarrow>
          if truthy token then fetch_pages ce token (results @ page)
          else Some (Inr (results @ page)))"

section \<open>The table\<close>

text \<open>
  \<open>cloud_costs_raw\<close> under its unique constraint: provider, account, service and day. The time of the
  collection is an instant; the columns that are always NULL are left out.
\<close>

type_synonym cost_key = "string \<times> string \<times> string \<times> int"

record cost_row =
  cc_cost :: rat
  cc_currency :: string
  cc_region :: string
  cc_created :: int

type_synonym cost_table = "(cost_key, cost_row) dict"

datatype cost_error = CardinalityViolation | Unreachable string

text \<open>
  \<open>execute_values\<close> sends statements of 100 rows. PostgreSQL refuses a statement that would update a
  row twice. \<open>bump\<close> says whether the \<open>DO UPDATE\<close> also sets \<open>created_at\<close>: the script does, the job does not.
\<close>

definition upsert_cost :: "bool \<Rightarrow> cost_key \<times> cost_row \<Rightarrow> cost_table \<Rightarrow> cost_table" where
  "upsert_cost bump kv costs =
     (case map_of costs (fst kv) of
        None \<Rightarrow> AList.update (fst kv) (snd kv) costs
      | Some old \<Rightarrow>
          AList.update (fst kv)
            (old\<lparr>cc_cost := cc_cost (snd kv), cc_currency := cc_currency (snd kv),
                 cc_created := (if bump then cc_created (snd kv) else cc_created old)\<rparr>) costs)"

definition insert_batch ::
    "bool \<Rightarrow> (cost_key \<times> cost_row) list \<Rightarrow> cost_table \<Rightarrow> cost_error + cost_table" where
  "insert_batch bump rows costs =
     (if distinct (map fst rows) then Inr (fold (upsert_cost bump) rows costs) else Inl CardinalityViolation)"

definition PAGE_SIZE :: nat where
  "PAGE_SIZE = 100"

function execute_values ::
    "bool \<Rightarrow> (cost_key \<times> cost_row) list \<Rightarrow> cost_table \<Rightarrow> cost_error + cost_table" where
  "execute_values bump rows costs =
     (if rows = [] then Inr costs
      else py_bind (insert_batch bump (take PAGE_SIZE rows) costs) (execute_values bump (drop PAGE_SIZE rows)))"
  by pat_completeness auto
termination
  by (relation "measure (\<lambda>(_, rows, _). length rows)") (auto simp: PAGE_SIZE_def)

declare execute_values.simps [simp del]

text \<open>What Cost Explorer reports above one cent, in its order.\<close>

definition billed :: "cost_days \<Rightarrow> (int \<times> string \<times> rat) list" where
  "billed days =
     concat (map (\<lambda>(usage_date, groups).
       map (\<lambda>(service, cost). (usage_date, service, cost)) (filter (\<lambda>(service, cost). cost > 1 / 100) groups)) days)"

definition cost_values :: "string \<Rightarrow> string \<Rightarrow> env \<Rightarrow> cost_days \<Rightarrow> (cost_key \<times> cost_row) list" where
  "cost_values account_id region env days =
     map (\<lambda>(usage_date, service, cost).
            ((''aws'', account_id, service, usage_date),
             \<lparr>cc_cost = cost, cc_currency = ''USD'', cc_region = region, cc_created = e_now env\<rparr>))
       (billed days)"

section \<open>The job\<close>

definition latest_cost :: "cost_table \<Rightarrow> int option" where
  "latest_cost costs =
     (let dates = map (\<lambda>((p, a, s, d), _). d) (filter (\<lambda>((p, a, s, d), _). p = ''aws'') costs)
      in if dates = [] then None else Some (fold max dates (hd dates)))"

record account =
  acc_id :: string
  acc_region :: string

text \<open>A failed statement and an exception of Cost Explorer are printed; nothing is committed.\<close>

definition cost_collector_job :: "cost_api \<Rightarrow> account \<Rightarrow> env \<Rightarrow> cost_table \<Rightarrow> cost_table option" where
  "cost_collector_job ce acc env costs =
     (if (case latest_cost costs of None \<Rightarrow> False | Some latest \<Rightarrow> latest \<ge> e_today env - 1) then Some costs
      else
        (case fetch_pages (ce (e_today env - 180) (e_today env)) None [] of
           None \<Rightarrow> None
         | Some (Inl _) \<Rightarrow> Some costs
         | Some (Inr results_by_time) \<Rightarrow>
             let values = cost_values (acc_id acc) (acc_region acc) env results_by_time
             in if values = [] then Some costs
                else (case execute_values False values costs of
                        Inl _ \<Rightarrow> Some costs
                      | Inr costs' \<Rightarrow> Some costs')))"

section \<open>The script\<close>



text \<open>What a run of the script leaves: its exit code, the days it asked for (none without a request), the table.\<close>

record collected =
  co_exit :: int
  co_window :: "int option"
  co_costs :: cost_table

definition save_to_postgres :: "account \<Rightarrow> env \<Rightarrow> cost_days \<Rightarrow> cost_table \<Rightarrow> cost_error + cost_table" where
  "save_to_postgres acc env days = execute_values True (cost_values (acc_id acc) (acc_region acc) env days)"

definition get_costs_last_n_days :: "cost_api \<Rightarrow> env \<Rightarrow> int \<Rightarrow> (aws_exc + cost_days) option" where
  "get_costs_last_n_days ce env days = fetch_pages (ce (e_today env - days) (e_today env)) None []"

definition collect_costs :: "cost_api \<Rightarrow> account \<Rightarrow> env \<Rightarrow> int \<Rightarrow> cost_table \<Rightarrow> collected option" where
  "collect_costs ce acc env days costs =
     (case get_costs_last_n_days ce env days of
        None \<Rightarrow> None
      | Some (Inl _) \<Rightarrow> Some \<lparr>co_exit = 1, co_window = Some days, co_costs = costs\<rparr>
      | Some (Inr daily) \<Rightarrow>
          if cost_values (acc_id acc) (acc_region acc) env daily = []
          then Some \<lparr>co_exit = 0, co_window = Some days, co_costs = costs\<rparr>
          else (case save_to_postgres acc env daily costs of
                  Inl _ \<Rightarrow> Some \<lparr>co_exit = 1, co_window = Some days, co_costs = costs\<rparr>
                | Inr costs' \<Rightarrow> Some \<lparr>co_exit = 0, co_window = Some days, co_costs = costs'\<rparr>))"


section \<open>The loop over the pages\<close>

text \<open>The requests that the loop makes, one after the other, and where it ends.\<close>

primrec request :: "(string option \<Rightarrow> aws_exc + cost_page) \<Rightarrow> string option \<Rightarrow> nat \<Rightarrow> string option" where
  "request ce token 0 = token"
| "request ce token (Suc n) =
     (case ce token of Inl _ \<Rightarrow> None | Inr (_, t) \<Rightarrow> request ce t n)"

definition ends_at :: "(string option \<Rightarrow> aws_exc + cost_page) \<Rightarrow> string option \<Rightarrow> nat \<Rightarrow> bool" where
  "ends_at ce token n \<longleftrightarrow>
     (case ce (request ce token n) of Inl _ \<Rightarrow> True | Inr (_, t) \<Rightarrow> \<not> truthy t)"

fun page_days :: "aws_exc + cost_page \<Rightarrow> cost_days" where
  "page_days (Inl _) = []"
| "page_days (Inr (page, _)) = page"

definition pages :: "(string option \<Rightarrow> aws_exc + cost_page) \<Rightarrow> string option \<Rightarrow> nat \<Rightarrow> cost_days" where
  "pages ce token n = concat (map (\<lambda>i. page_days (ce (request ce token i))) [0..<n])"

lemma pages_0 [simp]: "pages ce token 0 = []"
  by (simp add: pages_def)

lemma pages_Suc: "ce token = Inr (page, t) \<Longrightarrow> pages ce token (Suc n) = page @ pages ce t n"
  by (simp add: pages_def upt_conv_Cons map_Suc_upt [symmetric] comp_def del: upt_Suc)

lemma ends_at_Suc: "ce token = Inr (page, t) \<Longrightarrow> ends_at ce token (Suc n) = ends_at ce t n"
  by (simp add: ends_at_def)

lemma fetch_pages_ends:
  assumes "ends_at ce token n" "\<forall>m < n. \<not> ends_at ce token m"
  shows "fetch_pages ce token results =
    Some (case ce (request ce token n) of Inl e \<Rightarrow> Inl e | Inr _ \<Rightarrow> Inr (results @ pages ce token (Suc n)))"
  using assms
proof (induction n arbitrary: token results)
  case 0
  then show ?case
    by (auto simp: fetch_pages.simps [of ce token] ends_at_def pages_def split: sum.splits)
next
  case (Suc n)
  have "\<not> ends_at ce token 0" using Suc.prems(2) by blast
  then obtain page t where ce: "ce token = Inr (page, t)" "truthy t"
    by (auto simp: ends_at_def split: sum.splits)
  have "ends_at ce t n" "\<forall>m < n. \<not> ends_at ce t m"
    using Suc.prems ends_at_Suc [of ce token page t] ce(1) by (auto simp: less_Suc_eq_0_disj)
  from Suc.IH [OF this, of "results @ page"] ce show ?case
    by (simp add: fetch_pages.simps [of ce token] pages_Suc [of ce token page t, OF ce(1)] split: sum.splits)
qed

lemma fetch_pages_returns: "fetch_pages ce token results = Some r \<Longrightarrow> \<exists>n. ends_at ce token n"
proof (rule fetch_pages.raw_induct [where P = "\<lambda>ce token results r. \<exists>n. ends_at ce token n"])
  fix f ce token results r
  assume IH: "\<And>ce token results r. f ce token results = Some r \<Longrightarrow> \<exists>n. ends_at ce token n"
    and eq: "(case ce token of Inl e \<Rightarrow> Some (Inl e)
       | Inr (page, t) \<Rightarrow> if truthy t then f ce t (results @ page) else Some (Inr (results @ page))) = Some r"
  show "\<exists>n. ends_at ce token n"
  proof (cases "ends_at ce token 0")
    case False
    then obtain page t where ce: "ce token = Inr (page, t)" "truthy t"
      by (auto simp: ends_at_def split: sum.splits)
    with eq have "f ce t (results @ page) = Some r" by simp
    from IH [OF this] obtain n where "ends_at ce t n" ..
    then show ?thesis using ends_at_Suc [of ce token page t n] ce(1) by blast
  qed blast
qed

lemma fetch_pages_iff: "(\<exists>r. fetch_pages ce token results = Some r) \<longleftrightarrow> (\<exists>n. ends_at ce token n)"
proof
  assume "\<exists>n. ends_at ce token n"
  then have "ends_at ce token (LEAST n. ends_at ce token n)" by (rule LeastI_ex)
  from fetch_pages_ends [OF this] not_less_Least show "\<exists>r. fetch_pages ce token results = Some r" by blast
qed (blast dest: fetch_pages_returns)

section \<open>The upsert\<close>

definition merged_cost :: "bool \<Rightarrow> cost_row option \<Rightarrow> cost_row \<Rightarrow> cost_row" where
  "merged_cost bump old row =
     (case old of
        None \<Rightarrow> row
      | Some o' \<Rightarrow> o'\<lparr>cc_cost := cc_cost row, cc_currency := cc_currency row,
                       cc_created := (if bump then cc_created row else cc_created o')\<rparr>)"

lemma map_of_upsert:
  "map_of (upsert_cost bump (k, row) costs) k' =
     (if k' = k then Some (merged_cost bump (map_of costs k) row) else map_of costs k')"
  by (simp add: upsert_cost_def merged_cost_def update_conv' split: option.splits)

lemma map_of_batch:
  "distinct (map fst rows) \<Longrightarrow>
   map_of (fold (upsert_cost bump) rows costs) k =
     (case map_of rows k of None \<Rightarrow> map_of costs k | Some row \<Rightarrow> Some (merged_cost bump (map_of costs k) row))"
proof (induction rows arbitrary: costs)
  case (Cons kv rows)
  obtain k0 row0 where kv: "kv = (k0, row0)" by fastforce
  have "map_of rows k0 = None" using Cons.prems kv by (auto simp: map_of_eq_None_iff)
  with Cons show ?case by (simp add: kv map_of_upsert split: option.splits)
qed simp

lemma execute_values_ok:
  "distinct (map fst rows) \<Longrightarrow>
   \<exists>costs'. execute_values bump rows costs = Inr costs'
     \<and> (\<forall>k. map_of costs' k =
            (case map_of rows k of None \<Rightarrow> map_of costs k | Some row \<Rightarrow> Some (merged_cost bump (map_of costs k) row)))"
proof (induction "length rows" arbitrary: rows costs rule: less_induct)
  case less
  show ?case
  proof (cases "rows = []")
    case True
    then show ?thesis by (simp add: execute_values.simps)
  next
    case False
    let ?a = "take PAGE_SIZE rows" and ?b = "drop PAGE_SIZE rows"
    have d: "distinct (map fst ?a)" "distinct (map fst ?b)" "fst ` set ?a \<inter> fst ` set ?b = {}"
    proof -
      have "distinct (map fst (?a @ ?b))" using less.prems by simp
      then show "distinct (map fst ?a)" "distinct (map fst ?b)" "fst ` set ?a \<inter> fst ` set ?b = {}"
        by (simp_all only: map_append distinct_append set_map)
    qed
    have "length ?b < length rows" using False by (simp add: PAGE_SIZE_def)
    from less.hyps [OF this d(2), of "fold (upsert_cost bump) ?a costs"] obtain costs' where
      c: "execute_values bump ?b (fold (upsert_cost bump) ?a costs) = Inr costs'"
        "map_of costs' k = (case map_of ?b k of None \<Rightarrow> map_of (fold (upsert_cost bump) ?a costs) k
           | Some row \<Rightarrow> Some (merged_cost bump (map_of (fold (upsert_cost bump) ?a costs) k) row))" for k
      by blast
    have "execute_values bump rows costs = Inr costs'"
      using c(1) d(1) False by (subst execute_values.simps) (simp add: insert_batch_def)
    moreover have "map_of costs' k =
        (case map_of rows k of None \<Rightarrow> map_of costs k | Some row \<Rightarrow> Some (merged_cost bump (map_of costs k) row))" for k
    proof -
      have "map_of rows k = map_of (?a @ ?b) k" by simp
      also have "\<dots> = (case map_of ?a k of None \<Rightarrow> map_of ?b k | Some row \<Rightarrow> Some row)"
        by (simp only: map_of_append map_add_def)
      finally have rows: "map_of rows k = (case map_of ?a k of None \<Rightarrow> map_of ?b k | Some row \<Rightarrow> Some row)" .
      have "map_of ?a k = None \<or> map_of ?b k = None"
        using d(3) by (auto simp: map_of_eq_None_iff)
      then show ?thesis
        unfolding c(2) rows map_of_batch [OF d(1)] by (auto split: option.splits)
    qed
    ultimately show ?thesis by blast
  qed
qed

lemma execute_values_fails:
  "(\<exists>e. execute_values bump rows costs = Inl e) \<longleftrightarrow>
     (\<exists>k. \<not> distinct (map fst (take PAGE_SIZE (drop (k * PAGE_SIZE) rows))))"
proof (induction "length rows" arbitrary: rows costs rule: less_induct)
  case less
  show ?case
  proof (cases "rows = []")
    case True
    then show ?thesis by (simp add: execute_values.simps)
  next
    case False
    let ?d = "\<lambda>rows k. distinct (map fst (take PAGE_SIZE (drop (k * PAGE_SIZE) rows)))"
    have "length (drop PAGE_SIZE rows) < length rows" using False by (simp add: PAGE_SIZE_def)
    note IH = less.hyps [OF this]
    have step: "?d rows (Suc k) = ?d (drop PAGE_SIZE rows) k" for k
      by (simp add: add.commute)
    have "(\<exists>k. \<not> ?d rows k) \<longleftrightarrow> \<not> ?d rows 0 \<or> (\<exists>k. \<not> ?d rows (Suc k))"
      by (metis not0_implies_Suc)
    with IH [of "fold (upsert_cost bump) (take PAGE_SIZE rows) costs"] False show ?thesis
      unfolding step by (subst execute_values.simps) (simp add: insert_batch_def)
  qed
qed

section \<open>Properties\<close>

text \<open>
  C15: The collection of costs returns exactly when it has nothing to ask, or one of the answers of
  Cost Explorer is an error or the last page; a service that always hands out a token keeps the
  job, and the script, forever. When it ends without an error every page was read, in order.
\<close>

theorem cost_collection_terminates:
  fixes ce :: cost_api and env :: env
  shows "((\<exists>costs'. cost_collector_job ce acc env costs = Some costs') \<longleftrightarrow>
            (\<exists>day. latest_cost costs = Some day \<and> e_today env - 1 \<le> day)
            \<or> (\<exists>n. ends_at (ce (e_today env - 180) (e_today env)) None n))
    \<and> ((\<exists>res. collect_costs ce acc env days costs = Some res) \<longleftrightarrow>
            (\<exists>n. ends_at (ce (e_today env - days) (e_today env)) None n))
    \<and> (\<forall>answer n. ends_at answer None n \<and> (\<forall>m < n. \<not> ends_at answer None m) \<longrightarrow>
         fetch_pages answer None [] =
           Some (case answer (request answer None n) of
                   Inl e \<Rightarrow> Inl e | Inr _ \<Rightarrow> Inr (pages answer None (Suc n))))"
proof (intro conjI allI impI)
  show "(\<exists>costs'. cost_collector_job ce acc env costs = Some costs') \<longleftrightarrow>
      (\<exists>day. latest_cost costs = Some day \<and> e_today env - 1 \<le> day)
      \<or> (\<exists>n. ends_at (ce (e_today env - 180) (e_today env)) None n)"
    using fetch_pages_iff [of "ce (e_today env - 180) (e_today env)" None "[]"]
    by (auto simp: cost_collector_job_def Let_def split: option.splits sum.splits)
  show "(\<exists>res. collect_costs ce acc env days costs = Some res) \<longleftrightarrow>
      (\<exists>n. ends_at (ce (e_today env - days) (e_today env)) None n)"
    using fetch_pages_iff [of "ce (e_today env - days) (e_today env)" None "[]"]
    by (auto simp: collect_costs_def get_costs_last_n_days_def split: option.splits sum.splits)
next
  fix answer :: "string option \<Rightarrow> aws_exc + cost_page" and n
  assume "ends_at answer None n \<and> (\<forall>m < n. \<not> ends_at answer None m)"
  then have "ends_at answer None n" "\<forall>m < n. \<not> ends_at answer None m" by blast+
  from fetch_pages_ends [OF this, of "[]"]
  show "fetch_pages answer None [] =
      Some (case answer (request answer None n) of Inl e \<Rightarrow> Inl e | Inr _ \<Rightarrow> Inr (pages answer None (Suc n)))"
    by (simp cong: sum.case_cong)
qed

definition two_pages :: "string option \<Rightarrow> aws_exc + cost_page" where
  "two_pages token =
     (if token = None then Inr ([(98, [(''AmazonEC2'', 12)])], Some ''next'')
      else Inr ([(99, [(''AmazonEC2'', 13), (''AWSConfig'', 1 / 200)])], None))"

definition endless_pages :: "string option \<Rightarrow> aws_exc + cost_page" where
  "endless_pages token = Inr ([], Some ''again'')"

lemma request_endless: "token \<in> {None, Some ''again''} \<Longrightarrow> request endless_pages token n \<in> {None, Some ''again''}"
  by (induction n arbitrary: token) (auto simp: endless_pages_def)

theorem cost_collection_terminates_witness:
  "fetch_pages two_pages None [] = Some (Inr [(98, [(''AmazonEC2'', 12)]), (99, [(''AmazonEC2'', 13), (''AWSConfig'', 1 / 200)])])
   \<and> (\<forall>acc env. cost_collector_job (\<lambda>_ _. endless_pages) acc env [] = None)"
proof
  have "ends_at two_pages None 1" "\<forall>m < 1. \<not> ends_at two_pages None m"
    by (simp_all add: ends_at_def two_pages_def)
  with cost_collection_terminates [THEN conjunct2, THEN conjunct2, rule_format, of two_pages 1]
  show "fetch_pages two_pages None [] =
      Some (Inr [(98, [(''AmazonEC2'', 12)]), (99, [(''AmazonEC2'', 13), (''AWSConfig'', 1 / 200)])])"
    by (simp add: pages_def two_pages_def)
  have "\<not> ends_at endless_pages None n" for n
    by (simp add: ends_at_def endless_pages_def)
  with cost_collection_terminates [THEN conjunct1, of "\<lambda>_ _. endless_pages" _ _ "[]"]
  show "\<forall>acc env. cost_collector_job (\<lambda>_ _. endless_pages) acc env [] = None"
    by (simp add: latest_cost_def)
qed

text \<open>
  The script saves all or nothing: without a cost above one cent the table stays; a day and
  service twice in a batch of one hundred rows fails the run and leaves the table; otherwise every
  cost above one cent stands in the table as Cost Explorer gave it, marked as collected now, and
  every other row is as it was.
\<close>

theorem cost_collection_outcome:
  assumes fetch: "fetch_pages (ce (e_today env - days) (e_today env)) None [] = Some (Inr daily)"
  shows "(billed daily = [] \<longrightarrow>
            collect_costs ce acc env days costs = Some \<lparr>co_exit = 0, co_window = Some days, co_costs = costs\<rparr>)
    \<and> ((\<exists>k. \<not> distinct (map (\<lambda>(d, s, _). (s, d)) (take 100 (drop (k * 100) (billed daily))))) \<longrightarrow>
            collect_costs ce acc env days costs = Some \<lparr>co_exit = 1, co_window = Some days, co_costs = costs\<rparr>)
    \<and> (distinct (map (\<lambda>(d, s, _). (s, d)) (billed daily)) \<longrightarrow>
         (\<exists>costs'. collect_costs ce acc env days costs = Some \<lparr>co_exit = 0, co_window = Some days, co_costs = costs'\<rparr>
            \<and> (\<forall>(d, s, cost) \<in> set (billed daily). \<exists>row. map_of costs' (''aws'', acc_id acc, s, d) = Some row
                 \<and> cc_cost row = cost \<and> cc_currency row = ''USD'' \<and> cc_created row = e_now env)
            \<and> (\<forall>key. key \<notin> (\<lambda>(d, s, _). (''aws'', acc_id acc, s, d)) ` set (billed daily) \<longrightarrow>
                 map_of costs' key = map_of costs key)))"
proof (intro conjI impI)
  let ?v = "cost_values (acc_id acc) (acc_region acc) env daily"
  show "collect_costs ce acc env days costs = Some \<lparr>co_exit = 0, co_window = Some days, co_costs = costs\<rparr>"
    if "billed daily = []"
    using that by (simp add: collect_costs_def get_costs_last_n_days_def fetch cost_values_def)
  have keys: "distinct (map fst (map (\<lambda>(d, s, c). ((''aws'', acc_id acc, s, d), R c)) xs))
      = distinct (map (\<lambda>(d, s, _). (s, d)) xs)" for xs :: "(int \<times> string \<times> rat) list" and R :: "rat \<Rightarrow> cost_row"
  proof -
    have "map fst (map (\<lambda>(d, s, c). ((''aws'', acc_id acc, s, d), R c)) xs)
        = map (\<lambda>(s, d). (''aws'', acc_id acc, s, d)) (map (\<lambda>(d, s, _). (s, d)) xs)"
      by (simp add: case_prod_unfold)
    then show ?thesis by (simp add: distinct_map inj_on_def del: map_map)
  qed
  show "collect_costs ce acc env days costs = Some \<lparr>co_exit = 1, co_window = Some days, co_costs = costs\<rparr>"
    if dup: "\<exists>k. \<not> distinct (map (\<lambda>(d, s, _). (s, d)) (take 100 (drop (k * 100) (billed daily))))"
  proof -
    from dup have "billed daily \<noteq> []" by auto
    moreover from dup obtain e where "execute_values True ?v costs = Inl e"
      using execute_values_fails [of True ?v costs]
      by (auto simp: PAGE_SIZE_def cost_values_def take_map drop_map keys simp del: map_map)
    ultimately show ?thesis by (simp add: collect_costs_def get_costs_last_n_days_def fetch save_to_postgres_def cost_values_def)
  qed
  show "\<exists>costs'. collect_costs ce acc env days costs = Some \<lparr>co_exit = 0, co_window = Some days, co_costs = costs'\<rparr>
            \<and> (\<forall>(d, s, cost) \<in> set (billed daily). \<exists>row. map_of costs' (''aws'', acc_id acc, s, d) = Some row
                 \<and> cc_cost row = cost \<and> cc_currency row = ''USD'' \<and> cc_created row = e_now env)
            \<and> (\<forall>key. key \<notin> (\<lambda>(d, s, _). (''aws'', acc_id acc, s, d)) ` set (billed daily) \<longrightarrow>
                 map_of costs' key = map_of costs key)"
    if "distinct (map (\<lambda>(d, s, _). (s, d)) (billed daily))"
  proof -
    from that have dist: "distinct (map fst ?v)" by (simp add: cost_values_def keys del: map_map)
    from execute_values_ok [OF dist, of True costs] obtain costs' where
      run: "execute_values True ?v costs = Inr costs'"
      and rows: "\<And>k. map_of costs' k =
        (case map_of ?v k of None \<Rightarrow> map_of costs k | Some row \<Rightarrow> Some (merged_cost True (map_of costs k) row))"
      by blast
    have "collect_costs ce acc env days costs = Some \<lparr>co_exit = 0, co_window = Some days, co_costs = costs'\<rparr>"
      using run by (auto simp: collect_costs_def get_costs_last_n_days_def fetch save_to_postgres_def execute_values.simps)
    moreover have "\<exists>row. map_of costs' (''aws'', acc_id acc, s, d) = Some row
        \<and> cc_cost row = cost \<and> cc_currency row = ''USD'' \<and> cc_created row = e_now env"
      if "(d, s, cost) \<in> set (billed daily)" for d s cost
    proof -
      let ?row = "\<lparr>cc_cost = cost, cc_currency = ''USD'', cc_region = acc_region acc, cc_created = e_now env\<rparr>"
      have "((''aws'', acc_id acc, s, d), ?row) \<in> set ?v"
        using that by (force simp: cost_values_def)
      with dist have "map_of ?v (''aws'', acc_id acc, s, d) = Some ?row" by (simp add: map_of_is_SomeI)
      then show ?thesis by (simp add: rows merged_cost_def split: option.splits)
    qed
    moreover have "map_of costs' key = map_of costs key"
      if "key \<notin> (\<lambda>(d, s, _). (''aws'', acc_id acc, s, d)) ` set (billed daily)" for key
    proof -
      have "map_of ?v key = None" using that by (force simp: map_of_eq_None_iff cost_values_def)
      then show ?thesis by (simp add: rows)
    qed
    ultimately show ?thesis by blast
  qed
qed

definition sample_account :: account where
  "sample_account = \<lparr>acc_id = ''1'', acc_region = ''eu-west-1''\<rparr>"

lemma two_pages_fetched:
  "fetch_pages two_pages None [] = Some (Inr [(98, [(''AmazonEC2'', 12)]), (99, [(''AmazonEC2'', 13), (''AWSConfig'', 1 / 200)])])"
  by (simp add: fetch_pages.simps two_pages_def)

lemma two_pages_billed:
  "billed [(98, [(''AmazonEC2'', 12)]), (99, [(''AmazonEC2'', 13), (''AWSConfig'', 1 / 200)])]
   = [(98, ''AmazonEC2'', 12), (99, ''AmazonEC2'', 13)]"
  by (simp add: billed_def)

theorem cost_collection_outcome_witness:
  "\<exists>costs' row. collect_costs (\<lambda>_ _. two_pages) sample_account sample_env 365 [] =
       Some \<lparr>co_exit = 0, co_window = Some 365, co_costs = costs'\<rparr>
     \<and> map_of costs' (''aws'', ''1'', ''AmazonEC2'', 99) = Some row \<and> cc_cost row = 13"
proof -
  note out = cost_collection_outcome [where ce = "\<lambda>_ _. two_pages" and env = sample_env and days = 365
      and acc = sample_account and costs = "[]", OF two_pages_fetched, unfolded two_pages_billed,
      THEN conjunct2, THEN conjunct2]
  then obtain costs' where c: "collect_costs (\<lambda>_ _. two_pages) sample_account sample_env 365 [] =
       Some \<lparr>co_exit = 0, co_window = Some 365, co_costs = costs'\<rparr>"
    "\<forall>(d, s, cost) \<in> set [(98, ''AmazonEC2'', 12), (99, ''AmazonEC2'', 13)].
       \<exists>row. map_of costs' (''aws'', acc_id sample_account, s, d) = Some row
         \<and> cc_cost row = cost \<and> cc_currency row = ''USD'' \<and> cc_created row = e_now sample_env" by auto
  then show ?thesis by (auto simp: sample_account_def)
qed








end
