(* ===== verification/Calendar.thy ===== *)
theory Calendar
  imports Prelude
begin

text \<open>
  The dates of Python's \<open>datetime\<close> and of PostgreSQL: a date is the number of days since the day
  before 1 January of year 1, as \<open>date.toordinal()\<close> counts them, and its year, month and day are
  computed from that number. The limits of the library, years 1 to 9999, are not modelled.
\<close>

section \<open>Years and months\<close>

definition leap_year :: "int \<Rightarrow> bool" where
  "leap_year y \<longleftrightarrow> 4 dvd y \<and> (\<not> 100 dvd y \<or> 400 dvd y)"

definition days_before_year :: "int \<Rightarrow> int" where
  "days_before_year y = (y - 1) * 365 + (y - 1) div 4 - (y - 1) div 100 + (y - 1) div 400"

definition days_in_month :: "int \<Rightarrow> nat \<Rightarrow> int" where
  "days_in_month y m = (if m = 2 then (if leap_year y then 29 else 28) else if m \<in> {4, 6, 9, 11} then 30 else 31)"

fun days_before_month :: "int \<Rightarrow> nat \<Rightarrow> int" where
  "days_before_month y 0 = 0"
| "days_before_month y (Suc m) = (if m = 0 then 0 else days_before_month y m + days_in_month y m)"

text \<open>\<open>date(y, m, d)\<close>.\<close>

definition mk_date :: "int \<Rightarrow> nat \<Rightarrow> int \<Rightarrow> int" where
  "mk_date y m d = days_before_year y + days_before_month y m + d"

definition year_of :: "int \<Rightarrow> int" where
  "year_of n = (let y = (n - 1) * 400 div 146097 + 1 in if n \<le> days_before_year (y + 1) then y else y + 1)"

definition month_of :: "int \<Rightarrow> nat" where
  "month_of n =
     (let y = year_of n in length (filter (\<lambda>m. days_before_year y + days_before_month y m < n) [1..<13]))"

definition day_of_month :: "int \<Rightarrow> int" where
  "day_of_month n = n - days_before_year (year_of n) - days_before_month (year_of n) (month_of n)"

text \<open>\<open>date.weekday()\<close>: Monday is 0.\<close>

definition weekday :: "int \<Rightarrow> int" where
  "weekday n = (n + 6) mod 7"

section \<open>The calendar is consistent\<close>

lemma days_before_year_Suc: "days_before_year (y + 1) = days_before_year y + (if leap_year y then 366 else 365)"
proof -
  have step: "y div k = (y - 1) div k + (if k dvd y then 1 else 0)" if "k > 0" for k :: int
  proof -
    define x where "x = y - 1"
    have "(x + 1) div k = x div k + (if k dvd x + 1 then 1 else 0)"
    proof (cases "k dvd x + 1")
      case True
      then obtain q where q: "x + 1 = k * q" by blast
      then have "x = k * (q - 1) + (k - 1)" by (simp add: algebra_simps)
      then have "x div k = q - 1" using that by (simp add: div_mult_self4)
      with q True that show ?thesis by simp
    next
      case False
      have "x mod k \<noteq> k - 1"
      proof
        assume "x mod k = k - 1"
        then have "(x + 1) mod k = 0" by (metis add.commute diff_add_cancel mod_add_right_eq mod_self)
        with False show False by (simp add: dvd_eq_mod_eq_0)
      qed
      then have "x mod k + 1 < k" using pos_mod_bound [OF that, of x] by simp
      moreover have "x + 1 = k * (x div k) + (x mod k + 1)" by simp
      ultimately have "(x + 1) div k = x div k"
        using that pos_mod_sign [OF that, of x] by (metis add.commute add_increasing2 div_pos_pos_trivial
          div_mult_self2 less_numeral_extra(3) mult.commute add_0_right zero_le_one)
      with False show ?thesis by simp
    qed
    then show ?thesis by (simp add: x_def)
  qed
  show ?thesis
    using step [of 4] step [of 100] step [of 400]
    by (auto simp: days_before_year_def leap_year_def algebra_simps dest: dvd_trans [of 4 100] dvd_trans [of 100 400])
qed

lemma days_before_year_mono: "y \<le> y' \<Longrightarrow> days_before_year y \<le> days_before_year y'"
  by (induction rule: int_ge_induct) (simp_all add: days_before_year_Suc split: if_splits)

lemma days_before_year_bounds:
  "400 * days_before_year (x + 1) \<le> 146097 * x + 396"
  "146097 * x - 699 \<le> 400 * days_before_year (x + 1)"
proof -
  have "4 * (x div 4) \<le> x" "x \<le> 4 * (x div 4) + 3" "100 * (x div 100) \<le> x" "x \<le> 100 * (x div 100) + 99"
    "400 * (x div 400) \<le> x" "x \<le> 400 * (x div 400) + 399"
    by presburger+
  then show "400 * days_before_year (x + 1) \<le> 146097 * x + 396"
    "146097 * x - 699 \<le> 400 * days_before_year (x + 1)"
    by (simp_all add: days_before_year_def)
qed

lemma year_of_bounds: "days_before_year (year_of n) < n" "n \<le> days_before_year (year_of n + 1)"
proof -
  define q where "q = (n - 1) * 400 div 146097"
  have q: "146097 * q \<le> 400 * n - 400" "400 * n - 400 < 146097 * q + 146097"
    by (simp_all add: q_def)
  have "days_before_year (q + 1) < n" using days_before_year_bounds(1) [of q] q by linarith
  moreover have "n \<le> days_before_year (q + 2 + 1)" using days_before_year_bounds(2) [of "q + 2"] q by simp
  ultimately show "days_before_year (year_of n) < n" "n \<le> days_before_year (year_of n + 1)"
    unfolding year_of_def Let_def q_def [symmetric] by (auto simp: add.assoc)
qed

lemma year_of_unique: "days_before_year y < n \<Longrightarrow> n \<le> days_before_year (y + 1) \<Longrightarrow> year_of n = y"
  using year_of_bounds [of n] days_before_year_mono [of "y + 1" "year_of n"] days_before_year_mono [of "year_of n + 1" y]
  by (cases "year_of n < y"; cases "y < year_of n") auto

lemma days_in_month_pos: "28 \<le> days_in_month y m"
  by (simp add: days_in_month_def)

lemma days_before_month_less:
  "m < m' \<Longrightarrow> 1 \<le> m \<Longrightarrow> days_before_month y m + days_in_month y m \<le> days_before_month y m'"
proof (induction m' rule: nat_induct)
  case (Suc k)
  then show ?case
    using days_in_month_pos [of y k] by (cases "m = k") auto
qed simp

lemma days_before_month_13: "days_before_month y 13 = (if leap_year y then 366 else 365)"
  by (simp add: eval_nat_numeral days_in_month_def)

lemma month_of_unique:
  assumes "1 \<le> m" "m \<le> 12"
    and "days_before_year (year_of n) + days_before_month (year_of n) m < n"
    and "n \<le> days_before_year (year_of n) + days_before_month (year_of n) m + days_in_month (year_of n) m"
  shows "month_of n = m"
proof -
  have "filter (\<lambda>m'. days_before_year (year_of n) + days_before_month (year_of n) m' < n) [1..<13] = [1..<m + 1]"
  proof -
    have split: "[1..<13] = [1..<m + 1] @ [m + 1..<13]"
      using upt_add_eq_append [of 1 "m + 1" "12 - m"] assms(1,2) by simp
    have lo: "days_before_month (year_of n) m' \<le> days_before_month (year_of n) m" if "m' \<in> set [1..<m + 1]" for m'
      using that days_before_month_less [of m' m "year_of n"] days_in_month_pos [of "year_of n" m'] by (cases "m' = m") auto
    have hi: "days_before_month (year_of n) m + days_in_month (year_of n) m \<le> days_before_month (year_of n) m'"
      if "m' \<in> set [m + 1..<13]" for m'
      using that assms(1) by (intro days_before_month_less) auto
    let ?before = "\<lambda>m'. days_before_year (year_of n) + days_before_month (year_of n) m' < n"
    have "filter ?before [1..<m + 1] = [1..<m + 1]"
      by (rule filter_True) (use lo assms(3) in fastforce)
    moreover have "filter ?before [m + 1..<13] = []"
      by (rule filter_False) (use hi assms(4) in fastforce)
    ultimately show ?thesis unfolding split filter_append by simp
  qed
  then show ?thesis by (simp add: month_of_def Let_def)
qed

lemma month_exists:
  obtains m where "1 \<le> m" "m \<le> 12" "days_before_year (year_of n) + days_before_month (year_of n) m < n"
    "n \<le> days_before_year (year_of n) + days_before_month (year_of n) m + days_in_month (year_of n) m"
proof -
  let ?y = "year_of n"
  let ?k = "n - days_before_year ?y"
  have k: "0 < ?k" "?k \<le> days_before_month ?y 13"
    using year_of_bounds [of n] by (simp_all add: days_before_year_Suc days_before_month_13)
  have "\<exists>m. 1 \<le> m \<and> m < j \<and> days_before_month ?y m < ?k \<and> ?k \<le> days_before_month ?y m + days_in_month ?y m"
    if "1 \<le> j" "?k \<le> days_before_month ?y j" for j
    using that
  proof (induction j)
    case (Suc j)
    show ?case
    proof (cases "j = 0 \<or> ?k \<le> days_before_month ?y j")
      case True
      with Suc k(1) obtain m where "1 \<le> m \<and> m < j \<and> days_before_month ?y m < ?k
          \<and> ?k \<le> days_before_month ?y m + days_in_month ?y m" by (cases "j = 0") auto
      then show ?thesis by (intro exI [of _ m]) auto
    next
      case False
      with Suc.prems show ?thesis by (intro exI [of _ j]) auto
    qed
  qed simp
  from this [of 13] k(2) show thesis by (auto intro: that)
qed

lemma month_of_bounds:
  "1 \<le> month_of n" "month_of n \<le> 12"
  "days_before_year (year_of n) + days_before_month (year_of n) (month_of n) < n"
  "n \<le> days_before_year (year_of n) + days_before_month (year_of n) (month_of n) + days_in_month (year_of n) (month_of n)"
proof -
  obtain m where m: "1 \<le> m" "m \<le> 12" "days_before_year (year_of n) + days_before_month (year_of n) m < n"
    "n \<le> days_before_year (year_of n) + days_before_month (year_of n) m + days_in_month (year_of n) m"
    by (rule month_exists)
  then have "month_of n = m" by (rule month_of_unique)
  with m show "1 \<le> month_of n" "month_of n \<le> 12"
    "days_before_year (year_of n) + days_before_month (year_of n) (month_of n) < n"
    "n \<le> days_before_year (year_of n) + days_before_month (year_of n) (month_of n) + days_in_month (year_of n) (month_of n)"
    by simp_all
qed

lemma mk_date_in_year:
  assumes "1 \<le> m" "m \<le> 12" "1 \<le> d" "d \<le> days_in_month y m"
  shows "days_before_year y < mk_date y m d" "mk_date y m d \<le> days_before_year (y + 1)"
proof -
  have "0 \<le> days_before_month y m"
    using days_before_month_less [of 1 m y] assms(1) by (cases "m = 1") (auto simp: days_in_month_def)
  then show "days_before_year y < mk_date y m d" using assms(3) by (simp add: mk_date_def)
  have "days_before_month y m + days_in_month y m \<le> days_before_month y 13"
    using days_before_month_less [of m 13 y] assms(1,2) by simp
  then show "mk_date y m d \<le> days_before_year (y + 1)"
    using assms(4) by (simp add: mk_date_def days_before_year_Suc days_before_month_13)
qed

text \<open>A date is determined by its year, month and day, and has them.\<close>

lemma mk_date_fields:
  assumes "1 \<le> m" "m \<le> 12" "1 \<le> d" "d \<le> days_in_month y m"
  shows "year_of (mk_date y m d) = y" "month_of (mk_date y m d) = m" "day_of_month (mk_date y m d) = d"
proof -
  show y: "year_of (mk_date y m d) = y"
    using mk_date_in_year [OF assms] by (rule year_of_unique)
  show m: "month_of (mk_date y m d) = m"
    by (rule month_of_unique [OF assms(1,2)]) (use assms(3,4) in \<open>simp_all add: y, simp_all add: mk_date_def\<close>)
  show "day_of_month (mk_date y m d) = d"
    unfolding day_of_month_def y m by (simp add: mk_date_def)
qed

lemma mk_date_of: "mk_date (year_of n) (month_of n) (day_of_month n) = n"
  by (simp add: mk_date_def day_of_month_def)

lemma day_of_month_bounds: "1 \<le> day_of_month n" "day_of_month n \<le> days_in_month (year_of n) (month_of n)"
  using month_of_bounds [of n] by (simp_all add: day_of_month_def)

section \<open>The first and the last day of a month\<close>

definition first_of_month :: "int \<Rightarrow> int" where
  "first_of_month n = mk_date (year_of n) (month_of n) 1"

definition last_of_month :: "int \<Rightarrow> int" where
  "last_of_month n = mk_date (year_of n) (month_of n) (days_in_month (year_of n) (month_of n))"

lemma month_contains: "first_of_month n \<le> n" "n \<le> last_of_month n"
  using day_of_month_bounds [of n] mk_date_of [of n] by (simp_all add: first_of_month_def last_of_month_def mk_date_def)

lemma month_of_between:
  assumes "first_of_month n \<le> k" "k \<le> last_of_month n"
  shows "year_of k = year_of n" "month_of k = month_of n"
proof -
  let ?d = "k - first_of_month n + 1"
  have k: "k = mk_date (year_of n) (month_of n) ?d" by (simp add: first_of_month_def mk_date_def)
  have d: "1 \<le> ?d" "?d \<le> days_in_month (year_of n) (month_of n)"
    using assms by (simp_all add: first_of_month_def last_of_month_def mk_date_def)
  show "year_of k = year_of n" by (subst k) (rule mk_date_fields [OF month_of_bounds(1,2) d])
  show "month_of k = month_of n" by (subst k) (rule mk_date_fields [OF month_of_bounds(1,2) d])
qed

lemma month_same:
  assumes "first_of_month n \<le> k" "k \<le> last_of_month n"
  shows "first_of_month k = first_of_month n" "last_of_month k = last_of_month n"
  using month_of_between [OF assms] by (simp_all add: first_of_month_def last_of_month_def)

text \<open>Months tile the days: the day before a month ends another, the day after begins one.\<close>

lemma month_disjoint:
  assumes "first_of_month k \<le> first_of_month n" "first_of_month n \<le> last_of_month k"
  shows "first_of_month k = first_of_month n"
  using month_same(1) [OF assms] month_contains [of n] month_same(1) [of n "first_of_month n"]
  by (auto simp: month_contains order_trans)

lemma last_of_previous_month: "last_of_month (first_of_month n - 1) = first_of_month n - 1"
proof (rule antisym)
  let ?p = "first_of_month n - 1"
  show "?p \<le> last_of_month ?p" by (rule month_contains)
  show "last_of_month ?p \<le> ?p"
  proof (rule ccontr)
    assume "\<not> last_of_month ?p \<le> ?p"
    then have le: "first_of_month n \<le> last_of_month ?p" by simp
    have first: "first_of_month ?p \<le> ?p" by (rule month_contains)
    with month_disjoint [of ?p n] le have "first_of_month ?p = first_of_month n" by simp
    with first show False by simp
  qed
qed

lemma first_of_next_month: "first_of_month (last_of_month n + 1) = last_of_month n + 1"
proof (rule antisym)
  let ?q = "last_of_month n + 1"
  show "first_of_month ?q \<le> ?q" by (rule month_contains)
  show "?q \<le> first_of_month ?q"
  proof (rule ccontr)
    assume "\<not> ?q \<le> first_of_month ?q"
    then have le: "first_of_month ?q \<le> last_of_month n" by simp
    have "last_of_month n \<le> last_of_month ?q" using month_contains(2) [of ?q] by simp
    then have "last_of_month (last_of_month n) = last_of_month ?q" by (intro month_same le)
    moreover have "last_of_month (last_of_month n) = last_of_month n"
      by (rule month_same) (use month_contains [of n] in auto)
    ultimately show False using month_contains(2) [of ?q] by simp
  qed
qed

end
