(* ===== verification/CostReport.thy ===== *)
theory CostReport
  imports CloudCosts Calendar "HOL-Library.Multiset"
begin

text \<open>
  The cost statement of the Reports page and the cost analyst (\<open>ui/utils/cost_report.py\<close>), and the
  budget they are compared with (\<open>ui/utils/budget.py\<close>). All figures are sums over
  \<open>cloud_costs_raw\<close>, whose dates are the day numbers of \<open>Calendar\<close>. The text renderings and the
  commentary of the language model are not modelled.
\<close>

section \<open>Labels\<close>

definition MONTH_NAMES :: "string list" where
  "MONTH_NAMES = [''January'', ''February'', ''March'', ''April'', ''May'', ''June'', ''July'', ''August'',
     ''September'', ''October'', ''November'', ''December'']"

definition WEEKDAY_NAMES :: "string list" where
  "WEEKDAY_NAMES = [''Mon'', ''Tue'', ''Wed'', ''Thu'', ''Fri'', ''Sat'', ''Sun'']"

text \<open>The directives \<open>%d\<close>, \<open>%b\<close>, \<open>%B\<close>, \<open>%Y\<close> and \<open>%a\<close>.\<close>

definition fmt_day :: "int \<Rightarrow> string" where
  "fmt_day n = show_frac 2 (nat (day_of_month n))"

definition fmt_month :: "int \<Rightarrow> string" where
  "fmt_month n = MONTH_NAMES ! (month_of n - 1)"

definition fmt_short_month :: "int \<Rightarrow> string" where
  "fmt_short_month n = take 3 (fmt_month n)"

definition fmt_date :: "int \<Rightarrow> string" where
  "fmt_date n = fmt_day n @ '' '' @ fmt_short_month n @ '' '' @ show_int (year_of n)"

section \<open>Periods\<close>

definition GRANULARITIES :: "string list" where
  "GRANULARITIES = [''day'', ''week'', ''month'', ''year'']"

definition granularity_of :: "string \<Rightarrow> string" where
  "granularity_of g = (if g \<in> set GRANULARITIES then g else ''month'')"

datatype bucket = PerDay | PerMonth

record period =
  pd_start :: int
  pd_end :: int
  pd_label :: string
  pd_prev_start :: int
  pd_prev_end :: int
  pd_bucket :: bucket

definition resolve_cost_period :: "string \<Rightarrow> int \<Rightarrow> period" where
  "resolve_cost_period granularity anchor =
     (let g = granularity_of granularity
      in if g = ''day'' then
           \<lparr>pd_start = anchor, pd_end = anchor, pd_label = fmt_date anchor,
            pd_prev_start = anchor - 1, pd_prev_end = anchor - 1, pd_bucket = PerDay\<rparr>
         else if g = ''week'' then
           let start = anchor - weekday anchor; fin = start + 6
           in \<lparr>pd_start = start, pd_end = fin, pd_label = ''Week of '' @ fmt_date start,
               pd_prev_start = start - 7, pd_prev_end = fin - 7, pd_bucket = PerDay\<rparr>
         else if g = ''year'' then
           \<lparr>pd_start = mk_date (year_of anchor) 1 1, pd_end = mk_date (year_of anchor) 12 31,
            pd_label = show_int (year_of anchor),
            pd_prev_start = mk_date (year_of anchor - 1) 1 1, pd_prev_end = mk_date (year_of anchor - 1) 12 31,
            pd_bucket = PerMonth\<rparr>
         else
           let start = first_of_month anchor; prev_last = start - 1
           in \<lparr>pd_start = start, pd_end = last_of_month anchor,
               pd_label = fmt_month anchor @ '' '' @ show_int (year_of anchor),
               pd_prev_start = first_of_month prev_last, pd_prev_end = prev_last, pd_bucket = PerDay\<rparr>)"

definition shift_anchor :: "string \<Rightarrow> int \<Rightarrow> int \<Rightarrow> int" where
  "shift_anchor granularity anchor direction =
     (let g = granularity_of granularity
      in if g = ''day'' then anchor + direction
         else if g = ''week'' then anchor + 7 * direction
         else if g = ''year'' then mk_date (year_of anchor + direction) (month_of anchor) 1
         else if direction < 0 then first_of_month (first_of_month anchor - 1)
         else last_of_month anchor + 1)"

section \<open>Queries\<close>

definition cost_day :: "cost_key \<times> cost_row \<Rightarrow> int" where
  "cost_day kv = snd (snd (snd (fst kv)))"

definition cost_service :: "cost_key \<times> cost_row \<Rightarrow> string" where
  "cost_service kv = fst (snd (snd (fst kv)))"

definition between :: "int \<Rightarrow> int \<Rightarrow> cost_table \<Rightarrow> cost_table" where
  "between start fin costs = filter (\<lambda>kv. start \<le> cost_day kv \<and> cost_day kv \<le> fin) costs"

definition sum_cost :: "cost_table \<Rightarrow> rat" where
  "sum_cost rows = sum_list (map (\<lambda>kv. cc_cost (snd kv)) rows)"

text \<open>\<open>SELECT key, SUM(cost) ... GROUP BY key\<close>, in the order in which the keys appear.\<close>

definition group_sums :: "(cost_key \<times> cost_row \<Rightarrow> 'k) \<Rightarrow> cost_table \<Rightarrow> ('k \<times> rat) list" where
  "group_sums key rows =
     map (\<lambda>k. (k, sum_cost (filter (\<lambda>kv. key kv = k) rows))) (rev (remdups (rev (map key rows))))"

definition latest_cost_date :: "cost_table \<Rightarrow> int option" where
  "latest_cost_date costs =
     (let days = map cost_day costs in if days = [] then None else Some (fold max days (hd days)))"

definition period_total :: "cost_table \<Rightarrow> int \<Rightarrow> int \<Rightarrow> rat" where
  "period_total costs start fin = sum_cost (between start fin costs)"

definition by_service :: "cost_table \<Rightarrow> int \<Rightarrow> int \<Rightarrow> (string, rat) dict" where
  "by_service costs start fin =
     fold (\<lambda>(svc, usd) out. AList.update (if svc = [] then ''Unattributed'' else svc) usd out)
       (group_sums cost_service (between start fin costs)) []"

definition trend_label :: "int \<Rightarrow> int \<Rightarrow> bucket \<Rightarrow> int \<Rightarrow> string" where
  "trend_label start fin bucket b =
     (if bucket = PerMonth then fmt_short_month b
      else if fin - start > 7 then fmt_day b @ '' '' @ fmt_short_month b
      else WEEKDAY_NAMES ! nat (weekday b))"

definition cost_trend :: "cost_table \<Rightarrow> int \<Rightarrow> int \<Rightarrow> bucket \<Rightarrow> (string \<times> rat) list" where
  "cost_trend costs start fin bucket =
     map (\<lambda>(b, usd). (trend_label start fin bucket b, usd))
       (sort_key fst (group_sums (\<lambda>kv. if bucket = PerMonth then first_of_month (cost_day kv) else cost_day kv)
          (between start fin costs)))"

definition trend_scale :: "(string \<times> rat) list \<Rightarrow> rat" where
  "trend_scale trend =
     (let vals = sort (map snd trend)
      in if vals = [] then 0
         else let median = vals ! (length vals div 2)
              in if median \<le> 0 then last vals
                 else let non_spike = filter (\<lambda>v. v \<le> median * 4) vals;
                          cap = (if non_spike \<noteq> [] then last non_spike else last vals)
                      in if cap > 0 then cap else last vals)"

section \<open>The statement\<close>

record service_line =
  sl_service :: string
  sl_usd :: rat
  sl_pct :: rat
  sl_prev :: rat
  sl_delta_pct :: "rat option"

record cost_report =
  cr_granularity :: string
  cr_period :: period
  cr_prev_anchor :: int
  cr_next_anchor :: int
  cr_total :: rat
  cr_prev_total :: rat
  cr_delta :: rat
  cr_delta_pct :: "rat option"
  cr_services :: "service_line list"
  cr_trend :: "(string \<times> rat) list"
  cr_trend_scale :: rat
  cr_trend_clipped :: bool
  cr_daily_avg :: rat
  cr_annual :: rat
  cr_complete :: bool
  cr_last_data :: "int option"

definition service_lines :: "(string, rat) dict \<Rightarrow> (string, rat) dict \<Rightarrow> rat \<Rightarrow> service_line list" where
  "service_lines cur_svc prev_svc tot =
     map (\<lambda>(svc, usd).
         let p = (case map_of prev_svc svc of None \<Rightarrow> 0 | Some p \<Rightarrow> p)
         in \<lparr>sl_service = svc, sl_usd = usd, sl_pct = (if tot > 0 then usd / tot * 100 else 0), sl_prev = p,
             sl_delta_pct = (if p > 0 then Some ((usd - p) / p * 100) else None)\<rparr>)
       (sort_key (\<lambda>(_, usd). - usd) cur_svc)"

definition elapsed_days :: "int option \<Rightarrow> int \<Rightarrow> int \<Rightarrow> int" where
  "elapsed_days last_data start fin =
     (let complete = (case last_data of None \<Rightarrow> False | Some d \<Rightarrow> fin \<le> d);
          effective_end = (if complete then fin else case last_data of None \<Rightarrow> start | Some d \<Rightarrow> d);
          effective_end = (if effective_end < start then start else effective_end)
      in effective_end - start + 1)"

definition collect_cost_report :: "cost_table \<Rightarrow> string \<Rightarrow> int \<Rightarrow> cost_report" where
  "collect_cost_report costs granularity anchor =
     (let g = granularity_of granularity;
          p = resolve_cost_period g anchor;
          last_data = latest_cost_date costs;
          tot = period_total costs (pd_start p) (pd_end p);
          prev_total = period_total costs (pd_prev_start p) (pd_prev_end p);
          delta = tot - prev_total;
          delta_pct = (if prev_total > 0 then Some (delta / prev_total * 100) else None);
          services = service_lines (by_service costs (pd_start p) (pd_end p))
            (by_service costs (pd_prev_start p) (pd_prev_end p)) tot;
          trend = (if g = ''day'' then cost_trend costs (anchor - 13) anchor PerDay
            else cost_trend costs (pd_start p) (pd_end p) (pd_bucket p));
          elapsed = elapsed_days last_data (pd_start p) (pd_end p);
          daily_avg = (if elapsed > 0 then tot / of_int elapsed else 0)
      in \<lparr>cr_granularity = g, cr_period = p, cr_prev_anchor = shift_anchor g anchor (-1),
          cr_next_anchor = shift_anchor g anchor 1, cr_total = tot, cr_prev_total = prev_total, cr_delta = delta,
          cr_delta_pct = map_option (py_round 1) delta_pct, cr_services = services, cr_trend = trend,
          cr_trend_scale = trend_scale trend,
          cr_trend_clipped = list_ex (\<lambda>(_, v). v > trend_scale trend) trend,
          cr_daily_avg = daily_avg, cr_annual = daily_avg * 365,
          cr_complete = (case last_data of None \<Rightarrow> False | Some d \<Rightarrow> pd_end p \<le> d), cr_last_data = last_data\<rparr>)"

section \<open>The analyst\<close>

record analysis =
  an_months :: "(int \<times> rat) list"
  an_current_partial :: bool
  an_mom :: "rat option"
  an_top :: "(string \<times> rat \<times> int) option"
  an_service_count :: nat
  an_peak :: "((int \<times> rat) \<times> rat option \<times> (string \<times> rat) list \<times> bool) option"
  an_annual :: rat
  an_last_data :: int

definition month_sums :: "cost_table \<Rightarrow> int \<Rightarrow> int \<Rightarrow> (int \<times> rat) list" where
  "month_sums costs start fin =
     sort_key fst (group_sums (\<lambda>kv. first_of_month (cost_day kv)) (between start fin costs))"

definition ranked_services :: "cost_table \<Rightarrow> int \<Rightarrow> int \<Rightarrow> (string \<times> rat) list" where
  "ranked_services costs start fin =
     sort_key (\<lambda>(_, usd). - usd) (group_sums cost_service (between start fin costs))"

text \<open>\<open>max\<close> keeps the first of equals.\<close>

fun peak_month :: "(int \<times> rat) list \<Rightarrow> (int \<times> rat) option" where
  "peak_month [] = None"
| "peak_month (m # ms) =
     (case peak_month ms of None \<Rightarrow> Some m | Some p \<Rightarrow> if snd p > snd m then Some p else Some m)"

definition spike_of :: "(int \<times> rat) list \<Rightarrow> int \<times> rat \<Rightarrow> rat option \<times> bool" where
  "spike_of months peak =
     (if length months < 3 then (None, False)
      else let others = sort (map snd (remove1 peak months)); median = others ! (length others div 2)
           in if median > 0 then (Some (py_round 1 (snd peak / median)), snd peak \<ge> 2 * median) else (None, False))"

definition cost_analyst :: "cost_table \<Rightarrow> env \<Rightarrow> int \<Rightarrow> analysis" where
  "cost_analyst costs env months_back =
     (let latest = (case latest_cost_date costs of None \<Rightarrow> e_today env | Some d \<Rightarrow> d);
          idx = year_of latest * 12 + (int (month_of latest) - 1) - (months_back - 1);
          window_start = mk_date (idx div 12) (nat (idx mod 12 + 1)) 1;
          months = month_sums costs window_start latest;
          svcs = ranked_services costs window_start latest;
          tot = sum_list (map snd months);
          current_partial = (months \<noteq> [] \<and> latest < last_of_month (fst (last months)));
          previous = (if length months \<ge> 2 then Some (months ! (length months - 2)) else None)
      in \<lparr>an_months = months, an_current_partial = current_partial,
          an_mom = (case previous of
              None \<Rightarrow> None
            | Some p \<Rightarrow> if snd p > 0 \<and> \<not> current_partial
                then Some (py_round 1 ((snd (last months) - snd p) / snd p * 100)) else None),
          an_top = (if svcs \<noteq> [] \<and> tot > 0
            then Some (fst (hd svcs), snd (hd svcs), round_half_even (snd (hd svcs) / tot * 100)) else None),
          an_service_count = length svcs,
          an_peak = map_option (\<lambda>peak. (peak, fst (spike_of months peak),
              take 2 (ranked_services costs (fst peak) (last_of_month (fst peak))), snd (spike_of months peak)))
            (peak_month months),
          an_annual = sum_cost (between (latest - 29) latest costs) * 365 / 30,
          an_last_data = latest\<rparr>)"

section \<open>The budget\<close>

text \<open>Rows of \<open>budget_settings\<close>: the amount and the time it was set, oldest first.\<close>

type_synonym budgets = "(rat \<times> int) list"

definition get_budget :: "budgets \<Rightarrow> rat option" where
  "get_budget rows = (if rows = [] then None else Some (fst (hd (sort_key (\<lambda>(_, set_at). - set_at) rows))))"

text \<open>The column is \<open>DECIMAL(14, 2)\<close>: PostgreSQL rounds a half up.\<close>

definition set_budget :: "env \<Rightarrow> rat \<Rightarrow> budgets \<Rightarrow> budgets" where
  "set_budget env monthly_usd rows = rows @ [(of_int \<lfloor>monthly_usd * 100 + 1 / 2\<rfloor> / 100, e_now env)]"

definition month_spend_usd :: "cost_table \<Rightarrow> int \<Rightarrow> nat \<Rightarrow> rat" where
  "month_spend_usd costs year month =
     (let fin = (if month = 12 then mk_date (year + 1) 1 1 else mk_date year (month + 1) 1)
      in sum_cost (filter (\<lambda>kv. mk_date year month 1 \<le> cost_day kv \<and> cost_day kv < fin) costs))"

section \<open>Periods tile time\<close>

lemma week_bounds: "0 \<le> weekday n" "weekday n \<le> 6" "weekday (n - weekday n) = 0" "weekday (n - 7) = weekday n"
  "weekday (n + 7) = weekday n"
  unfolding weekday_def by presburger+

lemma year_ends:
  "year_of (mk_date y 1 1) = y" "year_of (mk_date y 12 31) = y"
  "mk_date y 1 1 = days_before_year y + 1" "mk_date y 12 31 = days_before_year (y + 1)"
    "mk_date y (Suc 0) 1 = days_before_year y + 1"
proof -
  show "year_of (mk_date y 1 1) = y" "year_of (mk_date y 12 31) = y"
    by (rule mk_date_fields; simp add: days_in_month_def)+
  show "mk_date y 1 1 = days_before_year y + 1" "mk_date y (Suc 0) 1 = days_before_year y + 1"
    by (simp_all add: mk_date_def)
  show "mk_date y 12 31 = days_before_year (y + 1)"
    by (simp add: mk_date_def days_before_year_Suc eval_nat_numeral days_in_month_def)
qed

lemma year_contains: "mk_date (year_of n) 1 1 \<le> n" "n \<le> mk_date (year_of n) 12 31"
  using year_of_bounds [of n] by (simp_all add: year_ends)

lemma year_shift: "year_of (mk_date (year_of n + k) (month_of n) 1) = year_of n + k"
  by (rule mk_date_fields) (use month_of_bounds [of n] in \<open>simp_all add: days_in_month_def\<close>)

lemma granularity_cases:
  obtains "granularity_of g = ''day''" | "granularity_of g = ''week''" | "granularity_of g = ''month''"
    | "granularity_of g = ''year''"
proof -
  have "granularity_of g \<in> set GRANULARITIES" by (simp add: granularity_of_def GRANULARITIES_def)
  then show thesis using that by (auto simp: GRANULARITIES_def)
qed

lemma first_of_first: "first_of_month (first_of_month n) = first_of_month n"
  by (rule month_same(1)) (use month_contains [of n] in auto)

text \<open>The periods before and after, and the day on which a period begins.\<close>

lemma period_steps:
  "pd_start (resolve_cost_period g anchor) \<le> anchor \<and> anchor \<le> pd_end (resolve_cost_period g anchor)
    \<and> pd_prev_start (resolve_cost_period g anchor) \<le> pd_prev_end (resolve_cost_period g anchor)
    \<and> pd_prev_end (resolve_cost_period g anchor) + 1 = pd_start (resolve_cost_period g anchor)
    \<and> pd_start (resolve_cost_period g (shift_anchor g anchor (-1))) = pd_prev_start (resolve_cost_period g anchor)
    \<and> pd_end (resolve_cost_period g (shift_anchor g anchor (-1))) = pd_prev_end (resolve_cost_period g anchor)
    \<and> pd_start (resolve_cost_period g (shift_anchor g anchor 1)) = pd_end (resolve_cost_period g anchor) + 1
    \<and> pd_prev_start (resolve_cost_period g (shift_anchor g anchor 1)) = pd_start (resolve_cost_period g anchor)
    \<and> pd_prev_end (resolve_cost_period g (shift_anchor g anchor 1)) = pd_end (resolve_cost_period g anchor)"
proof (cases rule: granularity_cases [of g])
  case 1
  then show ?thesis by (simp add: resolve_cost_period_def shift_anchor_def Let_def)
next
  case 2
  then show ?thesis
    using week_bounds(1,2) [of anchor]
    by (simp add: resolve_cost_period_def shift_anchor_def Let_def week_bounds(4,5))
next
  case 3
  have "first_of_month (first_of_month (first_of_month anchor - 1)) = first_of_month (first_of_month anchor - 1)"
    "last_of_month (first_of_month (first_of_month anchor - 1)) = first_of_month anchor - 1"
    using month_same [of "first_of_month anchor - 1" "first_of_month (first_of_month anchor - 1)"]
      month_contains [of "first_of_month anchor - 1"] last_of_previous_month [of anchor] by auto
  moreover have "first_of_month (last_of_month anchor) = first_of_month anchor"
    by (rule month_same) (use month_contains [of anchor] in auto)
  ultimately show ?thesis
    using 3 month_contains [of anchor] month_contains [of "first_of_month anchor - 1"]
    by (simp add: resolve_cost_period_def shift_anchor_def Let_def first_of_next_month)
next
  case 4
  have "year_of (mk_date (year_of anchor - 1) (month_of anchor) 1) = year_of anchor - 1"
    "year_of (mk_date (year_of anchor + 1) (month_of anchor) 1) = year_of anchor + 1"
    using year_shift [of anchor "-1"] year_shift [of anchor 1] by simp_all
  then show ?thesis
    using 4 year_contains [of anchor] days_before_year_mono [of "year_of anchor - 1" "year_of anchor"]
      days_before_year_Suc [of "year_of anchor - 1"]
    by (simp add: resolve_cost_period_def shift_anchor_def Let_def year_ends)
qed

text \<open>
  Whatever the granularity, even an unknown one, the period of a date contains the date, the
  period it is compared with ends the day before, going back one step gives exactly that period and
  going forward one step gives the period that begins the day after. So walking through the statements
  neither skips a day nor counts one twice.
\<close>

theorem periods_tile:
  "(let p = resolve_cost_period g anchor;
        back = resolve_cost_period g (shift_anchor g anchor (-1));
        forth = resolve_cost_period g (shift_anchor g anchor 1)
    in pd_start p \<le> anchor \<and> anchor \<le> pd_end p
       \<and> pd_prev_start p \<le> pd_prev_end p \<and> pd_prev_end p + 1 = pd_start p
       \<and> pd_start back = pd_prev_start p \<and> pd_end back = pd_prev_end p
       \<and> pd_start forth = pd_end p + 1 \<and> pd_prev_start forth = pd_start p \<and> pd_prev_end forth = pd_end p)"
  using period_steps [of g anchor] by (simp add: Let_def)

section \<open>The figures add up\<close>

lemma sum_list_pick:
  "distinct ks \<Longrightarrow> k \<in> set ks \<Longrightarrow> sum_list (map (\<lambda>j. if k = j then c else (0::rat)) ks) = c"
proof (induction ks)
  case (Cons j ks)
  have "sum_list (map (\<lambda>j. if k = j then c else (0::rat)) ks) = 0" if "k \<notin> set ks"
    using that by (induction ks) auto
  with Cons show ?case by (cases "k = j") auto
qed simp

lemma sum_cost_simps [simp]:
  "sum_cost [] = 0" "sum_cost (kv # rows) = cc_cost (snd kv) + sum_cost rows"
  by (simp_all add: sum_cost_def)

lemma sum_by_key:
  "distinct ks \<Longrightarrow> key ` set rows \<subseteq> set ks \<Longrightarrow>
   sum_list (map (\<lambda>k. sum_cost (filter (\<lambda>kv. key kv = k) rows)) ks) = sum_cost rows"
proof (induction rows)
  case (Cons kv rows)
  have "sum_cost (filter (\<lambda>kv. key kv = k) (kv # rows)) =
      (if key kv = k then cc_cost (snd kv) else 0) + sum_cost (filter (\<lambda>kv. key kv = k) rows)" for k
    by simp
  with Cons show ?case
    by (simp only: sum_list_addf sum_list_pick) (simp add: sum_list_pick)
qed simp

lemma group_sums_keys: "map fst (group_sums key rows) = rev (remdups (rev (map key rows)))"
  by (simp add: group_sums_def comp_def)

lemma group_sums_total: "sum_list (map snd (group_sums key rows)) = sum_cost rows"
  using sum_by_key [of "rev (remdups (rev (map key rows)))" key rows]
  by (simp add: group_sums_def comp_def rev_map [symmetric])

lemma update_fresh: "k \<notin> fst ` set d \<Longrightarrow> AList.update k v d = d @ [(k, v)]"
  by (induction d) auto

lemma fold_update_fresh:
  "distinct (map fst (d @ xs)) \<Longrightarrow> fold (\<lambda>(k, v) d. AList.update k v d) xs d = d @ xs"
  by (induction xs arbitrary: d) (auto simp: update_fresh)

text \<open>No service has the empty name, which would share a line with \<open>Unattributed\<close>.\<close>

definition services_named :: "cost_table \<Rightarrow> bool" where
  "services_named costs \<longleftrightarrow> list_all (\<lambda>kv. cost_service kv \<noteq> []) costs"

lemma by_service_groups:
  assumes "services_named costs"
  shows "by_service costs s e = group_sums cost_service (between s e costs)"
proof -
  let ?g = "group_sums cost_service (between s e costs)"
  have "k \<noteq> []" if "(k, v) \<in> set ?g" for k v
    using assms that by (auto simp: group_sums_def between_def services_named_def list_all_iff)
  then have "by_service costs s e = fold (\<lambda>(k, v) d. AList.update k v d) ?g []"
    unfolding by_service_def by (intro fold_cong) auto
  also have "\<dots> = ?g" by (subst fold_update_fresh) (simp_all add: group_sums_keys)
  finally show ?thesis .
qed

lemma sum_sort_key: "sum_list (map f (sort_key key xs)) = (sum_list (map f xs) :: rat)"
  by (metis mset_map mset_sort sum_mset_sum_list)

lemma service_lines_sum:
  "sum_list (map sl_usd (service_lines cur prev tot)) = sum_list (map snd cur)"
  by (simp add: service_lines_def comp_def case_prod_unfold Let_def sum_sort_key [of snd, simplified])

lemma service_lines_pct:
  assumes "tot > 0"
  shows "sum_list (map sl_pct (service_lines cur prev tot)) = sum_list (map snd cur) / tot * 100"
proof -
  have "sum_list (map (\<lambda>x. snd x / tot * 100) xs) = sum_list (map snd xs) / tot * 100" for xs :: "(string \<times> rat) list"
    by (induction xs) (simp_all add: add_divide_distrib distrib_right)
  with assms show ?thesis
    by (simp add: service_lines_def comp_def case_prod_unfold Let_def sum_sort_key)
qed

lemma service_lines_sorted: "sorted_wrt (\<lambda>a b. sl_usd a \<ge> sl_usd b) (service_lines cur prev tot)"
proof -
  have "sorted (map (\<lambda>x. - snd x) (sort_key (\<lambda>x. - snd x) cur))" by (rule sorted_sort_key)
  then show ?thesis
    by (simp add: service_lines_def case_prod_unfold Let_def sorted_wrt_map)
qed

lemma trend_sum: "sum_list (map snd (cost_trend costs s e b)) = period_total costs s e"
  by (simp add: cost_trend_def comp_def case_prod_unfold sum_sort_key group_sums_total period_total_def)

lemma elapsed_days_bounds: "s \<le> e \<Longrightarrow> 1 \<le> elapsed_days l s e" "s \<le> e \<Longrightarrow> elapsed_days l s e \<le> e - s + 1"
  by (auto simp: elapsed_days_def Let_def split: option.splits)

lemma granularity_of_idem [simp]: "granularity_of (granularity_of g) = granularity_of g"
  by (auto simp: granularity_of_def GRANULARITIES_def)

lemma granularity_known [simp]:
  "resolve_cost_period (granularity_of g) = resolve_cost_period g"
  "shift_anchor (granularity_of g) = shift_anchor g"
  by (simp_all add: resolve_cost_period_def shift_anchor_def fun_eq_iff)

text \<open>The fields of a statement, one by one.\<close>

lemma report_fields:
  "cr_period (collect_cost_report costs g anchor) = resolve_cost_period g anchor"
  "cr_prev_anchor (collect_cost_report costs g anchor) = shift_anchor g anchor (-1)"
  "cr_total (collect_cost_report costs g anchor) =
     period_total costs (pd_start (resolve_cost_period g anchor)) (pd_end (resolve_cost_period g anchor))"
  "cr_prev_total (collect_cost_report costs g anchor) =
     period_total costs (pd_prev_start (resolve_cost_period g anchor)) (pd_prev_end (resolve_cost_period g anchor))"
  "cr_delta (collect_cost_report costs g anchor) =
     cr_total (collect_cost_report costs g anchor) - cr_prev_total (collect_cost_report costs g anchor)"
  "cr_services (collect_cost_report costs g anchor) =
     service_lines (by_service costs (pd_start (resolve_cost_period g anchor)) (pd_end (resolve_cost_period g anchor)))
       (by_service costs (pd_prev_start (resolve_cost_period g anchor)) (pd_prev_end (resolve_cost_period g anchor)))
       (cr_total (collect_cost_report costs g anchor))"
  "cr_trend (collect_cost_report costs g anchor) =
     (if granularity_of g = ''day'' then cost_trend costs (anchor - 13) anchor PerDay
      else cost_trend costs (pd_start (resolve_cost_period g anchor)) (pd_end (resolve_cost_period g anchor))
             (pd_bucket (resolve_cost_period g anchor)))"
  "cr_daily_avg (collect_cost_report costs g anchor) =
     (let elapsed = elapsed_days (latest_cost_date costs) (pd_start (resolve_cost_period g anchor))
            (pd_end (resolve_cost_period g anchor))
      in if elapsed > 0 then cr_total (collect_cost_report costs g anchor) / of_int elapsed else 0)"
  by (simp_all add: collect_cost_report_def Let_def)

lemma report_sums:
  assumes "services_named costs"
  shows "sum_list (map sl_usd (cr_services (collect_cost_report costs g anchor))) = cr_total (collect_cost_report costs g anchor)"
    and "cr_total (collect_cost_report costs g anchor) > 0 \<Longrightarrow>
      sum_list (map sl_pct (cr_services (collect_cost_report costs g anchor))) = 100"
    and "granularity_of g \<noteq> ''day'' \<Longrightarrow>
      sum_list (map snd (cr_trend (collect_cost_report costs g anchor))) = cr_total (collect_cost_report costs g anchor)"
proof -
  have groups: "sum_list (map snd (by_service costs s e)) = period_total costs s e" for s e
    by (simp add: by_service_groups [OF assms] group_sums_total period_total_def)
  show "sum_list (map sl_usd (cr_services (collect_cost_report costs g anchor))) = cr_total (collect_cost_report costs g anchor)"
    by (simp add: report_fields(6) service_lines_sum groups report_fields(3))
  show "sum_list (map sl_pct (cr_services (collect_cost_report costs g anchor))) = 100"
    if "cr_total (collect_cost_report costs g anchor) > 0"
    using that by (simp add: report_fields(6) service_lines_pct groups) (simp add: report_fields(3))
  show "sum_list (map snd (cr_trend (collect_cost_report costs g anchor))) = cr_total (collect_cost_report costs g anchor)"
    if "granularity_of g \<noteq> ''day''"
    using that by (simp add: report_fields(3,7) trend_sum)
qed

lemma report_sorted:
  "sorted_wrt (\<lambda>a b. sl_usd a \<ge> sl_usd b) (cr_services (collect_cost_report costs g anchor))"
  by (simp add: report_fields(6) service_lines_sorted)

lemma report_daily_average:
  "\<exists>days. 1 \<le> days \<and> days \<le> pd_end (resolve_cost_period g anchor) - pd_start (resolve_cost_period g anchor) + 1
     \<and> cr_daily_avg (collect_cost_report costs g anchor) * of_int days = cr_total (collect_cost_report costs g anchor)"
proof -
  let ?p = "resolve_cost_period g anchor"
  have le: "pd_start ?p \<le> pd_end ?p" using period_steps [of g anchor] by linarith
  note days = elapsed_days_bounds [OF le, of "latest_cost_date costs"]
  show ?thesis
    using days by (intro exI [of _ "elapsed_days (latest_cost_date costs) (pd_start ?p) (pd_end ?p)"])
      (simp add: report_fields(8) Let_def)
qed

lemma report_previous:
  "cr_prev_total (collect_cost_report costs g anchor) =
     cr_total (collect_cost_report costs g (shift_anchor g anchor (-1)))"
  using period_steps [of g anchor] by (simp add: report_fields(3,4))

lemma month_spend_report:
  assumes "1 \<le> m" "m \<le> 12" "1 \<le> d" "d \<le> days_in_month y m"
  shows "month_spend_usd costs y m = cr_total (collect_cost_report costs ''month'' (mk_date y m d))"
proof -
  let ?a = "mk_date y m d"
  have fin: "last_of_month ?a = mk_date y m (days_in_month y m)" and init: "mk_date y m 1 = first_of_month ?a"
    using mk_date_fields [OF assms] by (simp_all add: last_of_month_def first_of_month_def)
  have after: "(if m = 12 then mk_date (y + 1) 1 1 else mk_date y (m + 1) 1) = last_of_month ?a + 1"
  proof (cases "m = 12")
    case True
    then have "last_of_month ?a = mk_date y 12 31" unfolding fin by (simp add: days_in_month_def)
    with True show ?thesis using year_ends(3) [of "y + 1"] year_ends(4) [of y] by simp
  next
    case False
    with assms(1) show ?thesis by (simp add: fin) (simp add: mk_date_def)
  qed
  have "month_spend_usd costs y m = period_total costs (first_of_month ?a) (last_of_month ?a)"
    unfolding month_spend_usd_def after Let_def period_total_def between_def init zle_add1_eq_le [symmetric] ..
  then show ?thesis
    by (simp only: report_fields(3)) (simp add: resolve_cost_period_def granularity_of_def GRANULARITIES_def Let_def)
qed

text \<open>
  C29: the statement of a period adds up: the services, largest first, sum to its total and their shares
  to 100 percent, the bars of the chart sum to the total as well (a single day shows two weeks
  instead), the daily average is the total over the days that are reported, and the figure it is compared
  with is the total of the statement one step back. The spend that the budget is compared with is the
  total of the month's statement.
\<close>

theorem cost_report_adds_up:
  assumes named: "services_named costs"
  shows "(let r = collect_cost_report costs g anchor; p = cr_period r
     in sum_list (map sl_usd (cr_services r)) = cr_total r
        \<and> (cr_total r > 0 \<longrightarrow> sum_list (map sl_pct (cr_services r)) = 100)
        \<and> sorted_wrt (\<lambda>a b. sl_usd a \<ge> sl_usd b) (cr_services r)
        \<and> (granularity_of g \<noteq> ''day'' \<longrightarrow> sum_list (map snd (cr_trend r)) = cr_total r)
        \<and> (\<exists>days. 1 \<le> days \<and> days \<le> pd_end p - pd_start p + 1 \<and> cr_daily_avg r * of_int days = cr_total r)
        \<and> cr_delta r = cr_total r - cr_total (collect_cost_report costs g (cr_prev_anchor r))
        \<and> cr_prev_total r = cr_total (collect_cost_report costs g (cr_prev_anchor r)))
    \<and> (1 \<le> m \<and> m \<le> 12 \<and> 1 \<le> d \<and> d \<le> days_in_month y m \<longrightarrow>
        month_spend_usd costs y m = cr_total (collect_cost_report costs ''month'' (mk_date y m d)))"
  using report_sums [OF named, of g anchor] report_daily_average [of g anchor costs]
    report_sorted [of costs g anchor] month_spend_report [of m d y costs]
  by (simp only: Let_def report_fields(1,2,5) report_previous simp_thms) blast

definition march_costs :: cost_table where
  "march_costs =
     [((''aws'', ''1'', ''AmazonEC2'', mk_date 2026 3 1), \<lparr>cc_cost = 30, cc_currency = ''USD'', cc_region = [], cc_created = 0\<rparr>),
      ((''aws'', ''1'', ''AmazonRDS'', mk_date 2026 3 2), \<lparr>cc_cost = 70, cc_currency = ''USD'', cc_region = [], cc_created = 0\<rparr>)]"

lemma cost_report_adds_up_witness:
  "sum_list (map sl_usd (cr_services (collect_cost_report march_costs ''month'' (mk_date 2026 3 15)))) =
     cr_total (collect_cost_report march_costs ''month'' (mk_date 2026 3 15))
   \<and> month_spend_usd march_costs 2026 3 = cr_total (collect_cost_report march_costs ''month'' (mk_date 2026 3 15))"
proof -
  have named: "services_named march_costs"
    by (simp add: services_named_def march_costs_def cost_service_def)
  have day: "(15::int) \<le> days_in_month 2026 3" by (simp add: days_in_month_def)
  show ?thesis
    using cost_report_adds_up [OF named, where g = "''month''" and anchor = "mk_date 2026 3 15" and m = 3 and d = 15
        and y = 2026] day
    by (simp add: Let_def)
qed

end
