(* ===== verification/PageFigures.thy ===== *)
theory PageFigures
  imports CostReport
begin

text \<open>
  The figures of the Recommendations page of \<open>ui/routes/recommendations.py\<close>: the filtered list, its
  totals, the savings capped at what Cost Explorer billed per service, the tabs, and the same figures
  recomputed for the chat. Metadata that the queries cast to a number are numbers or absent; a value
  that the cast refuses fails the request.
\<close>

section \<open>The filtered list\<close>

definition BILLING_WINDOW_DAYS :: int where
  "BILLING_WINDOW_DAYS = 30"

definition RTYPE_TO_CE_SERVICE :: "(string, string) dict" where
  "RTYPE_TO_CE_SERVICE =
     [(''ec2_instance'', ''Amazon Elastic Compute Cloud - Compute''), (''ebs_volume'', ''EC2 - Other''),
      (''ebs_snapshot'', ''EC2 - Other''), (''elastic_ip'', ''EC2 - Other''), (''nat_gateway'', ''EC2 - Other''),
      (''load_balancer'', ''Amazon Elastic Load Balancing''), (''vpc'', ''Amazon Virtual Private Cloud'')]"

record page_filter =
  pf_type :: string
  pf_min_savings :: int
  pf_min_confidence :: rat

definition page_where :: "page_filter \<Rightarrow> rec_row \<times> waste_row \<Rightarrow> bool" where
  "page_where flt rx =
     (r_status (fst rx) = Pending
      \<and> (pf_type flt \<noteq> ''All'' \<longrightarrow> r_type (fst rx) = pf_type flt)
      \<and> (pf_min_savings flt > 0 \<longrightarrow> r_savings (fst rx) \<ge> of_int (pf_min_savings flt))
      \<and> (pf_min_confidence flt > 0 \<longrightarrow> w_confidence (snd rx) \<ge> pf_min_confidence flt))"

definition page_matches :: "page_filter \<Rightarrow> world \<Rightarrow> (rec_row \<times> waste_row) list" where
  "page_matches flt w = filter (page_where flt) (joined w)"

text \<open>\<open>ORDER BY savings DESC, id\<close>.\<close>

definition by_savings :: "(rec_row \<times> waste_row) list \<Rightarrow> (rec_row \<times> waste_row) list" where
  "by_savings rows = sort_key (\<lambda>rx. - r_savings (fst rx)) (sort_key (\<lambda>rx. r_id (fst rx)) rows)"

fun numeric_or_null :: "json option \<Rightarrow> bool" where
  "numeric_or_null None = True"
| "numeric_or_null (Some JNull) = True"
| "numeric_or_null (Some (JInt _)) = True"
| "numeric_or_null (Some (JFloat _)) = True"
| "numeric_or_null _ = False"

fun integer_or_null :: "json option \<Rightarrow> bool" where
  "integer_or_null None = True"
| "integer_or_null (Some JNull) = True"
| "integer_or_null (Some (JInt _)) = True"
| "integer_or_null _ = False"

text \<open>
  The casts of both queries. A number with a fraction is refused by the cast to integer; the detectors
  store numbers, never digits in a text. The flag \<open>pricing_fallback\<close>, a boolean, enters no figure.
\<close>

definition castable :: "waste_row \<Rightarrow> bool" where
  "castable x \<longleftrightarrow>
     list_all (\<lambda>k. integer_or_null (map_of (w_metadata x) k)) [''age_days'', ''datapoints'', ''observation_days'']
     \<and> list_all (\<lambda>k. numeric_or_null (map_of (w_metadata x) k)) [''cpu_avg_7d'', ''monthly_cost_eur'']"

definition age_days :: "env \<Rightarrow> waste_row \<Rightarrow> int" where
  "age_days env x = (case map_of (w_metadata x) ''age_days'' of Some (JInt n) \<Rightarrow> n | _ \<Rightarrow> e_today env - w_date x)"

definition monthly_cost :: "waste_row \<Rightarrow> rat option" where
  "monthly_cost x = (case map_of (w_metadata x) ''monthly_cost_eur'' of None \<Rightarrow> None | Some v \<Rightarrow> json_num v)"

section \<open>The cap\<close>

definition service_spend :: "env \<Rightarrow> cost_table \<Rightarrow> (string, rat) dict" where
  "service_spend env costs = group_sums cost_service (filter (\<lambda>kv. cost_day kv \<ge> e_today env - 30) costs)"

definition spend_of :: "(string, rat) dict \<Rightarrow> string \<Rightarrow> rat" where
  "spend_of spend service = (case map_of spend service of None \<Rightarrow> 0 | Some x \<Rightarrow> x)"

definition mature :: "env \<Rightarrow> rec_row \<times> waste_row \<Rightarrow> bool" where
  "mature env rx \<longleftrightarrow> age_days env (snd rx) \<ge> BILLING_WINDOW_DAYS"

definition sum_savings :: "(rec_row \<times> waste_row) list \<Rightarrow> rat" where
  "sum_savings rows = sum_list (map (\<lambda>rx. r_savings (fst rx)) rows)"

text \<open>\<open>GROUP BY w.resource_type\<close>: each type with the estimates of its mature and of its young resources.\<close>

definition type_estimates :: "env \<Rightarrow> (rec_row \<times> waste_row) list \<Rightarrow> (string \<times> rat \<times> rat) list" where
  "type_estimates env rows =
     map (\<lambda>rt. let group = filter (\<lambda>rx. w_resource_type (snd rx) = rt) rows
        in (rt, sum_savings (filter (mature env) group), sum_savings (filter (\<lambda>rx. \<not> mature env rx) group)))
       (remdups (map (\<lambda>rx. w_resource_type (snd rx)) rows))"

type_synonym bucket_table = "(string, rat \<times> rat option) dict"

definition UNCAPPED :: string where
  "UNCAPPED = ''__uncapped__''"

definition add_savings :: "string \<Rightarrow> rat \<Rightarrow> bucket_table \<Rightarrow> bucket_table" where
  "add_savings k x d =
     (case map_of d k of None \<Rightarrow> d | Some (savings, cap) \<Rightarrow> AList.update k (savings + x, cap) d)"

definition add_type :: "(string, rat) dict \<Rightarrow> string \<times> rat \<times> rat \<Rightarrow> bucket_table \<Rightarrow> bucket_table" where
  "add_type spend row d =
     (case row of (rt, est_mature, est_young) \<Rightarrow>
        (case map_of RTYPE_TO_CE_SERVICE rt of
           Some service \<Rightarrow>
             let d = (if map_of d service = None then AList.update service (0, Some (spend_of spend service)) d else d)
             in add_savings UNCAPPED est_young (add_savings service est_mature d)
         | None \<Rightarrow> add_savings UNCAPPED (est_mature + est_young) d))"

definition savings_buckets :: "env \<Rightarrow> cost_table \<Rightarrow> (rec_row \<times> waste_row) list \<Rightarrow> bucket_table" where
  "savings_buckets env costs rows =
     fold (add_type (service_spend env costs)) (type_estimates env rows) [(UNCAPPED, (0, None))]"

definition capped :: "rat \<times> rat option \<Rightarrow> rat" where
  "capped b = (case snd b of None \<Rightarrow> fst b | Some cap \<Rightarrow> min (fst b) cap)"

definition capped_total :: "bucket_table \<Rightarrow> rat" where
  "capped_total d = sum_list (map (\<lambda>kb. capped (snd kb)) d)"

definition savings_factor :: "bucket_table \<Rightarrow> (string, rat) dict" where
  "savings_factor d =
     map (\<lambda>(k, savings, cap). (k, case cap of None \<Rightarrow> 1 | Some c \<Rightarrow> if savings \<le> 0 then 1 else min 1 (c / savings))) d"

section \<open>The page\<close>

record page_row =
  pr_rec :: rec_row
  pr_waste :: waste_row
  pr_bucket_key :: string
  pr_savings_capped :: rat
  pr_is_capped :: bool
  pr_cost_raw :: rat
  pr_cost_capped :: rat

definition annotate :: "env \<Rightarrow> (string, rat) dict \<Rightarrow> rec_row \<times> waste_row \<Rightarrow> page_row" where
  "annotate env factors rx =
     (let (key, factor) =
            (case map_of RTYPE_TO_CE_SERVICE (w_resource_type (snd rx)) of
               Some service \<Rightarrow>
                 if mature env rx then (service, case map_of factors service of None \<Rightarrow> 1 | Some f \<Rightarrow> f)
                 else (UNCAPPED, 1)
             | None \<Rightarrow> (UNCAPPED, 1));
          raw = r_savings (fst rx);
          mc_raw = (case monthly_cost (snd rx) of None \<Rightarrow> raw | Some c \<Rightarrow> c)
      in \<lparr>pr_rec = fst rx, pr_waste = snd rx, pr_bucket_key = key, pr_savings_capped = raw * factor,
          pr_is_capped = (factor < 9995 / 10000), pr_cost_raw = mc_raw, pr_cost_capped = mc_raw * factor\<rparr>)"

record page =
  pg_rows :: "page_row list"
  pg_count :: nat
  pg_total :: rat
  pg_avg_confidence :: rat
  pg_buckets :: bucket_table
  pg_capped :: rat
  pg_over_spend :: bool

definition recommendations_page :: "env \<Rightarrow> cost_table \<Rightarrow> page_filter \<Rightarrow> world \<Rightarrow> unit pyexc + page" where
  "recommendations_page env costs flt w =
     (let rows = page_matches flt w
      in if \<not> list_all (\<lambda>rx. castable (snd rx)) rows then Inl (Raised ())
         else
           let buckets = savings_buckets env costs rows
           in Inr \<lparr>pg_rows = map (annotate env (savings_factor buckets)) (take 500 (by_savings rows)),
                   pg_count = length rows, pg_total = sum_savings rows,
                   pg_avg_confidence = (if rows = [] then 0
                     else sum_list (map (\<lambda>rx. w_confidence (snd rx)) rows) / of_nat (length rows)),
                   pg_buckets = buckets, pg_capped = capped_total buckets,
                   pg_over_spend = (capped_total buckets < sum_savings rows - 5 / 1000)\<rparr>)"

section \<open>The tabs\<close>

definition TABS :: "(page_row \<Rightarrow> bool) list" where
  "TABS =
     [\<lambda>r. w_resource_type (pr_waste r) = ''ec2_instance'',
      \<lambda>r. w_resource_type (pr_waste r) = ''ebs_volume'' \<and> r_type (pr_rec r) = ''delete_volume'',
      \<lambda>r. w_resource_type (pr_waste r) = ''elastic_ip'',
      \<lambda>r. w_resource_type (pr_waste r) = ''ebs_snapshot'',
      \<lambda>r. w_resource_type (pr_waste r) \<in> {''rds_instance'', ''rds_snapshot''},
      \<lambda>r. w_resource_type (pr_waste r) = ''nat_gateway'',
      \<lambda>r. w_resource_type (pr_waste r) = ''load_balancer'',
      \<lambda>r. w_resource_type (pr_waste r) = ''ami'']"

definition page_tabs :: "page_row list \<Rightarrow> page_row list list" where
  "page_tabs rows =
     (let tabs = map (\<lambda>tab. filter tab rows) TABS
      in tabs @ [filter (\<lambda>r. r \<notin> set (concat tabs)) rows])"

section \<open>The chat\<close>



section \<open>Every estimate is in one bucket\<close>

definition bucket_key :: "env \<Rightarrow> rec_row \<times> waste_row \<Rightarrow> string" where
  "bucket_key env rx =
     (case map_of RTYPE_TO_CE_SERVICE (w_resource_type (snd rx)) of
        Some service \<Rightarrow> if mature env rx then service else UNCAPPED
      | None \<Rightarrow> UNCAPPED)"

definition estimate :: "env \<Rightarrow> (rec_row \<times> waste_row) list \<Rightarrow> string \<Rightarrow> rat" where
  "estimate env rows k = sum_savings (filter (\<lambda>rx. bucket_key env rx = k) rows)"

lemma service_not_uncapped: "map_of RTYPE_TO_CE_SERVICE rt = Some s \<Longrightarrow> s \<noteq> UNCAPPED"
  by (auto simp: RTYPE_TO_CE_SERVICE_def UNCAPPED_def split: if_splits)

lemma sum_savings_simps [simp]:
  "sum_savings [] = 0" "sum_savings (rx # rows) = r_savings (fst rx) + sum_savings rows"
  by (simp_all add: sum_savings_def)

lemma sum_savings_split:
  "sum_savings rows = sum_savings (filter P rows) + sum_savings (filter (\<lambda>rx. \<not> P rx) rows)"
  by (induction rows) auto

lemma sum_savings_disj:
  "(\<And>rx. rx \<in> set rows \<Longrightarrow> \<not> (P rx \<and> Q rx)) \<Longrightarrow>
   sum_savings (filter (\<lambda>rx. P rx \<or> Q rx) rows) = sum_savings (filter P rows) + sum_savings (filter Q rows)"
  by (induction rows) auto

text \<open>What one resource type contributes to a bucket.\<close>

lemma type_share:
  fixes rows :: "(rec_row \<times> waste_row) list" and env :: env
  defines "share \<equiv> \<lambda>rt k. sum_savings (filter (\<lambda>rx. w_resource_type (snd rx) = rt \<and> bucket_key env rx = k) rows)"
    and "grp \<equiv> \<lambda>rt. filter (\<lambda>rx. w_resource_type (snd rx) = rt) rows"
  shows "map_of RTYPE_TO_CE_SERVICE rt = Some s \<Longrightarrow> share rt s = sum_savings (filter (mature env) (grp rt))"
    and "map_of RTYPE_TO_CE_SERVICE rt = Some s \<Longrightarrow> share rt UNCAPPED = sum_savings (filter (\<lambda>rx. \<not> mature env rx) (grp rt))"
    and "map_of RTYPE_TO_CE_SERVICE rt = Some s \<Longrightarrow> k \<noteq> s \<Longrightarrow> k \<noteq> UNCAPPED \<Longrightarrow> share rt k = 0"
    and "map_of RTYPE_TO_CE_SERVICE rt = None \<Longrightarrow> share rt UNCAPPED = sum_savings (grp rt)"
    and "map_of RTYPE_TO_CE_SERVICE rt = None \<Longrightarrow> k \<noteq> UNCAPPED \<Longrightarrow> share rt k = 0"
  unfolding share_def grp_def
  by (induction rows) (auto simp: bucket_key_def dest: service_not_uncapped split: if_splits)

lemma map_of_add_savings:
  "map_of (add_savings k x d) j =
    (if j = k then map_option (\<lambda>(savings, cap). (savings + x, cap)) (map_of d k) else map_of d j)"
  by (auto simp: add_savings_def update_conv' split: option.splits)

lemma add_savings_keys: "map fst (add_savings k x d) = map fst d"
proof (cases "map_of d k")
  case (Some b)
  then have "k \<in> fst ` set d" by (metis domI dom_map_of_conv_image_fst)
  with Some show ?thesis by (auto simp: add_savings_def update_keys split: prod.splits)
qed (simp add: add_savings_def)

definition of_types :: "string set \<Rightarrow> (rec_row \<times> waste_row) list \<Rightarrow> (rec_row \<times> waste_row) list" where
  "of_types T rows = filter (\<lambda>rx. w_resource_type (snd rx) \<in> T) rows"

lemma estimate_insert:
  assumes "rt \<notin> T"
  shows "estimate env (of_types (insert rt T) rows) k = estimate env (of_types T rows) k
    + sum_savings (filter (\<lambda>rx. w_resource_type (snd rx) = rt \<and> bucket_key env rx = k) rows)"
  using assms by (induction rows) (auto simp: estimate_def of_types_def)

definition buckets_ok :: "env \<Rightarrow> (string, rat) dict \<Rightarrow> (rec_row \<times> waste_row) list \<Rightarrow> string set \<Rightarrow> bucket_table \<Rightarrow> bool" where
  "buckets_ok env spend rows T d \<longleftrightarrow> distinct (map fst d)
     \<and> (\<forall>k. map_of d k =
          (if k = UNCAPPED then Some (estimate env (of_types T rows) k, None)
           else if \<exists>rt \<in> T. map_of RTYPE_TO_CE_SERVICE rt = Some k
                then Some (estimate env (of_types T rows) k, Some (spend_of spend k)) else None))"

lemma buckets_ok_add:
  assumes ok: "buckets_ok env spend rows T d" and rt: "rt \<notin> T"
  shows "buckets_ok env spend rows (insert rt T)
    (add_type spend (let grp = filter (\<lambda>rx. w_resource_type (snd rx) = rt) rows
       in (rt, sum_savings (filter (mature env) grp), sum_savings (filter (\<lambda>rx. \<not> mature env rx) grp))) d)"
proof (cases "map_of RTYPE_TO_CE_SERVICE rt")
  case None
  note share = type_share(4,5) [OF None, where env = env and rows = rows]
  let ?grp = "filter (\<lambda>rx. w_resource_type (snd rx) = rt) rows"
  show ?thesis
    using ok sum_savings_split [of ?grp "mature env"] None
    by (auto simp: buckets_ok_def add_type_def Let_def map_of_add_savings add_savings_keys estimate_insert [OF rt] share)
next
  case (Some s)
  note share = type_share(1,2,3) [OF Some, where env = env and rows = rows]
  define d1 where "d1 = (if map_of d s = None then AList.update s (0, Some (spend_of spend s)) d else d)"
  have s: "s \<noteq> UNCAPPED" by (rule service_not_uncapped [OF Some])
  have zero: "estimate env (of_types T rows) s = 0" if "\<not> (\<exists>rt \<in> T. map_of RTYPE_TO_CE_SERVICE rt = Some s)"
  proof -
    have "filter (\<lambda>rx. bucket_key env rx = s) (of_types T rows) = []"
      using that s by (auto simp: filter_empty_conv of_types_def bucket_key_def split: option.splits if_splits)
    then show ?thesis by (simp add: estimate_def)
  qed
  have keys: "distinct (map fst d1)"
    using ok by (simp add: d1_def buckets_ok_def distinct_update)
  have d1: "map_of d1 k =
      (if k = s then Some (estimate env (of_types T rows) s, Some (spend_of spend s)) else map_of d k)" for k
    using ok s zero by (auto simp: d1_def buckets_ok_def update_conv')
  let ?grp = "filter (\<lambda>rx. w_resource_type (snd rx) = rt) rows"
  have step: "add_type spend (let grp = ?grp in (rt, sum_savings (filter (mature env) grp),
        sum_savings (filter (\<lambda>rx. \<not> mature env rx) grp))) d =
      add_savings UNCAPPED (sum_savings (filter (\<lambda>rx. \<not> mature env rx) ?grp))
        (add_savings s (sum_savings (filter (mature env) ?grp)) d1)"
    by (simp add: add_type_def Some Let_def d1_def)
  have old: "map_of d k = (if k = UNCAPPED then Some (estimate env (of_types T rows) k, None)
      else if \<exists>rt \<in> T. map_of RTYPE_TO_CE_SERVICE rt = Some k
           then Some (estimate env (of_types T rows) k, Some (spend_of spend k)) else None)" for k
    using ok by (simp add: buckets_ok_def)
  show ?thesis
    unfolding step buckets_ok_def
    using keys Some s
    by (auto simp: map_of_add_savings add_savings_keys d1 old estimate_insert [OF rt] share)
qed

lemma savings_buckets_ok:
  "buckets_ok env (service_spend env costs) rows (set (map (\<lambda>rx. w_resource_type (snd rx)) rows))
     (savings_buckets env costs rows)"
proof -
  let ?spend = "service_spend env costs"
  let ?group = "\<lambda>rt. let grp = filter (\<lambda>rx. w_resource_type (snd rx) = rt) rows
     in (rt, sum_savings (filter (mature env) grp), sum_savings (filter (\<lambda>rx. \<not> mature env rx) grp))"
  have "buckets_ok env ?spend rows (T \<union> set ts) (fold (add_type ?spend) (map ?group ts) d)"
    if "buckets_ok env ?spend rows T d" "distinct ts" "T \<inter> set ts = {}" for T ts d
    using that
  proof (induction ts arbitrary: T d)
    case (Cons rt ts)
    have "buckets_ok env ?spend rows (insert rt T) (add_type ?spend (?group rt) d)"
      by (rule buckets_ok_add) (use Cons.prems in auto)
    with Cons.IH [of "insert rt T"] Cons.prems show ?case by simp
  qed simp
  from this [of "{}" "[(UNCAPPED, (0, None))]" "remdups (map (\<lambda>rx. w_resource_type (snd rx)) rows)"]
  show ?thesis
    by (simp add: savings_buckets_def type_estimates_def buckets_ok_def of_types_def estimate_def)
qed

lemma of_types_all [simp]: "of_types (set (map (\<lambda>rx. w_resource_type (snd rx)) rows)) rows = rows"
  by (simp add: of_types_def)

section \<open>Sums over the buckets\<close>

lemma sum_alist:
  assumes "distinct (map fst d)"
  shows "sum_list (map f d) = (\<Sum>k \<in> fst ` set d. f (k, the (map_of d k)) :: rat)"
proof -
  have "sum_list (map f d) = sum f (set d)"
    using assms by (intro sum_list_distinct_conv_sum_set) (simp add: distinct_map)
  also have "\<dots> = (\<Sum>k \<in> fst ` set d. f (k, the (map_of d k)))"
    using assms by (subst sum.reindex) (auto simp: distinct_map intro!: sum.cong)
  finally show ?thesis .
qed

lemma sum_by_bucket:
  fixes g :: "'a \<Rightarrow> rat"
  assumes "finite K" "key ` set rows \<subseteq> K"
  shows "sum_list (map g rows) = (\<Sum>k \<in> K. sum_list (map g (filter (\<lambda>rx. key rx = k) rows)))"
  using assms(2)
proof (induction rows)
  case (Cons rx rows)
  have "sum_list (map g (filter (\<lambda>rx. key rx = k) (rx # rows))) =
      (if key rx = k then g rx else 0) + sum_list (map g (filter (\<lambda>rx. key rx = k) rows))" for k
    by simp
  moreover have "(\<Sum>k \<in> K. if key rx = k then g rx else 0) = g rx"
    using Cons.prems assms(1) by simp
  ultimately show ?case using Cons by (simp add: sum.distrib)
qed simp

definition cap_of :: "(string, rat) dict \<Rightarrow> string \<Rightarrow> rat option" where
  "cap_of spend k = (if k = UNCAPPED then None else Some (spend_of spend k))"

definition factor_of :: "bucket_table \<Rightarrow> string \<Rightarrow> rat" where
  "factor_of d k = (case map_of (savings_factor d) k of None \<Rightarrow> 1 | Some f \<Rightarrow> f)"

lemma bucket_lookup:
  assumes "k \<in> fst ` set (savings_buckets env costs rows)"
  shows "map_of (savings_buckets env costs rows) k = Some (estimate env rows k, cap_of (service_spend env costs) k)"
proof -
  have "map_of (savings_buckets env costs rows) k \<noteq> None" using assms by (simp add: map_of_eq_None_iff)
  then show ?thesis
    using savings_buckets_ok [of env costs rows] unfolding buckets_ok_def of_types_all cap_of_def
    by (auto split: if_splits)
qed

lemma bucket_key_present: "rx \<in> set rows \<Longrightarrow> bucket_key env rx \<in> fst ` set (savings_buckets env costs rows)"
proof -
  assume rx: "rx \<in> set rows"
  have "map_of (savings_buckets env costs rows) (bucket_key env rx) \<noteq> None"
    using rx savings_buckets_ok [of env costs rows] unfolding buckets_ok_def
    by (auto simp: bucket_key_def split: option.splits dest: service_not_uncapped)
  then show ?thesis by (simp add: map_of_eq_None_iff)
qed

lemma map_of_savings_factor:
  "map_of (savings_factor d) k = map_option (\<lambda>(savings, cap).
     case cap of None \<Rightarrow> 1 | Some c \<Rightarrow> if savings \<le> 0 then 1 else min 1 (c / savings)) (map_of d k)"
  by (induction d) (auto simp: savings_factor_def)

lemma factor_capped:
  assumes "k \<in> fst ` set (savings_buckets env costs rows)" "0 \<le> estimate env rows k" "0 \<le> spend_of (service_spend env costs) k"
  shows "estimate env rows k * factor_of (savings_buckets env costs rows) k =
    capped (estimate env rows k, cap_of (service_spend env costs) k)"
  using assms(2,3)
  by (auto simp: factor_of_def map_of_savings_factor bucket_lookup [OF assms(1)] cap_of_def capped_def min_def field_simps)

lemma factor_range:
  assumes "\<And>k. 0 \<le> spend_of (service_spend env costs) k"
  shows "0 \<le> factor_of (savings_buckets env costs rows) k" "factor_of (savings_buckets env costs rows) k \<le> 1"
proof -
  have "0 \<le> factor_of (savings_buckets env costs rows) k \<and> factor_of (savings_buckets env costs rows) k \<le> 1"
  proof (cases "k \<in> fst ` set (savings_buckets env costs rows)")
    case True
    then show ?thesis
      using assms [of k] by (auto simp: factor_of_def map_of_savings_factor bucket_lookup cap_of_def)
  next
    case False
    then have "map_of (savings_buckets env costs rows) k = None" by (simp add: map_of_eq_None_iff)
    then show ?thesis by (simp add: factor_of_def map_of_savings_factor)
  qed
  then show "0 \<le> factor_of (savings_buckets env costs rows) k" "factor_of (savings_buckets env costs rows) k \<le> 1"
    by simp_all
qed

lemma annotate_fields:
  "pr_bucket_key (annotate env (savings_factor (savings_buckets env costs rows)) rx) = bucket_key env rx"
  "pr_savings_capped (annotate env (savings_factor (savings_buckets env costs rows)) rx) =
     r_savings (fst rx) * factor_of (savings_buckets env costs rows) (bucket_key env rx)"
  "pr_rec (annotate env (savings_factor (savings_buckets env costs rows)) rx) = fst rx"
proof -
  have unc: "factor_of (savings_buckets env costs rows) UNCAPPED = 1"
    by (cases "UNCAPPED \<in> fst ` set (savings_buckets env costs rows)")
      (auto simp: factor_of_def map_of_savings_factor bucket_lookup cap_of_def map_of_eq_None_iff [symmetric])
  show "pr_bucket_key (annotate env (savings_factor (savings_buckets env costs rows)) rx) = bucket_key env rx"
    "pr_rec (annotate env (savings_factor (savings_buckets env costs rows)) rx) = fst rx"
    by (auto simp: annotate_def bucket_key_def Let_def split: option.splits)
  show "pr_savings_capped (annotate env (savings_factor (savings_buckets env costs rows)) rx) =
     r_savings (fst rx) * factor_of (savings_buckets env costs rows) (bucket_key env rx)"
    using unc by (auto simp: annotate_def bucket_key_def Let_def factor_of_def split: option.splits)
qed

text \<open>Savings and costs are not negative: the detectors and the collectors write none that are.\<close>

definition figures_ok :: "cost_table \<Rightarrow> (rec_row \<times> waste_row) list \<Rightarrow> bool" where
  "figures_ok costs rows \<longleftrightarrow> list_all (\<lambda>kv. 0 \<le> cc_cost (snd kv)) costs \<and> list_all (\<lambda>rx. 0 \<le> r_savings (fst rx)) rows"

lemma sum_savings_nonneg: "list_all (\<lambda>rx. 0 \<le> r_savings (fst rx)) rows \<Longrightarrow> 0 \<le> sum_savings rows"
  by (induction rows) auto

lemma spend_nonneg: "list_all (\<lambda>kv. 0 \<le> cc_cost (snd kv)) costs \<Longrightarrow> 0 \<le> spend_of (service_spend env costs) k"
proof -
  assume nonneg: "list_all (\<lambda>kv. 0 \<le> cc_cost (snd kv)) costs"
  have "0 \<le> sum_cost rows" if "set rows \<subseteq> set costs" for rows
    using that nonneg by (induction rows) (auto simp: list_all_iff)
  then have "0 \<le> v" if "(k, v) \<in> set (service_spend env costs)" for v
    using that by (auto simp: service_spend_def group_sums_def)
  then show ?thesis by (auto simp: spend_of_def dest: map_of_SomeD split: option.splits)
qed

lemma estimate_nonneg: "list_all (\<lambda>rx. 0 \<le> r_savings (fst rx)) rows \<Longrightarrow> 0 \<le> estimate env rows k"
  unfolding estimate_def by (rule sum_savings_nonneg) (auto simp: list_all_iff)

lemma figures_nonneg:
  assumes "figures_ok costs rows"
  shows "0 \<le> estimate env rows k" "0 \<le> spend_of (service_spend env costs) k"
  using assms by (simp_all add: figures_ok_def estimate_nonneg spend_nonneg)

lemma capped_total_sum:
  "capped_total (savings_buckets env costs rows) =
    (\<Sum>k \<in> fst ` set (savings_buckets env costs rows). capped (estimate env rows k, cap_of (service_spend env costs) k))"
proof -
  have "distinct (map fst (savings_buckets env costs rows))"
    using savings_buckets_ok [of env costs rows] by (simp add: buckets_ok_def)
  then show ?thesis
    unfolding capped_total_def by (subst sum_alist) (auto simp: bucket_lookup intro!: sum.cong)
qed

lemma rows_sum:
  "sum_savings rows = (\<Sum>k \<in> fst ` set (savings_buckets env costs rows). estimate env rows k)"
  unfolding sum_savings_def estimate_def
  by (rule sum_by_bucket) (auto simp: bucket_key_present)

lemma capped_between:
  assumes ok: "figures_ok costs rows"
  shows "0 \<le> capped_total (savings_buckets env costs rows)"
    "capped_total (savings_buckets env costs rows) \<le> sum_savings rows"
proof -
  have "0 \<le> capped (estimate env rows k, cap_of (service_spend env costs) k)
      \<and> capped (estimate env rows k, cap_of (service_spend env costs) k) \<le> estimate env rows k" for k
    using figures_nonneg [OF ok, of env k] by (auto simp: capped_def cap_of_def)
  then show "0 \<le> capped_total (savings_buckets env costs rows)"
    "capped_total (savings_buckets env costs rows) \<le> sum_savings rows"
    unfolding capped_total_sum rows_sum [where env = env and costs = costs] by (auto intro: sum_nonneg sum_mono)
qed

lemma annotated_sum:
  assumes ok: "figures_ok costs rows"
  shows "sum_list (map (\<lambda>rx. pr_savings_capped (annotate env (savings_factor (savings_buckets env costs rows)) rx)) rows) =
    capped_total (savings_buckets env costs rows)"
proof -
  let ?d = "savings_buckets env costs rows"
  let ?g = "\<lambda>rx. r_savings (fst rx) * factor_of ?d (bucket_key env rx)"
  have group: "sum_list (map ?g (filter (\<lambda>rx. bucket_key env rx = k) xs)) =
      sum_savings (filter (\<lambda>rx. bucket_key env rx = k) xs) * factor_of ?d k" for k xs
    by (induction xs) (auto simp: distrib_right)
  have "sum_list (map ?g rows) = (\<Sum>k \<in> fst ` set ?d. sum_list (map ?g (filter (\<lambda>rx. bucket_key env rx = k) rows)))"
    by (rule sum_by_bucket) (auto simp: bucket_key_present)
  also have "\<dots> = (\<Sum>k \<in> fst ` set ?d. estimate env rows k * factor_of ?d k)"
    by (simp only: group estimate_def)
  also have "\<dots> = capped_total ?d"
    unfolding capped_total_sum by (rule sum.cong [OF refl], rule factor_capped [OF _ figures_nonneg [OF ok]])
  finally show ?thesis by (simp add: annotate_fields)
qed

lemma bucket_within_spend:
  assumes ok: "figures_ok costs rows" and k: "k \<noteq> UNCAPPED"
  shows "sum_list (map (\<lambda>rx. r_savings (fst rx) * factor_of (savings_buckets env costs rows) k)
      (filter (\<lambda>rx. bucket_key env rx = k) rows)) \<le> spend_of (service_spend env costs) k"
proof (cases "k \<in> fst ` set (savings_buckets env costs rows)")
  case True
  have "sum_list (map (\<lambda>rx. r_savings (fst rx) * c) xs) = sum_savings xs * c" for c and xs :: "(rec_row \<times> waste_row) list"
    by (induction xs) (auto simp: distrib_right)
  then have "sum_list (map (\<lambda>rx. r_savings (fst rx) * factor_of (savings_buckets env costs rows) k)
      (filter (\<lambda>rx. bucket_key env rx = k) rows)) = capped (estimate env rows k, cap_of (service_spend env costs) k)"
    using factor_capped [OF True figures_nonneg [OF ok]] by (simp add: estimate_def)
  then show ?thesis using k by (simp add: capped_def cap_of_def)
next
  case False
  then have "filter (\<lambda>rx. bucket_key env rx = k) rows = []"
    by (auto simp: filter_empty_conv dest: bucket_key_present)
  then show ?thesis using figures_nonneg(2) [OF ok] by simp
qed

section \<open>What the page shows\<close>

lemma sum_list_perm: "mset xs = mset ys \<Longrightarrow> sum_list (map f xs) = (sum_list (map f ys) :: rat)"
  by (metis mset_map sum_mset_sum_list)


lemma mset_by_savings: "mset (by_savings rows) = mset rows"
  by (simp add: by_savings_def)

lemma sum_take_le: "list_all (\<lambda>x. (0::rat) \<le> f x) xs \<Longrightarrow> sum_list (map f (filter P (take n xs))) \<le> sum_list (map f (filter P xs))"
proof -
  assume nonneg: "list_all (\<lambda>x. 0 \<le> f x) xs"
  have "sum_list (map f (filter P xs)) = sum_list (map f (filter P (take n xs))) + sum_list (map f (filter P (drop n xs)))"
    by (metis append_take_drop_id filter_append map_append sum_list_append)
  moreover have "0 \<le> sum_list (map f (filter P (drop n xs)))"
    using nonneg by (intro sum_list_nonneg) (auto simp: list_all_iff dest: in_set_dropD)
  ultimately show ?thesis by simp
qed

definition in_tab :: "page_row list \<Rightarrow> page_row \<Rightarrow> nat \<Rightarrow> bool" where
  "in_tab rows r i \<longleftrightarrow> i < length (page_tabs rows) \<and> r \<in> set (page_tabs rows ! i)"

lemma tab_type:
  assumes "i < 8" "(TABS ! i) r"
  shows "map_of [(''ec2_instance'', 0), (''ebs_volume'', 1), (''elastic_ip'', 2), (''ebs_snapshot'', 3), (''rds_instance'', 4),
      (''rds_snapshot'', 4), (''nat_gateway'', 5), (''load_balancer'', 6), (''ami'', 7)] (w_resource_type (pr_waste r)) = Some i"
proof -
  have "i \<in> {0, 1, 2, 3, 4, 5, 6, 7}" using assms(1) by auto
  then show ?thesis using assms(2) by (elim insertE) (auto simp: TABS_def)
qed

lemma page_tabs_partition: "r \<in> set rows \<Longrightarrow> \<exists>!i. in_tab rows r i"
proof -
  assume r: "r \<in> set rows"
  have len: "length TABS = 8" by (simp add: TABS_def)
  have tabs: "in_tab rows r i \<longleftrightarrow> (i < 8 \<and> (TABS ! i) r) \<or> (i = 8 \<and> (\<forall>tab \<in> set TABS. \<not> tab r))" for i
  proof (cases "i < 8")
    case True
    with r len show ?thesis by (simp add: in_tab_def page_tabs_def Let_def nth_append)
  next
    case False
    have "r \<in> set (filter (\<lambda>r. r \<notin> set (concat (map (\<lambda>tab. filter tab rows) TABS))) rows)
        \<longleftrightarrow> (\<forall>tab \<in> set TABS. \<not> tab r)"
      using r by simp
    with False len show ?thesis by (cases "i = 8") (simp_all add: in_tab_def page_tabs_def Let_def nth_append)
  qed
  have "\<exists>!i. (i < 8 \<and> (TABS ! i) r) \<or> (i = 8 \<and> (\<forall>tab \<in> set TABS. \<not> tab r))"
  proof (cases "\<exists>i < 8. (TABS ! i) r")
    case True
    then obtain i where i: "i < 8" "(TABS ! i) r" by blast
    have uniq: "j = i" if "j < 8" "(TABS ! j) r" for j
      using tab_type [OF i] tab_type [OF that] by simp
    have mem: "TABS ! i \<in> set TABS" by (rule nth_mem) (use i(1) len in simp)
    show ?thesis
    proof (rule ex1I [of _ i])
      show "(i < 8 \<and> (TABS ! i) r) \<or> (i = 8 \<and> (\<forall>tab \<in> set TABS. \<not> tab r))" using i by blast
      show "j = i" if "(j < 8 \<and> (TABS ! j) r) \<or> (j = 8 \<and> (\<forall>tab \<in> set TABS. \<not> tab r))" for j
        using that uniq mem i(2) by blast
    qed
  next
    case False
    then have none: "\<forall>tab \<in> set TABS. \<not> tab r" by (metis in_set_conv_nth len)
    show ?thesis
    proof (rule ex1I [of _ 8])
      show "(8 < (8::nat) \<and> (TABS ! 8) r) \<or> (8 = (8::nat) \<and> (\<forall>tab \<in> set TABS. \<not> tab r))" using none by blast
      show "j = 8" if "(j < 8 \<and> (TABS ! j) r) \<or> (j = 8 \<and> (\<forall>tab \<in> set TABS. \<not> tab r))" for j
        using that False by blast
    qed
  qed
  with tabs show ?thesis by simp
qed

text \<open>
  C14: on the Recommendations page the realistic savings are between zero and the sum of the estimates,
  no service's rows together claim more than was billed for that service in thirty days, and no row
  more than its own estimate; as long as all rows are shown, the rows sum to the realistic figure
  exactly. Every shown row is in exactly one tab.
\<close>

theorem capped_savings_realistic:
  assumes page: "recommendations_page env costs flt w = Inr pg" and ok: "figures_ok costs (page_matches flt w)"
  shows "0 \<le> pg_capped pg \<and> pg_capped pg \<le> pg_total pg
    \<and> (pg_count pg \<le> 500 \<longrightarrow> sum_list (map pr_savings_capped (pg_rows pg)) = pg_capped pg)
    \<and> (\<forall>service. service \<noteq> UNCAPPED \<longrightarrow>
         sum_list (map pr_savings_capped (filter (\<lambda>r. pr_bucket_key r = service) (pg_rows pg)))
           \<le> spend_of (service_spend env costs) service)
    \<and> (\<forall>r \<in> set (pg_rows pg). 0 \<le> pr_savings_capped r \<and> pr_savings_capped r \<le> r_savings (pr_rec r))
    \<and> (\<forall>r \<in> set (pg_rows pg). \<exists>!i. in_tab (pg_rows pg) r i)"
proof (intro conjI)
  define rows where "rows = page_matches flt w"
  define d where "d = savings_buckets env costs rows"
  define show_row where "show_row = annotate env (savings_factor d)"
  have pg: "pg_capped pg = capped_total d" "pg_total pg = sum_savings rows" "pg_count pg = length rows"
    "pg_rows pg = map show_row (take 500 (by_savings rows))"
    using page by (auto simp: recommendations_page_def Let_def rows_def d_def show_row_def split: if_splits)
  have ok': "figures_ok costs rows" using ok by (simp add: rows_def)
  have row: "pr_bucket_key (show_row rx) = bucket_key env rx" "pr_rec (show_row rx) = fst rx"
    "pr_savings_capped (show_row rx) = r_savings (fst rx) * factor_of d (bucket_key env rx)" for rx
    by (simp_all add: show_row_def d_def annotate_fields)
  show "0 \<le> pg_capped pg" "pg_capped pg \<le> pg_total pg"
    using capped_between [OF ok', of env] by (simp_all add: pg d_def)
  have factor: "0 \<le> factor_of d k" "factor_of d k \<le> 1" for k
    using factor_range [OF figures_nonneg(2) [OF ok'], of env rows k] by (simp_all add: d_def)
  have nonneg: "list_all (\<lambda>rx. 0 \<le> r_savings (fst rx)) (by_savings rows)"
    using ok' by (simp add: figures_ok_def list_all_iff by_savings_def)
  show "\<forall>r \<in> set (pg_rows pg). 0 \<le> pr_savings_capped r \<and> pr_savings_capped r \<le> r_savings (pr_rec r)"
  proof
    fix r
    assume "r \<in> set (pg_rows pg)"
    then obtain rx where rx: "r = show_row rx" "0 \<le> r_savings (fst rx)"
      using nonneg by (auto simp: pg list_all_iff dest: in_set_takeD)
    show "0 \<le> pr_savings_capped r \<and> pr_savings_capped r \<le> r_savings (pr_rec r)"
      using factor [of "bucket_key env rx"] rx(2) by (simp add: rx(1) row mult_left_le)
  qed
  show "pg_count pg \<le> 500 \<longrightarrow> sum_list (map pr_savings_capped (pg_rows pg)) = pg_capped pg"
  proof
    assume "pg_count pg \<le> 500"
    then have "pg_rows pg = map show_row (by_savings rows)"
      by (simp add: pg by_savings_def)
    then have "sum_list (map pr_savings_capped (pg_rows pg)) = sum_list (map (\<lambda>rx. pr_savings_capped (show_row rx)) rows)"
      by (simp add: comp_def sum_list_perm [OF mset_by_savings])
    also have "\<dots> = capped_total d"
      unfolding show_row_def d_def by (rule annotated_sum [OF ok'])
    finally show "sum_list (map pr_savings_capped (pg_rows pg)) = pg_capped pg" by (simp add: pg)
  qed
  show "\<forall>service. service \<noteq> UNCAPPED \<longrightarrow>
         sum_list (map pr_savings_capped (filter (\<lambda>r. pr_bucket_key r = service) (pg_rows pg)))
           \<le> spend_of (service_spend env costs) service"
  proof (intro allI impI)
    fix service
    assume service: "service \<noteq> UNCAPPED"
    let ?f = "\<lambda>rx. r_savings (fst rx) * factor_of d service"
    have "sum_list (map pr_savings_capped (filter (\<lambda>r. pr_bucket_key r = service) (pg_rows pg))) =
        sum_list (map ?f (filter (\<lambda>rx. bucket_key env rx = service) (take 500 (by_savings rows))))"
      by (auto simp: pg filter_map comp_def row intro!: arg_cong [of _ _ sum_list])
    also have "\<dots> \<le> sum_list (map ?f (filter (\<lambda>rx. bucket_key env rx = service) (by_savings rows)))"
      by (rule sum_take_le) (use nonneg factor in \<open>auto simp: list_all_iff\<close>)
    also have "\<dots> = sum_list (map ?f (filter (\<lambda>rx. bucket_key env rx = service) rows))"
      by (intro sum_list_perm) (simp add: mset_by_savings)
    also have "\<dots> \<le> spend_of (service_spend env costs) service"
      unfolding d_def by (rule bucket_within_spend [OF ok' service])
    finally show "sum_list (map pr_savings_capped (filter (\<lambda>r. pr_bucket_key r = service) (pg_rows pg)))
        \<le> spend_of (service_spend env costs) service" .
  qed
  show "\<forall>r \<in> set (pg_rows pg). \<exists>!i. in_tab (pg_rows pg) r i"
    using page_tabs_partition by blast
qed

definition all_pending :: page_filter where
  "all_pending = \<lparr>pf_type = ''All'', pf_min_savings = 0, pf_min_confidence = 0\<rparr>"

definition compute_costs :: cost_table where
  "compute_costs =
     [((''aws'', ''1'', ''Amazon Elastic Compute Cloud - Compute'', 99),
       \<lparr>cc_cost = 10, cc_currency = ''USD'', cc_region = [], cc_created = 0\<rparr>)]"

lemma sample_matches: "page_matches all_pending sample_world = [(hd (t_rows (recs sample_world)), hd (t_rows (wastes sample_world)))]"
  by (simp add: page_matches_def page_where_def all_pending_def joined_def map_filter_def sample_world_def t_get_def)

lemma capped_savings_realistic_witness:
  "\<exists>pg. recommendations_page sample_env compute_costs all_pending sample_world = Inr pg
     \<and> sum_list (map pr_savings_capped (pg_rows pg)) = pg_capped pg
     \<and> sum_list (map pr_savings_capped (filter (\<lambda>r. pr_bucket_key r = ''Amazon Elastic Compute Cloud - Compute'') (pg_rows pg))) \<le> 10"
proof -
  have cast: "list_all (\<lambda>rx. castable (snd rx)) (page_matches all_pending sample_world)"
    unfolding sample_matches by (simp add: castable_def sample_world_def)
  obtain pg where pg: "recommendations_page sample_env compute_costs all_pending sample_world = Inr pg" "pg_count pg = 1"
    using cast by (simp add: recommendations_page_def Let_def sample_matches)
  have ok: "figures_ok compute_costs (page_matches all_pending sample_world)"
    unfolding sample_matches by (simp add: figures_ok_def compute_costs_def sample_world_def)
  have spend: "spend_of (service_spend sample_env compute_costs) ''Amazon Elastic Compute Cloud - Compute'' = 10"
    by (simp add: spend_of_def service_spend_def compute_costs_def group_sums_def cost_service_def cost_day_def
        sample_env_def)
  note facts = capped_savings_realistic [OF pg(1) ok]
  have "sum_list (map pr_savings_capped (pg_rows pg)) = pg_capped pg"
    using facts [THEN conjunct2, THEN conjunct2, THEN conjunct1] pg(2) by simp
  moreover have "''Amazon Elastic Compute Cloud - Compute'' \<noteq> UNCAPPED" by (simp add: UNCAPPED_def)
  note facts [THEN conjunct2, THEN conjunct2, THEN conjunct2, THEN conjunct1, THEN spec, THEN mp, OF this, unfolded spend]
  ultimately show ?thesis using pg(1) by blast
qed

section \<open>The chat computes the same figures\<close>








end
