(* ===== verification/TodoChecks.thy ===== *)
theory TodoChecks
  imports Actions PageFigures
begin

text \<open>
  The routes around the recommendations page in \<open>ui/routes/recommendations.py\<close> that are not figures:
  the list as JSON, the to-dos that a human has taken over and the check whether their resource is
  gone from AWS. What AWS answers is a parameter.
\<close>

section \<open>The list\<close>

text \<open>The query of the page with a limit, which the route keeps between 1 and 500.\<close>

definition api_recommendations :: "page_filter \<Rightarrow> nat \<Rightarrow> world \<Rightarrow> (rec_row \<times> waste_row) list" where
  "api_recommendations flt limit w = take limit (by_savings (page_matches flt w))"

section \<open>To-dos\<close>

text \<open>\<open>metadata->>'region'\<close>, or the zone; regions and zones are stored as text.\<close>

definition region_text :: "waste_row \<Rightarrow> string option" where
  "region_text x =
     (case Option.bind (map_of (w_metadata x) ''region'') json_text of
        Some s \<Rightarrow> Some s
      | None \<Rightarrow> Option.bind (map_of (w_metadata x) ''az'') json_text)"

record todo =
  to_id :: nat
  to_type :: string
  to_resource :: string
  to_savings :: rat
  to_region :: string

definition todo_of :: "rec_row \<times> waste_row \<Rightarrow> todo" where
  "todo_of rx =
     \<lparr>to_id = r_id (fst rx), to_type = r_type (fst rx), to_resource = w_resource_id (snd rx),
      to_savings = r_savings (fst rx),
      to_region = (case region_text (snd rx) of None \<Rightarrow> ''eu-west-1'' | Some s \<Rightarrow> s)\<rparr>"

text \<open>\<open>ORDER BY applied_at DESC\<close>: PostgreSQL puts NULL first.\<close>

definition latest_first :: "(rec_row \<times> waste_row) list \<Rightarrow> (rec_row \<times> waste_row) list" where
  "latest_first rows =
     filter (\<lambda>rx. r_applied_at (fst rx) = None) rows
     @ sort_key (\<lambda>rx. - the (r_applied_at (fst rx))) (filter (\<lambda>rx. r_applied_at (fst rx) \<noteq> None) rows)"

definition manual_todos :: "world \<Rightarrow> todo list" where
  "manual_todos w =
     map todo_of (take 5 (latest_first (filter (\<lambda>rx. r_status (fst rx) = ApprovedManual) (joined w))))"

section \<open>Is the resource gone?\<close>

text \<open>
  The describe calls for one id in a region: the states of the instances of each reservation, the
  instances that addresses are associated with, and the states of what the other calls list.
\<close>

datatype lister = Volumes | Snapshots | Vpcs | NatGateways | Images | DbInstances | DbSnapshots

record todo_reads =
  td_client :: "string \<Rightarrow> string \<Rightarrow> aws_exc option"
  td_instances :: "string \<Rightarrow> string \<Rightarrow> aws_exc + string list list"
  td_addresses :: "string \<Rightarrow> string \<Rightarrow> aws_exc + string option list"
  td_states :: "lister \<Rightarrow> string \<Rightarrow> string \<Rightarrow> aws_exc + string list"

type_synonym status_pair = "bool option \<times> string option"

definition instance_status :: "string list list \<Rightarrow> status_pair" where
  "instance_status reservations =
     (case reservations of
        (state # _) # _ \<Rightarrow> (Some (state = ''terminated''), Some state)
      | _ \<Rightarrow> (Some True, None))"

definition address_status :: "string option list \<Rightarrow> status_pair" where
  "address_status addrs =
     (case addrs of
        [] \<Rightarrow> (Some True, None)
      | instance_id # _ \<Rightarrow> (Some False, Some (if truthy instance_id then ''associated'' else ''allocated'')))"

definition nat_status :: "string list \<Rightarrow> status_pair" where
  "nat_status nats =
     (case nats of [] \<Rightarrow> (Some True, None) | state # _ \<Rightarrow> (Some (state = ''deleted''), Some state))"

definition listed_status :: "string list \<Rightarrow> status_pair" where
  "listed_status states = (Some (states = []), (case states of [] \<Rightarrow> None | state # _ \<Rightarrow> Some state))"

definition described :: "todo_reads \<Rightarrow> string \<Rightarrow> string \<Rightarrow> aws_exc + status_pair" where
  "described reads region rid =
     (if prefix ''i-'' rid then map_sum id instance_status (td_instances reads region rid)
      else if prefix ''vol-'' rid then map_sum id listed_status (td_states reads Volumes region rid)
      else if prefix ''eipalloc-'' rid then map_sum id address_status (td_addresses reads region rid)
      else if prefix ''snap-'' rid then map_sum id listed_status (td_states reads Snapshots region rid)
      else if prefix ''vpc-'' rid then map_sum id listed_status (td_states reads Vpcs region rid)
      else if prefix ''nat-'' rid then map_sum id nat_status (td_states reads NatGateways region rid)
      else if prefix ''ami-'' rid then map_sum id listed_status (td_states reads Images region rid)
      else Inr (None, None))"

text \<open>An error that says that nothing was found is the confirmation.\<close>

definition confirming :: "aws_exc + status_pair \<Rightarrow> aws_exc + status_pair" where
  "confirming m =
     (case m of
        Inl e \<Rightarrow> if contains ''NotFound'' (exc_text e) then Inr (Some True, None) else Inl e
      | Inr st \<Rightarrow> Inr st)"

definition ec2_deletion_status :: "todo_reads \<Rightarrow> string \<Rightarrow> string \<Rightarrow> aws_exc + status_pair" where
  "ec2_deletion_status reads region rid = confirming (described reads region rid)"

definition rds_deletion_status :: "todo_reads \<Rightarrow> string \<Rightarrow> string \<Rightarrow> string \<Rightarrow> aws_exc + status_pair" where
  "rds_deletion_status reads region rid resource_type =
     confirming (map_sum id listed_status
       (td_states reads (if resource_type = ''rds_instance'' then DbInstances else DbSnapshots) region rid))"

datatype deletion_hint = CannotDescribe | NotVerified string

datatype deletion_answer = NoSuchRecommendation | Checked status_pair | Unverified deletion_hint

text \<open>The region of the check: a zone loses its letter.\<close>

definition check_region :: "string \<Rightarrow> waste_row \<Rightarrow> string" where
  "check_region env_region x =
     (let region = or_default (region_text x) env_region
      in if region \<noteq> [] \<and> is_alpha (last region) then butlast region else region)"

definition deletion_hint_of :: "aws_exc \<Rightarrow> deletion_hint" where
  "deletion_hint_of e =
     (if contains ''AccessDenied'' (exc_text e) \<or> contains ''UnauthorizedOperation'' (exc_text e)
      then CannotDescribe else NotVerified (exc_text e))"

definition deletion_status :: "string \<Rightarrow> todo_reads \<Rightarrow> nat \<Rightarrow> world \<Rightarrow> deletion_answer" where
  "deletion_status env_region reads rid w =
     (case rec_join rid w of
        None \<Rightarrow> NoSuchRecommendation
      | Some (r, x) \<Rightarrow>
          let region = check_region env_region x;
              rds = (w_resource_type x \<in> {''rds_instance'', ''rds_snapshot''})
          in case (case td_client reads (if rds then ''rds'' else ''ec2'') region of
                     Some e \<Rightarrow> Inl e
                   | None \<Rightarrow> if rds then rds_deletion_status reads region (w_resource_id x) (w_resource_type x)
                             else ec2_deletion_status reads region (w_resource_id x)) of
               Inl e \<Rightarrow> Unverified (deletion_hint_of e)
             | Inr st \<Rightarrow> Checked st)"

section \<open>What a confirmation rests on\<close>

text \<open>AWS said that there is no such thing, or what it said has the property.\<close>

definition seen_gone :: "('a \<Rightarrow> bool) \<Rightarrow> aws_exc + 'a \<Rightarrow> bool" where
  "seen_gone P m = (case m of Inl e \<Rightarrow> contains ''NotFound'' (exc_text e) | Inr v \<Rightarrow> P v)"

definition reported_gone :: "todo_reads \<Rightarrow> string \<Rightarrow> waste_row \<Rightarrow> bool" where
  "reported_gone reads region x \<longleftrightarrow>
     (let rid = w_resource_id x; lists = (\<lambda>l. seen_gone (\<lambda>states. states = []) (td_states reads l region rid))
      in if w_resource_type x = ''rds_instance'' then lists DbInstances
         else if w_resource_type x = ''rds_snapshot'' then lists DbSnapshots
         else if prefix ''i-'' rid
           then seen_gone (\<lambda>rs. rs = [] \<or> hd rs = [] \<or> hd (hd rs) = ''terminated'') (td_instances reads region rid)
         else if prefix ''vol-'' rid then lists Volumes
         else if prefix ''eipalloc-'' rid then seen_gone (\<lambda>addrs. addrs = []) (td_addresses reads region rid)
         else if prefix ''snap-'' rid then lists Snapshots
         else if prefix ''vpc-'' rid then lists Vpcs
         else if prefix ''nat-'' rid
           then seen_gone (\<lambda>nats. nats = [] \<or> hd nats = ''deleted'') (td_states reads NatGateways region rid)
         else if prefix ''ami-'' rid then lists Images
         else False)"

definition confirmed :: "aws_exc + status_pair \<Rightarrow> bool" where
  "confirmed m \<longleftrightarrow> (\<exists>st. confirming m = Inr (Some True, st))"

lemma confirmed_if: "confirmed (if b then m else m') = (if b then confirmed m else confirmed m')"
  by simp

lemma confirmed_listed: "confirmed (map_sum id listed_status m) = seen_gone (\<lambda>states. states = []) m"
  by (cases m) (auto simp: confirmed_def confirming_def seen_gone_def listed_status_def)

lemma confirmed_instance:
  "confirmed (map_sum id instance_status m)
     = seen_gone (\<lambda>rs. rs = [] \<or> hd rs = [] \<or> hd (hd rs) = ''terminated'') m"
  by (cases m) (auto simp: confirmed_def confirming_def seen_gone_def instance_status_def split: list.splits)

lemma confirmed_address: "confirmed (map_sum id address_status m) = seen_gone (\<lambda>addrs. addrs = []) m"
  by (cases m) (auto simp: confirmed_def confirming_def seen_gone_def address_status_def split: list.splits)

lemma confirmed_nat:
  "confirmed (map_sum id nat_status m) = seen_gone (\<lambda>nats. nats = [] \<or> hd nats = ''deleted'') m"
  by (cases m) (auto simp: confirmed_def confirming_def seen_gone_def nat_status_def split: list.splits)

lemma confirmed_unknown: "confirmed (Inr (None, st)) = False"
  by (simp add: confirmed_def confirming_def)

lemmas confirmations =
  confirmed_if confirmed_listed confirmed_instance confirmed_address confirmed_nat confirmed_unknown

lemma ec2_confirmed:
  assumes "w_resource_type x \<notin> {''rds_instance'', ''rds_snapshot''}"
  shows "(\<exists>st. ec2_deletion_status reads region (w_resource_id x) = Inr (Some True, st)) \<longleftrightarrow> reported_gone reads region x"
proof -
  have type: "(w_resource_type x = ''rds_instance'') = False" "(w_resource_type x = ''rds_snapshot'') = False"
    using assms by blast+
  show ?thesis
    by (simp only: ec2_deletion_status_def confirmed_def [symmetric] described_def reported_gone_def Let_def
        type if_False confirmations)
qed

lemma rds_confirmed:
  assumes "w_resource_type x \<in> {''rds_instance'', ''rds_snapshot''}"
  shows "(\<exists>st. rds_deletion_status reads region (w_resource_id x) (w_resource_type x) = Inr (Some True, st))
     \<longleftrightarrow> reported_gone reads region x"
proof (cases "w_resource_type x = ''rds_instance''")
  case True
  show ?thesis
    by (simp only: rds_deletion_status_def confirmed_def [symmetric] reported_gone_def Let_def True if_True
        refl confirmations)
next
  case False
  then have other: "(w_resource_type x = ''rds_instance'') = False" "(w_resource_type x = ''rds_snapshot'') = True"
    using assms by blast+
  show ?thesis
    by (simp only: rds_deletion_status_def confirmed_def [symmetric] reported_gone_def Let_def other if_True
        if_False confirmations)
qed

text \<open>
  C33: a to-do is confirmed as deleted exactly when AWS, asked with a client for the stored region,
  says that the resource is not found, lists nothing for its id, or lists it as terminated or deleted;
  any other error, a kind of resource that cannot be checked and a missing client confirm nothing.
  Without a stored region the question goes to the default region.
\<close>

theorem deletion_confirmed_on_evidence:
  "(\<exists>st. deletion_status env_region reads rid w = Checked (Some True, st)) \<longleftrightarrow>
   (\<exists>r x. rec_join rid w = Some (r, x)
      \<and> td_client reads (if w_resource_type x \<in> {''rds_instance'', ''rds_snapshot''} then ''rds'' else ''ec2'')
          (check_region env_region x) = None
      \<and> reported_gone reads (check_region env_region x) x)"
proof (cases "rec_join rid w")
  case (Some rx)
  obtain r x where rx: "rx = (r, x)" by (cases rx)
  let ?region = "check_region env_region x"
  let ?rds = "w_resource_type x \<in> {''rds_instance'', ''rds_snapshot''}"
  let ?asked = "if ?rds then rds_deletion_status reads ?region (w_resource_id x) (w_resource_type x)
      else ec2_deletion_status reads ?region (w_resource_id x)"
  have "(\<exists>st. ?asked = Inr (Some True, st)) \<longleftrightarrow> reported_gone reads ?region x"
    using ec2_confirmed [of x reads ?region] rds_confirmed [of x reads ?region] by auto
  moreover have "(\<exists>st. deletion_status env_region reads rid w = Checked (Some True, st)) \<longleftrightarrow>
      td_client reads (if ?rds then ''rds'' else ''ec2'') ?region = None \<and> (\<exists>st. ?asked = Inr (Some True, st))"
    by (cases "td_client reads (if ?rds then ''rds'' else ''ec2'') ?region"; cases ?asked)
      (auto simp: deletion_status_def Some rx Let_def)
  ultimately show ?thesis by (simp add: Some rx)
qed (simp add: deletion_status_def)

section \<open>The page and the list\<close>

lemma page_lists_what_the_api_lists:
  assumes "recommendations_page env costs flt w = Inr pg"
  shows "map (\<lambda>r. (pr_rec r, pr_waste r)) (pg_rows pg) = api_recommendations flt 500 w"
proof -
  have "(\<lambda>r. (pr_rec r, pr_waste r)) \<circ> annotate env factors = id" for factors
    by (rule ext) (simp add: annotate_def Let_def split: prod.splits option.splits)
  then show ?thesis
    using assms by (auto simp: recommendations_page_def api_recommendations_def Let_def split: if_splits)
qed

end
