(* ===== verification/ResourceViews.thy ===== *)
theory ResourceViews
  imports TodoChecks
begin

text \<open>
  The two views of the resource behind a recommendation in \<open>ui/routes/recommendations.py\<close>: its history
  from CloudTrail and its characteristics from the describe calls, each with a cache of ten minutes.
  What AWS answers is a parameter.
\<close>

section \<open>Views of one resource\<close>

text \<open>A cache keeps an answer, an unavailable one too, for ten minutes under the id of the resource.\<close>

definition HISTORY_CACHE_TTL_SECONDS :: int where
  "HISTORY_CACHE_TTL_SECONDS = 600"

type_synonym 'p view_cache = "string \<rightharpoonup> int \<times> 'p"

definition cached_view :: "env \<Rightarrow> string \<Rightarrow> 'p \<Rightarrow> 'p view_cache \<Rightarrow> 'p \<times> 'p view_cache" where
  "cached_view env resource_id fresh cache =
     (case cache resource_id of
        Some (expires, payload) \<Rightarrow>
          if expires > e_now env then (payload, cache)
          else (fresh, cache(resource_id \<mapsto> (e_now env + HISTORY_CACHE_TTL_SECONDS, fresh)))
      | None \<Rightarrow> (fresh, cache(resource_id \<mapsto> (e_now env + HISTORY_CACHE_TTL_SECONDS, fresh))))"

definition view_region :: "string \<Rightarrow> waste_row \<Rightarrow> string" where
  "view_region env_region x =
     or_default (Option.bind (map_of (w_metadata x) ''region'') json_text) env_region"

record trail_event =
  te_time :: string
  te_name :: "string option"
  te_user :: "string option"
  te_id :: "string option"

datatype 'p view = NoRecommendation | NoDetailsView | Available string 'p | Unavailable string

text \<open>\<open>trail\<close> is \<open>lookup_events\<close> of CloudTrail in a region, with the client for it.\<close>

definition MISSING_LOOKUP :: string where
  "MISSING_LOOKUP = ''The wasteless-readonly role lacks cloudtrail:LookupEvents ''
     @ ''- update your onboarding stack (onboarding/cloudformation or terraform) to enable resource history.''"

definition resource_history ::
    "(string \<Rightarrow> string \<Rightarrow> aws_exc + trail_event list) \<Rightarrow> env \<Rightarrow> string \<Rightarrow> nat \<Rightarrow> world
     \<Rightarrow> trail_event list view view_cache \<Rightarrow> trail_event list view \<times> trail_event list view view_cache" where
  "resource_history trail env env_region rid w cache =
     (case rec_join rid w of
        None \<Rightarrow> (NoRecommendation, cache)
      | Some (r, x) \<Rightarrow>
          let region = view_region env_region x
          in cached_view env (w_resource_id x)
               (case trail region (w_resource_id x) of
                  Inr found \<Rightarrow>
                    Available region (map (\<lambda>e. e\<lparr>te_name := Some (or_default (te_name e) []),
                      te_user := Some (or_default (te_user e) []), te_id := Some (or_default (te_id e) [])\<rparr>) (take 20 found))
                | Inl e \<Rightarrow> Unavailable (if contains ''AccessDenied'' (exc_text e) then MISSING_LOOKUP else exc_text e)) cache)"

section \<open>Describing a resource\<close>

text \<open>
  One resource as a describe call answers it: a dict of declared members, times as the text that
  \<open>isoformat\<close> gives. The reads are the first level of each answer; the tags of a load balancer come
  from a call of their own. Dashes are written in ASCII.
\<close>

type_synonym item = "(string, json) dict"

datatype describe_call =
    VolumesOf | AddressesOf | SnapshotsOf | NatGatewaysOf | VpcsOf | ImagesOf
  | LoadBalancersOf | DbInstancesOf | DbSnapshotsOf

record view_reads =
  vr_client :: "string \<Rightarrow> string \<Rightarrow> aws_exc option"
  vr_items :: "describe_call \<Rightarrow> string \<Rightarrow> string \<Rightarrow> aws_exc + item list"
  vr_reservations :: "string \<Rightarrow> string \<Rightarrow> aws_exc + item list list"
  vr_lb_tags :: "string \<Rightarrow> string \<Rightarrow> aws_exc + item list list"

text \<open>\<open>d.get(k)\<close>, a member of a structure, the members of a list of structures, and \<open>xs[0]\<close>.\<close>

definition got :: "string \<Rightarrow> item \<Rightarrow> json" where
  "got k it = (case map_of it k of None \<Rightarrow> JNull | Some v \<Rightarrow> v)"

fun members :: "json \<Rightarrow> item" where
  "members (JObj kvs) = kvs"
| "members _ = []"

fun items_in :: "json \<Rightarrow> item list" where
  "items_in (JList vs) = map members vs"
| "items_in _ = []"

fun first_of :: "'a list \<Rightarrow> aws_exc + 'a" where
  "first_of [] = Inl (OtherError ''list index out of range'')"
| "first_of (x # _) = Inr x"

text \<open>The text of a member in an f-string; the members used there are declared as strings and integers.\<close>

fun shown :: "json \<Rightarrow> string" where
  "shown (JStr s) = s"
| "shown (JInt n) = show_int n"
| "shown _ = []"

definition shown_or :: "string \<Rightarrow> string \<Rightarrow> item \<Rightarrow> string" where
  "shown_or k d it = (case map_of it k of None \<Rightarrow> d | Some v \<Rightarrow> shown v)"

definition yes_no :: "json \<Rightarrow> json" where
  "yes_no v = JStr (if json_truthy v then ''yes'' else ''no'')"

definition gib :: "string \<Rightarrow> item \<Rightarrow> json" where
  "gib k it = (if json_truthy (got k it) then JStr (shown (got k it) @ '' GiB'') else JNull)"

record field =
  fd_label :: string
  fd_value :: json
  fd_date :: bool

definition plain :: "string \<Rightarrow> json \<Rightarrow> field option" where
  "plain label v = Some \<lparr>fd_label = label, fd_value = v, fd_date = False\<rparr>"

definition date_field :: "string \<Rightarrow> json \<Rightarrow> field option" where
  "date_field label dt =
     (if json_truthy dt then Some \<lparr>fd_label = label, fd_value = dt, fd_date = True\<rparr> else None)"

definition tag_pairs :: "item list \<Rightarrow> (string \<times> string) list" where
  "tag_pairs tags = map (\<lambda>t. (shown (got ''Key'' t), shown (got ''Value'' t))) tags"

record description =
  ds_kind :: string
  ds_console :: string
  ds_tags :: "(string \<times> string) list"
  ds_fields :: "field option list"

definition described_as :: "string \<Rightarrow> string \<Rightarrow> string \<Rightarrow> field option list \<Rightarrow> item \<Rightarrow> description" where
  "described_as kind console tags shown_fields it =
     \<lparr>ds_kind = kind, ds_console = console, ds_tags = tag_pairs (items_in (got tags it)),
      ds_fields = shown_fields\<rparr>"

type_synonym describer_fun = "view_reads \<Rightarrow> string \<Rightarrow> string \<Rightarrow> aws_exc + description"

definition first_item :: "describe_call \<Rightarrow> view_reads \<Rightarrow> string \<Rightarrow> string \<Rightarrow> aws_exc + item" where
  "first_item call reads rid region = py_bind (vr_items reads call region rid) first_of"

definition with_client :: "view_reads \<Rightarrow> string \<Rightarrow> string \<Rightarrow> aws_exc + 'a \<Rightarrow> aws_exc + 'a" where
  "with_client reads service region m = (case vr_client reads service region of Some e \<Rightarrow> Inl e | None \<Rightarrow> m)"

definition describe_instance :: describer_fun where
  "describe_instance reads rid region =
     py_bind (vr_reservations reads region rid) (\<lambda>reservations.
     py_bind (first_of reservations) (\<lambda>instances.
     py_bind (first_of instances) (\<lambda>inst.
       Inr (described_as ''Instance'' (''#InstanceDetails:instanceId='' @ rid) ''Tags''
         [plain ''State'' (got ''Name'' (members (got ''State'' inst))),
          plain ''Type'' (got ''InstanceType'' inst),
          plain ''Availability zone'' (got ''AvailabilityZone'' (members (got ''Placement'' inst))),
          date_field ''Last launched'' (got ''LaunchTime'' inst),
          plain ''Private IP'' (got ''PrivateIpAddress'' inst),
          plain ''Public IP'' (got ''PublicIpAddress'' inst),
          plain ''AMI'' (got ''ImageId'' inst), plain ''VPC'' (got ''VpcId'' inst),
          plain ''Subnet'' (got ''SubnetId'' inst), plain ''Key pair'' (got ''KeyName'' inst),
          plain ''Platform'' (got ''PlatformDetails'' inst),
          plain ''Architecture'' (got ''Architecture'' inst)] inst))))"

definition describe_volume :: describer_fun where
  "describe_volume reads rid region =
     py_bind (first_item VolumesOf reads rid region) (\<lambda>vol.
       let attachments = join_with '', '' (map (shown_or ''InstanceId'' ''?'') (items_in (got ''Attachments'' vol)))
       in Inr (described_as ''Volume'' (''#VolumeDetails:volumeId='' @ rid) ''Tags''
         [plain ''State'' (got ''State'' vol), plain ''Size'' (gib ''Size'' vol),
          plain ''Type'' (got ''VolumeType'' vol), plain ''IOPS'' (got ''Iops'' vol),
          plain ''Throughput'' (got ''Throughput'' vol),
          plain ''Availability zone'' (got ''AvailabilityZone'' vol),
          date_field ''Created'' (got ''CreateTime'' vol),
          plain ''Attached to'' (JStr (if attachments = [] then ''- (unattached)'' else attachments)),
          plain ''Encrypted'' (yes_no (got ''Encrypted'' vol))] vol))"

definition describe_address :: describer_fun where
  "describe_address reads rid region =
     py_bind (first_item AddressesOf reads rid region) (\<lambda>addr.
       let associated = (if json_truthy (got ''InstanceId'' addr) then got ''InstanceId'' addr
                         else got ''NetworkInterfaceId'' addr)
       in Inr (described_as ''Elastic IP'' (''#ElasticIpDetails:AllocationId='' @ rid) ''Tags''
         [plain ''Public IP'' (got ''PublicIp'' addr), plain ''Scope'' (got ''Domain'' addr),
          plain ''Associated to'' (if json_truthy associated then associated else JStr ''- (unassociated)''),
          plain ''Network border group'' (got ''NetworkBorderGroup'' addr),
          plain ''Reverse DNS'' (got ''PtrRecord'' addr)] addr))"

definition describe_snapshot :: describer_fun where
  "describe_snapshot reads rid region =
     py_bind (first_item SnapshotsOf reads rid region) (\<lambda>snap.
       Inr (described_as ''Snapshot'' (''#SnapshotDetails:snapshotId='' @ rid) ''Tags''
         [plain ''State'' (got ''State'' snap), plain ''Source volume'' (got ''VolumeId'' snap),
          plain ''Volume size'' (gib ''VolumeSize'' snap), date_field ''Created'' (got ''StartTime'' snap),
          plain ''Storage tier'' (got ''StorageTier'' snap),
          plain ''Encrypted'' (yes_no (got ''Encrypted'' snap)),
          plain ''Description'' (got ''Description'' snap)] snap))"

definition describe_nat_gateway :: describer_fun where
  "describe_nat_gateway reads rid region =
     py_bind (first_item NatGatewaysOf reads rid region) (\<lambda>nat.
       let ips = join_with '', '' (map (shown_or ''PrivateIp'' ''?'') (items_in (got ''NatGatewayAddresses'' nat)))
       in Inr (described_as ''NAT Gateway''
         (''https://console.aws.amazon.com/vpcconsole/home?region='' @ region
            @ ''#NatGatewayDetails:natGatewayId='' @ rid) ''Tags''
         [plain ''State'' (got ''State'' nat), plain ''Connectivity'' (got ''ConnectivityType'' nat),
          plain ''VPC'' (got ''VpcId'' nat), plain ''Subnet'' (got ''SubnetId'' nat),
          plain ''Private IPs'' (JStr ips), date_field ''Created'' (got ''CreateTime'' nat)] nat))"

definition describe_vpc :: describer_fun where
  "describe_vpc reads rid region =
     py_bind (first_item VpcsOf reads rid region) (\<lambda>vpc.
       Inr (described_as ''VPC''
         (''https://console.aws.amazon.com/vpcconsole/home?region='' @ region @ ''#VpcDetails:VpcId='' @ rid) ''Tags''
         [plain ''State'' (got ''State'' vpc), plain ''CIDR'' (got ''CidrBlock'' vpc),
          plain ''Default VPC'' (yes_no (got ''IsDefault'' vpc)),
          plain ''Tenancy'' (got ''InstanceTenancy'' vpc)] vpc))"

text \<open>A mapping is kept when it has a member \<open>Ebs\<close> with a snapshot.\<close>

definition mapped_snapshots :: "item \<Rightarrow> string list" where
  "mapped_snapshots img =
     List.map_filter
       (\<lambda>m. let sid = got ''SnapshotId'' (members (got ''Ebs'' m)) in if json_truthy sid then Some (shown sid) else None)
       (items_in (got ''BlockDeviceMappings'' img))"

definition describe_image :: describer_fun where
  "describe_image reads rid region =
     py_bind (first_item ImagesOf reads rid region) (\<lambda>img.
       let ids = join_with '', '' (mapped_snapshots img)
       in Inr (described_as ''AMI'' (''#ImageDetails:imageId='' @ rid) ''Tags''
         [plain ''Name'' (got ''Name'' img), plain ''State'' (got ''State'' img),
          Some \<lparr>fd_label = ''Created'', fd_value = got ''CreationDate'' img, fd_date = True\<rparr>,
          plain ''Visibility'' (JStr (if json_truthy (got ''Public'' img) then ''public'' else ''private'')),
          plain ''Platform'' (got ''PlatformDetails'' img),
          plain ''Architecture'' (got ''Architecture'' img),
          plain ''Backing snapshots'' (if ids = [] then JNull else JStr ids),
          plain ''Description'' (got ''Description'' img)] img))"

definition describe_load_balancer :: describer_fun where
  "describe_load_balancer reads rid region =
     with_client reads ''elbv2'' region
     (py_bind (first_item LoadBalancersOf reads rid region) (\<lambda>lb.
       let tags = (case py_bind (vr_lb_tags reads region rid) first_of of Inl _ \<Rightarrow> [] | Inr ts \<Rightarrow> ts);
           azs = join_with '', '' (map (shown_or ''ZoneName'' ''?'') (items_in (got ''AvailabilityZones'' lb)))
       in Inr \<lparr>ds_kind = ''Load balancer'', ds_console = ''#LoadBalancer:loadBalancerArn='' @ rid,
         ds_tags = tag_pairs tags,
         ds_fields =
           [plain ''Name'' (got ''LoadBalancerName'' lb), plain ''Type'' (got ''Type'' lb),
            plain ''Scheme'' (got ''Scheme'' lb), plain ''State'' (got ''Code'' (members (got ''State'' lb))),
            plain ''VPC'' (got ''VpcId'' lb), plain ''Availability zones'' (JStr azs),
            plain ''DNS name'' (got ''DNSName'' lb), date_field ''Created'' (got ''CreatedTime'' lb)]\<rparr>))"

definition engine :: "item \<Rightarrow> json" where
  "engine it = JStr (strip (shown_or ''Engine'' ''?'' it @ '' '' @ shown_or ''EngineVersion'' [] it))"

definition describe_rds_instance :: describer_fun where
  "describe_rds_instance reads rid region =
     with_client reads ''rds'' region
     (py_bind (first_item DbInstancesOf reads rid region) (\<lambda>db.
       Inr (described_as ''RDS instance''
         (''https://console.aws.amazon.com/rds/home?region='' @ region @ ''#database:id='' @ rid @ '';is-cluster=false'')
         ''TagList''
         [plain ''Status'' (got ''DBInstanceStatus'' db), plain ''Engine'' (engine db),
          plain ''Class'' (got ''DBInstanceClass'' db),
          plain ''Storage'' (if json_truthy (got ''AllocatedStorage'' db)
             then JStr (strip (shown (got ''AllocatedStorage'' db) @ '' GiB '' @ shown_or ''StorageType'' [] db))
             else JNull),
          plain ''Multi-AZ'' (yes_no (got ''MultiAZ'' db)),
          plain ''Endpoint'' (got ''Address'' (members (got ''Endpoint'' db))),
          date_field ''Created'' (got ''InstanceCreateTime'' db)] db)))"

definition describe_rds_snapshot :: describer_fun where
  "describe_rds_snapshot reads rid region =
     with_client reads ''rds'' region
     (py_bind (first_item DbSnapshotsOf reads rid region) (\<lambda>snap.
       Inr (described_as ''RDS snapshot''
         (''https://console.aws.amazon.com/rds/home?region='' @ region @ ''#db-snapshot:id='' @ rid)
         ''TagList''
         [plain ''Status'' (got ''Status'' snap), plain ''Source database'' (got ''DBInstanceIdentifier'' snap),
          plain ''Engine'' (engine snap), plain ''Storage'' (gib ''AllocatedStorage'' snap),
          plain ''Type'' (got ''SnapshotType'' snap), plain ''Encrypted'' (yes_no (got ''Encrypted'' snap)),
          date_field ''Created'' (got ''SnapshotCreateTime'' snap)] snap)))"

definition RESOURCE_DESCRIBERS :: "(string \<times> describer_fun) list" where
  "RESOURCE_DESCRIBERS =
     [(''i-'', describe_instance), (''vol-'', describe_volume), (''eipalloc-'', describe_address),
      (''snap-'', describe_snapshot), (''nat-'', describe_nat_gateway), (''vpc-'', describe_vpc),
      (''ami-'', describe_image), (''arn:aws:elasticloadbalancing'', describe_load_balancer)]"

definition RESOURCE_DESCRIBERS_BY_TYPE :: "(string, describer_fun) dict" where
  "RESOURCE_DESCRIBERS_BY_TYPE =
     [(''rds_instance'', describe_rds_instance), (''rds_snapshot'', describe_rds_snapshot)]"

definition describer_for :: "waste_row \<Rightarrow> describer_fun option" where
  "describer_for x =
     (case find (\<lambda>(pre, _). prefix pre (w_resource_id x)) RESOURCE_DESCRIBERS of
        Some (_, d) \<Rightarrow> Some d
      | None \<Rightarrow> map_of RESOURCE_DESCRIBERS_BY_TYPE (w_resource_type x))"

record details =
  dt_kind :: string
  dt_console_url :: string
  dt_name :: "string option"
  dt_fields :: "field list"
  dt_tags :: "(string \<times> string) list"

definition details_of :: "string \<Rightarrow> description \<Rightarrow> details" where
  "details_of region d =
     \<lparr>dt_kind = ds_kind d,
      dt_console_url = (if prefix ''https://'' (ds_console d) then ds_console d
        else ''https://console.aws.amazon.com/ec2/v2/home?region='' @ region @ ds_console d),
      dt_name = map_option snd (find (\<lambda>(k, _). k = ''Name'') (ds_tags d)),
      dt_fields = filter (\<lambda>f. fd_value f \<notin> {JNull, JStr []}) (List.map_filter id (ds_fields d)),
      dt_tags = ds_tags d\<rparr>"

definition details_hint :: "aws_exc \<Rightarrow> string" where
  "details_hint e =
     (if contains ''NotFound'' (exc_text e) \<or> contains ''.Malformed'' (exc_text e)
      then ''Resource not found on AWS - it may have been deleted since detection.''
      else if contains ''AccessDenied'' (exc_text e) \<or> contains ''UnauthorizedOperation'' (exc_text e)
      then ''The wasteless-readonly role lacks the ec2:Describe* permission ''
           @ ''for this resource in this region - check your onboarding stack.''
      else exc_text e)"

definition resource_details ::
    "view_reads \<Rightarrow> env \<Rightarrow> string \<Rightarrow> nat \<Rightarrow> world
     \<Rightarrow> details view view_cache \<Rightarrow> details view \<times> details view view_cache" where
  "resource_details reads env env_region rid w cache =
     (case rec_join rid w of
        None \<Rightarrow> (NoRecommendation, cache)
      | Some (r, x) \<Rightarrow>
          (case describer_for x of
             None \<Rightarrow> (NoDetailsView, cache)
           | Some d \<Rightarrow>
               let region = view_region env_region x
               in cached_view env (w_resource_id x)
                    (case with_client reads ''ec2'' region (d reads (w_resource_id x) region) of
                       Inr descr \<Rightarrow> Available region (details_of region descr)
                     | Inl e \<Rightarrow> Unavailable (details_hint e)) cache))"

section \<open>Facts\<close>

text \<open>An answer from the cache was fresh at most ten minutes ago.\<close>

definition cache_recent :: "env \<Rightarrow> 'p view_cache \<Rightarrow> bool" where
  "cache_recent env cache \<longleftrightarrow>
     (\<forall>k t p. cache k = Some (t, p) \<longrightarrow> t \<le> e_now env + HISTORY_CACHE_TTL_SECONDS)"

lemma cached_view_recent:
  assumes recent: "cache_recent env cache" and later: "e_now env \<le> e_now env'"
  shows "cache_recent env' (snd (cached_view env' rid fresh cache))"
proof -
  have "cache_recent env' cache"
    unfolding cache_recent_def
  proof (intro allI impI)
    fix k t p
    assume "cache k = Some (t, p)"
    then have "t \<le> e_now env + HISTORY_CACHE_TTL_SECONDS" using recent unfolding cache_recent_def by blast
    then show "t \<le> e_now env' + HISTORY_CACHE_TTL_SECONDS" using later by linarith
  qed
  then show ?thesis
    by (cases "cache rid") (auto simp: cached_view_def cache_recent_def split: if_splits, blast+)
qed

lemma cached_view_stale:
  assumes "\<And>t p. cache rid = Some (t, p) \<Longrightarrow> t \<le> e_now env"
  shows "fst (cached_view env rid fresh cache) = fresh"
  using assms by (cases "cache rid") (auto simp: cached_view_def)


text \<open>No id starts with two of the prefixes, so the order of the table does not matter.\<close>

lemma describers_apart:
  "sorted_wrt (\<lambda>(p, _) (q, _). \<not> prefix p q \<and> \<not> prefix q p) RESOURCE_DESCRIBERS"
  by (simp add: RESOURCE_DESCRIBERS_def)

lemma details_fields_shown:
  "f \<in> set (dt_fields (details_of region d)) \<Longrightarrow> Some f \<in> set (ds_fields d) \<and> fd_value f \<notin> {JNull, JStr []}"
  by (auto simp: details_of_def map_filter_def)

lemma cached_view_answer:
  "fst (cached_view env rid fresh cache) = fresh
     \<or> (\<exists>t. cache rid = Some (t, fst (cached_view env rid fresh cache)) \<and> e_now env < t)"
  by (cases "cache rid") (auto simp: cached_view_def)

end
