(* ===== verification/TerraformFiles.thy ===== *)
theory TerraformFiles
  imports EnvFiles ConfigManager "HOL-Library.List_Lexorder" "HOL-Library.Char_ord"
begin

text \<open>
  The Terraform code of a resource: \<open>src/remediators/terraform_mapper.py\<close>, which finds the block
  that declares a live resource, and \<open>src/remediators/terraform_editor.py\<close>, which changes it.
  A directory holds the text of its files as \<open>read_text\<close> returns it, \<open>None\<close> for one that cannot be
  read. The state is the document of \<open>terraform show -json\<close> in its documented format.
\<close>

section \<open>Errors\<close>

datatype tf_error =
    TfMapping string
  | TfEdit string
  | TfPr string
  | TfOs string

type_synonym 'a tf = "tf_error pyexc + 'a"

section \<open>The state\<close>

record tf_res =
  ts_mode :: string
  ts_address :: string
  ts_type :: string
  ts_name :: string
  ts_values :: "(string, json) dict"

text \<open>A module: its resources, and its child modules with their addresses.\<close>

datatype tf_module = Module "tf_res list" "(string \<times> tf_module) list"

record tf_resource =
  tr_address :: string
  tr_type :: string
  tr_name :: string
  tr_id :: string
  tr_module :: string
  tr_location :: "(string \<times> nat \<times> nat) option"

definition SECONDARY_ID_ATTRIBUTES :: "string list" where
  "SECONDARY_ID_ATTRIBUTES = [''arn'', ''allocation_id'', ''public_ip'', ''association_id'']"

definition in_root_module :: "tf_resource \<Rightarrow> bool" where
  "in_root_module res \<longleftrightarrow> tr_module res = []"

definition located :: "tf_resource \<Rightarrow> bool" where
  "located res \<longleftrightarrow> tr_location res \<noteq> None"

type_synonym tf_index = "(string, tf_resource) dict"

definition setdefault :: "string \<Rightarrow> 'v \<Rightarrow> (string, 'v) dict \<Rightarrow> (string, 'v) dict" where
  "setdefault k v d = (if map_of d k = None then d @ [(k, v)] else d)"

text \<open>\<open>fl\<close>: the text of a float.\<close>

definition resource_of_state :: "(rat \<Rightarrow> string) \<Rightarrow> string \<Rightarrow> tf_res \<Rightarrow> tf_resource" where
  "resource_of_state fl module_path res =
     \<lparr>tr_address = ts_address res, tr_type = ts_type res, tr_name = ts_name res,
      tr_id = py_str fl (dict_get (ts_values res) ''id'' (JStr [])),
      tr_module = module_path, tr_location = None\<rparr>"

fun id_value :: "json option \<Rightarrow> string option" where
  "id_value (Some (JStr s)) = (if s = [] then None else Some s)"
| "id_value _ = None"

definition index_resource :: "(rat \<Rightarrow> string) \<Rightarrow> string \<Rightarrow> tf_res \<Rightarrow> tf_index \<Rightarrow> tf_index" where
  "index_resource fl module_path res idx =
     (if ts_mode res \<noteq> ''managed'' then idx
      else fold (\<lambda>key idx. case id_value (map_of (ts_values res) key) of
                 None \<Rightarrow> idx
               | Some v \<Rightarrow> setdefault v (resource_of_state fl module_path res) idx)
             (''id'' # SECONDARY_ID_ATTRIBUTES) idx)"

fun index_module :: "(rat \<Rightarrow> string) \<Rightarrow> string \<Rightarrow> tf_module \<Rightarrow> tf_index \<Rightarrow> tf_index" where
  "index_module fl module_path (Module resources children) idx =
     fold (\<lambda>child. index_module fl (fst child) (snd child)) children
       (fold (index_resource fl module_path) resources idx)"

text \<open>A state without values has no root module.\<close>

definition terraform_mapper :: "(rat \<Rightarrow> string) \<Rightarrow> tf_module option \<Rightarrow> tf_index" where
  "terraform_mapper fl state =
     index_module fl [] (case state of None \<Rightarrow> Module [] [] | Some root_module \<Rightarrow> root_module) []"

definition find_by_id :: "tf_index \<Rightarrow> string \<Rightarrow> tf_resource option" where
  "find_by_id idx resource_id = map_of idx resource_id"

section \<open>Lines\<close>

text \<open>\<open>splitlines(keepends=True)\<close>.\<close>

fun split_keep :: "string \<Rightarrow> string list" where
  "split_keep [] = []"
| "split_keep [c] = [[c]]"
| "split_keep (c # d # s) =
     (if of_char c = (13 :: nat) \<and> of_char d = (10 :: nat) then [c, d] # split_keep s
      else if is_break c then [c] # split_keep (d # s)
      else (case split_keep (d # s) of [] \<Rightarrow> [[c]] | w # ws \<Rightarrow> (c # w) # ws))"

definition word_char :: "char \<Rightarrow> bool" where
  "word_char c =
     (let n = (of_char c :: nat)
      in (48 \<le> n \<and> n \<le> 57) \<or> (65 \<le> n \<and> n \<le> 90) \<or> (97 \<le> n \<and> n \<le> 122) \<or> n = 95)"

definition lstrip :: "string \<Rightarrow> string" where
  "lstrip s = dropWhile is_space s"

text \<open>A literal and what follows it, at least one blank and what follows, a quoted name and what follows.\<close>

definition after :: "string \<Rightarrow> string \<Rightarrow> string option" where
  "after pat s = (if take (length pat) s = pat then Some (drop (length pat) s) else None)"

definition after_blanks :: "string \<Rightarrow> string option" where
  "after_blanks s = (if s \<noteq> [] \<and> is_space (hd s) then Some (lstrip s) else None)"

definition quote :: "string \<Rightarrow> string" where
  "quote s = CHR 0x22 # s @ [CHR 0x22]"

definition quoted_name :: "string \<Rightarrow> (string \<times> string) option" where
  "quoted_name s =
     (case s of
        c # t \<Rightarrow>
          let is_name = (\<lambda>c. word_char c \<or> c = CHR ''-''); w = takeWhile is_name t
          in if c = CHR 0x22 \<and> w \<noteq> [] then map_option (Pair w) (after [CHR 0x22] (dropWhile is_name t)) else None
      | [] \<Rightarrow> None)"

text \<open>\<open>RESOURCE_HEADER_RE\<close>: the type and the name that a line opens a block of.\<close>

definition RESOURCE_HEADER_RE :: "string \<Rightarrow> (string \<times> string) option" where
  "RESOURCE_HEADER_RE line =
     Option.bind (Option.bind (after ''resource'' (lstrip line)) after_blanks) (\<lambda>s.
       Option.bind (quoted_name s) (\<lambda>(rtype, s).
         Option.bind (Option.bind (after_blanks s) quoted_name) (\<lambda>(name, s).
           map_option (\<lambda>_. (rtype, name)) (after ''{'' (lstrip s)))))"

text \<open>The header of a resource's own block, as \<open>find_references\<close> recognises it.\<close>

definition own_header :: "string \<Rightarrow> string \<Rightarrow> string \<Rightarrow> bool" where
  "own_header rtype name line \<longleftrightarrow>
     Option.bind (Option.bind (Option.bind (Option.bind (after ''resource'' (lstrip line)) after_blanks)
       (after (quote rtype))) after_blanks) (after (quote name)) \<noteq> None"

text \<open>\<open>re.search\<close> of a literal between word boundaries; \<open>prev\<close> is the character before.\<close>

definition boundary :: "char option \<Rightarrow> char option \<Rightarrow> bool" where
  "boundary a b \<longleftrightarrow> (case a of None \<Rightarrow> False | Some c \<Rightarrow> word_char c) \<noteq> (case b of None \<Rightarrow> False | Some c \<Rightarrow> word_char c)"

definition first_char :: "string \<Rightarrow> char option" where
  "first_char s = (case s of [] \<Rightarrow> None | c # _ \<Rightarrow> Some c)"

fun occurs :: "string \<Rightarrow> char option \<Rightarrow> string \<Rightarrow> bool" where
  "occurs pat prev s \<longleftrightarrow>
     (case after pat s of
        None \<Rightarrow> False
      | Some rest \<Rightarrow> boundary prev (first_char pat) \<and> boundary (first_char (rev pat)) (first_char rest))
     \<or> (case s of [] \<Rightarrow> False | c # cs \<Rightarrow> occurs pat (Some c) cs)"

declare occurs.simps [simp del]

section \<open>Where the block is\<close>

type_synonym tf_tree = "(string, string option) dict"

definition tf_files :: "tf_tree \<Rightarrow> string list" where
  "tf_files tree = sort (filter (suffix ''.tf'') (map fst tree))"

definition read_text :: "tf_tree \<Rightarrow> string \<Rightarrow> string option" where
  "read_text tree file = (case map_of tree file of None \<Rightarrow> None | Some text \<Rightarrow> text)"

definition braces :: "string \<Rightarrow> int" where
  "braces line = int (count_list line (CHR ''{'')) - int (count_list line (CHR ''}''))"

text \<open>The number of the line, from \<open>n\<close> on, on which the depth is zero.\<close>

fun block_end :: "int \<Rightarrow> nat \<Rightarrow> string list \<Rightarrow> nat option" where
  "block_end depth n [] = None"
| "block_end depth n (line # lines) =
     (let depth = depth + braces line in if depth = 0 then Some n else block_end depth (Suc n) lines)"

text \<open>The lines from number \<open>n\<close> on; an unbalanced block raises with its number.\<close>

fun locate_lines :: "string \<Rightarrow> string \<Rightarrow> nat \<Rightarrow> string list \<Rightarrow> nat + (nat \<times> nat) option" where
  "locate_lines rtype name n [] = Inr None"
| "locate_lines rtype name n (line # lines) =
     (if RESOURCE_HEADER_RE line \<noteq> Some (rtype, name) then locate_lines rtype name (Suc n) lines
      else (case block_end 0 n (line # lines) of None \<Rightarrow> Inl n | Some m \<Rightarrow> Inr (Some (n, m))))"

fun locate_files :: "string \<Rightarrow> string \<Rightarrow> tf_tree \<Rightarrow> string list \<Rightarrow> (string \<times> nat \<times> nat) option tf" where
  "locate_files rtype name tree [] = Inr None"
| "locate_files rtype name tree (file # files) =
     (case read_text tree file of
        None \<Rightarrow> locate_files rtype name tree files
      | Some text \<Rightarrow>
          (case locate_lines rtype name 1 (splitlines text) of
             Inl n \<Rightarrow> Inl (Raised (TfMapping (''Unbalanced braces in '' @ file @ '' at line '' @ show_nat n)))
           | Inr None \<Rightarrow> locate_files rtype name tree files
           | Inr (Some (n, m)) \<Rightarrow> Inr (Some (file, n, m))))"

definition locate_block :: "tf_tree option \<Rightarrow> string \<Rightarrow> string \<Rightarrow> (string \<times> nat \<times> nat) option tf" where
  "locate_block directory rtype name =
     (case directory of
        None \<Rightarrow> Inl (Raised (TfMapping ''Not a directory''))
      | Some tree \<Rightarrow> locate_files rtype name tree (tf_files tree))"

definition locate :: "tf_index \<Rightarrow> string \<Rightarrow> tf_tree option \<Rightarrow> tf_resource option tf" where
  "locate idx resource_id directory =
     (case find_by_id idx resource_id of
        None \<Rightarrow> Inr None
      | Some res \<Rightarrow>
          if \<not> in_root_module res then Inr (Some res)
          else py_bind (locate_block directory (tr_type res) (tr_name res)) (\<lambda>location.
                 Inr (Some (if location = None then res else res\<lparr>tr_location := location\<rparr>))))"

section \<open>References\<close>

definition is_comment :: "string \<Rightarrow> bool" where
  "is_comment line \<longleftrightarrow> take 1 (strip line) = ''#'' \<or> take 2 (strip line) = ''//''"

definition refers :: "string \<Rightarrow> string \<Rightarrow> string \<Rightarrow> bool" where
  "refers rtype name line \<longleftrightarrow>
     \<not> is_comment line \<and> occurs (rtype @ ''.'' @ name) None line \<and> \<not> own_header rtype name line"

definition excluded :: "(string \<times> nat \<times> nat) option \<Rightarrow> string \<Rightarrow> nat \<Rightarrow> bool" where
  "excluded exclude file i \<longleftrightarrow>
     (case exclude of None \<Rightarrow> False | Some (f, a, b) \<Rightarrow> file = f \<and> a \<le> i \<and> i \<le> b)"

definition references_in ::
    "tf_tree \<Rightarrow> string \<Rightarrow> string \<Rightarrow> (string \<times> nat \<times> nat) option \<Rightarrow> string \<Rightarrow> (string \<times> nat) list tf" where
  "references_in tree rtype name exclude file =
     (case read_text tree file of
        None \<Rightarrow> Inl (Raised (TfOs file))
      | Some text \<Rightarrow>
          Inr (map (\<lambda>(i, line). (file, i))
            (filter (\<lambda>(i, line). refers rtype name line \<and> \<not> excluded exclude file i)
              (List.enumerate 1 (splitlines text)))))"

definition find_references ::
    "tf_tree \<Rightarrow> string \<Rightarrow> string \<Rightarrow> (string \<times> nat \<times> nat) option \<Rightarrow> (string \<times> nat) list tf" where
  "find_references tree rtype name exclude =
     py_bind (py_map (references_in tree rtype name exclude) (tf_files tree)) (\<lambda>found. Inr (concat found))"

section \<open>Edits\<close>

text \<open>The unified diff is kept as the two versions that \<open>difflib\<close> renders.\<close>

record block_edit =
  be_file :: string
  be_old :: "string list"
  be_new :: "string list"

definition resolve_file :: "tf_tree \<Rightarrow> string \<Rightarrow> string tf" where
  "resolve_file tree file =
     (case map_of tree file of
        None \<Rightarrow> Inl (Raised (TfEdit (''No such file: '' @ file)))
      | Some None \<Rightarrow> Inl (Raised (TfOs file))
      | Some (Some text) \<Rightarrow> Inr text)"

definition check_range :: "string list \<Rightarrow> nat \<Rightarrow> nat \<Rightarrow> unit tf" where
  "check_range lines start_line end_line =
     raise_if (\<not> (1 \<le> start_line \<and> start_line \<le> end_line \<and> end_line \<le> length lines))
       (Raised (TfEdit ''Invalid line range''))"

definition is_blank :: "string \<Rightarrow> bool" where
  "is_blank line \<longleftrightarrow> strip line = []"

definition remove_block :: "tf_tree \<Rightarrow> string \<Rightarrow> nat \<Rightarrow> nat \<Rightarrow> (block_edit \<times> tf_tree) tf" where
  "remove_block tree file start_line end_line =
     py_bind (resolve_file tree file) (\<lambda>text.
       let old_lines = split_keep text in
       py_bind (check_range old_lines start_line end_line) (\<lambda>_.
         let new_lines = take (start_line - 1) old_lines @ dropWhile is_blank (drop end_line old_lines)
         in Inr (\<lparr>be_file = file, be_old = old_lines, be_new = new_lines\<rparr>,
                 AList.update file (Some (concat new_lines)) tree)))"

text \<open>
  The line that sets an attribute, up to its value: the value takes at least one character, so of
  a line that only has blanks after the sign the last blank is the value.
\<close>

definition attr_prefix :: "string \<Rightarrow> string \<Rightarrow> string option" where
  "attr_prefix attribute line =
     (let indent = takeWhile is_space line
      in Option.bind (after attribute (lstrip line)) (\<lambda>s.
        let gap = takeWhile is_space s
        in Option.bind (after ''='' (lstrip s)) (\<lambda>value.
          let pad = takeWhile is_space value
          in if value = [] then None
             else Some (indent @ attribute @ gap @ ''='' @ (if pad = value then butlast pad else pad)))))"

fun set_first :: "string \<Rightarrow> string \<Rightarrow> string list \<Rightarrow> string list option" where
  "set_first attribute new_value [] = None"
| "set_first attribute new_value (line # lines) =
     (case attr_prefix attribute (rev (dropWhile (\<lambda>c. c = CHR 0x0A) (rev line))) of
        Some pre \<Rightarrow> Some ((pre @ new_value @ [CHR 0x0A]) # lines)
      | None \<Rightarrow> map_option (Cons line) (set_first attribute new_value lines))"

definition set_block_attribute ::
    "tf_tree \<Rightarrow> string \<Rightarrow> nat \<Rightarrow> nat \<Rightarrow> string \<Rightarrow> string \<Rightarrow> (block_edit \<times> tf_tree) tf" where
  "set_block_attribute tree file start_line end_line attribute new_value =
     py_bind (resolve_file tree file) (\<lambda>text.
       let old_lines = split_keep text in
       py_bind (check_range old_lines start_line end_line) (\<lambda>_.
         case set_first attribute new_value (drop (start_line - 1) (take end_line old_lines)) of
           None \<Rightarrow> Inl (Raised (TfEdit (''Attribute '' @ attribute @ '' not found'')))
         | Some block \<Rightarrow>
             let new_lines = take (start_line - 1) old_lines @ block @ drop end_line old_lines
             in Inr (\<lparr>be_file = file, be_old = old_lines, be_new = new_lines\<rparr>,
                     AList.update file (Some (concat new_lines)) tree)))"

section \<open>Lines and text\<close>

definition line_text :: "string \<Rightarrow> string" where
  "line_text line = takeWhile (\<lambda>c. \<not> is_break c) line"

lemma concat_split_keep: "concat (split_keep s) = s"
proof (induction s rule: split_keep.induct)
  case (3 c d s)
  show ?case
  proof (cases "of_char c = (13 :: nat) \<and> of_char d = (10 :: nat) \<or> is_break c")
    case True
    with 3 show ?thesis by auto
  next
    case False
    then have "concat (split_keep (d # s)) = d # s" using 3 by blast
    with False show ?thesis by (auto split: list.splits)
  qed
qed simp_all

lemma split_keep_nonempty: "w \<in> set (split_keep s) \<Longrightarrow> w \<noteq> []"
  by (induction s rule: split_keep.induct) (auto split: list.splits if_splits)

lemma splitlines_split_keep: "splitlines s = map line_text (split_keep s)"
proof (induction s rule: split_keep.induct)
  case (3 c d s)
  show ?case
  proof (cases "of_char c = (13 :: nat) \<and> of_char d = (10 :: nat) \<or> is_break c")
    case True
    with 3 show ?thesis by (auto simp: line_text_def is_break_def)
  next
    case False
    then have "splitlines (d # s) = map line_text (split_keep (d # s))" using 3 by blast
    with False show ?thesis by (auto simp: line_text_def split: list.splits)
  qed
qed (simp_all add: line_text_def)

lemma length_split_keep: "length (split_keep s) = length (splitlines s)"
  by (simp add: splitlines_split_keep)

section \<open>What the mapper finds\<close>

text \<open>A block is balanced at its last line and not before.\<close>

definition balanced_block :: "string list \<Rightarrow> bool" where
  "balanced_block ls \<longleftrightarrow> ls \<noteq> [] \<and> sum_list (map braces ls) = 0
     \<and> (\<forall>k. 0 < k \<and> k < length ls \<longrightarrow> sum_list (map braces (take k ls)) \<noteq> 0)"

lemma block_end_Some:
  "block_end d n ls = Some m \<Longrightarrow>
     n \<le> m \<and> m < n + length ls \<and> d + sum_list (map braces (take (Suc m - n) ls)) = 0
     \<and> (\<forall>k. 0 < k \<and> k < Suc m - n \<longrightarrow> d + sum_list (map braces (take k ls)) \<noteq> 0)"
proof (induction d n ls rule: block_end.induct)
  case (2 d n line ls)
  show ?case
  proof (cases "d + braces line = 0")
    case True
    with 2(2) show ?thesis by auto
  next
    case False
    with 2(2) have "block_end (d + braces line) (Suc n) ls = Some m" by (simp add: Let_def)
    note IH = 2(1) [OF refl False this]
    then have len: "Suc m - n = Suc (Suc m - Suc n)" by (simp add: Suc_diff_le)
    have "d + sum_list (map braces (take k (line # ls))) \<noteq> 0" if "0 < k" "k < Suc m - n" for k
    proof (cases k)
      case (Suc j)
      with IH that False show ?thesis by (cases "j = 0") (auto simp: algebra_simps)
    qed (use that in simp)
    then show ?thesis using IH by (simp add: len algebra_simps)
  qed
qed simp

lemma locate_lines_Some:
  "locate_lines rtype name n ls = Inr (Some (a, b)) \<Longrightarrow>
     n \<le> a \<and> a \<le> b \<and> b < n + length ls
     \<and> RESOURCE_HEADER_RE (ls ! (a - n)) = Some (rtype, name)
     \<and> balanced_block (take (Suc b - a) (drop (a - n) ls))"
proof (induction rtype name n ls rule: locate_lines.induct)
  case (2 rtype name n line ls)
  show ?case
  proof (cases "RESOURCE_HEADER_RE line = Some (rtype, name)")
    case True
    with 2(2) have "a = n" "block_end 0 n (line # ls) = Some b"
      by (auto split: option.splits)
    with block_end_Some [OF this(2)] True show ?thesis
      by (auto simp: balanced_block_def min_def)
  next
    case False
    with 2 have IH: "Suc n \<le> a \<and> a \<le> b \<and> b < Suc n + length ls
      \<and> RESOURCE_HEADER_RE (ls ! (a - Suc n)) = Some (rtype, name)
      \<and> balanced_block (take (Suc b - a) (drop (a - Suc n) ls))" by simp
    then have "a - n = Suc (a - Suc n)" by (simp add: Suc_diff_Suc Suc_le_eq)
    with IH show ?thesis by simp
  qed
qed simp

lemma locate_files_Some:
  assumes "locate_files rtype name tree files = Inr (Some (file, a, b))"
  shows "file \<in> set files \<and> (\<exists>text. read_text tree file = Some text
    \<and> locate_lines rtype name 1 (splitlines text) = Inr (Some (a, b)))"
  using assms
  by (induction rtype name tree files rule: locate_files.induct) (auto split: option.splits sum.splits)

text \<open>The lines \<open>a\<close> to \<open>b\<close> of a text, and the block of a resource there.\<close>

definition lines_between :: "nat \<Rightarrow> nat \<Rightarrow> string list \<Rightarrow> string list" where
  "lines_between a b ls = take (Suc b - a) (drop (a - 1) ls)"

definition declared_at :: "string \<Rightarrow> string \<Rightarrow> string \<Rightarrow> nat \<Rightarrow> nat \<Rightarrow> bool" where
  "declared_at rtype name text a b \<longleftrightarrow> 1 \<le> a \<and> a \<le> b \<and> b \<le> length (splitlines text)
     \<and> RESOURCE_HEADER_RE (splitlines text ! (a - 1)) = Some (rtype, name)
     \<and> balanced_block (lines_between a b (splitlines text))"

lemma locate_block_Some:
  assumes "locate_block (Some tree) rtype name = Inr (Some (file, a, b))"
  obtains content where "file \<in> set (tf_files tree)" "read_text tree file = Some content" "declared_at rtype name content a b"
proof -
  from assms have "locate_files rtype name tree (tf_files tree) = Inr (Some (file, a, b))"
    by (simp add: locate_block_def)
  then obtain content where content: "file \<in> set (tf_files tree)" "read_text tree file = Some content"
      "locate_lines rtype name 1 (splitlines content) = Inr (Some (a, b))"
    using locate_files_Some by blast
  with locate_lines_Some [OF content(3)] that show thesis
    by (simp add: declared_at_def lines_between_def)
qed

section \<open>What the editor leaves\<close>

lemma find_references_none:
  assumes "find_references tree rtype name exclude = Inr []" "file \<in> set (tf_files tree)"
  shows "\<exists>content. read_text tree file = Some content
    \<and> (\<forall>i < length (splitlines content). refers rtype name (splitlines content ! i) \<longrightarrow> excluded exclude file (Suc i))"
proof -
  obtain found where found: "py_map (references_in tree rtype name exclude) (tf_files tree) = Inr found" "concat found = []"
    using assms(1) unfolding find_references_def
    by (cases "py_map (references_in tree rtype name exclude) (tf_files tree)") simp_all
  from found(1) have all: "list_all2 (\<lambda>f y. references_in tree rtype name exclude f = Inr y) (tf_files tree) found"
    by (simp only: py_map_Inr_iff)
  obtain i where i: "i < length (tf_files tree)" "tf_files tree ! i = file"
    using assms(2) by (auto simp: in_set_conv_nth)
  have "references_in tree rtype name exclude file = Inr (found ! i)" "found ! i \<in> set found"
    using list_all2_nthD [OF all i(1)] list_all2_lengthD [OF all] i by simp_all
  with found(2) have empty: "references_in tree rtype name exclude file = Inr []" by auto
  then obtain content where content: "read_text tree file = Some content"
    by (cases "read_text tree file") (simp_all add: references_in_def)
  have "excluded exclude file (Suc i)" if "i < length (splitlines content)" "refers rtype name (splitlines content ! i)" for i
  proof -
    have "(Suc i, splitlines content ! i) \<in> set (List.enumerate 1 (splitlines content))"
      using that(1) by (auto simp: in_set_enumerate_eq)
    with empty content that(2) show ?thesis by (auto simp: references_in_def filter_empty_conv)
  qed
  with content show ?thesis by blast
qed

lemma remove_block_result:
  assumes "remove_block tree file a b = Inr (edit, tree')"
  obtains content where "map_of tree file = Some (Some content)" "1 \<le> a" "a \<le> b" "b \<le> length (split_keep content)"
    "be_old edit = split_keep content"
    "be_new edit = take (a - 1) (split_keep content) @ dropWhile is_blank (drop b (split_keep content))"
    "tree' = AList.update file (Some (concat (be_new edit))) tree"
proof -
  from assms obtain content where content: "resolve_file tree file = Inr content"
    unfolding remove_block_def by (cases "resolve_file tree file") simp_all
  then have "map_of tree file = Some (Some content)"
    by (auto simp: resolve_file_def split: option.splits)
  moreover have "1 \<le> a \<and> a \<le> b \<and> b \<le> length (split_keep content)"
    using assms content by (auto simp: remove_block_def check_range_def Let_def raise_if_def split: if_splits)
  moreover from this have "check_range (split_keep content) a b = Inr ()"
    by (simp add: check_range_def raise_if_def)
  ultimately show thesis
    using assms content by (intro that [of content]) (auto simp: remove_block_def Let_def)
qed

text \<open>Setting an attribute replaces the first line that sets it, and that line only.\<close>

lemma set_first_line:
  "set_first attribute v ls = Some ls' \<Longrightarrow> \<exists>i pre. i < length ls
     \<and> attr_prefix attribute (rev (dropWhile (\<lambda>c. c = CHR 0x0A) (rev (ls ! i)))) = Some pre
     \<and> (\<forall>j < i. attr_prefix attribute (rev (dropWhile (\<lambda>c. c = CHR 0x0A) (rev (ls ! j)))) = None)
     \<and> ls' = ls[i := pre @ v @ [CHR 0x0A]]"
proof (induction attribute v ls arbitrary: ls' rule: set_first.induct)
  case (2 attribute v line ls)
  let ?body = "\<lambda>line. rev (dropWhile (\<lambda>c. c = CHR 0x0A) (rev line))"
  show ?case
  proof (cases "attr_prefix attribute (?body line)")
    case (Some pre)
    with 2(2) show ?thesis by (intro exI [of _ 0] exI [of _ pre]) simp
  next
    case None
    with 2(2) obtain ls1 where ls1: "set_first attribute v ls = Some ls1" "ls' = line # ls1" by auto
    from 2(1) [OF None ls1(1)] obtain i pre where "i < length ls" "attr_prefix attribute (?body (ls ! i)) = Some pre"
      "\<forall>j < i. attr_prefix attribute (?body (ls ! j)) = None" "ls1 = ls[i := pre @ v @ [CHR 0x0A]]" by blast
    with None ls1(2) show ?thesis
      by (intro exI [of _ "Suc i"] exI [of _ pre]) (auto simp: less_Suc_eq_0_disj)
  qed
qed simp

end
