(* ===== verification/TerraformPr.thy ===== *)
theory TerraformPr
  imports TerraformFiles
begin

text \<open>
  The pull request that proposes the removal of a resource: \<open>src/remediators/terraform_pr.py\<close>, and
  the call of it from the approval in \<open>ui/utils/terraform_pr.py\<close>. Programs (\<open>gh\<close>, \<open>git\<close>,
  \<open>terraform\<close>) answer as they like; the commands that change something outside are kept in order.
\<close>

section \<open>Programs\<close>

text \<open>A program ends, with its output; fails, with its error output; or cannot be run in time.\<close>

datatype run_result = RunOk string | RunFailed string | RunRaised string

datatype show_result = ShowRaised string | ShowFailed string | ShowInvalid string | ShowState "tf_module option"

text \<open>
  \<open>sh_checkout\<close> are the files of a directory once the repository was cloned, \<open>sh_workdir\<close> the fresh
  directory, \<open>sh_validate\<close> the answer of \<open>terraform validate\<close>, a program that cannot be run included.
\<close>

record shell_api =
  sh_run :: "string list list \<Rightarrow> string list \<Rightarrow> run_result"
  sh_workdir :: string
  sh_checkout :: "string \<Rightarrow> tf_tree option"
  sh_show :: "string \<Rightarrow> show_result"
  sh_validate :: "tf_tree \<Rightarrow> bool \<times> string"

text \<open>The commands that were run, and the files of the Terraform directory.\<close>

record shell =
  sl_commands :: "string list list"
  sl_tree :: "tf_tree option"

type_synonym 'a sh = "'a tf \<times> shell"

definition then_do :: "'a sh \<Rightarrow> ('a \<Rightarrow> shell \<Rightarrow> 'b sh) \<Rightarrow> 'b sh" where
  "then_do m f = (case m of (Inl e, s) \<Rightarrow> (Inl e, s) | (Inr x, s) \<Rightarrow> f x s)"

definition run_command :: "shell_api \<Rightarrow> string list \<Rightarrow> shell \<Rightarrow> string sh" where
  "run_command api cmd s =
     (let s' = s\<lparr>sl_commands := sl_commands s @ [cmd]\<rparr>
      in case sh_run api (sl_commands s) cmd of
           RunOk out \<Rightarrow> (Inr out, s')
         | RunFailed err \<Rightarrow>
             (Inl (Raised (TfPr (join_with '' '' (take 3 cmd) @ '' failed: '' @ strip err))), s')
         | RunRaised m \<Rightarrow> (Inl (Raised (TfOs m)), s'))"

text \<open>Commands in order up to the first that fails; the output of the last one.\<close>

fun run_all :: "shell_api \<Rightarrow> string list list \<Rightarrow> shell \<Rightarrow> string sh" where
  "run_all api [] s = (Inr [], s)"
| "run_all api [cmd] s = run_command api cmd s"
| "run_all api (cmd # cmds) s = then_do (run_command api cmd s) (\<lambda>_. run_all api cmds)"

section \<open>Configuration and proposal\<close>

record pr_config =
  pc_repo :: string
  pc_base_branch :: string
  pc_terraform_dir :: string

text \<open>The arguments of \<open>propose_removal\<close>; an evidence is a label with its value.\<close>

record removal =
  rm_resource :: string
  rm_label :: string
  rm_savings :: rat
  rm_confidence :: rat
  rm_reason :: string
  rm_evidence :: "(string, string) dict"

record pr_proposal =
  pp_resource :: string
  pp_address :: string
  pp_action :: string
  pp_branch :: string
  pp_title :: string
  pp_body :: string
  pp_diff :: block_edit
  pp_dry :: bool
  pp_url :: "string option"

definition risk_level :: "rat \<Rightarrow> string" where
  "risk_level confidence =
     (if confidence \<ge> 90 / 100 then ''low'' else if confidence \<ge> 80 / 100 then ''medium'' else ''high'')"

definition tf_dir :: "pr_config \<Rightarrow> string \<Rightarrow> string" where
  "tf_dir config workdir =
     rev (dropWhile (\<lambda>c. c \<in> set ''/.'') (rev (workdir @ ''/'' @ pc_terraform_dir config)))"

definition body_evidence :: "(string, string) dict \<Rightarrow> string list" where
  "body_evidence evidence =
     (if evidence \<noteq> [] then [''| | |'', ''|---|---|''] @ map (\<lambda>(k, v). ''| '' @ k @ '' | '' @ v @ '' |'') evidence
      else [''_No Cost Explorer history attached. Actual savings will be '' @
            ''verified by Wasteless after merge and reported on the '' @
            ''Savings Realized dashboard._''])"

definition body_table :: "tf_resource \<Rightarrow> string \<times> nat \<times> nat \<Rightarrow> removal \<Rightarrow> string list" where
  "body_table res location rm =
     (case location of (file, a, b) \<Rightarrow>
       [''| Resource | `'' @ tr_id res @ ''` ('' @ rm_label rm @ '') |'',
        ''| Terraform address | `'' @ tr_address res @ ''` |'',
        ''| File | `'' @ file @ ''` (lines '' @ show_nat a @ ''-'' @ show_nat b @ '') |'',
        ''| Estimated savings | **$'' @ fmt_fixed 2 (rm_savings rm) @ ''/month** (~$'' @
          fmt_fixed 0 (rm_savings rm * 12) @ ''/year) |'',
        ''| Risk | **'' @ risk_level (rm_confidence rm) @ ''** (detection confidence '' @
          fmt_fixed 0 (rm_confidence rm * 100) @ ''%) |''])"

definition pr_body :: "tf_resource \<Rightarrow> string \<times> nat \<times> nat \<Rightarrow> string \<Rightarrow> removal \<Rightarrow> string" where
  "pr_body res location action rm =
     join_with [CHR 0x0A]
       ([''Wasteless detected a wasteful resource and proposes to '' @ action @ '' it from the Terraform code.'',
         [], ''## Summary'', [], ''| | |'', ''|---|---|'']
        @ body_table res location rm
        @ (if rm_reason rm \<noteq> [] then [''| Why | '' @ rm_reason rm @ '' |''] else [])
        @ [[], ''## Cost Explorer evidence'', []] @ body_evidence (rm_evidence rm)
        @ [[], ''## Rollback plan'', [],
           ''1. Revert this PR (`git revert`) and apply - Terraform recreates the resource from code.'',
           ''2. Wasteless keeps a state snapshot of the resource '' @
           ''(`rollback_snapshots`) for the configured retention period.'',
           [], ''---'',
           ''_Opened automatically by [Wasteless](https://github.com/wasteless-io). '' @
           ''Merging applies the change through your usual Terraform pipeline; '' @
           ''closing marks the recommendation as rejected._''])"

section \<open>The flow\<close>

definition clone_commands :: "shell_api \<Rightarrow> pr_config \<Rightarrow> string list list" where
  "clone_commands api config =
     [[''gh'', ''repo'', ''clone'', pc_repo config, sh_workdir api, ''--'', ''--depth'', ''1''],
      [''terraform'', ''init'', ''-input=false'']]"

definition clone :: "shell_api \<Rightarrow> pr_config \<Rightarrow> shell \<Rightarrow> string sh" where
  "clone api config s =
     then_do (run_all api (clone_commands api config) s) (\<lambda>_ s. (Inr (sh_workdir api), s))"

definition from_terraform_dir :: "shell_api \<Rightarrow> (rat \<Rightarrow> string) \<Rightarrow> string \<Rightarrow> tf_index tf" where
  "from_terraform_dir api fl directory =
     (case sh_show api directory of
        ShowRaised m \<Rightarrow> Inl (Raised (TfMapping (''terraform show failed in '' @ directory @ '': '' @ m)))
      | ShowFailed m \<Rightarrow> Inl (Raised (TfMapping (''terraform show failed in '' @ directory @ '': '' @ strip m)))
      | ShowInvalid m \<Rightarrow> Inl (Raised (TfMapping (''Invalid terraform show output: '' @ m)))
      | ShowState state \<Rightarrow> Inr (terraform_mapper fl state))"

definition pr_commands :: "pr_config \<Rightarrow> pr_proposal \<Rightarrow> string list list" where
  "pr_commands config p =
     [[''git'', ''checkout'', ''-b'', pp_branch p], [''git'', ''add'', ''-A''],
      [''git'', ''commit'', ''-m'', pp_title p], [''git'', ''push'', ''-u'', ''origin'', pp_branch p],
      [''gh'', ''pr'', ''create'', ''--repo'', pc_repo config, ''--base'', pc_base_branch config,
       ''--head'', pp_branch p, ''--title'', pp_title p, ''--body'', pp_body p]]"

definition open_pr :: "shell_api \<Rightarrow> pr_config \<Rightarrow> pr_proposal \<Rightarrow> shell \<Rightarrow> string sh" where
  "open_pr api config p s =
     then_do (run_all api (pr_commands config p) s) (\<lambda>out s.
       (if splitlines (strip out) = [] then Inl IndexError else Inr (last (splitlines (strip out))), s))"

text \<open>The change of the working copy, between finding the block and opening the request.\<close>

definition edit_copy :: "shell_api \<Rightarrow> tf_resource \<Rightarrow> string \<times> nat \<times> nat \<Rightarrow> shell \<Rightarrow> block_edit sh" where
  "edit_copy api res location s =
     (let tree = (case sl_tree s of None \<Rightarrow> [] | Some tree \<Rightarrow> tree); (file, a, b) = location
      in case find_references tree (tr_type res) (tr_name res) (Some location) of
           Inl e \<Rightarrow> (Inl e, s)
         | Inr (ref # refs) \<Rightarrow>
             (Inl (Raised (TfPr (''Removing '' @ tr_address res @ '' would leave dangling references (''
                @ join_with '', '' (map (\<lambda>(f, line). f @ '':'' @ show_nat line) (ref # refs)) @ '') - needs a human''))), s)
         | Inr [] \<Rightarrow>
             (case remove_block tree file a b of
                Inl e \<Rightarrow> (Inl e, s)
              | Inr (edit, tree') \<Rightarrow>
                  (if fst (sh_validate api tree') then Inr edit
                   else Inl (Raised (TfPr (''terraform validate failed after removing '' @ tr_address res
                          @ '': '' @ snd (sh_validate api tree')))),
                   s\<lparr>sl_tree := Some tree'\<rparr>)))"

definition removal_proposal :: "bool \<Rightarrow> tf_resource \<Rightarrow> string \<times> nat \<times> nat \<Rightarrow> removal \<Rightarrow> block_edit \<Rightarrow> pr_proposal" where
  "removal_proposal dry_run res location rm edit =
     \<lparr>pp_resource = rm_resource rm, pp_address = tr_address res, pp_action = ''remove'',
      pp_branch = ''wasteless/remove-'' @ rm_resource rm,
      pp_title = ''chore(wasteless): remove '' @ rm_label rm @ '' '' @ rm_resource rm @ '' (~$''
        @ fmt_fixed 0 (rm_savings rm) @ ''/mo)'',
      pp_body = pr_body res location ''remove'' rm, pp_diff = edit, pp_dry = dry_run, pp_url = None\<rparr>"

definition open_removal ::
    "shell_api \<Rightarrow> pr_config \<Rightarrow> bool \<Rightarrow> removal \<Rightarrow> tf_resource \<Rightarrow> string \<times> nat \<times> nat \<Rightarrow> shell \<Rightarrow> pr_proposal option sh" where
  "open_removal api config dry_run rm res location s =
     then_do (edit_copy api res location s) (\<lambda>edit s.
       let p = removal_proposal dry_run res location rm edit
       in if dry_run then (Inr (Some p), s)
          else then_do (open_pr api config p s) (\<lambda>url s. (Inr (Some (p\<lparr>pp_url := Some url\<rparr>)), s)))"

definition propose_removal ::
    "shell_api \<Rightarrow> (rat \<Rightarrow> string) \<Rightarrow> pr_config \<Rightarrow> bool \<Rightarrow> removal \<Rightarrow> string option \<Rightarrow> tf_index option
     \<Rightarrow> shell \<Rightarrow> pr_proposal option sh" where
  "propose_removal api fl config dry_run rm workdir mapper s =
     then_do (if truthy workdir then (Inr (or_default workdir []), s) else clone api config s) (\<lambda>workdir s.
       let directory = tf_dir config workdir; s = s\<lparr>sl_tree := sh_checkout api directory\<rparr>
       in case (case mapper of Some idx \<Rightarrow> Inr idx | None \<Rightarrow> from_terraform_dir api fl directory) of
            Inl e \<Rightarrow> (Inl e, s)
          | Inr idx \<Rightarrow>
              (case locate idx (rm_resource rm) (sl_tree s) of
                 Inl e \<Rightarrow> (Inl e, s)
               | Inr None \<Rightarrow> (Inr None, s)
               | Inr (Some res) \<Rightarrow>
                   (case tr_location res of
                      None \<Rightarrow> (Inr None, s)
                    | Some location \<Rightarrow> open_removal api config dry_run rm res location s)))"

definition terraform_pr_remediator :: "pr_config \<Rightarrow> pr_config tf" where
  "terraform_pr_remediator config =
     py_bind (raise_if (pc_repo config = []) (Raised (TfPr ''terraform_pr.repo is not configured''))) (\<lambda>_. Inr config)"

section \<open>The call on an approval\<close>

fun tf_text :: "tf_error pyexc \<Rightarrow> string" where
  "tf_text (Raised (TfMapping m)) = m"
| "tf_text (Raised (TfEdit m)) = m"
| "tf_text (Raised (TfPr m)) = m"
| "tf_text (Raised (TfOs m)) = m"
| "tf_text _ = ''list index out of range''"

fun answer_of :: "pr_proposal option tf \<Rightarrow> pr_outcome" where
  "answer_of (Inl (Raised (TfPr m))) = PrRefused m"
| "answer_of (Inl e) = PrCrash (tf_text e)"
| "answer_of (Inr None) = PrUnmanaged"
| "answer_of (Inr (Some p)) = PrProposal (pp_url p)"

definition removal_of :: "rec_row \<Rightarrow> waste_row \<Rightarrow> removal" where
  "removal_of r x =
     \<lparr>rm_resource = w_resource_id x, rm_label = w_resource_type x, rm_savings = r_savings r,
      rm_confidence = w_confidence x, rm_reason = r_action r, rm_evidence = []\<rparr>"

definition propose :: "shell_api \<Rightarrow> (rat \<Rightarrow> string) \<Rightarrow> pr_config \<Rightarrow> rec_row \<Rightarrow> waste_row \<Rightarrow> bool \<Rightarrow> pr_proposal option sh" where
  "propose api fl config r x dry =
     (let s = \<lparr>sl_commands = [], sl_tree = None\<rparr>
      in case terraform_pr_remediator config of
           Inl e \<Rightarrow> (Inl e, s)
         | Inr config \<Rightarrow> propose_removal api fl config dry (removal_of r x) None None s)"

text \<open>An application whose pull requests are made by this flow.\<close>

definition with_terraform :: "shell_api \<Rightarrow> (rat \<Rightarrow> string) \<Rightarrow> pr_config \<Rightarrow> app \<Rightarrow> app" where
  "with_terraform api fl config app =
     app\<lparr>ap_propose := \<lambda>r x dry. answer_of (fst (propose api fl config r x dry))\<rparr>"

section \<open>Where an entry of the index comes from\<close>

text \<open>All resources of a state, with the address of their module.\<close>

fun state_resources :: "string \<Rightarrow> tf_module \<Rightarrow> (string \<times> tf_res) list" where
  "state_resources path (Module rs children) =
     map (Pair path) rs @ concat (map (\<lambda>child. state_resources (fst child) (snd child)) children)"

definition identifies :: "tf_res \<Rightarrow> string \<Rightarrow> bool" where
  "identifies res v \<longleftrightarrow> ts_mode res = ''managed'' \<and> v \<noteq> []
     \<and> (\<exists>key \<in> set (''id'' # SECONDARY_ID_ATTRIBUTES). map_of (ts_values res) key = Some (JStr v))"

definition drawn_from :: "(rat \<Rightarrow> string) \<Rightarrow> (string \<times> tf_res) set \<Rightarrow> tf_index \<Rightarrow> bool" where
  "drawn_from fl S idx \<longleftrightarrow>
     (\<forall>v r. map_of idx v = Some r \<longrightarrow> (\<exists>(path, res) \<in> S. identifies res v \<and> r = resource_of_state fl path res))"

lemma id_value_Some: "id_value j = Some v \<Longrightarrow> j = Some (JStr v) \<and> v \<noteq> []"
  by (induction j rule: id_value.induct) (simp_all split: if_splits)

lemma drawn_setdefault:
  assumes "drawn_from fl S idx" "(path, res) \<in> S" "identifies res v"
  shows "drawn_from fl S (setdefault v (resource_of_state fl path res) idx)"
  using assms by (auto simp: drawn_from_def setdefault_def map_add_def split: option.splits if_splits)

lemma drawn_resource:
  assumes idx: "drawn_from fl S idx" and res: "(path, res) \<in> S"
  shows "drawn_from fl S (index_resource fl path res idx)"
proof (cases "ts_mode res = ''managed''")
  case True
  let ?keys = "''id'' # SECONDARY_ID_ATTRIBUTES"
  have "drawn_from fl S (fold (\<lambda>key idx. case id_value (map_of (ts_values res) key) of
      None \<Rightarrow> idx | Some v \<Rightarrow> setdefault v (resource_of_state fl path res) idx) ?keys idx)"
  proof (rule fold_invariant [where Q = "\<lambda>key. key \<in> set ?keys"])
    fix key idx assume key: "key \<in> set ?keys" and idx: "drawn_from fl S idx"
    show "drawn_from fl S (case id_value (map_of (ts_values res) key) of
        None \<Rightarrow> idx | Some v \<Rightarrow> setdefault v (resource_of_state fl path res) idx)"
    proof (cases "id_value (map_of (ts_values res) key)")
      case (Some v)
      then have "map_of (ts_values res) key = Some (JStr v) \<and> v \<noteq> []" by (rule id_value_Some)
      with key True have "identifies res v" unfolding identifies_def by blast
      with idx res Some show ?thesis by (simp add: drawn_setdefault)
    qed (use idx in simp)
  qed (use idx in simp_all)
  with True show ?thesis by (simp only: index_resource_def simp_thms if_False)
qed (use idx in \<open>simp add: index_resource_def\<close>)

lemma drawn_module:
  "drawn_from fl S idx \<Longrightarrow> set (state_resources path m) \<subseteq> S \<Longrightarrow> drawn_from fl S (index_module fl path m idx)"
proof (induction fl path m idx rule: index_module.induct)
  case (1 fl path rs children idx)
  have "drawn_from fl S (fold (index_resource fl path) rs idx)"
  proof (rule fold_invariant [where Q = "\<lambda>r. r \<in> set rs"])
    fix res idx' assume "res \<in> set rs" "drawn_from fl S idx'"
    with 1(3) show "drawn_from fl S (index_resource fl path res idx')"
      by (intro drawn_resource) auto
  qed (use 1(2) in simp_all)
  then have "drawn_from fl S (fold (\<lambda>child. index_module fl (fst child) (snd child)) children
      (fold (index_resource fl path) rs idx))"
  proof (rule fold_invariant [where Q = "\<lambda>child. child \<in> set children", rotated])
    fix child idx' assume child: "child \<in> set children" and idx': "drawn_from fl S idx'"
    have "set (state_resources (fst child) (snd child)) \<subseteq> S" using 1(3) child by auto
    with 1(1) [OF child idx'] show "drawn_from fl S (index_module fl (fst child) (snd child) idx')" .
  qed simp
  then show ?case by simp
qed

lemma found_in_state:
  assumes "find_by_id (terraform_mapper fl (Some m)) rid = Some r"
  shows "\<exists>(path, res) \<in> set (state_resources [] m). identifies res rid \<and> r = resource_of_state fl path res"
proof -
  have "drawn_from fl (set (state_resources [] m)) (terraform_mapper fl (Some m))"
    unfolding terraform_mapper_def by (rule drawn_module) (auto simp: drawn_from_def)
  with assms show ?thesis by (simp add: drawn_from_def find_by_id_def)
qed

section \<open>What the commands leave\<close>

lemma run_command_state:
  "sl_commands (snd (run_command api cmd s)) = sl_commands s @ [cmd]"
  "sl_tree (snd (run_command api cmd s)) = sl_tree s"
  by (simp_all add: run_command_def Let_def split: run_result.splits)

lemma run_all_state:
  "run_all api cmds s = (res, s') \<Longrightarrow> sl_tree s' = sl_tree s
     \<and> (\<exists>k. sl_commands s' = sl_commands s @ take k cmds)
     \<and> (\<forall>out. res = Inr out \<longrightarrow> sl_commands s' = sl_commands s @ cmds)"
proof (induction api cmds s arbitrary: res s' rule: run_all.induct)
  case (2 api cmd s)
  have "sl_commands s' = sl_commands s @ take 1 [cmd]" "sl_tree s' = sl_tree s"
    using run_command_state [of api cmd s] 2 by simp_all
  then show ?case by (metis take_Suc_Cons take_0 One_nat_def)
next
  case (3 api cmd c cs s)
  obtain r1 s1 where first: "run_command api cmd s = (r1, s1)" by (cases "run_command api cmd s")
  then have s1: "sl_commands s1 = sl_commands s @ [cmd]" "sl_tree s1 = sl_tree s"
    using run_command_state [of api cmd s] by simp_all
  show ?case
  proof (cases r1)
    case (Inl e)
    with 3(2) first s1 show ?thesis by (auto simp: then_do_def intro: exI [of _ 1])
  next
    case (Inr out)
    with 3(2) first have rest: "run_all api (c # cs) s1 = (res, s')" by (simp add: then_do_def)
    obtain k where "sl_commands s' = sl_commands s1 @ take k (c # cs)"
      and all: "\<forall>out. res = Inr out \<longrightarrow> sl_commands s' = sl_commands s1 @ c # cs" and tree: "sl_tree s' = sl_tree s1"
      using 3(1) [OF rest] by blast
    then have "\<exists>k. sl_commands s' = sl_commands s @ take k (cmd # c # cs)"
      using s1 by (intro exI [of _ "Suc k"]) simp
    moreover have "sl_commands s' = sl_commands s @ cmd # c # cs" if "res = Inr out" for out
      using all that s1 by simp
    ultimately show ?thesis using tree s1 by simp
  qed
qed auto

lemma clone_state:
  assumes "clone api config s = (res, s')"
  shows "sl_tree s' = sl_tree s \<and> (\<exists>k. sl_commands s' = sl_commands s @ take k (clone_commands api config))
    \<and> (\<forall>dir. res = Inr dir \<longrightarrow> dir = sh_workdir api \<and> sl_commands s' = sl_commands s @ clone_commands api config)"
proof -
  obtain r1 s1 where run: "run_all api (clone_commands api config) s = (r1, s1)" by fastforce
  then have "s' = s1" "\<And>dir. res = Inr dir \<Longrightarrow> dir = sh_workdir api \<and> (\<exists>out. r1 = Inr out)"
    using assms by (auto simp: clone_def then_do_def split: sum.splits)
  with run_all_state [OF run] show ?thesis by blast
qed

lemma open_pr_state:
  assumes "open_pr api config p s = (res, s')"
  shows "sl_tree s' = sl_tree s \<and> (\<exists>k. sl_commands s' = sl_commands s @ take k (pr_commands config p))
    \<and> (\<forall>url. res = Inr url \<longrightarrow> sl_commands s' = sl_commands s @ pr_commands config p)"
proof -
  obtain r1 s1 where run: "run_all api (pr_commands config p) s = (r1, s1)" by fastforce
  then have "s' = s1" "\<And>url. res = Inr url \<Longrightarrow> \<exists>out. r1 = Inr out"
    using assms by (auto simp: open_pr_def then_do_def split: sum.splits)
  with run_all_state [OF run] show ?thesis by blast
qed

section \<open>What is removed\<close>

text \<open>
  One block of one file is gone, with the blank lines after it: the block that declares the resource.
  No other line of the directory names the resource, comments apart, and Terraform accepts the result.
\<close>

definition removed :: "shell_api \<Rightarrow> string \<Rightarrow> string \<Rightarrow> tf_tree \<Rightarrow> tf_tree \<Rightarrow> bool" where
  "removed api rtype name tree tree' \<longleftrightarrow> (\<exists>file content a b.
     map_of tree file = Some (Some content) \<and> declared_at rtype name content a b
     \<and> tree' = AList.update file (Some (concat (take (a - 1) (split_keep content))
                 @ concat (dropWhile is_blank (drop b (split_keep content))))) tree
     \<and> (\<forall>f \<in> set (tf_files tree). \<exists>other. read_text tree f = Some other
          \<and> (\<forall>i < length (splitlines other). refers rtype name (splitlines other ! i) \<longrightarrow> f = file \<and> a \<le> Suc i \<and> Suc i \<le> b))
     \<and> fst (sh_validate api tree'))"

lemma edit_copy_commands: "sl_commands (snd (edit_copy api res location s)) = sl_commands s"
  by (auto simp: edit_copy_def Let_def split: prod.splits sum.splits list.splits)

lemma edit_copy_removes:
  assumes edit: "edit_copy api res location s = (Inr edit, s')" and tree: "sl_tree s = Some tree"
    and found: "locate_block (Some tree) (tr_type res) (tr_name res) = Inr (Some location)"
  shows "\<exists>tree'. sl_tree s' = Some tree' \<and> removed api (tr_type res) (tr_name res) tree tree'"
proof -
  obtain fn a b where location: "location = (fn, a, b)" by (cases location)
  obtain content where content: "read_text tree fn = Some content" "declared_at (tr_type res) (tr_name res) content a b"
    using locate_block_Some [OF found [unfolded location]] by metis
  have refs: "find_references tree (tr_type res) (tr_name res) (Some location) = Inr []"
    using edit tree by (auto simp: edit_copy_def location split: sum.splits list.splits)
  obtain edit' tree' where remove: "remove_block tree fn a b = Inr (edit', tree')"
    using edit tree refs by (cases "remove_block tree fn a b") (auto simp: edit_copy_def location)
  with edit tree refs have s': "fst (sh_validate api tree')" "sl_tree s' = Some tree'"
    by (auto simp: edit_copy_def location split: if_splits)
  obtain content' where "map_of tree fn = Some (Some content')"
      "tree' = AList.update fn (Some (concat (be_new edit'))) tree"
      "be_new edit' = take (a - 1) (split_keep content') @ dropWhile is_blank (drop b (split_keep content'))"
    using remove_block_result [OF remove] by metis
  moreover from this content(1) have "content' = content" by (simp add: read_text_def)
  moreover have "\<forall>f \<in> set (tf_files tree). \<exists>other. read_text tree f = Some other
      \<and> (\<forall>i < length (splitlines other). refers (tr_type res) (tr_name res) (splitlines other ! i)
           \<longrightarrow> f = fn \<and> a \<le> Suc i \<and> Suc i \<le> b)"
    using find_references_none [OF refs] by (force simp: excluded_def location)
  ultimately show ?thesis
    using s' content(2) unfolding removed_def by (intro exI [of _ tree'] conjI exI [of _ fn] exI [of _ content] exI [of _ a] exI [of _ b]) simp_all
qed

definition publishes :: "string list \<Rightarrow> bool" where
  "publishes cmd \<longleftrightarrow> take 2 cmd = [''git'', ''push''] \<or> take 3 cmd = [''gh'', ''pr'', ''create'']"

lemma clone_publishes_nothing: "cmd \<in> set (take k (clone_commands api config)) \<Longrightarrow> \<not> publishes cmd"
  by (drule in_set_takeD) (auto simp: clone_commands_def publishes_def)

text \<open>What is removed, from a state and a working copy that the programs answered with.\<close>

definition grounded :: "shell_api \<Rightarrow> pr_config \<Rightarrow> string \<Rightarrow> tf_tree \<Rightarrow> bool" where
  "grounded api config rid tree' \<longleftrightarrow> (\<exists>m tree res.
     sh_show api (tf_dir config (sh_workdir api)) = ShowState (Some m)
     \<and> sh_checkout api (tf_dir config (sh_workdir api)) = Some tree
     \<and> ([], res) \<in> set (state_resources [] m) \<and> identifies res rid
     \<and> removed api (ts_type res) (ts_name res) tree tree')"

lemma terraform_mapper_None: "find_by_id (terraform_mapper fl None) rid = None"
  by (simp add: terraform_mapper_def find_by_id_def)

lemma located_resource:
  assumes found: "locate (terraform_mapper fl state) rid directory = Inr (Some res)" and loc: "tr_location res = Some location"
  shows "\<exists>tree m r. directory = Some tree \<and> state = Some m \<and> ([], r) \<in> set (state_resources [] m) \<and> identifies r rid
    \<and> tr_type res = ts_type r \<and> tr_name res = ts_name r
    \<and> locate_block (Some tree) (tr_type res) (tr_name res) = Inr (Some location)"
proof -
  obtain res0 where res0: "find_by_id (terraform_mapper fl state) rid = Some res0"
    using found by (cases "find_by_id (terraform_mapper fl state) rid") (simp_all add: locate_def)
  then obtain m where m: "state = Some m" using terraform_mapper_None by (cases state) auto
  obtain path r where r: "(path, r) \<in> set (state_resources [] m)" "identifies r rid" "res0 = resource_of_state fl path r"
    using found_in_state [of fl m rid res0] res0 m by auto
  have root: "in_root_module res0"
    using found loc res0 r(3) by (cases "in_root_module res0") (auto simp: locate_def resource_of_state_def)
  obtain loc' where loc': "locate_block directory (tr_type res0) (tr_name res0) = Inr loc'"
    using found res0 root by (cases "locate_block directory (tr_type res0) (tr_name res0)") (simp_all add: locate_def)
  then obtain tree where tree: "directory = Some tree" by (cases directory) (simp_all add: locate_block_def)
  with loc' found res0 root have "res = (if loc' = None then res0 else res0\<lparr>tr_location := loc'\<rparr>)"
    by (simp add: locate_def)
  with loc r(3) have "loc' = Some location" "tr_type res = tr_type res0" "tr_name res = tr_name res0"
    by (auto simp: resource_of_state_def split: if_splits)
  with loc' m r root tree show ?thesis
    by (auto simp: resource_of_state_def in_root_module_def)
qed

text \<open>Either nothing was tried, or a located block of a known working copy was.\<close>

definition cloned :: "shell_api \<Rightarrow> pr_config \<Rightarrow> shell" where
  "cloned api config =
     \<lparr>sl_commands = clone_commands api config, sl_tree = sh_checkout api (tf_dir config (sh_workdir api))\<rparr>"

lemma cloned_tree: "sl_tree (cloned api config) = sh_checkout api (tf_dir config (sh_workdir api))"
  by (simp add: cloned_def)

lemma after_clone:
  assumes "sl_commands s = clone_commands api config" "sl_tree s = sh_checkout api (tf_dir config (sh_workdir api))"
  shows "s = cloned api config"
  using assms by (cases s) (simp add: cloned_def)

lemma propose_removal_steps:
  assumes run: "propose_removal api fl config dry rm None None \<lparr>sl_commands = [], sl_tree = None\<rparr> = (res, s)"
  shows "(\<exists>k. sl_commands s = take k (clone_commands api config)) \<and> (\<forall>p. res \<noteq> Inr (Some p))
    \<or> (\<exists>state resource location. sh_show api (tf_dir config (sh_workdir api)) = ShowState state
         \<and> locate (terraform_mapper fl state) (rm_resource rm) (sl_tree (cloned api config)) = Inr (Some resource)
         \<and> tr_location resource = Some location
         \<and> (res, s) = open_removal api config dry rm resource location (cloned api config))"
proof -
  let ?s0 = "\<lparr>sl_commands = [], sl_tree = None\<rparr>" and ?dir = "tf_dir config (sh_workdir api)"
  obtain r1 s1 where clone: "clone api config ?s0 = (r1, s1)" by fastforce
  note state = clone_state [OF clone]
  have all: "\<exists>k. sl_commands (cloned api config) = take k (clone_commands api config)"
    by (rule exI [of _ 2]) (simp add: cloned_def clone_commands_def)
  show ?thesis
  proof (cases r1)
    case (Inl e)
    with run clone have "s = s1" "\<forall>p. res \<noteq> Inr (Some p)" by (auto simp: propose_removal_def then_do_def)
    with state show ?thesis by auto
  next
    case (Inr dir)
    then have dir: "dir = sh_workdir api" and s2: "s1\<lparr>sl_tree := sh_checkout api ?dir\<rparr> = cloned api config"
      using state by (simp_all add: after_clone)
    from run clone Inr dir have run: "(case from_terraform_dir api fl ?dir of
          Inl e \<Rightarrow> (Inl e, cloned api config)
        | Inr idx \<Rightarrow>
            (case locate idx (rm_resource rm) (sl_tree (cloned api config)) of
               Inl e \<Rightarrow> (Inl e, cloned api config)
             | Inr None \<Rightarrow> (Inr None, cloned api config)
             | Inr (Some resource) \<Rightarrow>
                 (case tr_location resource of
                    None \<Rightarrow> (Inr None, cloned api config)
                  | Some location \<Rightarrow> open_removal api config dry rm resource location (cloned api config)))) = (res, s)"
      by (simp add: propose_removal_def then_do_def Let_def s2 cloned_tree cong: sum.case_cong option.case_cong)
    show ?thesis
    proof (cases "sh_show api ?dir")
      case (ShowState st)
      then have idx: "from_terraform_dir api fl ?dir = Inr (terraform_mapper fl st)"
        by (simp add: from_terraform_dir_def)
      show ?thesis
      proof (cases "\<exists>resource. locate (terraform_mapper fl st) (rm_resource rm) (sl_tree (cloned api config)) = Inr (Some resource)
          \<and> tr_location resource \<noteq> None")
        case True
        with run idx ShowState show ?thesis by auto
      next
        case False
        with run idx have "s = cloned api config" "\<forall>p. res \<noteq> Inr (Some p)"
          by (auto split: sum.splits option.splits)
        with all show ?thesis by blast
      qed
    qed (use run all in \<open>auto simp: from_terraform_dir_def\<close>)
  qed
qed

lemma open_removal_steps:
  assumes run: "(res, s) = open_removal api config dry rm resource location s0" and tree: "sl_tree s0 = Some tree"
    and found: "locate_block (Some tree) (tr_type resource) (tr_name resource) = Inr (Some location)"
  shows "sl_commands s = sl_commands s0 \<and> (\<forall>p. res \<noteq> Inr (Some p))
    \<or> (\<exists>tree' edit k. sl_tree s = Some tree' \<and> removed api (tr_type resource) (tr_name resource) tree tree'
         \<and> res \<noteq> Inr None
         \<and> (let p = removal_proposal dry resource location rm edit
            in sl_commands s = sl_commands s0 @ (if dry then [] else take k (pr_commands config p))
               \<and> (\<forall>q. res = Inr (Some q) \<longrightarrow> pp_branch q = pp_branch p
                    \<and> (if dry then pp_url q = None
                       else pp_url q \<noteq> None \<and> sl_commands s = sl_commands s0 @ pr_commands config p))))"
proof -
  obtain r1 s1 where edit: "edit_copy api resource location s0 = (r1, s1)" by fastforce
  have cmds: "sl_commands s1 = sl_commands s0" using edit_copy_commands [of api resource location s0] edit by simp
  show ?thesis
  proof (cases r1)
    case (Inl e)
    with run edit cmds show ?thesis by (simp add: open_removal_def then_do_def)
  next
    case (Inr ed)
    define p where "p = removal_proposal dry resource location rm ed"
    obtain tree' where tree': "sl_tree s1 = Some tree'" "removed api (tr_type resource) (tr_name resource) tree tree'"
      using edit_copy_removes [OF edit [unfolded Inr] tree found] by blast
    show ?thesis
    proof (cases dry)
      case True
      with run edit Inr have "res = Inr (Some p)" "s = s1"
        by (simp_all add: open_removal_def then_do_def p_def)
      with True cmds tree' show ?thesis
        by (intro disjI2 exI [of _ tree'] exI [of _ ed]) (simp add: p_def removal_proposal_def)
    next
      case False
      obtain r2 s2 where opened: "open_pr api config p s1 = (r2, s2)" by fastforce
      with run edit Inr False have res: "s = s2" "res = map_sum id (\<lambda>url. Some (p\<lparr>pp_url := Some url\<rparr>)) r2"
        by (auto simp: open_removal_def then_do_def p_def split: sum.splits)
      obtain k where k: "sl_commands s2 = sl_commands s1 @ take k (pr_commands config p)"
        and all: "\<And>url. r2 = Inr url \<Longrightarrow> sl_commands s2 = sl_commands s1 @ pr_commands config p"
        and same: "sl_tree s2 = sl_tree s1"
        using open_pr_state [OF opened] by blast
      have "pp_branch q = pp_branch p \<and> pp_url q \<noteq> None \<and> sl_commands s = sl_commands s0 @ pr_commands config p"
        if "res = Inr (Some q)" for q
        using that res all cmds by (cases r2) auto
      moreover have "res \<noteq> Inr None" using res(2) by (cases r2) simp_all
      moreover have "removal_proposal False resource location rm ed = p" using False by (simp add: p_def)
      ultimately show ?thesis
        using False k same tree' cmds res(1)
        by (intro disjI2 exI [of _ tree'] exI [of _ ed] exI [of _ k]) simp
    qed
  qed
qed

lemma any_action: "propose api fl config (r\<lparr>r_type := action\<rparr>) x dry = propose api fl config r x dry"
proof -
  have "removal_of (r\<lparr>r_type := action\<rparr>) x = removal_of r x" by (simp add: removal_of_def)
  then show ?thesis by (simp only: propose_def)
qed

text \<open>
  C6: the flow publishes nothing, neither a branch nor a request, unless it found exactly one block
  that declares a managed resource of the root module with the wanted id, removed that block and the
  blank lines after it and nothing else, found no other line that names the resource, and Terraform
  accepted the result. A dry run publishes nothing at all; otherwise a proposal has an address and was
  published by the whole sequence of commands, its branch named after the resource. What the
  recommendation asks for plays no part: a block is removed for a migration of the volume too.
\<close>

theorem pull_request_removes_one_block:
  assumes given: "propose api fl config r x dry = (res, s)"
  shows "((\<exists>p. res = Inr (Some p)) \<or> (\<exists>cmd \<in> set (sl_commands s). publishes cmd) \<longrightarrow>
            grounded api config (w_resource_id x) (the (sl_tree s)))
    \<and> (dry \<or> res = Inr None \<longrightarrow> \<not> (\<exists>cmd \<in> set (sl_commands s). publishes cmd))
    \<and> (\<forall>p. res = Inr (Some p) \<longrightarrow> pp_branch p = ''wasteless/remove-'' @ w_resource_id x
         \<and> (if dry then pp_url p = None
            else pp_url p \<noteq> None \<and> (\<exists>q. sl_commands s = clone_commands api config @ pr_commands config q
                                        \<and> pp_branch q = pp_branch p)))
    \<and> (\<forall>action. propose api fl config (r\<lparr>r_type := action\<rparr>) x dry = (res, s))"
proof (cases "pc_repo config = []")
  case True
  with given have "sl_commands s = []" "\<forall>p. res \<noteq> Inr p"
    by (auto simp: propose_def terraform_pr_remediator_def Let_def)
  then show ?thesis using given by (simp add: any_action)
next
  case False
  with given have run: "propose_removal api fl config dry (removal_of r x) None None \<lparr>sl_commands = [], sl_tree = None\<rparr> = (res, s)"
    by (simp add: propose_def terraform_pr_remediator_def Let_def)
  have quiet: "\<not> publishes cmd" if "cmd \<in> set (clone_commands api config)" for cmd
    using that by (auto simp: clone_commands_def publishes_def)
  from propose_removal_steps [OF run] show ?thesis
  proof (elim disjE conjE exE)
    fix k assume "sl_commands s = take k (clone_commands api config)" "\<forall>p. res \<noteq> Inr (Some p)"
    moreover from this have "\<not> (\<exists>cmd \<in> set (sl_commands s). publishes cmd)"
      using clone_publishes_nothing by auto
    ultimately show ?thesis using given by (auto simp: any_action)
  next
    fix state resource location
    assume shown: "sh_show api (tf_dir config (sh_workdir api)) = ShowState state"
      and found: "locate (terraform_mapper fl state) (rm_resource (removal_of r x)) (sl_tree (cloned api config)) = Inr (Some resource)"
      and loc: "tr_location resource = Some location"
      and opened: "(res, s) = open_removal api config dry (removal_of r x) resource location (cloned api config)"
    obtain tree m tres where tree: "sl_tree (cloned api config) = Some tree" and m: "state = Some m"
      and tres: "([], tres) \<in> set (state_resources [] m)" "identifies tres (w_resource_id x)"
      and names: "tr_type resource = ts_type tres" "tr_name resource = ts_name tres"
      and block: "locate_block (Some tree) (tr_type resource) (tr_name resource) = Inr (Some location)"
      using located_resource [OF found loc] by (auto simp: removal_of_def)
    from open_removal_steps [OF opened tree block] show ?thesis
    proof (elim disjE conjE exE)
      assume "sl_commands s = sl_commands (cloned api config)" "\<forall>p. res \<noteq> Inr (Some p)"
      then show ?thesis using quiet given by (auto simp: cloned_def any_action)
    next
      fix tree' edit k
      assume tree': "sl_tree s = Some tree'" "removed api (tr_type resource) (tr_name resource) tree tree'"
        and some: "res \<noteq> Inr None"
        and steps: "let p = removal_proposal dry resource location (removal_of r x) edit
            in sl_commands s = sl_commands (cloned api config) @ (if dry then [] else take k (pr_commands config p))
               \<and> (\<forall>q. res = Inr (Some q) \<longrightarrow> pp_branch q = pp_branch p
                    \<and> (if dry then pp_url q = None
                       else pp_url q \<noteq> None \<and> sl_commands s = sl_commands (cloned api config) @ pr_commands config p))"
      define P where "P = removal_proposal dry resource location (removal_of r x) edit"
      have branch: "pp_branch P = ''wasteless/remove-'' @ w_resource_id x"
        by (simp add: P_def removal_proposal_def removal_of_def)
      have grounds: "grounded api config (w_resource_id x) (the (sl_tree s))"
        using shown m tres names tree tree' unfolding grounded_def by (auto simp: cloned_tree)
      have base: "sl_commands (cloned api config) = clone_commands api config" by (simp add: cloned_def)
      have cmds: "sl_commands s = clone_commands api config @ (if dry then [] else take k (pr_commands config P))"
        and proposal: "\<And>q. res = Inr (Some q) \<Longrightarrow> pp_branch q = pp_branch P
          \<and> (if dry then pp_url q = None else pp_url q \<noteq> None \<and> sl_commands s = clone_commands api config @ pr_commands config P)"
        using steps unfolding P_def [symmetric] Let_def base by blast+
      have "\<not> (\<exists>cmd \<in> set (sl_commands s). publishes cmd)" if "dry \<or> res = Inr None"
        using that some cmds quiet by auto
      then show ?thesis using grounds proposal branch given by (auto simp: any_action)
    qed
  qed
qed

definition tf_lines :: "string list \<Rightarrow> string" where
  "tf_lines ls = concat (map (\<lambda>l. l @ [CHR 0x0A]) ls)"

definition sample_shell :: shell_api where
  "sample_shell =
     \<lparr>sh_run = (\<lambda>_ _. RunOk ''https://github.com/o/r/pull/1''), sh_workdir = ''/tmp/w'',
      sh_checkout = (\<lambda>_. Some [(''main.tf'', Some (tf_lines
        [''resource '' @ quote ''aws_ebs_volume'' @ '' '' @ quote ''data'' @ '' {'', ''  size = 10'', ''}'', [],
         ''# aws_ebs_volume.data is old'']))]),
      sh_show = (\<lambda>_. ShowState (Some (Module
        [\<lparr>ts_mode = ''managed'', ts_address = ''aws_ebs_volume.data'', ts_type = ''aws_ebs_volume'',
          ts_name = ''data'', ts_values = [(''id'', JStr ''vol-1'')]\<rparr>] []))),
      sh_validate = (\<lambda>tree. (tree = [(''main.tf'', Some (tf_lines [''# aws_ebs_volume.data is old'']))], []))\<rparr>"

definition migration :: rec_row where
  "migration =
     \<lparr>r_id = 7, r_waste = 7, r_type = ''migrate_gp2_to_gp3'', r_action = [], r_savings = 2, r_status = Pending,
      r_applied_at = None, r_execute_after = None, r_pr_url = None, r_insight = None\<rparr>"

definition gp2_waste :: waste_row where
  "gp2_waste =
     \<lparr>w_id = 7, w_date = 0, w_resource_id = ''vol-1'', w_resource_type = ''ebs_volume'', w_waste_type = ''ebs_gp2_migration'',
      w_monthly = 2, w_confidence = 1, w_metadata = []\<rparr>"

lemma pull_request_removes_one_block_witness:
  "grounded sample_shell \<lparr>pc_repo = ''o/r'', pc_base_branch = ''main'', pc_terraform_dir = ''.''\<rparr> ''vol-1''
     (the (sl_tree (snd (propose sample_shell (\<lambda>_. []) \<lparr>pc_repo = ''o/r'', pc_base_branch = ''main'', pc_terraform_dir = ''.''\<rparr>
        migration gp2_waste False))))"
proof -
  let ?config = "\<lparr>pc_repo = ''o/r'', pc_base_branch = ''main'', pc_terraform_dir = ''.''\<rparr>"
  have "(case fst (propose sample_shell (\<lambda>_. []) ?config migration gp2_waste False) of
      Inr (Some p) \<Rightarrow> True | _ \<Rightarrow> False)" by code_simp
  then obtain p where "fst (propose sample_shell (\<lambda>_. []) ?config migration gp2_waste False) = Inr (Some p)"
    by (auto split: sum.splits option.splits)
  with pull_request_removes_one_block [OF prod.collapse [symmetric],
      of sample_shell "\<lambda>_. []" ?config migration gp2_waste False, THEN conjunct1]
  show ?thesis by (simp add: gp2_waste_def)
qed

end
