(* ===== verification/Progress.thy ===== *)
theory Progress
  imports Reconcile
begin

text \<open>
  Approvals under a grace period are not forgotten: the job of \<open>ui/jobs.py\<close> that executes them takes
  twenty due rows at a time, the longest waiting first, whatever AWS answers.
\<close>

section \<open>The rows that wait\<close>










section \<open>What one run does\<close>



section \<open>What executing a row means\<close>







section \<open>The log of a run\<close>





section \<open>Every due row is attempted\<close>






section \<open>Runs\<close>







section \<open>Property\<close>



end
