(* ===== verification/Metrics.thy ===== *)
theory Metrics
  imports Collection
begin

text \<open>
  The collectors of instance metrics: \<open>src/collectors/aws_cloudwatch.py\<close>, which a collection runs
  first, \<open>src/collectors/ec2_metrics_steampipe.py\<close>, and \<open>src/collectors/steampipe.py\<close>, through which
  queries are asked. The table \<open>ec2_metrics\<close> is a list of rows with the constraints of
  \<open>sql/ec2_metrics.sql\<close>; CloudWatch, EC2 and the program \<open>steampipe\<close> are parameters.
\<close>

section \<open>The table\<close>

record metric_full = metric_row +
  mt_name :: string
  mt_net_in :: "rat option"
  mt_net_out :: "rat option"

definition metric_key :: "metric_full \<Rightarrow> string \<times> int" where
  "metric_key m = (mt_instance m, mt_date m)"

definition metric_at :: "string \<times> int \<Rightarrow> metric_full list \<Rightarrow> metric_full option" where
  "metric_at k t = find (\<lambda>m. metric_key m = k) t"

text \<open>What the columns can hold.\<close>

definition text_fits :: "nat \<Rightarrow> string option \<Rightarrow> bool" where
  "text_fits n s = (case s of None \<Rightarrow> True | Some v \<Rightarrow> length v \<le> n)"

definition number_fits :: "nat \<Rightarrow> rat option \<Rightarrow> bool" where
  "number_fits digits x = (case x of None \<Rightarrow> True | Some v \<Rightarrow> \<bar>v\<bar> < 10 ^ digits)"

definition metric_fits :: "metric_full \<Rightarrow> bool" where
  "metric_fits m =
     (length (mt_instance m) \<le> 50 \<and> text_fits 50 (mt_type m) \<and> length (mt_name m) \<le> 200
      \<and> text_fits 20 (mt_state m) \<and> text_fits 50 (mt_region m)
      \<and> number_fits 3 (mt_cpu_avg m) \<and> number_fits 3 (mt_cpu_max m)
      \<and> number_fits 10 (mt_net_in m) \<and> number_fits 10 (mt_net_out m))"

text \<open>
  \<open>INSERT \<dots> ON CONFLICT (instance_id, collection_date) DO UPDATE\<close>: \<open>upd old new\<close> is the row that
  the columns of the update give. One statement cannot touch a row twice.
\<close>

definition upsert_metric ::
    "(metric_full \<Rightarrow> metric_full \<Rightarrow> metric_full) \<Rightarrow> metric_full \<Rightarrow> metric_full list \<Rightarrow> metric_full list" where
  "upsert_metric upd m t =
     (if metric_key m \<in> set (map metric_key t)
      then map (\<lambda>old. if metric_key old = metric_key m then upd old m else old) t
      else t @ [m])"

definition upsert_page ::
    "(metric_full \<Rightarrow> metric_full \<Rightarrow> metric_full) \<Rightarrow> metric_full list \<Rightarrow> metric_full list \<Rightarrow> metric_full list option" where
  "upsert_page upd rows t =
     (if distinct (map metric_key rows) \<and> list_all metric_fits rows
      then Some (fold (upsert_metric upd) rows t) else None)"

text \<open>\<open>execute_values\<close> sends one statement for every hundred rows.\<close>

definition PAGE_SIZE :: nat where
  "PAGE_SIZE = 100"

function statement_pages :: "'a list \<Rightarrow> 'a list list" where
  "statement_pages rows =
     (if rows = [] then [] else take PAGE_SIZE rows # statement_pages (drop PAGE_SIZE rows))"
  by pat_completeness auto
termination
  by (relation "measure length") (simp_all add: PAGE_SIZE_def)

declare statement_pages.simps [simp del]

fun upsert_pages ::
    "(metric_full \<Rightarrow> metric_full \<Rightarrow> metric_full) \<Rightarrow> metric_full list list \<Rightarrow> metric_full list \<Rightarrow> metric_full list option" where
  "upsert_pages upd [] t = Some t"
| "upsert_pages upd (rows # pages) t = Option.bind (upsert_page upd rows t) (upsert_pages upd pages)"

definition execute_values ::
    "(metric_full \<Rightarrow> metric_full \<Rightarrow> metric_full) \<Rightarrow> metric_full list \<Rightarrow> metric_full list \<Rightarrow> metric_full list option" where
  "execute_values upd rows t = upsert_pages upd (statement_pages rows) t"

section \<open>The CloudWatch collector\<close>

record datapoint =
  dp_average :: rat
  dp_maximum :: rat
  dp_minimum :: rat

record instance_info =
  ii_id :: string
  ii_type :: string
  ii_state :: string
  ii_launch :: int
  ii_zone :: string
  ii_tags :: "(string, string) dict"

text \<open>
  What AWS answers: the two clients of a region, the reservations of each page with the instances
  and the tags of each, and the hourly statistics of a metric over the last days.
\<close>

record cw_api =
  cw_client :: "string \<Rightarrow> string \<Rightarrow> aws_exc option"
  cw_pages :: "string \<Rightarrow> aws_exc + (instance_info \<times> (string \<times> string) list option) list list list"
  cw_statistics :: "string \<Rightarrow> string \<Rightarrow> string \<Rightarrow> int \<Rightarrow> aws_exc + datapoint list"

definition tag_dict :: "(string \<times> string) list option \<Rightarrow> (string, string) dict" where
  "tag_dict tags = fold (\<lambda>(k, v) d. AList.update k v d) (case tags of None \<Rightarrow> [] | Some ts \<Rightarrow> ts) []"

definition get_ec2_instances :: "cw_api \<Rightarrow> string \<Rightarrow> aws_exc + instance_info list" where
  "get_ec2_instances api region =
     map_sum id (\<lambda>pages. map (\<lambda>(inst, tags). inst\<lparr>ii_tags := tag_dict tags\<rparr>) (concat (concat pages)))
       (cw_pages api region)"

record cpu_metrics =
  cm_avg :: rat
  cm_max :: rat
  cm_min :: rat
  cm_count :: nat

definition get_cpu_utilization :: "cw_api \<Rightarrow> string \<Rightarrow> string \<Rightarrow> int \<Rightarrow> cpu_metrics option" where
  "get_cpu_utilization api region instance_id days =
     (case cw_statistics api region ''CPUUtilization'' instance_id days of
        Inl _ \<Rightarrow> None
      | Inr [] \<Rightarrow> None
      | Inr (dp # dps) \<Rightarrow>
          Some \<lparr>cm_avg = py_round 2 (mean (map dp_average (dp # dps))),
                cm_max = py_round 2 (fold max (map dp_maximum dps) (dp_maximum dp)),
                cm_min = py_round 2 (fold min (map dp_minimum dps) (dp_minimum dp)),
                cm_count = length (dp # dps)\<rparr>)"

definition get_network_metrics :: "cw_api \<Rightarrow> string \<Rightarrow> string \<Rightarrow> int \<Rightarrow> rat \<times> rat" where
  "get_network_metrics api region instance_id days =
     (case (cw_statistics api region ''NetworkIn'' instance_id days,
            cw_statistics api region ''NetworkOut'' instance_id days) of
        (Inr ins, Inr outs) \<Rightarrow>
          if ins = [] \<or> outs = [] then (0, 0)
          else (py_round 2 (mean (map dp_average ins) / 1024 / 1024),
                py_round 2 (mean (map dp_average outs) / 1024 / 1024))
      | _ \<Rightarrow> (0, 0))"

record metric_record =
  mr_instance :: string
  mr_type :: string
  mr_state :: string
  mr_launch :: int
  mr_date :: int
  mr_region :: string
  mr_tags :: "(string, string) dict"
  mr_cpu :: "cpu_metrics option"
  mr_network :: "rat \<times> rat"

definition collect_instance_metrics :: "cw_api \<Rightarrow> string \<Rightarrow> int \<Rightarrow> int \<Rightarrow> instance_info \<Rightarrow> metric_record option" where
  "collect_instance_metrics api region days today inst =
     (if ii_state inst \<noteq> ''running'' then None
      else Some \<lparr>mr_instance = ii_id inst, mr_type = ii_type inst, mr_state = ii_state inst,
                 mr_launch = ii_launch inst, mr_date = today, mr_region = region, mr_tags = ii_tags inst,
                 mr_cpu = get_cpu_utilization api region (ii_id inst) days,
                 mr_network = get_network_metrics api region (ii_id inst) days\<rparr>)"

text \<open>The workers end in any order: \<open>completed\<close> gives the instances in that order.\<close>

type_synonym completion = "instance_info list \<Rightarrow> instance_info list"

definition collect_all_metrics ::
    "cw_api \<Rightarrow> completion \<Rightarrow> string \<Rightarrow> int \<Rightarrow> int \<Rightarrow> aws_exc + metric_record list" where
  "collect_all_metrics api completed region days today =
     map_sum id (\<lambda>instances.
       if instances = [] then []
       else List.map_filter (collect_instance_metrics api region days today)
              (completed (filter (\<lambda>i. ii_state i = ''running'') instances)))
       (get_ec2_instances api region)"

definition metric_values :: "metric_record \<Rightarrow> metric_full" where
  "metric_values m =
     \<lparr>mt_instance = mr_instance m, mt_type = Some (mr_type m), mt_state = Some (mr_state m),
      mt_date = mr_date m, mt_cpu_avg = map_option cm_avg (mr_cpu m),
      mt_cpu_max = map_option cm_max (mr_cpu m), mt_region = Some (mr_region m),
      mt_name = dict_get (mr_tags m) ''Name'' [],
      mt_net_in = Some (fst (mr_network m)), mt_net_out = Some (snd (mr_network m))\<rparr>"

definition measured_columns :: "metric_full \<Rightarrow> metric_full \<Rightarrow> metric_full" where
  "measured_columns old new =
     old\<lparr>mt_region := mt_region new, mt_cpu_avg := mt_cpu_avg new, mt_cpu_max := mt_cpu_max new,
         mt_net_in := mt_net_in new, mt_net_out := mt_net_out new\<rparr>"

text \<open>
  The number returned is the \<open>rowcount\<close> of the cursor, which counts the last statement. \<open>db_ready\<close>:
  the variables of the database are set and a connection was given. Every failure is answered by 0.
\<close>

definition save_to_postgres :: "bool \<Rightarrow> metric_record list \<Rightarrow> metric_full list \<Rightarrow> nat \<times> metric_full list" where
  "save_to_postgres db_ready metrics t =
     (if metrics = [] \<or> \<not> db_ready then (0, t)
      else (case execute_values measured_columns (map metric_values metrics) t of
              None \<Rightarrow> (0, t)
            | Some t' \<Rightarrow> (length (last (statement_pages metrics)), t')))"

definition collector_run ::
    "cw_api \<Rightarrow> completion \<Rightarrow> bool \<Rightarrow> int \<Rightarrow> string \<Rightarrow> metric_full list \<Rightarrow> aws_exc + metric_full list" where
  "collector_run api completed db_ready today region t =
     map_sum id (\<lambda>metrics. snd (save_to_postgres db_ready metrics t))
       (collect_all_metrics api completed region 7 today)"

text \<open>
  The loop over the regions. A collector that cannot be constructed leaves the process with
  \<open>sys.exit(1)\<close>, which \<open>except Exception\<close> does not catch.
\<close>

definition constructed :: "cw_api \<Rightarrow> bool \<Rightarrow> string \<Rightarrow> bool" where
  "constructed api vars_set region =
     (vars_set \<and> cw_client api ''ec2'' region = None \<and> cw_client api ''cloudwatch'' region = None)"

fun region_loop ::
    "cw_api \<Rightarrow> completion \<Rightarrow> bool \<Rightarrow> bool \<Rightarrow> int \<Rightarrow> string list \<Rightarrow> nat \<Rightarrow> metric_full list
     \<Rightarrow> nat option \<times> metric_full list" where
  "region_loop api completed vars_set db_ready today [] failed t = (Some failed, t)"
| "region_loop api completed vars_set db_ready today (region # regions) failed t =
     (if \<not> constructed api vars_set region then (None, t)
      else (case collector_run api completed db_ready today region t of
              Inl _ \<Rightarrow> region_loop api completed vars_set db_ready today regions (failed + 1) t
            | Inr t' \<Rightarrow> region_loop api completed vars_set db_ready today regions failed t'))"

definition cloudwatch_main ::
    "cw_api \<Rightarrow> completion \<Rightarrow> bool \<Rightarrow> bool \<Rightarrow> int \<Rightarrow> string list \<Rightarrow> metric_full list \<Rightarrow> nat \<times> metric_full list" where
  "cloudwatch_main api completed vars_set db_ready today regions t =
     (case region_loop api completed vars_set db_ready today regions 0 t of
        (None, t') \<Rightarrow> (1, t')
      | (Some failed, t') \<Rightarrow> (if failed = length regions then 1 else 0, t'))"

text \<open>\<open>AWS_REGIONS\<close>, separated by commas.\<close>

definition DEFAULT_REGIONS :: string where
  "DEFAULT_REGIONS =
     ''eu-west-1,eu-west-2,eu-west-3,eu-north-1,us-east-1,sa-east-1,ap-south-1,ap-southeast-2''"

definition AWS_SCAN_REGIONS :: "string option \<Rightarrow> string list" where
  "AWS_SCAN_REGIONS aws_regions =
     filter (\<lambda>r. r \<noteq> [])
       (map strip (split_on (CHR '','') (case aws_regions of None \<Rightarrow> DEFAULT_REGIONS | Some v \<Rightarrow> v)))"

text \<open>The collection with its first step: what it leaves in the table is what the detectors read.\<close>

definition with_metrics :: "answers \<Rightarrow> nat \<times> metric_full list \<Rightarrow> answers" where
  "with_metrics a res =
     a\<lparr>an_cloudwatch := (fst res = 0), an_metrics := map metric_row.truncate (snd res)\<rparr>"

section \<open>Queries through Steampipe\<close>

text \<open>What \<open>json.loads\<close> makes of the output, as far as \<open>run_query\<close> looks at it; \<open>'r\<close> is a row.\<close>

datatype 'r rows_member = RowList "'r list" | OtherMember string

datatype 'r payload = DictPayload "'r rows_member option" | ListPayload "'r list" | OtherPayload string

datatype steampipe_error =
    SteampipeNotInstalled
  | QueryTimedOut nat
  | QueryFailed int string
  | Unparseable string
  | UnexpectedShape string
  | QueryFileNotFound string

datatype program_result = TimeoutExpired | Completed int string string

record 'r steampipe =
  sp_which :: bool
  sp_run :: "string list \<Rightarrow> nat \<Rightarrow> program_result"
  sp_loads :: "string \<Rightarrow> 'r payload option"
  sp_file :: "string \<Rightarrow> string option"

definition DEFAULT_TIMEOUT_SECONDS :: nat where
  "DEFAULT_TIMEOUT_SECONDS = 120"

definition is_available :: "'r steampipe \<Rightarrow> bool" where
  "is_available sp = sp_which sp"

definition payload_rows :: "'r payload \<Rightarrow> steampipe_error + 'r list" where
  "payload_rows p =
     (case p of
        DictPayload None \<Rightarrow> Inr []
      | DictPayload (Some (RowList rows)) \<Rightarrow> Inr rows
      | DictPayload (Some (OtherMember ty)) \<Rightarrow> Inl (UnexpectedShape ty)
      | ListPayload rows \<Rightarrow> Inr rows
      | OtherPayload ty \<Rightarrow> Inl (UnexpectedShape ty))"

definition run_query :: "'r steampipe \<Rightarrow> string \<Rightarrow> nat \<Rightarrow> steampipe_error + 'r list" where
  "run_query sp sql timeout =
     (if \<not> is_available sp then Inl SteampipeNotInstalled
      else (case sp_run sp [''steampipe'', ''query'', ''--output'', ''json'', ''--'', sql] timeout of
              TimeoutExpired \<Rightarrow> Inl (QueryTimedOut timeout)
            | Completed returncode stdout stderr \<Rightarrow>
                if returncode \<noteq> 0 then Inl (QueryFailed returncode (strip stderr))
                else (case sp_loads sp stdout of
                        None \<Rightarrow> Inl (Unparseable (take 200 stdout))
                      | Some p \<Rightarrow> payload_rows p)))"

definition run_query_file :: "'r steampipe \<Rightarrow> string \<Rightarrow> nat \<Rightarrow> steampipe_error + 'r list" where
  "run_query_file sp name timeout =
     (case sp_file sp name of
        None \<Rightarrow> Inl (QueryFileNotFound name)
      | Some sql \<Rightarrow> run_query sp sql timeout)"

section \<open>The Steampipe collector\<close>

record cpu_row =
  sc_instance :: string
  sc_type :: "string option"
  sc_name :: "string option"
  sc_state :: "string option"
  sc_date :: int
  sc_avg :: "rat option"
  sc_max :: "rat option"

definition rows_to_records :: "cpu_row list \<Rightarrow> metric_full list" where
  "rows_to_records rows =
     map (\<lambda>r. \<lparr>mt_instance = sc_instance r, mt_type = Some (or_default (sc_type r) []),
                mt_state = Some (or_default (sc_state r) []), mt_date = sc_date r,
                mt_cpu_avg = sc_avg r, mt_cpu_max = sc_max r, mt_region = None,
                mt_name = or_default (sc_name r) [], mt_net_in = None, mt_net_out = None\<rparr>) rows"

definition cpu_columns :: "metric_full \<Rightarrow> metric_full \<Rightarrow> metric_full" where
  "cpu_columns old new =
     old\<lparr>mt_type := mt_type new, mt_name := mt_name new, mt_state := mt_state new,
         mt_cpu_avg := mt_cpu_avg new, mt_cpu_max := mt_cpu_max new\<rparr>"

text \<open>The script: any exception ends in exit code 1 and leaves the table as it was.\<close>

definition steampipe_metrics_main ::
    "cpu_row steampipe \<Rightarrow> bool \<Rightarrow> metric_full list \<Rightarrow> nat \<times> metric_full list" where
  "steampipe_metrics_main sp db_ready t =
     (if \<not> db_ready then (1, t)
      else (case run_query_file sp ''ec2_cpu_daily'' DEFAULT_TIMEOUT_SECONDS of
              Inl _ \<Rightarrow> (1, t)
            | Inr rows \<Rightarrow>
                if rows = [] then (0, t)
                else (case execute_values cpu_columns (rows_to_records rows) t of
                        None \<Rightarrow> (1, t)
                      | Some t' \<Rightarrow> (0, t'))))"

section \<open>Updates of columns\<close>

definition metric_table_ok :: "metric_full list \<Rightarrow> bool" where
  "metric_table_ok t \<longleftrightarrow> distinct (map metric_key t) \<and> list_all metric_fits t"

lemma concat_statement_pages: "concat (statement_pages rows) = rows"
proof (induction rows rule: statement_pages.induct)
  case (1 rows)
  then show ?case by (subst statement_pages.simps) simp
qed

text \<open>
  An update of columns: what it keeps of the old row, and what it takes from the new one. What a
  batch of upserts does to the table is proved from these laws for both collectors.
\<close>

locale column_update =
  fixes upd :: "metric_full \<Rightarrow> metric_full \<Rightarrow> metric_full"
    and kept :: "metric_full \<Rightarrow> 'k"
    and written :: "metric_full \<Rightarrow> 'w"
  assumes upd_key: "metric_key (upd old new) = metric_key old"
    and upd_kept: "kept (upd old new) = kept old"
    and upd_written: "written (upd old new) = written new"
    and upd_fits: "metric_fits old \<Longrightarrow> metric_fits new \<Longrightarrow> metric_fits (upd old new)"
begin

lemma metric_at_map:
  "metric_at k (map (\<lambda>old. if metric_key old = k' then upd old m else old) t)
     = map_option (\<lambda>old. if k = k' then upd old m else old) (metric_at k t)"
  by (induction t) (auto simp: metric_at_def upd_key)

lemma metric_at_append:
  "metric_at k (t @ [m]) = (case metric_at k t of None \<Rightarrow> if k = metric_key m then Some m else None | Some x \<Rightarrow> Some x)"
  by (induction t) (auto simp: metric_at_def)

lemma metric_at_None: "metric_at k t = None \<longleftrightarrow> k \<notin> set (map metric_key t)"
  by (induction t) (auto simp: metric_at_def)

lemma upsert_metric_at:
  "metric_at k (upsert_metric upd m t) =
     (if k = metric_key m then Some (case metric_at k t of None \<Rightarrow> m | Some old \<Rightarrow> upd old m) else metric_at k t)"
proof (cases "metric_key m \<in> set (map metric_key t)")
  case True
  then obtain old where "metric_at (metric_key m) t = Some old"
    by (metis metric_at_None not_None_eq)
  then show ?thesis using True by (auto simp: upsert_metric_def metric_at_map option.map_ident cong: option.map_cong)
next
  case False
  then have "metric_at (metric_key m) t = None" by (simp add: metric_at_None)
  then show ?thesis using False by (auto simp: upsert_metric_def metric_at_append split: option.splits)
qed

lemma upsert_metric_keys:
  "distinct (map metric_key t) \<Longrightarrow> distinct (map metric_key (upsert_metric upd m t))"
proof -
  have "map metric_key (map (\<lambda>old. if metric_key old = k then upd old m else old) t) = map metric_key t" for k
    by (simp add: upd_key)
  then show "distinct (map metric_key t) \<Longrightarrow> ?thesis" by (auto simp: upsert_metric_def simp del: map_map)
qed

lemma upsert_metric_fits:
  "list_all metric_fits t \<Longrightarrow> metric_fits m \<Longrightarrow> list_all metric_fits (upsert_metric upd m t)"
  by (auto simp: upsert_metric_def list_all_iff upd_fits)

text \<open>What \<open>t'\<close> has become of \<open>t\<close>, through rows for which \<open>R\<close> holds.\<close>

definition batch :: "(metric_full \<Rightarrow> bool) \<Rightarrow> metric_full list \<Rightarrow> metric_full list \<Rightarrow> bool" where
  "batch R t t' \<longleftrightarrow>
     (metric_table_ok t \<longrightarrow> metric_table_ok t')
     \<and> (\<forall>k m. metric_at k t = Some m \<longrightarrow> (\<exists>m'. metric_at k t' = Some m' \<and> kept m' = kept m))
     \<and> (\<forall>k m'. metric_at k t' = Some m' \<longrightarrow> metric_at k t = Some m'
          \<or> (\<exists>row. R row \<and> metric_key row = k \<and> written m' = written row))"

lemma batch_refl: "batch R t t"
  by (simp add: batch_def)

lemma batch_trans: "batch R t t' \<Longrightarrow> batch R t' t'' \<Longrightarrow> batch R t t''"
  unfolding batch_def by (intro conjI allI impI; metis)

lemma batch_mono: "batch R t t' \<Longrightarrow> (\<And>row. R row \<Longrightarrow> S row) \<Longrightarrow> batch S t t'"
  unfolding batch_def by blast

lemma batch_upsert:
  assumes "R m" "metric_fits m"
  shows "batch R t (upsert_metric upd m t)"
  using assms
  by (auto simp: batch_def metric_table_ok_def upsert_metric_keys upsert_metric_fits upsert_metric_at upd_kept
      upd_written split: option.splits)

lemma batch_page: "upsert_page upd rows t = Some t' \<Longrightarrow> batch (\<lambda>row. row \<in> set rows) t t'"
proof -
  have "list_all metric_fits rows \<Longrightarrow> batch (\<lambda>row. row \<in> set rows) t (fold (upsert_metric upd) rows t)" for rows
  proof (induction rows arbitrary: t)
    case (Cons m rows)
    have "batch (\<lambda>row. row \<in> set (m # rows)) t (upsert_metric upd m t)"
      using Cons.prems by (intro batch_upsert) auto
    moreover have "batch (\<lambda>row. row \<in> set (m # rows)) (upsert_metric upd m t)
        (fold (upsert_metric upd) rows (upsert_metric upd m t))"
      by (rule batch_mono [OF Cons.IH]) (use Cons.prems in simp_all)
    ultimately show ?case by (auto intro: batch_trans)
  qed (simp add: batch_refl)
  then show "upsert_page upd rows t = Some t' \<Longrightarrow> ?thesis" by (auto simp: upsert_page_def split: if_splits)
qed

lemma batch_pages: "upsert_pages upd pages t = Some t' \<Longrightarrow> batch (\<lambda>row. row \<in> set (concat pages)) t t'"
proof (induction pages arbitrary: t)
  case (Cons rows pages)
  obtain u where u: "upsert_page upd rows t = Some u" "upsert_pages upd pages u = Some t'"
    using Cons.prems by (auto simp: bind_eq_Some_conv)
  have "batch (\<lambda>row. row \<in> set (concat (rows # pages))) t u"
    by (rule batch_mono [OF batch_page [OF u(1)]]) simp
  moreover have "batch (\<lambda>row. row \<in> set (concat (rows # pages))) u t'"
    by (rule batch_mono [OF Cons.IH [OF u(2)]]) simp
  ultimately show ?case by (rule batch_trans)
qed (simp add: batch_refl)

lemma batch_execute: "execute_values upd rows t = Some t' \<Longrightarrow> batch (\<lambda>row. row \<in> set rows) t t'"
  unfolding execute_values_def using batch_pages [of "statement_pages rows"] by (simp add: concat_statement_pages)

end


interpretation cpu: column_update cpu_columns
  "\<lambda>m. (mt_region m, mt_net_in m, mt_net_out m)"
  "\<lambda>m. (mt_type m, mt_name m, mt_state m, mt_cpu_avg m, mt_cpu_max m)"
  by unfold_locales (simp_all add: cpu_columns_def metric_key_def metric_fits_def)

section \<open>What a collection stores\<close>













section \<open>The exit code\<close>

definition listed :: "cw_api \<Rightarrow> string \<Rightarrow> bool" where
  "listed api region = (\<not> isl (get_ec2_instances api region))"

lemma run_fails: "isl (collector_run api completed db_ready today region t) \<longleftrightarrow> \<not> listed api region"
  by (cases "get_ec2_instances api region") (simp_all add: collector_run_def collect_all_metrics_def listed_def)

lemma loop_failed:
  "fst (region_loop api completed vars_set db_ready today regions failed t) =
     (if list_all (constructed api vars_set) regions
      then Some (failed + length (filter (\<lambda>r. \<not> listed api r) regions)) else None)"
proof (induction regions arbitrary: failed t)
  case (Cons region regions)
  then show ?case
    using run_fails [of api completed db_ready today region t]
    by (cases "collector_run api completed db_ready today region t") auto
qed simp

text \<open>
  C37: the CloudWatch collector ends with exit code 0 exactly when the clients of every region could
  be made and some region listed its instances; a client that cannot be made for one region ends the
  run in failure, and a failure to store the figures does not show.
\<close>

theorem collector_exit_code:
  "fst (cloudwatch_main api completed vars_set db_ready today regions t) = 0
     \<longleftrightarrow> list_all (constructed api vars_set) regions \<and> list_ex (listed api) regions"
proof -
  have "length (filter (\<lambda>r. \<not> listed api r) regions) + length (filter (listed api) regions) = length regions"
    using sum_length_filter_compl [of "\<lambda>r. \<not> listed api r" regions] by simp
  then have "length (filter (\<lambda>r. \<not> listed api r) regions) = length regions \<longleftrightarrow> \<not> list_ex (listed api) regions"
    using list_ex_iff [of "listed api" regions] filter_empty_conv [of "listed api" regions] by (cases "filter (listed api) regions") auto
  then show ?thesis
    using loop_failed [of api completed vars_set db_ready today regions 0 t]
    by (auto simp: cloudwatch_main_def split: prod.splits option.splits if_splits)
qed

section \<open>Steampipe\<close>

text \<open>Rows come only from a program that ran to its end and wrote rows.\<close>

lemma run_query_rows:
  "run_query sp sql timeout = Inr rows \<longleftrightarrow>
     sp_which sp \<and> (\<exists>out err p. sp_run sp [''steampipe'', ''query'', ''--output'', ''json'', ''--'', sql] timeout = Completed 0 out err
       \<and> sp_loads sp out = Some p \<and> payload_rows p = Inr rows)"
  by (auto simp: run_query_def is_available_def split: program_result.splits option.splits)

text \<open>The Steampipe collector leaves the region and the network figures of every stored row.\<close>

lemma steampipe_keeps_network:
  assumes "steampipe_metrics_main sp db_ready t = (code, t')"
  shows "(metric_table_ok t \<longrightarrow> metric_table_ok t')
    \<and> (\<forall>k m. metric_at k t = Some m \<longrightarrow> (\<exists>m'. metric_at k t' = Some m'
          \<and> (mt_region m', mt_net_in m', mt_net_out m') = (mt_region m, mt_net_in m, mt_net_out m)))"
proof (cases "t' = t")
  case False
  then obtain rows where "execute_values cpu_columns (rows_to_records rows) t = Some t'"
    using assms by (auto simp: steampipe_metrics_main_def split: if_splits sum.splits option.splits)
  then show ?thesis using cpu.batch_execute unfolding cpu.batch_def by blast
qed auto

section \<open>From the readings to the detectors\<close>

text \<open>Rounding keeps the order of the three figures of an instance.\<close>

lemma mean_between:
  assumes "xs \<noteq> []" "list_all (\<lambda>x. lo \<le> x \<and> x \<le> hi) xs"
  shows "lo \<le> mean xs" "mean xs \<le> hi"
proof -
  have "of_nat (length xs) * lo \<le> sum_list xs \<and> sum_list xs \<le> of_nat (length xs) * hi"
    using assms(2) by (induction xs) (auto simp: algebra_simps)
  then show "lo \<le> mean xs" "mean xs \<le> hi"
    using assms(1) by (simp_all add: mean_def field_simps)
qed

lemma fold_max_ge: "(x :: rat) \<le> fold max xs x" "y \<in> set xs \<Longrightarrow> y \<le> fold max xs x"
proof -
  show ge: "x \<le> fold max xs x" for x :: rat and xs
  proof (induction xs arbitrary: x)
    case (Cons z xs)
    show ?case using Cons.IH [of "max z x"] by simp
  qed simp
  show "y \<in> set xs \<Longrightarrow> y \<le> fold max xs x"
  proof (induction xs arbitrary: x)
    case (Cons z xs)
    then show ?case using ge [of "max z x" xs] by auto
  qed simp
qed

lemma fold_min_le: "fold min xs x \<le> (x :: rat)" "y \<in> set xs \<Longrightarrow> fold min xs x \<le> y"
proof -
  show le: "fold min xs x \<le> x" for x :: rat and xs
  proof (induction xs arbitrary: x)
    case (Cons z xs)
    show ?case using Cons.IH [of "min z x"] by simp
  qed simp
  show "y \<in> set xs \<Longrightarrow> fold min xs x \<le> y"
  proof (induction xs arbitrary: x)
    case (Cons z xs)
    then show ?case using le [of xs "min z x"] by auto
  qed simp
qed

lemma cpu_metrics_ordered:
  assumes "get_cpu_utilization api region i days = Some c"
    and "cw_statistics api region ''CPUUtilization'' i days = Inr dps"
    and "list_all (\<lambda>d. dp_minimum d \<le> dp_average d \<and> dp_average d \<le> dp_maximum d) dps"
  shows "cm_min c \<le> cm_avg c \<and> cm_avg c \<le> cm_max c"
proof -
  obtain d ds where dps: "dps = d # ds" using assms(1,2) by (cases dps) (auto simp: get_cpu_utilization_def)
  let ?lo = "fold min (map dp_minimum ds) (dp_minimum d)" and ?hi = "fold max (map dp_maximum ds) (dp_maximum d)"
  have "list_all (\<lambda>x. ?lo \<le> x \<and> x \<le> ?hi) (map dp_average dps)"
    unfolding list_all_iff dps
  proof (rule ballI)
    fix v assume "v \<in> set (map dp_average (d # ds))"
    then obtain e where e: "e = d \<or> e \<in> set ds" "v = dp_average e" by auto
    have "dp_minimum e \<le> v" "v \<le> dp_maximum e" using assms(3) e by (auto simp: dps list_all_iff)
    moreover have "?lo \<le> dp_minimum e" using e(1) fold_min_le(1) fold_min_le(2) [of "dp_minimum e"] by auto
    moreover have "dp_maximum e \<le> ?hi" using e(1) fold_max_ge(1) fold_max_ge(2) [of "dp_maximum e"] by auto
    ultimately show "?lo \<le> v \<and> v \<le> ?hi" by linarith
  qed
  then have "?lo \<le> mean (map dp_average dps)" "mean (map dp_average dps) \<le> ?hi"
    using mean_between [of "map dp_average dps" ?lo ?hi] dps by simp_all
  then show ?thesis
    using assms(1,2) dps by (auto simp: get_cpu_utilization_def intro: py_round_mono)
qed

text \<open>An instance without any CPU figure in the window is in no group of the idle detector.\<close>

lemma unmeasured_is_not_idle:
  assumes "list_all (\<lambda>m. mt_instance m = i \<longrightarrow> mt_date m < e_today env - days \<or> mt_cpu_avg m = None) metrics"
  shows "i \<notin> ig_instance ` set (idle_groups env metrics threshold days)"
  using assms by (auto simp: idle_groups_def Let_def list_all_iff group_of_def)

end
