(* ===== verification/Spec2Isabelle.thy ===== *)
theory Spec2Isabelle
  imports FinopsAudit Policies Pipeline CollectLock Savings RequestGuard AwsSetup Cleanup ResourceViews
    TerraformPr Progress Metrics
begin

text \<open>
  Verification library of wasteless, the tool that finds unused AWS resources and removes them.

  The program. Detectors write waste rows and recommendations to PostgreSQL. The user approves,
  rejects or cancels recommendations in the web interface (\<open>ui/\<close>); an approval is executed
  at once, after a grace period, by a Terraform pull request, or by hand. Execution goes through
  the remediators (\<open>src/remediators/\<close>), which consult the safeguards
  (\<open>src/core/safeguards.py\<close>) and keep an audit trail, or directly to EC2. Background jobs
  (\<open>ui/jobs.py\<close>) reconcile the database with AWS and GitHub, execute due approvals and stop
  and start instances on a schedule. The settings pages change \<open>config/remediation.yaml\<close>,
  which every execution reads. Before figures are shown, \<open>src/core/finops_invariants/\<close>
  validates them. The setup wizard tests and stores the connection to AWS, which every client of AWS
  uses; a collection job stores what Cost Explorer bills, from which the saving of a stop is measured,
  the estimates are capped and the cost report is made. A middleware refuses writes of other sites.

  The state. \<open>Store.world\<close> holds the four tables that matter (waste, recommendations,
  \<open>actions_log\<close>, rollback snapshots) and the measured savings, the advisory lock and the history: every
  call that changes AWS and every audit row, in order, so that ``logged before written'' is a
  statement on that list. Tables are keyed association lists; \<open>locale keyed_table\<close> states their
  laws once. The answers of AWS, GitHub, the clock and PostgreSQL's date functions are arguments
  (\<open>env\<close>, \<open>ec2_api\<close>, \<open>aws_reads\<close>, \<open>sync_api\<close>, \<open>app\<close>): any answer, an exception
  included, and free to depend on the history where it is read more than once. The configuration
  is the parsed YAML document, a value of type \<open>json\<close>, so that a section that is \<open>null\<close> or of
  another type raises in the model where it raises in the code. Exceptions are values
  (\<open>'e pyexc + 'a\<close>).

  Theories and sources.
  \<^item> \<open>Prelude\<close>: Python values, exceptions, dictionaries, rounding, text.
  \<^item> \<open>FinopsBase\<close>, \<open>FinopsRisk\<close>, \<open>FinopsCost\<close>, \<open>FinopsClaims\<close>, \<open>FinopsAudit\<close>: the
    package \<open>src/core/finops_invariants/\<close>, every function. Lemmas: what each validator accepts
    and refuses; the deduplicated total equals its mathematical definition; what a dataset
    without violations guarantees; where the audit raises.
  \<^item> \<open>Store\<close>: the tables and the history.
  \<^item> \<open>Safeguards\<close>: \<open>src/core/safeguards.py\<close>; \<open>validate_all\<close> decides as the conjunction
    of the checks on a well-formed policy, and how ill-formed policies fail.
  \<^item> \<open>ActionsLog\<close>, \<open>Ec2Remediator\<close>, \<open>ResourceRemediator\<close>: the remediators. A resource
    remediator is a record of hooks (the methods a subclass overrides); the shared flow is proved
    once and instantiated for the seven subclasses.
  \<^item> \<open>Actions\<close>, \<open>Approvals\<close>: \<open>POST /api/actions\<close> of \<open>ui/routes/recommendations.py\<close>, the
    action registry, the proxy and the pull-request routing; when an approval may write to AWS.
  \<^item> \<open>Jobs\<close>, \<open>Lifecycle\<close>, \<open>Reconcile\<close>: the jobs of \<open>ui/jobs.py\<close> and
    \<open>ui/utils/aws_sync.py\<close>; the state machine of a recommendation, which the operations
    simulate on the status column; the evidence that resolving a recommendation rests on.
    \<open>Progress\<close>: a due approval does not wait forever.
  \<^item> \<open>Upsert\<close>, \<open>Detection\<close>, \<open>DetectionFacts\<close>, \<open>WasteHistory\<close>: the upserts that all detectors
    share, the provenance of prices, the scan of the regions, the photograph of the waste
    (\<open>src/core/pricing.py\<close>, \<open>region_scan.py\<close>, \<open>snapshots.py\<close>, \<open>src/detectors/steampipe_base.py\<close>).
    Lemmas: what a run leaves in both tables, and that it never touches a decided row.
  \<^item> \<open>SteampipeDetectors\<close>, \<open>AwsDetectors\<close>, \<open>Ec2Idle\<close>: the detectors of \<open>src/detectors/\<close>,
    their prices, confidence and texts. The queries of Steampipe and the describe calls are arguments.
  \<^item> \<open>Collection\<close>, \<open>ScanFacts\<close>, \<open>Pipeline\<close>, \<open>CollectLock\<close>: \<open>src/run_collection.py\<close>, the run of
    all steps and its lock. The lock is a machine in which processes take turns, and one of single
    system calls: the first keeps it exclusive, the second does not.
  \<^item> \<open>Metrics\<close>: \<open>src/collectors/\<close>: the collector of CloudWatch metrics that a collection runs
    first, the one through Steampipe, and the calls of that program. One locale states what an upsert
    of columns keeps and writes, and is interpreted for both. Lemmas: what a collection leaves in
    the table, when it succeeds.
  \<^item> \<open>Insights\<close>: the part of \<open>src/core/llm.py\<close> that writes insights to recommendations.
  \<^item> \<open>CloudCosts\<close>: the collection of the bill, in \<open>ui/jobs.py\<close> and \<open>src/aws_collector.py\<close>; when the
    page loop ends and how often it is billed.
  \<^item> \<open>Savings\<close>: \<open>src/trackers/savings_tracker.py\<close> and its job; what a recorded saving rests on.
  \<^item> \<open>Calendar\<close>, \<open>CostReport\<close>: dates as day numbers, \<open>ui/utils/cost_report.py\<close> and
    \<open>ui/utils/budget.py\<close>. Lemmas: the calendar is consistent, the periods tile it, the sums agree.
  \<^item> \<open>PageFigures\<close>, \<open>TodoChecks\<close>, \<open>ResourceViews\<close>: the figures of the recommendations page and of its
    chat, which are the same; what confirms that a human has deleted a resource; the history and the
    details of a resource. All in \<open>ui/routes/recommendations.py\<close>.
  \<^item> \<open>TerraformFiles\<close>, \<open>TerraformPr\<close>: \<open>src/remediators/terraform_mapper.py\<close>,
    \<open>terraform_editor.py\<close> and \<open>terraform_pr.py\<close>: from a resource to its block, to the text without it,
    to the pull request. The programs (git, gh, terraform) are parameters.
  \<^item> \<open>EnvFiles\<close>, \<open>AwsClients\<close>, \<open>AwsSetup\<close>: \<open>ui/utils/env_files.py\<close>,
    \<open>src/core/aws_clients.py\<close> and \<open>ui/routes/setup.py\<close>: where the credentials are, which role a client
    has, and what saving and disconnecting change. Lemmas on the lines of a file and on the cache.
  \<^item> \<open>RequestGuard\<close>: \<open>ui/utils/security.py\<close>.
  \<^item> \<open>Cleanup\<close>: \<open>src/utils/cleanup_orphaned_recommendations.py\<close>.
  \<^item> \<open>ConfigManager\<close>, \<open>Settings\<close>, \<open>Policies\<close>: \<open>ui/utils/config_manager.py\<close>, the
    settings routes and \<open>ui/utils/policies.py\<close>; a change of the settings is refused or reaches
    the readers of the document.

  Conventions. Integers of Python are unbounded, as \<open>int\<close>; only the CRC of the lock key is a
  32-bit word. Floats are exact rationals: binary rounding, infinities and NaN are outside the
  model. Lower-casing and character classes are those of ASCII, and a dash that is not ASCII in a
  text is written as an ASCII one. Messages that no caller reads are abbreviated to a constructor.
  Dates are day numbers without the limits of Python's years (1 to 9999). Numbers in the metadata of
  a waste row are numbers of the document, so a cast of digits stored as text does not occur.
  Loops are structural recursion over the list they walk, so that no fuel is needed, with one
  exception: the pages of Cost Explorer follow the tokens that it hands out, which may go on forever.
  That loop is a partial function whose \<open>None\<close> means that it never returns.

  Not modelled. HTML pages, the text of reports, chat and language-model prose (display only); the
  read-only dashboards; connection pools, logging and notifications (input
  and output around libraries). The difference of the two versions of a Terraform file that a pull
  request shows is kept as the two versions. File locking, permissions, backups and YAML text of the
  configuration are input and output: a save writes the document or leaves it.
\<close>

end
